(* ===== verification/Prelude.thy ===== *)
theory Prelude
  imports Main "HOL-Library.Word"
begin

text \<open>
  Shared vocabulary of the development: the fixed-width integer types of the Go sources,
  Go's error values and (value, error) results, big-endian integers as
  \<open>encoding/binary\<close> reads and writes them, and the generic lemmas the components share.

  A Go \<open>int\<close> is modelled as \<open>int\<close> (or \<open>nat\<close> where the code keeps it non-negative);
  \<open>byte\<close>, \<open>uint16\<close>, \<open>uint32\<close> and \<open>uint64\<close> are words of their width.
\<close>

unbundle bit_operations_syntax

section \<open>Types\<close>

type_synonym byte = "8 word"
type_synonym u16 = "16 word"
type_synonym u32 = "32 word"
type_synonym u64 = "64 word"

text \<open>
  A Go \<open>error\<close>: the sentinel values the code compares against, an error made by
  \<open>fmt.Errorf\<close> (its format string and its numeric operands), and an error that wraps
  another one with \<open>%w\<close>.
\<close>

datatype goerr =
    ErrEOF
  | ErrShortRead
  | ErrMsg string "int list"
  | ErrWrap string goerr

text \<open>
  A Go call \<open>v, err := f()\<close> on a mutable receiver is a pair: the error or the value, and
  the receiver after the call. \<open>or_zero d\<close> is the idiom \<open>v, _ := f()\<close>: on an error the
  value is the zero value \<open>d\<close> that the callee returned beside it.
\<close>

type_synonym ('a, 's) result = "(goerr + 'a) \<times> 's"

fun or_zero :: "'a \<Rightarrow> ('a, 's) result \<Rightarrow> 'a \<times> 's" where
  "or_zero d (Inl e, s) = (d, s)"
| "or_zero d (Inr v, s) = (v, s)"

section \<open>Collections of rules\<close>

named_theorems wire_simps \<open>evaluation of buffer reads and writes\<close>
named_theorems wf_intros \<open>well-formedness of component states\<close>

section \<open>Big-endian integers (encoding/binary.BigEndian)\<close>

definition be16 :: "byte \<Rightarrow> byte \<Rightarrow> u16" where
  "be16 b0 b1 = (push_bit 8 (ucast b0)) OR ucast b1"

definition be32 :: "byte \<Rightarrow> byte \<Rightarrow> byte \<Rightarrow> byte \<Rightarrow> u32" where
  "be32 b0 b1 b2 b3 =
     push_bit 24 (ucast b0) OR push_bit 16 (ucast b1) OR push_bit 8 (ucast b2) OR ucast b3"

definition be64 :: "byte \<Rightarrow> byte \<Rightarrow> byte \<Rightarrow> byte \<Rightarrow> byte \<Rightarrow> byte \<Rightarrow> byte \<Rightarrow> byte \<Rightarrow> u64" where
  "be64 b0 b1 b2 b3 b4 b5 b6 b7 =
     push_bit 32 (ucast (be32 b0 b1 b2 b3)) OR ucast (be32 b4 b5 b6 b7)"

definition put16 :: "u16 \<Rightarrow> byte list" where
  "put16 v = [ucast (drop_bit 8 v), ucast v]"

definition put32 :: "u32 \<Rightarrow> byte list" where
  "put32 v = [ucast (drop_bit 24 v), ucast (drop_bit 16 v), ucast (drop_bit 8 v), ucast v]"

definition put64 :: "u64 \<Rightarrow> byte list" where
  "put64 v = put32 (ucast (drop_bit 32 v)) @ put32 (ucast v)"

lemma length_put16 [simp]: "length (put16 v) = 2"
  by (simp add: put16_def)

lemma length_put32 [simp]: "length (put32 v) = 4"
  by (simp add: put32_def)

lemma length_put64 [simp]: "length (put64 v) = 8"
  by (simp add: put64_def)

lemma be16_put16 [simp]: "be16 (ucast (drop_bit 8 v)) (ucast v) = v"
  unfolding be16_def by (rule bit_word_eqI) (auto simp: bit_simps)

lemma be32_put32 [simp]:
  "be32 (ucast (drop_bit 24 v)) (ucast (drop_bit 16 v)) (ucast (drop_bit 8 v)) (ucast v) = v"
proof (rule bit_word_eqI)
  fix n :: nat
  assume "n < LENGTH(32)"
  then consider "n < 8" | "8 \<le> n" "n < 16" | "16 \<le> n" "n < 24" | "24 \<le> n" "n < 32"
    by fastforce
  then show "bit (be32 (ucast (drop_bit 24 v)) (ucast (drop_bit 16 v)) (ucast (drop_bit 8 v))
      (ucast v)) n = bit v n"
    by cases (auto simp: be32_def bit_simps)
qed

lemma byte_bit_beyond [simp]: "8 \<le> n \<Longrightarrow> \<not> bit (b :: byte) n"
  by (auto dest: bit_imp_le_length)

lemma put16_be16 [simp]: "put16 (be16 a b) = [a, b]"
  unfolding put16_def be16_def
  by (auto intro!: bit_word_eqI simp: bit_simps)

lemma put32_be32 [simp]: "put32 (be32 a b c d) = [a, b, c, d]"
  unfolding put32_def be32_def
  by (auto intro!: bit_word_eqI simp: bit_simps)

lemma put16_conv: "\<exists>a b. put16 v = [a, b] \<and> be16 a b = v"
  by (simp add: put16_def)

lemma put32_conv: "\<exists>a b c d. put32 v = [a, b, c, d] \<and> be32 a b c d = v"
  by (simp add: put32_def)

lemma put64_conv:
  "\<exists>a b c d e f g h. put64 v = [a, b, c, d, e, f, g, h] \<and> be64 a b c d e f g h = v"
proof -
  have "push_bit 32 (ucast (ucast (drop_bit 32 v) :: u32)) OR ucast (ucast v :: u32) = v"
    by (rule bit_word_eqI) (auto simp: bit_simps)
  then show ?thesis
    by (simp add: put64_def put32_def be64_def)
qed

section \<open>Truncation to a byte\<close>

lemma mod_word_byte: "(x :: int) mod 4294967296 mod 256 = x mod 256"
  by (rule mod_mod_cancel) simp

lemma byte_of_u32_add: "ucast (a + b :: u32) = (ucast a + ucast b :: byte)"
  apply transfer
  apply (simp add: take_bit_eq_mod mod_word_byte)
  apply (rule mod_add_cong)
   apply (simp_all only: mod_word_byte)
  done

lemma byte_of_u32_diff: "ucast (a - b :: u32) = (ucast a - ucast b :: byte)"
  apply transfer
  apply (simp add: take_bit_eq_mod mod_word_byte)
  apply (rule mod_diff_cong)
   apply (simp_all only: mod_word_byte)
  done

lemma byte_of_u32_of_byte: "ucast (ucast (x :: byte) :: u32) = x"
  by (rule bit_word_eqI) (auto simp: bit_simps)

lemma byte_and_ff: "(x :: byte) AND 0xFF = x"
proof -
  have "(0xFF :: byte) = - 1" by simp
  then show ?thesis by (simp only: and.right_neutral)
qed

section \<open>Lists\<close>

lemma append_prefix_split:
  "xs @ ys = zs @ ts \<Longrightarrow> length zs \<le> length xs \<Longrightarrow> \<exists>r. xs = zs @ r \<and> r @ ys = ts"
  by (auto simp: append_eq_append_conv2)

end
