(* ===== verification/WireBuffer.thy ===== *)
theory WireBuffer
  imports Prelude
begin

text \<open>
  The growable byte buffer of \<open>proto/v235/buffer.go\<close> and the string helpers of
  \<open>proto/v235/strings.go\<close>.

  A Go slice is its backing array and its length: \<open>backing\<close> is the whole array (its length is
  \<open>cap(b.data)\<close>), \<open>dlen\<close> is \<open>len(b.data)\<close>. Growing within the capacity re-exposes whatever the
  array held, growing past it copies into a fresh zeroed array; that no write ever leaves such a
  byte visible is part of what is proved (\<open>write_contents\<close>).
\<close>

section \<open>The buffer and its constructors\<close>

record Buffer =
  backing :: "byte list"
  dlen :: nat
  rpos :: nat
  wpos :: nat
  bitMode :: bool
  bitPos :: nat

definition NewBuffer :: "nat \<Rightarrow> Buffer" where
  "NewBuffer initialCap =
     \<lparr>backing = replicate initialCap 0, dlen = 0, rpos = 0, wpos = 0, bitMode = False, bitPos = 0\<rparr>"

definition WrapBuffer :: "byte list \<Rightarrow> Buffer" where
  "WrapBuffer p =
     \<lparr>backing = p, dlen = length p, rpos = 0, wpos = length p, bitMode = False, bitPos = 0\<rparr>"

definition Bytes :: "Buffer \<Rightarrow> byte list" where
  "Bytes b = drop (rpos b) (take (wpos b) (backing b))"

definition Len :: "Buffer \<Rightarrow> nat" where
  "Len b = wpos b - rpos b"

definition Cap :: "Buffer \<Rightarrow> nat" where
  "Cap b = length (backing b)"

definition Reset :: "Buffer \<Rightarrow> Buffer" where
  "Reset b = b\<lparr>dlen := 0, rpos := 0, wpos := 0, bitMode := False, bitPos := 0\<rparr>"

section \<open>Writes\<close>

definition ensure :: "nat \<Rightarrow> Buffer \<Rightarrow> Buffer" where
  "ensure n b =
     (let need = wpos b + n in
      if need \<le> Cap b then b\<lparr>dlen := need\<rparr>
      else
        let newCap = (if Cap b * 2 < need then need else Cap b * 2);
            grown = take (wpos b) (backing b) @ replicate (newCap - wpos b) 0
        in b\<lparr>backing := grown, dlen := need\<rparr>)"

text \<open>\<open>copy(b.data[b.wpos:], src)\<close> after \<open>ensure\<close>, and the advance of the write position.\<close>

definition copy_at :: "nat \<Rightarrow> byte list \<Rightarrow> byte list \<Rightarrow> byte list" where
  "copy_at i src xs = take i xs @ src @ drop (i + length src) xs"

definition WriteBytes :: "byte list \<Rightarrow> Buffer \<Rightarrow> Buffer" where
  "WriteBytes src b =
     (let b1 = ensure (length src) b
      in b1\<lparr>backing := copy_at (wpos b1) src (backing b1), wpos := wpos b1 + length src\<rparr>)"

definition WriteByte :: "byte \<Rightarrow> Buffer \<Rightarrow> Buffer" where
  "WriteByte v b =
     (let b1 = ensure 1 b
      in b1\<lparr>backing := (backing b1)[wpos b1 := v], wpos := wpos b1 + 1\<rparr>)"

definition WriteUint16 :: "u16 \<Rightarrow> Buffer \<Rightarrow> Buffer" where
  "WriteUint16 v b =
     (let b1 = ensure 2 b
      in b1\<lparr>backing := copy_at (wpos b1) (put16 v) (backing b1), wpos := wpos b1 + 2\<rparr>)"

definition WriteUint32 :: "u32 \<Rightarrow> Buffer \<Rightarrow> Buffer" where
  "WriteUint32 v b =
     (let b1 = ensure 4 b
      in b1\<lparr>backing := copy_at (wpos b1) (put32 v) (backing b1), wpos := wpos b1 + 4\<rparr>)"

definition WriteUint64 :: "u64 \<Rightarrow> Buffer \<Rightarrow> Buffer" where
  "WriteUint64 v b =
     (let b1 = ensure 8 b
      in b1\<lparr>backing := copy_at (wpos b1) (put64 v) (backing b1), wpos := wpos b1 + 8\<rparr>)"

text \<open>An \<open>int16\<close> or \<open>int32\<close> has the bits of the unsigned word it is converted to.\<close>

definition WriteInt16 :: "u16 \<Rightarrow> Buffer \<Rightarrow> Buffer" where
  "WriteInt16 v b = WriteUint16 v b"

definition WriteInt32 :: "u32 \<Rightarrow> Buffer \<Rightarrow> Buffer" where
  "WriteInt32 v b = WriteUint32 v b"

definition WriteStringTerm :: "byte list \<Rightarrow> byte \<Rightarrow> Buffer \<Rightarrow> Buffer" where
  "WriteStringTerm s t b = WriteByte t (WriteBytes s b)"

definition WriteSmart08_16 :: "int \<Rightarrow> Buffer \<Rightarrow> Buffer" where
  "WriteSmart08_16 v b =
     (if v < 128 then WriteByte (of_int v) b else WriteUint16 (of_int (v + 32768)) b)"

definition WriteZeroPaddedString :: "byte list \<Rightarrow> Buffer \<Rightarrow> Buffer" where
  "WriteZeroPaddedString s b = WriteByte 0 (WriteBytes s (WriteByte 0 b))"

section \<open>Reads\<close>

definition ReadByte :: "Buffer \<Rightarrow> (byte, Buffer) result" where
  "ReadByte b =
     (if rpos b \<ge> wpos b then (Inl ErrEOF, b)
      else (Inr (backing b ! rpos b), b\<lparr>rpos := rpos b + 1\<rparr>))"

definition short_read :: "nat \<Rightarrow> Buffer \<Rightarrow> goerr" where
  "short_read n b = ErrMsg ''buffer: short read (need %d, have %d)'' [int n, int (Len b)]"

definition ReadBytes :: "nat \<Rightarrow> Buffer \<Rightarrow> (byte list, Buffer) result" where
  "ReadBytes n b =
     (if rpos b + n > wpos b then (Inl (short_read n b), b)
      else (Inr (take n (drop (rpos b) (backing b))), b\<lparr>rpos := rpos b + n\<rparr>))"

definition ReadUint16 :: "Buffer \<Rightarrow> (u16, Buffer) result" where
  "ReadUint16 b =
     (if rpos b + 2 > wpos b then (Inl (short_read 2 b), b)
      else
        let at = (\<lambda>i. backing b ! (rpos b + i))
        in (Inr (be16 (at 0) (at 1)), b\<lparr>rpos := rpos b + 2\<rparr>))"

definition ReadUint32 :: "Buffer \<Rightarrow> (u32, Buffer) result" where
  "ReadUint32 b =
     (if rpos b + 4 > wpos b then (Inl (short_read 4 b), b)
      else
        let at = (\<lambda>i. backing b ! (rpos b + i))
        in (Inr (be32 (at 0) (at 1) (at 2) (at 3)), b\<lparr>rpos := rpos b + 4\<rparr>))"

definition ReadUint64 :: "Buffer \<Rightarrow> (u64, Buffer) result" where
  "ReadUint64 b =
     (if rpos b + 8 > wpos b then (Inl (short_read 8 b), b)
      else
        let at = (\<lambda>i. backing b ! (rpos b + i))
        in (Inr (be64 (at 0) (at 1) (at 2) (at 3) (at 4) (at 5) (at 6) (at 7)),
            b\<lparr>rpos := rpos b + 8\<rparr>))"

text \<open>The signed wrappers return the word read as two's complement.\<close>

definition ReadInt16 :: "Buffer \<Rightarrow> (int, Buffer) result" where
  "ReadInt16 b =
     (case ReadUint16 b of (Inl e, b') \<Rightarrow> (Inl e, b') | (Inr v, b') \<Rightarrow> (Inr (sint v), b'))"

definition ReadInt32 :: "Buffer \<Rightarrow> (int, Buffer) result" where
  "ReadInt32 b =
     (case ReadUint32 b of (Inl e, b') \<Rightarrow> (Inl e, b') | (Inr v, b') \<Rightarrow> (Inr (sint v), b'))"

definition RemainingBytes :: "Buffer \<Rightarrow> byte list" where
  "RemainingBytes b = drop (rpos b) (take (wpos b) (backing b))"

text \<open>The scan of \<open>ReadStringTerm\<close>: the first index in \<open>[i, wpos)\<close> that holds the terminator.\<close>

function find_term :: "byte list \<Rightarrow> byte \<Rightarrow> nat \<Rightarrow> nat \<Rightarrow> nat option" where
  "find_term xs t i w =
     (if i < w then (if xs ! i = t then Some i else find_term xs t (i + 1) w) else None)"
  by pat_completeness auto
termination
  by (relation "measure (\<lambda>(xs, t, i, w). w - i)") auto

declare find_term.simps [simp del]

definition ReadStringTerm :: "byte \<Rightarrow> Buffer \<Rightarrow> (byte list, Buffer) result" where
  "ReadStringTerm t b =
     (case find_term (backing b) t (rpos b) (wpos b) of
        Some i \<Rightarrow> (Inr (take (i - rpos b) (drop (rpos b) (backing b))), b\<lparr>rpos := i + 1\<rparr>)
      | None \<Rightarrow> (Inl (ErrMsg ''buffer: unterminated string (terminator 0x%02x not found)'' [uint t]), b))"

definition ReadZeroQuotedString :: "Buffer \<Rightarrow> (byte list, Buffer) result" where
  "ReadZeroQuotedString b =
     (let b1 = (if Len b > 0 \<and> backing b ! rpos b = 0 then b\<lparr>rpos := rpos b + 1\<rparr> else b)
      in case ReadStringTerm 0 b1 of
           (Inl e, b2) \<Rightarrow> (Inl (ErrWrap ''read zero-quoted string'' e), b2)
         | (Inr s, b2) \<Rightarrow> (Inr s, b2))"

definition readUnsignedShortIntSmart :: "Buffer \<Rightarrow> int \<times> Buffer" where
  "readUnsignedShortIntSmart b =
     (if Len b < 2 then (0, b)
      else
        let first = backing b ! rpos b in
        if first AND 0x80 = 0 then
          (let (v, b') = or_zero 0 (ReadUint16 b) in (uint v, b'))
        else if Len b < 4 then (0, b)
        else (let (v, b') = or_zero 0 (ReadUint32 b) in (uint (v AND 0x7FFFFFFF), b')))"

definition ReadSmart08_16 :: "Buffer \<Rightarrow> (int, Buffer) result" where
  "ReadSmart08_16 b =
     (if Len b < 1 then (Inl (ErrMsg ''smart08_16: empty'' []), b)
      else
        let first = uint (backing b ! rpos b) in
        if first < 128 then (Inr first, b\<lparr>rpos := rpos b + 1\<rparr>)
        else
          case ReadUint16 b of
            (Inl e, b') \<Rightarrow> (Inl e, b')
          | (Inr v, b') \<Rightarrow> (Inr (uint v - 32768), b'))"

section \<open>Well-formed buffers\<close>

text \<open>
  The invariant of every buffer the code builds: the slice ends at the write position, inside the
  backing array, and the read position has not passed it. It is what keeps the index expressions
  above inside the slice.
\<close>

definition buf_wf :: "Buffer \<Rightarrow> bool" where
  "buf_wf b \<longleftrightarrow> dlen b = wpos b \<and> wpos b \<le> length (backing b) \<and> rpos b \<le> wpos b"

lemma buf_wf_NewBuffer [wf_intros, simp]: "buf_wf (NewBuffer n)"
  by (simp add: buf_wf_def NewBuffer_def)

lemma buf_wf_WrapBuffer [wf_intros, simp]: "buf_wf (WrapBuffer p)"
  by (simp add: buf_wf_def WrapBuffer_def)

lemma buf_wf_Reset [wf_intros, simp]: "buf_wf (Reset b)"
  by (simp add: buf_wf_def Reset_def)

lemma Bytes_Reset [simp]: "Bytes (Reset b) = []"
  by (simp add: Bytes_def Reset_def)

lemma Bytes_NewBuffer [simp]: "Bytes (NewBuffer n) = []"
  by (simp add: Bytes_def NewBuffer_def)

lemma Bytes_WrapBuffer [simp]: "Bytes (WrapBuffer p) = p"
  by (simp add: Bytes_def WrapBuffer_def)

lemma length_Bytes: "buf_wf b \<Longrightarrow> length (Bytes b) = Len b"
  by (simp add: buf_wf_def Bytes_def Len_def)

text \<open>
  What \<open>ensure\<close> gives a writer: room for \<open>n\<close> bytes inside the slice, and the bytes written so far
  untouched, whether the array was re-sliced or replaced.
\<close>

lemma ensure_room:
  assumes "buf_wf b"
  shows "wpos (ensure n b) = wpos b" "rpos (ensure n b) = rpos b"
    "dlen (ensure n b) = wpos b + n" "wpos b + n \<le> length (backing (ensure n b))"
    "take (wpos b) (backing (ensure n b)) = take (wpos b) (backing b)"
    "bitMode (ensure n b) = bitMode b" "bitPos (ensure n b) = bitPos b"
  using assms by (auto simp: ensure_def buf_wf_def Cap_def Let_def)

lemma WriteBytes_wf [wf_intros, simp]:
  assumes "buf_wf b" shows "buf_wf (WriteBytes src b)"
  using assms ensure_room [OF assms, of "length src"]
  by (simp add: WriteBytes_def Let_def buf_wf_def copy_at_def)

lemma write_contents:
  assumes "buf_wf b"
  shows "Bytes (WriteBytes src b) = Bytes b @ src"
proof -
  note r = ensure_room [OF assms, of "length src"]
  from assms have le: "rpos b \<le> wpos b" "wpos b \<le> length (backing b)"
    by (simp_all add: buf_wf_def)
  from r le show ?thesis
    by (simp add: WriteBytes_def Let_def Bytes_def copy_at_def min_def)
qed

lemma list_update_as_copy: "i < length xs \<Longrightarrow> xs[i := v] = copy_at i [v] xs"
  by (simp add: copy_at_def upd_conv_take_nth_drop)

lemma WriteByte_as_bytes: "buf_wf b \<Longrightarrow> WriteByte v b = WriteBytes [v] b"
  using ensure_room(1,4) [of b 1]
  by (simp add: WriteByte_def WriteBytes_def Let_def list_update_as_copy)

lemma WriteUint16_as_bytes: "WriteUint16 v b = WriteBytes (put16 v) b"
  by (simp add: WriteUint16_def WriteBytes_def)

lemma WriteUint32_as_bytes: "WriteUint32 v b = WriteBytes (put32 v) b"
  by (simp add: WriteUint32_def WriteBytes_def)

lemma WriteUint64_as_bytes: "WriteUint64 v b = WriteBytes (put64 v) b"
  by (simp add: WriteUint64_def WriteBytes_def)

lemma WriteByte_wf [wf_intros, simp]: "buf_wf b \<Longrightarrow> buf_wf (WriteByte v b)"
  by (simp add: WriteByte_as_bytes)

lemma WriteUint16_wf [wf_intros, simp]: "buf_wf b \<Longrightarrow> buf_wf (WriteUint16 v b)"
  by (simp add: WriteUint16_as_bytes)

lemma WriteUint32_wf [wf_intros, simp]: "buf_wf b \<Longrightarrow> buf_wf (WriteUint32 v b)"
  by (simp add: WriteUint32_as_bytes)

lemma WriteZeroPaddedString_wf [wf_intros, simp]:
  "buf_wf b \<Longrightarrow> buf_wf (WriteZeroPaddedString s b)"
  by (simp add: WriteZeroPaddedString_def)

lemma WriteStringTerm_wf [wf_intros, simp]: "buf_wf b \<Longrightarrow> buf_wf (WriteStringTerm s t b)"
  by (simp add: WriteStringTerm_def)

lemma WriteSmart08_16_wf [wf_intros, simp]: "buf_wf b \<Longrightarrow> buf_wf (WriteSmart08_16 v b)"
  by (simp add: WriteSmart08_16_def)

text \<open>The encoding of a smart length, and the contents each writer appends.\<close>

definition smart_bytes :: "int \<Rightarrow> byte list" where
  "smart_bytes v = (if v < 128 then [of_int v] else put16 (of_int (v + 32768)))"

lemma Bytes_writes [wire_simps]:
  assumes "buf_wf b"
  shows "Bytes (WriteBytes src b) = Bytes b @ src"
    "Bytes (WriteByte v b) = Bytes b @ [v]"
    "Bytes (WriteUint16 h b) = Bytes b @ put16 h"
    "Bytes (WriteUint32 w b) = Bytes b @ put32 w"
    "Bytes (WriteUint64 l b) = Bytes b @ put64 l"
    "Bytes (WriteInt16 h b) = Bytes b @ put16 h"
    "Bytes (WriteInt32 w b) = Bytes b @ put32 w"
    "Bytes (WriteStringTerm s t b) = Bytes b @ s @ [t]"
    "Bytes (WriteZeroPaddedString s b) = Bytes b @ [0] @ s @ [0]"
    "Bytes (WriteSmart08_16 n b) = Bytes b @ smart_bytes n"
  using assms
  by (simp_all add: write_contents WriteByte_as_bytes WriteUint16_as_bytes WriteUint32_as_bytes
      WriteUint64_as_bytes WriteInt16_def WriteInt32_def WriteStringTerm_def
      WriteZeroPaddedString_def WriteSmart08_16_def smart_bytes_def)

section \<open>Reading a buffer front to back\<close>

text \<open>
  Every decoder wraps a payload and reads it front to back. \<open>reading pre post\<close> is such a buffer
  after \<open>pre\<close> has been read and with \<open>post\<close> still unread; the rules below evaluate each read on it.
\<close>

definition reading :: "byte list \<Rightarrow> byte list \<Rightarrow> Buffer" where
  "reading pre post =
     \<lparr>backing = pre @ post, dlen = length pre + length post, rpos = length pre,
      wpos = length pre + length post, bitMode = False, bitPos = 0\<rparr>"

lemma WrapBuffer_reading [wire_simps]: "WrapBuffer p = reading [] p"
  by (simp add: WrapBuffer_def reading_def)

lemma reading_wf [wf_intros, simp]: "buf_wf (reading pre post)"
  by (simp add: buf_wf_def reading_def)

lemma reading_views [wire_simps]:
  "Bytes (reading pre post) = post"
  "RemainingBytes (reading pre post) = post"
  "Len (reading pre post) = length post"
  by (simp_all add: reading_def Bytes_def RemainingBytes_def Len_def)

lemma ReadByte_reading [wire_simps]:
  "ReadByte (reading pre []) = (Inl ErrEOF, reading pre [])"
  "ReadByte (reading pre (x # xs)) = (Inr x, reading (pre @ [x]) xs)"
  by (simp_all add: ReadByte_def reading_def)

lemma ReadBytes_reading [wire_simps]:
  "n \<le> length xs \<Longrightarrow> ReadBytes n (reading pre xs) = (Inr (take n xs), reading (pre @ take n xs) (drop n xs))"
  "length xs < n \<Longrightarrow> ReadBytes n (reading pre xs) = (Inl (short_read n (reading pre xs)), reading pre xs)"
  by (auto simp: ReadBytes_def reading_def)

lemma ReadUint16_reading [wire_simps]:
  "ReadUint16 (reading pre (a # b # xs)) = (Inr (be16 a b), reading (pre @ [a, b]) xs)"
  "ReadUint16 (reading pre (put16 v @ xs)) = (Inr v, reading (pre @ put16 v) xs)"
  "ReadUint16 (reading pre (put16 v)) = (Inr v, reading (pre @ put16 v) [])"
  "length ys < 2 \<Longrightarrow> ReadUint16 (reading pre ys) = (Inl (short_read 2 (reading pre ys)), reading pre ys)"
  by (auto simp: ReadUint16_def reading_def nth_append put16_def Let_def)

lemma ReadUint32_reading [wire_simps]:
  "ReadUint32 (reading pre (a # b # c # d # xs)) =
     (Inr (be32 a b c d), reading (pre @ [a, b, c, d]) xs)"
  "ReadUint32 (reading pre (put32 v @ xs)) = (Inr v, reading (pre @ put32 v) xs)"
  "ReadUint32 (reading pre (put32 v)) = (Inr v, reading (pre @ put32 v) [])"
  "length ys < 4 \<Longrightarrow> ReadUint32 (reading pre ys) = (Inl (short_read 4 (reading pre ys)), reading pre ys)"
  by (auto simp: ReadUint32_def reading_def nth_append put32_def Let_def)

lemma find_term_reading:
  "t \<notin> set s \<Longrightarrow> find_term (pre @ s @ t # post) t (length pre) (length pre + length s + Suc n)
     = Some (length pre + length s)"
proof (induction s arbitrary: pre)
  case Nil
  then show ?case by (subst find_term.simps) simp
next
  case (Cons c s)
  from Cons.prems have "c \<noteq> t" and s: "t \<notin> set s" by auto
  moreover from Cons.IH [OF s, of "pre @ [c]"]
  have "find_term (pre @ c # s @ t # post) t (Suc (length pre))
      (Suc (length pre + length s + Suc n)) = Some (Suc (length pre + length s))"
    by simp
  ultimately show ?case by (subst find_term.simps) simp
qed

lemma find_term_none:
  "t \<notin> set post \<Longrightarrow> find_term (pre @ post) t (length pre) (length pre + length post) = None"
proof (induction post arbitrary: pre)
  case Nil
  then show ?case by (subst find_term.simps) simp
next
  case (Cons c post)
  from Cons.prems have "c \<noteq> t" and s: "t \<notin> set post" by auto
  moreover from Cons.IH [OF s, of "pre @ [c]"]
  have "find_term (pre @ c # post) t (Suc (length pre)) (Suc (length pre + length post)) = None"
    by simp
  ultimately show ?case by (subst find_term.simps) simp
qed

lemma ReadStringTerm_reading [wire_simps]:
  "t \<notin> set s \<Longrightarrow>
     ReadStringTerm t (reading pre (s @ t # xs)) = (Inr s, reading (pre @ s @ [t]) xs)"
  "t \<notin> set ys \<Longrightarrow> ReadStringTerm t (reading pre ys) =
     (Inl (ErrMsg ''buffer: unterminated string (terminator 0x%02x not found)'' [uint t]),
      reading pre ys)"
  using find_term_reading [of t s pre xs "length xs"] find_term_none [of t ys pre]
  by (simp_all add: ReadStringTerm_def reading_def add.assoc)

definition zq_bytes :: "byte list \<Rightarrow> byte list" where
  "zq_bytes s = 0 # s @ [0]"

lemma ReadZeroQuotedString_reading [wire_simps]:
  "0 \<notin> set s \<Longrightarrow>
     ReadZeroQuotedString (reading pre (zq_bytes s @ xs)) = (Inr s, reading (pre @ zq_bytes s) xs)"
  "0 \<notin> set s \<Longrightarrow>
     ReadZeroQuotedString (reading pre (zq_bytes s)) = (Inr s, reading (pre @ zq_bytes s) [])"
proof -
  have skip: "(reading pre (0 # ys))\<lparr>rpos := rpos (reading pre (0 # ys)) + 1\<rparr> = reading (pre @ [0]) ys"
    and cond: "Len (reading pre (0 # ys)) > 0 \<and>
      backing (reading pre (0 # ys)) ! rpos (reading pre (0 # ys)) = 0" for ys
    by (simp_all add: reading_def Len_def)
  assume s: "0 \<notin> set s"
  show "ReadZeroQuotedString (reading pre (zq_bytes s @ xs)) = (Inr s, reading (pre @ zq_bytes s) xs)"
    using cond [of "s @ 0 # xs"] skip [of "s @ 0 # xs"] ReadStringTerm_reading(1) [OF s, of "pre @ [0]" xs]
    by (simp add: ReadZeroQuotedString_def zq_bytes_def)
  show "ReadZeroQuotedString (reading pre (zq_bytes s)) = (Inr s, reading (pre @ zq_bytes s) [])"
    using cond [of "s @ [0]"] skip [of "s @ [0]"] ReadStringTerm_reading(1) [OF s, of "pre @ [0]" "[]"]
    by (simp add: ReadZeroQuotedString_def zq_bytes_def)
qed

text \<open>An amount as the server writes it: two bytes below 32768, else four with the top bit set.\<close>

definition amount_bytes :: "int \<Rightarrow> byte list" where
  "amount_bytes a = (if a < 32768 then put16 (of_int a) else put32 (of_int a OR 0x80000000))"

lemma and_0x80_iff: "(x :: byte) AND 0x80 = 0 \<longleftrightarrow> \<not> bit x 7"
  using and_exp_eq_0_iff_not_bit [of x 7] by simp

lemma byte_lt_128_iff: "uint (x :: byte) < 128 \<longleftrightarrow> \<not> bit x 7"
proof -
  have "bit x 7 \<longleftrightarrow> odd (uint x div 128)"
    using bit_uint_iff [of x 7] by (simp add: bit_iff_odd)
  moreover have "k < 128 \<longleftrightarrow> even (k div 128)" if "0 \<le> k" "k < 256" for k :: int
  proof (cases "k < 128")
    case True
    with that have "k div 128 = 0" by linarith
    with True show ?thesis by simp
  next
    case False
    with that have "k div 128 = 1" by linarith
    with False show ?thesis by simp
  qed
  ultimately show ?thesis
    using uint_lt2p [of x] by simp
qed

lemma top_bit_mask:
  fixes w :: "'a::len word"
  assumes "\<And>n. k \<le> n \<Longrightarrow> \<not> bit w n" and "k < LENGTH('a)"
  shows "(w OR push_bit k 1) AND mask k = w" "bit (w OR push_bit k 1) k"
proof -
  show "(w OR push_bit k 1) AND mask k = w"
  proof (rule bit_word_eqI)
    fix n assume "n < LENGTH('a)"
    then show "bit ((w OR push_bit k 1) AND mask k) n = bit w n"
      using assms by (cases "n < k") (auto simp: bit_simps not_less)
  qed
  show "bit (w OR push_bit k 1) k" using assms by (simp add: bit_simps)
qed

lemma bit_of_int_small: "0 \<le> a \<Longrightarrow> a < 2 ^ k \<Longrightarrow> k \<le> n \<Longrightarrow> \<not> bit (of_int a :: 'a::len word) n"
proof -
  assume a: "0 \<le> a" "a < 2 ^ k" "k \<le> n"
  then have "take_bit k a = a" by (simp add: take_bit_int_eq_self)
  then have "\<not> bit a n" using a(3) by (metis bit_take_bit_iff not_le)
  then show ?thesis by (simp add: bit_of_int_iff)
qed

lemma ReadSmart08_16_reading [wire_simps]:
  assumes "0 \<le> v" "v < 32768"
  shows "ReadSmart08_16 (reading pre (smart_bytes v @ xs)) =
     (Inr v, reading (pre @ smart_bytes v) xs)"
proof (cases "v < 128")
  case True
  then have u: "uint (of_int v :: byte) = v"
    using assms by (simp add: uint_word_of_int_eq take_bit_int_eq_self)
  then show ?thesis using True
    by (simp add: ReadSmart08_16_def smart_bytes_def wire_simps)
       (simp add: reading_def)
next
  case False
  have u: "uint (of_int (v + 32768) :: u16) = v + 32768"
    using assms False
    by (simp only: uint_word_of_int_eq) (simp add: take_bit_int_eq_self)
  obtain a b where ab: "put16 (of_int (v + 32768)) = [a, b]" "be16 a b = of_int (v + 32768)"
    using put16_conv by blast
  have "(v + 32768) div 32768 = 1" using assms by linarith
  then have "odd ((v + 32768) div 32768)" by simp
  then have "bit (of_int (v + 32768) :: u16) 15"
    by (simp only: bit_of_int_iff) (simp add: bit_iff_odd)
  then have "bit a 7" using ab by (auto simp: put16_def bit_simps)
  then have "\<not> uint a < 128" by (simp add: byte_lt_128_iff)
  moreover have "Len (reading pre (a # b # xs)) = Suc (Suc (length xs))"
    by (simp add: wire_simps)
  moreover have "backing (reading pre (a # b # xs)) ! rpos (reading pre (a # b # xs)) = a"
    by (simp add: reading_def)
  ultimately show ?thesis using False u ab
    by (simp add: ReadSmart08_16_def smart_bytes_def wire_simps)
qed

lemma amount_reading [wire_simps]:
  assumes "0 \<le> a" "a < 2 ^ 31"
  shows "readUnsignedShortIntSmart (reading pre (amount_bytes a @ xs)) =
     (a, reading (pre @ amount_bytes a) xs)"
proof (cases "a < 32768")
  case True
  obtain p q where pq: "put16 (of_int a) = [p, q]" "be16 p q = of_int a"
    using put16_conv by blast
  have "\<not> bit (of_int a :: u16) 15"
    using True assms by (intro bit_of_int_small [of _ 15]) auto
  then have "p AND 0x80 = 0" using pq(1)
    by (auto simp: put16_def and_0x80_iff bit_simps)
  moreover have "uint (of_int a :: u16) = a"
    using assms True by (simp add: uint_word_of_int_eq take_bit_int_eq_self)
  moreover have "backing (reading pre (p # q # xs)) ! rpos (reading pre (p # q # xs)) = p"
    by (simp add: reading_def)
  ultimately show ?thesis using True pq
    by (simp add: readUnsignedShortIntSmart_def amount_bytes_def wire_simps)
next
  case False
  let ?w = "of_int a OR 0x80000000 :: u32"
  obtain p q r t where pq: "put32 ?w = [p, q, r, t]" "be32 p q r t = ?w"
    using put32_conv by blast
  have m: "(0x80000000 :: u32) = push_bit 31 1" "(0x7FFFFFFF :: u32) = mask 31"
    by (simp_all add: mask_eq_decr_exp)
  have small: "\<not> bit (of_int a :: u32) n" if "31 \<le> n" for n
    using bit_of_int_small [OF assms that] .
  have "bit ?w 31" unfolding m by (rule top_bit_mask(2)) (use small in simp_all)
  then have "bit p 7" using pq(1) by (auto simp: put32_def bit_simps)
  then have "p AND 0x80 \<noteq> 0" by (simp add: and_0x80_iff)
  moreover have "?w AND 0x7FFFFFFF = of_int a"
    unfolding m by (rule top_bit_mask(1)) (use small in simp_all)
  moreover have "uint (of_int a :: u32) = a"
    using assms by (simp add: uint_word_of_int_eq take_bit_int_eq_self)
  moreover have "backing (reading pre (p # q # r # t # xs)) !
      rpos (reading pre (p # q # r # t # xs)) = p"
    by (simp add: reading_def)
  ultimately show ?thesis using False pq
    by (simp add: readUnsignedShortIntSmart_def amount_bytes_def wire_simps)
qed

section \<open>The codec interface\<close>

text \<open>
  What a packet decoder relies on when it reads a record: the reader, applied where the bytes of a
  well-formed record start, returns the value the record stands for and leaves the read position
  right behind it.
\<close>

locale wire_reader =
  fixes enc :: "'r \<Rightarrow> byte list"
    and dec :: "Buffer \<Rightarrow> ('a, Buffer) result"
    and ok :: "'r \<Rightarrow> bool"
    and val :: "'r \<Rightarrow> 'a"
  assumes dec_val: "ok v \<Longrightarrow> dec (reading pre (enc v @ post)) = (Inr (val v), reading (pre @ enc v) post)"

text \<open>
  The loop \<open>for i := 0; i < count; i++ { x, err := read(b); if err != nil { break }; ... append }\<close>
  of the decoders: it stops at the first error and keeps what it has.
\<close>

fun read_items :: "(Buffer \<Rightarrow> ('a, Buffer) result) \<Rightarrow> nat \<Rightarrow> Buffer \<Rightarrow> 'a list \<times> Buffer" where
  "read_items rd 0 b = ([], b)"
| "read_items rd (Suc n) b =
     (case rd b of
        (Inl e, b') \<Rightarrow> ([], b')
      | (Inr x, b') \<Rightarrow> (let (xs, b'') = read_items rd n b' in (x # xs, b'')))"

context wire_reader
begin

lemma read_items_val:
  "\<forall>v \<in> set vs. ok v \<Longrightarrow>
     read_items dec (length vs) (reading pre (concat (map enc vs) @ post)) =
       (map val vs, reading (pre @ concat (map enc vs)) post)"
proof (induction vs arbitrary: pre)
  case Nil
  then show ?case by simp
next
  case (Cons v vs)
  then show ?case
    using Cons.IH [of "pre @ enc v"] by (simp add: dec_val)
qed

lemma read_items_val_last:
  "\<forall>v \<in> set vs. ok v \<Longrightarrow>
     read_items dec (length vs) (reading pre (concat (map enc vs))) =
       (map val vs, reading (pre @ concat (map enc vs)) [])"
  using read_items_val [of vs pre "[]"] by simp

end

text \<open>
  A codec is a reader that gives back the value that was encoded. The strict interface adds that a
  field cut short is an error, not a value.
\<close>

locale wire_codec =
  fixes enc :: "'a \<Rightarrow> byte list"
    and dec :: "Buffer \<Rightarrow> ('a, Buffer) result"
    and ok :: "'a \<Rightarrow> bool"
  assumes dec_enc: "ok v \<Longrightarrow> dec (reading pre (enc v @ post)) = (Inr v, reading (pre @ enc v) post)"

locale strict_codec = wire_codec +
  assumes dec_short: "ok v \<Longrightarrow> j < length (enc v) \<Longrightarrow>
    \<exists>e b. dec (reading pre (take j (enc v))) = (Inl e, b)"

sublocale wire_codec \<subseteq> rdr: wire_reader enc dec ok "\<lambda>v. v"
  by unfold_locales (rule dec_enc)

context wire_codec
begin

lemma dec_enc_last: "ok v \<Longrightarrow> dec (reading pre (enc v)) = (Inr v, reading (pre @ enc v) [])"
  using dec_enc [of v pre "[]"] by simp

lemma read_items_enc:
  "\<forall>v \<in> set vs. ok v \<Longrightarrow>
     read_items dec (length vs) (reading pre (concat (map enc vs) @ post)) =
       (vs, reading (pre @ concat (map enc vs)) post)"
  using rdr.read_items_val [of vs pre post] by simp

lemma read_items_enc_last:
  "\<forall>v \<in> set vs. ok v \<Longrightarrow>
     read_items dec (length vs) (reading pre (concat (map enc vs))) =
       (vs, reading (pre @ concat (map enc vs)) [])"
  using read_items_enc [of vs pre "[]"] by simp

end

context strict_codec
begin

text \<open>
  A list of records cut off after \<open>k\<close> bytes decodes to exactly the records that arrived whole: the
  loop never makes a record out of a fragment and drops none that is complete.
\<close>

lemma read_items_truncated:
  "\<forall>v \<in> set vs. ok v \<Longrightarrow>
     \<exists>m \<le> length vs. fst (read_items dec (length vs) (reading pre (take k (concat (map enc vs)))))
         = take m vs
       \<and> length (concat (map enc (take m vs))) \<le> k
       \<and> (m < length vs \<longrightarrow> k < length (concat (map enc (take (Suc m) vs))))"
proof (induction vs arbitrary: pre k)
  case Nil
  then show ?case by simp
next
  case (Cons v vs)
  show ?case
  proof (cases "k < length (enc v)")
    case True
    with Cons.prems dec_short [of v k pre]
    obtain e b where "dec (reading pre (take k (enc v))) = (Inl e, b)" by auto
    with True show ?thesis by (intro exI [of _ 0]) simp
  next
    case False
    with Cons.prems have step: "dec (reading pre (enc v @ take (k - length (enc v)) (concat (map enc vs))))
        = (Inr v, reading (pre @ enc v) (take (k - length (enc v)) (concat (map enc vs))))"
      by (simp add: dec_enc)
    from Cons.prems Cons.IH [of "pre @ enc v" "k - length (enc v)"] obtain m where
      "m \<le> length vs"
      "fst (read_items dec (length vs)
        (reading (pre @ enc v) (take (k - length (enc v)) (concat (map enc vs))))) = take m vs"
      "length (concat (map enc (take m vs))) \<le> k - length (enc v)"
      "m < length vs \<longrightarrow> k - length (enc v) < length (concat (map enc (take (Suc m) vs)))"
      by auto
    with False step show ?thesis
      by (intro exI [of _ "Suc m"]) (auto simp: case_prod_beta Let_def)
  qed
qed

end

text \<open>The primitive readers are codecs.\<close>

interpretation u8: strict_codec "\<lambda>v. [v]" ReadByte "\<lambda>_. True"
  by unfold_locales (simp_all add: wire_simps)

interpretation u16be: strict_codec put16 ReadUint16 "\<lambda>_. True"
  by unfold_locales (simp_all add: wire_simps)

interpretation u32be: strict_codec put32 ReadUint32 "\<lambda>_. True"
  by unfold_locales (simp_all add: wire_simps)

interpretation zqstring: wire_codec zq_bytes ReadZeroQuotedString "\<lambda>s. 0 \<notin> set s"
  by unfold_locales (simp add: wire_simps)

interpretation smart: wire_codec smart_bytes ReadSmart08_16 "\<lambda>v. 0 \<le> v \<and> v < 32768"
  by unfold_locales (simp add: wire_simps)

end
