(* ===== verification/WireBits.thy ===== *)
theory WireBits
  imports WireBuffer
begin

text \<open>
  Bit access of \<open>proto/v235/buffer.go\<close>: \<open>StartBitAccess\<close>, \<open>ReadBits\<close> and \<open>FinishBitAccess\<close>, with
  the reference they are proved against, the bit string of the payload, most significant bit of
  each byte first.
\<close>

section \<open>The code\<close>

definition StartBitAccess :: "Buffer \<Rightarrow> Buffer" where
  "StartBitAccess b = b\<lparr>bitMode := True, bitPos := rpos b * 8\<rparr>"

definition FinishBitAccess :: "Buffer \<Rightarrow> Buffer" where
  "FinishBitAccess b =
     (if \<not> bitMode b then b else b\<lparr>rpos := (bitPos b + 7) div 8, bitMode := False\<rparr>)"

text \<open>
  The \<open>for n > 0\<close> loop of \<open>ReadBits\<close>. Its variables are \<open>bytePos\<close>, \<open>bitOffset\<close> (bits of the
  current byte not yet taken), \<open>n\<close> (bits still wanted), \<open>value\<close> and \<open>b.bitPos\<close>; an error leaves
  \<open>bitPos\<close> where the loop had advanced it.
\<close>

function read_bits_loop ::
  "byte list \<Rightarrow> nat \<Rightarrow> nat \<Rightarrow> nat \<Rightarrow> nat \<Rightarrow> u32 \<Rightarrow> nat \<Rightarrow> (goerr + u32) \<times> nat" where
  "read_bits_loop data w n bytePos bitOffset value bp =
     (if n > 0 then
        if bytePos \<ge> w then (Inl (ErrMsg ''buffer: bit-read past end'' []), bp)
        else
          let take = (if bitOffset > n then n else bitOffset);
              shift = bitOffset - take;
              msk = (mask take :: u32);
              value' = push_bit take value OR (drop_bit shift (ucast (data ! bytePos)) AND msk);
              bitOffset' = bitOffset - take
          in if bitOffset' = 0
             then read_bits_loop data w (n - take) (bytePos + 1) 8 value' (bp + take)
             else read_bits_loop data w (n - take) bytePos bitOffset' value' (bp + take)
      else (Inr value, bp))"
  by pat_completeness auto
termination
  by (relation "measure (\<lambda>(data, w, n, bytePos, bitOffset, value, bp).
        2 * n + (if bitOffset = 0 then 1 else 0))") (auto split: if_splits)

declare read_bits_loop.simps [simp del]

definition ReadBits :: "nat \<Rightarrow> Buffer \<Rightarrow> (u32, Buffer) result" where
  "ReadBits n b =
     (if \<not> bitMode b then (Inl (ErrMsg ''buffer: bit access not started'' []), b)
      else if n < 1 \<or> n > 32 then (Inl (ErrMsg ''buffer: ReadBits(%d) out of range'' [int n]), b)
      else
        let (r, bp) = read_bits_loop (backing b) (wpos b) n
              (drop_bit 3 (bitPos b)) (8 - (bitPos b AND 7)) 0 (bitPos b)
        in (r, b\<lparr>bitPos := bp\<rparr>))"

section \<open>The reference: a payload as a bit string\<close>

definition byte_bits :: "byte \<Rightarrow> bool list" where
  "byte_bits x = map (bit x) [7, 6, 5, 4, 3, 2, 1, 0]"

definition bits_of :: "byte list \<Rightarrow> bool list" where
  "bits_of xs = concat (map byte_bits xs)"

fun bits_val :: "bool list \<Rightarrow> nat \<Rightarrow> nat" where
  "bits_val [] acc = acc"
| "bits_val (b # bs) acc = bits_val bs (2 * acc + of_bool b)"

lemma length_byte_bits [simp]: "length (byte_bits x) = 8"
  by (simp add: byte_bits_def)

lemma length_bits_of [simp]: "length (bits_of xs) = 8 * length xs"
  by (induction xs) (simp_all add: bits_of_def)

lemma bits_of_append [simp]: "bits_of (xs @ ys) = bits_of xs @ bits_of ys"
  by (simp add: bits_of_def)

lemma bits_val_append [simp]: "bits_val (xs @ ys) a = bits_val ys (bits_val xs a)"
  by (induction xs arbitrary: a) auto

lemma bits_of_nth:
  "i < length xs \<Longrightarrow> j \<le> 8 \<Longrightarrow> drop (8 * i + j) (bits_of xs) =
     drop j (byte_bits (xs ! i)) @ drop (8 * Suc i) (bits_of xs)"
proof -
  assume i: "i < length xs" and j: "j \<le> 8"
  have "xs = take i xs @ xs ! i # drop (Suc i) xs" using i by (rule id_take_nth_drop)
  then have *: "bits_of xs = bits_of (take i xs) @ byte_bits (xs ! i) @ bits_of (drop (Suc i) xs)"
    by (metis append_Cons append_Nil bits_of_append bits_of_def concat.simps list.simps(9) append_Nil2 map_append concat_append)
  have l: "length (bits_of (take i xs)) = 8 * i" using i by simp
  show ?thesis using l j by (subst (1 2) *) simp
qed

text \<open>One pass of the loop takes \<open>t\<close> bits out of a byte of which \<open>off\<close> bits remain.\<close>

lemma bit_double_plus:
  "bit (2 * w + of_bool b :: u32) n \<longleftrightarrow> (if n = 0 then b else n < 32 \<and> bit w (n - 1))"
proof -
  have "2 * w + of_bool b = 2 * w OR of_bool b"
    by (rule disjunctive_add) (auto simp: bit_double_iff bit_of_bool_iff)
  then show ?thesis
    by (auto simp: bit_or_iff bit_double_iff bit_of_bool_iff)
qed

lemma byte_bits_nth: "i < 8 \<Longrightarrow> byte_bits x ! i = bit x (7 - i)"
  by (auto simp: byte_bits_def nth_Cons split: nat.splits)

lemma bits_val_word:
  "t \<le> off \<Longrightarrow> off \<le> 8 \<Longrightarrow>
     (of_nat (bits_val (take t (drop (8 - off) (byte_bits x))) a) :: u32) =
       push_bit t (of_nat a) OR (drop_bit (off - t) (ucast x) AND mask t)"
proof (induction t)
  case 0
  then show ?case by simp
next
  case (Suc t)
  let ?bs = "drop (8 - off) (byte_bits x)"
  let ?W = "push_bit t (of_nat a) OR (drop_bit (off - t) (ucast x) AND mask t) :: u32"
  have "take (Suc t) ?bs = take t ?bs @ [?bs ! t]"
    using Suc.prems by (simp add: take_Suc_conv_app_nth)
  moreover have "?bs ! t = bit x (off - Suc t)"
  proof -
    have "7 - (8 - off + t) = off - Suc t" using Suc.prems by arith
    with Suc.prems show ?thesis by (simp add: byte_bits_nth)
  qed
  ultimately have "(of_nat (bits_val (take (Suc t) ?bs) a) :: u32) =
      2 * ?W + of_bool (bit x (off - Suc t))"
    using Suc by simp
  also have "\<dots> = push_bit (Suc t) (of_nat a) OR (drop_bit (off - Suc t) (ucast x) AND mask (Suc t))"
  proof (rule bit_word_eqI)
    fix n :: nat assume "n < LENGTH(32)"
    moreover have "off - Suc t + n = off - t + (n - 1)" if "n \<noteq> 0"
      using Suc.prems that by arith
    ultimately show "bit (2 * ?W + of_bool (bit x (off - Suc t))) n =
      bit (push_bit (Suc t) (of_nat a) OR (drop_bit (off - Suc t) (ucast x) AND mask (Suc t)) :: u32) n"
      using Suc.prems
      by (cases n) (auto simp: bit_double_plus bit_or_iff bit_and_iff bit_push_bit_iff
          bit_drop_bit_eq bit_mask_iff bit_ucast_iff simp del: push_bit_Suc)
  qed
  finally show ?case .
qed

section \<open>ReadBits against the reference\<close>

lemma read_bits_loop_0 [simp]: "read_bits_loop data w 0 i off v bp = (Inr v, bp)"
  by (simp add: read_bits_loop.simps)

lemma read_bits_loop_correct:
  "0 < off \<Longrightarrow> off \<le> 8 \<Longrightarrow> 8 * i + (8 - off) + n \<le> 8 * w \<Longrightarrow> w \<le> length data \<Longrightarrow>
     read_bits_loop data w n i off (of_nat v) bp =
       (Inr (of_nat (bits_val (take n (drop (8 * i + (8 - off)) (bits_of data))) v)), bp + n)"
proof (induction n arbitrary: i off v bp rule: less_induct)
  case (less n)
  show ?case
  proof (cases "n = 0")
    case True
    then show ?thesis by (simp add: read_bits_loop.simps)
  next
    case False
    define t where "t = (if off > n then n else off)"
    let ?bb = "take t (drop (8 - off) (byte_bits (data ! i)))"
    from less.prems False have t: "0 < t" "t \<le> off" "t \<le> n" "i < w" "i < length data"
      by (auto simp: t_def)
    from less.prems t have bits: "drop (8 * i + (8 - off)) (bits_of data) =
        drop (8 - off) (byte_bits (data ! i)) @ drop (8 * Suc i) (bits_of data)"
      by (intro bits_of_nth) auto
    have val: "push_bit t (of_nat v) OR (drop_bit (off - t) (ucast (data ! i)) AND mask t) =
        (of_nat (bits_val ?bb v) :: u32)"
      using t less.prems by (simp add: bits_val_word)
    show ?thesis
    proof (cases "off - t = 0")
      case True
      with t have "t = off" by simp
      with t less.prems have tk: "take n (drop (8 * i + (8 - off)) (bits_of data)) =
          ?bb @ take (n - t) (drop (8 * Suc i) (bits_of data))"
        unfolding bits by simp
      have "read_bits_loop data w (n - t) (Suc i) 8 (of_nat (bits_val ?bb v)) (bp + t) =
          (Inr (of_nat (bits_val (take (n - t) (drop (8 * Suc i + (8 - 8)) (bits_of data)))
            (bits_val ?bb v))), bp + t + (n - t))"
        using t less.prems \<open>t = off\<close> by (intro less.IH) auto
      moreover from val True
      have "push_bit t (of_nat v) OR (ucast (data ! i) AND mask t) = (of_nat (bits_val ?bb v) :: u32)"
        by simp
      ultimately show ?thesis using True t tk \<open>n \<noteq> 0\<close>
        by (subst read_bits_loop.simps) (simp add: t_def [symmetric] Let_def)
    next
      case False
      with t have "t = n" by (simp add: t_def split: if_splits)
      with t less.prems have tk: "take n (drop (8 * i + (8 - off)) (bits_of data)) = ?bb"
        unfolding bits by simp
      with False t \<open>t = n\<close> \<open>n \<noteq> 0\<close> val show ?thesis
        by (subst read_bits_loop.simps) (simp add: t_def [symmetric] Let_def)
    qed
  qed
qed

lemma read_bits_loop_past_end:
  "0 < n \<Longrightarrow> 0 < off \<Longrightarrow> off \<le> 8 \<Longrightarrow> 8 * w < 8 * i + (8 - off) + n \<Longrightarrow> i \<le> w \<Longrightarrow>
     \<exists>bp'. read_bits_loop data w n i off v bp =
       (Inl (ErrMsg ''buffer: bit-read past end'' []), bp')"
proof (induction n arbitrary: i off v bp rule: less_induct)
  case (less n)
  show ?case
  proof (cases "w \<le> i")
    case True
    with less.prems show ?thesis by (auto simp: read_bits_loop.simps)
  next
    case False
    with less.prems have n: "off < n" by auto
    with False less.prems have "\<exists>bp'. read_bits_loop data w (n - off) (Suc i) 8
        (push_bit off v OR (drop_bit 0 (ucast (data ! i)) AND mask off)) (bp + off) =
        (Inl (ErrMsg ''buffer: bit-read past end'' []), bp')"
      by (intro less.IH) auto
    with False n show ?thesis
      by (subst read_bits_loop.simps) (simp add: Let_def)
  qed
qed

text \<open>A payload being read bit by bit: \<open>p\<close> bits consumed.\<close>

definition bitreading :: "byte list \<Rightarrow> nat \<Rightarrow> Buffer" where
  "bitreading data p =
     \<lparr>backing = data, dlen = length data, rpos = 0, wpos = length data, bitMode = True, bitPos = p\<rparr>"

lemma StartBitAccess_WrapBuffer [wire_simps]: "StartBitAccess (WrapBuffer p) = bitreading p 0"
  by (simp add: StartBitAccess_def WrapBuffer_def bitreading_def)

lemma div8_mod8: "drop_bit 3 (p :: nat) = p div 8" "p AND 7 = p mod 8"
  using take_bit_eq_mask [of 3 p] by (simp_all add: drop_bit_eq_div take_bit_eq_mod mask_eq_exp_minus_1)

lemma read_bits_eq:
  assumes "1 \<le> n" "n \<le> 32" "p + n \<le> 8 * length data"
  shows "ReadBits n (bitreading data p) =
    (Inr (of_nat (bits_val (take n (drop p (bits_of data))) 0)), bitreading data (p + n))"
proof -
  have p: "8 * (p div 8) + (8 - (8 - p mod 8)) = p"
    using mod_less_divisor [of 8 p] by (simp add: mult_div_mod_eq)
  have "read_bits_loop data (length data) n (p div 8) (8 - p mod 8) (of_nat 0) p =
    (Inr (of_nat (bits_val (take n (drop (8 * (p div 8) + (8 - (8 - p mod 8))) (bits_of data))) 0)), p + n)"
    using assms p by (intro read_bits_loop_correct) simp_all
  with assms show ?thesis
    unfolding p by (simp add: ReadBits_def bitreading_def div8_mod8)
qed

lemma ReadBits_past_end:
  assumes "1 \<le> n" "n \<le> 32" "8 * length data < p + n" "p \<le> 8 * length data"
  shows "\<exists>bp. ReadBits n (bitreading data p) =
    (Inl (ErrMsg ''buffer: bit-read past end'' []), bitreading data bp)"
proof -
  have p: "8 * (p div 8) + (8 - (8 - p mod 8)) = p"
    using mod_less_divisor [of 8 p] by (simp add: mult_div_mod_eq)
  have "\<exists>bp'. read_bits_loop data (length data) n (p div 8) (8 - p mod 8) 0 p =
    (Inl (ErrMsg ''buffer: bit-read past end'' []), bp')"
    using assms p by (intro read_bits_loop_past_end) auto
  with assms show ?thesis
    by (auto simp: ReadBits_def bitreading_def div8_mod8)
qed

section \<open>Bit fields\<close>

text \<open>The \<open>n\<close>-bit field that holds \<open>v\<close>, and reading it back.\<close>

definition nbits :: "nat \<Rightarrow> nat \<Rightarrow> bool list" where
  "nbits n v = map (\<lambda>i. bit v (n - Suc i)) [0..<n]"

lemma length_nbits [simp]: "length (nbits n v) = n"
  by (simp add: nbits_def)

lemma nbits_Suc: "nbits (Suc n) v = nbits n (v div 2) @ [odd v]"
proof -
  have "bit v (Suc n - Suc i) = bit (v div 2) (n - Suc i)" if "i < n" for i
  proof -
    have "Suc n - Suc i = Suc (n - Suc i)" using that by simp
    then show ?thesis by (simp only: bit_Suc)
  qed
  then show ?thesis by (simp add: nbits_def bit_0)
qed

lemma bits_val_nbits: "v < 2 ^ n \<Longrightarrow> bits_val (nbits n v) 0 = v"
proof (induction n arbitrary: v)
  case 0
  then show ?case by (simp add: nbits_def)
next
  case (Suc n)
  then have "v div 2 < 2 ^ n" by simp
  with Suc.IH show ?case by (simp add: nbits_Suc)
qed

lemma ReadBits_field:
  assumes d: "drop p (bits_of data) = nbits n v @ rest" and "1 \<le> n" "n \<le> 32" "v < 2 ^ n"
  shows "ReadBits n (bitreading data p) = (Inr (of_nat v), bitreading data (p + n))"
    and "drop (p + n) (bits_of data) = rest"
proof -
  have "length (drop p (bits_of data)) = n + length rest" using d by simp
  then have "p + n \<le> 8 * length data" using assms(2) by simp
  then show "ReadBits n (bitreading data p) = (Inr (of_nat v), bitreading data (p + n))"
    using assms by (simp add: read_bits_eq bits_val_nbits)
  have "drop (p + n) (bits_of data) = drop n (drop p (bits_of data))"
    by (simp add: add.commute)
  also have "\<dots> = rest" unfolding d by simp
  finally show "drop (p + n) (bits_of data) = rest" .
qed

end
