(* ===== verification/WireFrame.thy ===== *)
theory WireFrame
  imports Prelude
begin

text \<open>
  The framing layer of \<open>proto/v235/frame.go\<close>: \<open>EncodeFrame\<close> and the stateful \<open>FrameDecoder\<close>.

  The decoder's \<open>decode\<close> field is a Go closure over the cipher's state. Here the closure is a
  function together with the state it owns (\<open>dstate\<close>), so one call returns the decoded byte and the
  state after it; \<open>PlainDecode\<close> is the closure that keeps no state.
\<close>

section \<open>Frames\<close>

record Frame =
  Opcode :: byte
  Payload :: "byte list"

definition EncodeFrame :: "byte \<Rightarrow> byte list \<Rightarrow> byte list" where
  "EncodeFrame encOpcode payload =
     (let n = length payload; len = n + 1 in
      if len \<ge> 160 then
        [of_nat (len div 256 + 160), of_nat len AND 0xFF, encOpcode] @ payload
      else if len = 1 then [1, encOpcode]
      else [of_nat len, payload ! (n - 1), encOpcode] @ take (n - 1) payload)"

record 's FrameDecoder =
  fbuf :: "byte list"
  dstate :: 's
  dfun :: "'s \<Rightarrow> byte \<Rightarrow> byte \<times> 's"

definition PlainDecode :: "'s \<Rightarrow> byte \<Rightarrow> byte \<times> 's" where
  "PlainDecode s b = (b, s)"

definition NewFrameDecoder :: "('s \<Rightarrow> byte \<Rightarrow> byte \<times> 's) option \<Rightarrow> 's \<Rightarrow> 's FrameDecoder" where
  "NewFrameDecoder decode s0 =
     \<lparr>fbuf = [], dstate = s0, dfun = (case decode of None \<Rightarrow> PlainDecode | Some f \<Rightarrow> f)\<rparr>"

definition SetDecode :: "('s \<Rightarrow> byte \<Rightarrow> byte \<times> 's) \<Rightarrow> 's \<Rightarrow> 's FrameDecoder \<Rightarrow> 's FrameDecoder" where
  "SetDecode f s0 d = d\<lparr>dfun := f, dstate := s0\<rparr>"

definition Feed :: "byte list \<Rightarrow> 's FrameDecoder \<Rightarrow> 's FrameDecoder" where
  "Feed bs d = d\<lparr>fbuf := fbuf d @ bs\<rparr>"

text \<open>
  \<open>decode_body\<close> is the second half of \<open>Next\<close>: the body bytes are in hand, the tail byte is put back
  behind the payload when the length took one byte and there is a payload.
\<close>

definition decode_body :: "nat \<Rightarrow> nat \<Rightarrow> byte list \<Rightarrow> 's FrameDecoder \<Rightarrow> (Frame, 's FrameDecoder) result" where
  "decode_body lengthLen len body d =
     (if lengthLen = 1 \<and> len > 1 then
        let tail = body ! 0; encOp = body ! 1; mid = drop 2 body;
            (op, s) = dfun d (dstate d) encOp
        in (Inr \<lparr>Opcode = op, Payload = mid @ [tail]\<rparr>, d\<lparr>dstate := s\<rparr>)
      else
        let encOp = body ! 0; payload = drop 1 body;
            (op, s) = dfun d (dstate d) encOp
        in (Inr \<lparr>Opcode = op, Payload = payload\<rparr>, d\<lparr>dstate := s\<rparr>))"

definition NextFrame :: "'s FrameDecoder \<Rightarrow> (Frame, 's FrameDecoder) result" where
  "NextFrame d =
     (if length (fbuf d) < 1 then (Inl ErrShortRead, d)
      else
        let first = unat (fbuf d ! 0) in
        if first \<ge> 160 \<and> length (fbuf d) < 2 then (Inl ErrShortRead, d)
        else
          let (len, lengthLen) =
                (if first \<ge> 160 then ((first - 160) * 256 + unat (fbuf d ! 1), 2) else (first, 1))
          in if len < 1 then
               (Inl (ErrMsg ''v235: invalid frame length %d'' [int len]),
                d\<lparr>fbuf := drop lengthLen (fbuf d)\<rparr>)
             else if length (fbuf d) < lengthLen + len then (Inl ErrShortRead, d)
             else
               decode_body lengthLen len (take len (drop lengthLen (fbuf d)))
                 (d\<lparr>fbuf := drop (lengthLen + len) (fbuf d)\<rparr>))"

text \<open>The unfolding of \<open>decode_body\<close> keeps the buffer, so every frame returned shortens it.\<close>

lemma decode_body_fbuf: "decode_body l n body d = (r, d') \<Longrightarrow> fbuf d' = fbuf d"
  by (auto simp: decode_body_def Let_def case_prod_beta split: if_splits)

lemma NextFrame_shrinks:
  "NextFrame d = (Inr f, d') \<Longrightarrow> length (fbuf d') < length (fbuf d)"
  by (auto simp: NextFrame_def Let_def split: if_splits dest!: decode_body_fbuf)

text \<open>
  \<open>ReadAllFrames\<close> drains the buffer: the frames decoded, and the error that stopped it, if any
  (running out of bytes is not one).
\<close>

function ReadAllFrames :: "'s FrameDecoder \<Rightarrow> (Frame list \<times> goerr option) \<times> 's FrameDecoder" where
  "ReadAllFrames d =
     (case NextFrame d of
        (Inl e, d') \<Rightarrow> (if e = ErrShortRead then (([], None), d') else (([], Some e), d'))
      | (Inr f, d') \<Rightarrow> (let ((fs, e), d'') = ReadAllFrames d' in ((f # fs, e), d'')))"
  by pat_completeness auto
termination
  by (relation "measure (\<lambda>d. length (fbuf d))") (auto dest: NextFrame_shrinks [OF sym])

declare ReadAllFrames.simps [simp del]

section \<open>Decoding what was encoded\<close>

text \<open>
  The two-byte length holds \<open>len div 256 + 160\<close> in a byte, so it is exact below \<open>96 * 256\<close>.
\<close>

definition max_payload :: nat where
  "max_payload = 24574"

lemma unat_byte_of_nat: "n < 256 \<Longrightarrow> unat (of_nat n :: byte) = n"
  by (simp add: unat_of_nat)

lemma EncodeFrame_not_Nil: "EncodeFrame e p \<noteq> []"
  by (simp add: EncodeFrame_def Let_def)

lemma length_EncodeFrame:
  "length (EncodeFrame e p) = (if length p \<ge> 159 then length p + 3 else length p + 2)"
  by (auto simp: EncodeFrame_def Let_def)

text \<open>The shape of an encoded frame, with what the decoder computes from its length bytes.\<close>

lemma EncodeFrame_long:
  assumes "159 \<le> length p" and "length p \<le> max_payload"
  shows "\<exists>hi lo. EncodeFrame e p = hi # lo # e # p \<and> 160 \<le> unat hi \<and>
    (unat hi - 160) * 256 + unat lo = Suc (length p)"
proof -
  let ?l = "length p + 1"
  let ?hi = "of_nat (?l div 256 + 160) :: byte" and ?lo = "of_nat ?l AND 0xFF :: byte"
  have hi: "unat ?hi = ?l div 256 + 160"
    using assms by (intro unat_byte_of_nat) (simp add: max_payload_def)
  have lo: "unat ?lo = ?l mod 256"
    by (simp only: byte_and_ff unat_of_nat) simp
  have "EncodeFrame e p = ?hi # ?lo # e # p"
    using assms by (simp add: EncodeFrame_def Let_def)
  moreover have "160 \<le> unat ?hi" unfolding hi by simp
  moreover have "(unat ?hi - 160) * 256 + unat ?lo = Suc (length p)"
    unfolding hi lo by simp
  ultimately show ?thesis by blast
qed

lemma EncodeFrame_short:
  assumes "p \<noteq> []" and "length p < 159"
  shows "\<exists>h. EncodeFrame e p = h # last p # e # butlast p \<and> unat h = Suc (length p)"
proof -
  have "unat (of_nat (Suc (length p)) :: byte) = Suc (length p)"
    using assms by (intro unat_byte_of_nat) simp
  moreover have "EncodeFrame e p = of_nat (Suc (length p)) # last p # e # butlast p"
    using assms by (simp add: EncodeFrame_def Let_def last_conv_nth butlast_conv_take)
  ultimately show ?thesis by blast
qed

lemma EncodeFrame_empty: "EncodeFrame e [] = [1, e]"
  by (simp add: EncodeFrame_def)

lemma NextFrame_encoded:
  assumes buf: "fbuf d = EncodeFrame e p @ rest" and len: "length p \<le> max_payload"
    and dec: "dfun d (dstate d) e = (op, s')"
  shows "NextFrame d = (Inr \<lparr>Opcode = op, Payload = p\<rparr>, d\<lparr>fbuf := rest, dstate := s'\<rparr>)"
proof -
  consider (long) "159 \<le> length p" | (empty) "p = []" | (short) "p \<noteq> []" "length p < 159"
    by force
  then show ?thesis
  proof cases
    case long
    with len obtain hi lo where "EncodeFrame e p = hi # lo # e # p" "160 \<le> unat hi"
      "(unat hi - 160) * 256 + unat lo = Suc (length p)"
      using EncodeFrame_long by blast
    with buf dec show ?thesis
      by (simp add: NextFrame_def decode_body_def Let_def)
  next
    case empty
    with buf dec show ?thesis
      by (simp add: NextFrame_def decode_body_def EncodeFrame_empty Let_def)
  next
    case short
    then obtain h where "EncodeFrame e p = h # last p # e # butlast p" "unat h = Suc (length p)"
      using EncodeFrame_short by blast
    moreover from short obtain q t where "p = q @ [t]"
      by (cases p rule: rev_cases) auto
    ultimately show ?thesis using short(2) buf dec
      by (simp add: NextFrame_def decode_body_def Let_def)
  qed
qed

lemma NextFrame_partial:
  assumes buf: "fbuf d = take k (EncodeFrame e p)" and k: "k < length (EncodeFrame e p)"
    and len: "length p \<le> max_payload"
  shows "NextFrame d = (Inl ErrShortRead, d)"
proof -
  consider (long) "159 \<le> length p" | (empty) "p = []" | (short) "p \<noteq> []" "length p < 159"
    by force
  then show ?thesis
  proof cases
    case long
    with len obtain hi lo where e: "EncodeFrame e p = hi # lo # e # p" and hi: "160 \<le> unat hi"
      and l: "(unat hi - 160) * 256 + unat lo = Suc (length p)"
      using EncodeFrame_long by blast
    consider "k = 0" | "k = 1" | "k \<ge> 2" by linarith
    then show ?thesis
    proof cases
      case 3
      have "fbuf d = hi # lo # take (k - 2) (e # p)"
        using 3 by (simp add: buf e take_Cons' numeral_2_eq_2)
      moreover have "length (take (k - 2) (e # p)) < Suc (length p)" using k 3 by (simp add: e)
      ultimately show ?thesis
        using hi l by (simp add: NextFrame_def Let_def del: take_Suc_Cons length_take)
    qed (use hi in \<open>simp_all add: NextFrame_def buf e\<close>)
  next
    case empty
    with buf k show ?thesis
      by (cases k) (auto simp: NextFrame_def EncodeFrame_empty Let_def)
  next
    case short
    then obtain h where e: "EncodeFrame e p = h # last p # e # butlast p" "unat h = Suc (length p)"
      using EncodeFrame_short by blast
    with short buf k show ?thesis
      by (cases k) (auto simp: NextFrame_def Let_def)
  qed
qed

section \<open>The opcode cipher interface\<close>

text \<open>
  What the framing layer relies on: both ends hold a cipher state, and decoding an opcode byte with
  the state it was encoded with returns the opcode and leaves both ends in the same next state.
\<close>

locale opcode_cipher =
  fixes encode :: "'s \<Rightarrow> byte \<Rightarrow> byte \<times> 's"
    and decode :: "'s \<Rightarrow> byte \<Rightarrow> byte \<times> 's"
  assumes decode_encode: "encode s op = (e, s') \<Longrightarrow> decode s e = (op, s')"

text \<open>The bytes one end writes for a sequence of packets, and the state it ends in.\<close>

fun encode_frames :: "('s \<Rightarrow> byte \<Rightarrow> byte \<times> 's) \<Rightarrow> 's \<Rightarrow> Frame list \<Rightarrow> byte list \<times> 's" where
  "encode_frames enc s [] = ([], s)"
| "encode_frames enc s (f # fs) =
     (let (e, s1) = enc s (Opcode f);
          (bs, s2) = encode_frames enc s1 fs
      in (EncodeFrame e (Payload f) @ bs, s2))"

definition sendable :: "Frame \<Rightarrow> bool" where
  "sendable f \<longleftrightarrow> length (Payload f) \<le> max_payload"

lemma ReadAllFrames_short:
  "NextFrame d = (Inl ErrShortRead, d) \<Longrightarrow> ReadAllFrames d = (([], None), d)"
  by (subst ReadAllFrames.simps) simp

lemma ReadAllFrames_step:
  "NextFrame d = (Inr f, d1) \<Longrightarrow> ReadAllFrames d1 = ((fs, e), d2) \<Longrightarrow>
     ReadAllFrames d = ((f # fs, e), d2)"
  by (subst ReadAllFrames.simps) simp

context opcode_cipher
begin

text \<open>
  The reader holds some bytes of the stream and the rest is still to come (\<open>later\<close>): it returns the
  frames that arrived whole and is then in the same position with respect to the remaining frames.
\<close>

lemma read_stream:
  "\<forall>f \<in> set fs. sendable f \<Longrightarrow> dfun d = decode \<Longrightarrow>
   fbuf d @ later = fst (encode_frames encode (dstate d) fs) \<Longrightarrow>
   \<exists>gs hs d'. fs = gs @ hs \<and> ReadAllFrames d = ((gs, None), d') \<and> dfun d' = decode \<and>
     fbuf d' @ later = fst (encode_frames encode (dstate d') hs) \<and> (later = [] \<longrightarrow> hs = [])"
proof (induction fs arbitrary: d)
  case Nil
  then have "NextFrame d = (Inl ErrShortRead, d)" by (simp add: NextFrame_def)
  then have "ReadAllFrames d = (([], None), d)" by (rule ReadAllFrames_short)
  with Nil show ?case by auto
next
  case (Cons f fs)
  obtain e s1 where e: "encode (dstate d) (Opcode f) = (e, s1)" by fastforce
  have dec: "dfun d (dstate d) e = (Opcode f, s1)"
    using Cons.prems(2) decode_encode [OF e] by simp
  have len: "length (Payload f) \<le> max_payload" using Cons.prems(1) by (simp add: sendable_def)
  let ?E = "EncodeFrame e (Payload f)" and ?T = "fst (encode_frames encode s1 fs)"
  have stream: "fbuf d @ later = ?E @ ?T"
    using Cons.prems(3) e by (simp add: case_prod_beta)
  show ?case
  proof (cases "length (fbuf d) < length ?E")
    case True
    then have "fbuf d = take (length (fbuf d)) ?E"
      using stream by (metis append_eq_append_conv_if less_imp_le_nat)
    then have "NextFrame d = (Inl ErrShortRead, d)"
      using True len by (rule NextFrame_partial)
    then have "ReadAllFrames d = (([], None), d)" by (rule ReadAllFrames_short)
    moreover have "later \<noteq> []" using True stream by (metis append_Nil2 length_append not_add_less1)
    ultimately show ?thesis using Cons.prems
      by (intro exI [of _ "[]"] exI [of _ "f # fs"] exI [of _ d]) auto
  next
    case False
    then obtain r where r: "fbuf d = ?E @ r" "r @ later = ?T"
      using append_prefix_split [OF stream] by auto
    let ?d = "d\<lparr>fbuf := r, dstate := s1\<rparr>"
    have next_f: "NextFrame d = (Inr f, ?d)"
      using NextFrame_encoded [OF r(1) len dec] by simp
    from Cons.prems r(2) Cons.IH [of ?d] obtain gs hs d' where
      "fs = gs @ hs" "ReadAllFrames ?d = ((gs, None), d')" "dfun d' = decode"
      "fbuf d' @ later = fst (encode_frames encode (dstate d') hs)" "later = [] \<longrightarrow> hs = []"
      by auto
    with ReadAllFrames_step [OF next_f] show ?thesis
      by (intro exI [of _ "f # gs"] exI [of _ hs] exI [of _ d']) auto
  qed
qed

end

text \<open>Before the login response both ends use the identity.\<close>

interpretation plain: opcode_cipher PlainDecode PlainDecode
  by unfold_locales (simp add: PlainDecode_def)

text \<open>
  The limit on the payload is real: a payload of 24575 bytes, one more than \<open>max_payload\<close>, is
  encoded without an error into a frame whose two length bytes have wrapped to zero, and the
  decoder rejects the frame as one of invalid length 0.
\<close>

theorem encode_frame_wraps:
  assumes "length p = 24575"
  shows "EncodeFrame e p = [0, 0, e] @ p \<and>
    fst (NextFrame (Feed (EncodeFrame e p) (NewFrameDecoder None ()))) =
      Inl (ErrMsg ''v235: invalid frame length %d'' [0])"
proof -
  have "EncodeFrame e p = [0, 0, e] @ p"
    using assms by (simp add: EncodeFrame_def)
  then show ?thesis by (simp add: NextFrame_def Feed_def NewFrameDecoder_def)
qed

theorem encode_frame_wraps_witness:
  "EncodeFrame 7 (replicate 24575 0) = [0, 0, 7] @ replicate 24575 0"
  using encode_frame_wraps [of "replicate 24575 0" 7] by (simp only: length_replicate simp_thms)

end
