(* ===== verification/Isaac.thy ===== *)
theory Isaac
  imports WireFrame
begin

text \<open>
  The ISAAC stream cipher of \<open>proto/v235/isaac.go\<close> that hides the opcode byte of every packet after
  login. The arrays \<open>results\<close> and \<open>mem\<close> of 256 words are lists; the unrolled body of the
  generator is one step applied with its four shifts in turn.
\<close>

record Isaac =
  icount :: nat
  results :: "u32 list"
  mem :: "u32 list"
  ia :: u32
  ib :: u32
  ic :: u32

definition isaacSizeLog :: nat where
  "isaacSizeLog = 8"

definition isaacSize :: nat where
  "isaacSize = 256"

definition isaacMask :: u32 where
  "isaacMask = 1020"

definition isaacRatio :: u32 where
  "isaacRatio = 0x9e3779b9"

definition NewIsaac :: Isaac where
  "NewIsaac = \<lparr>icount = 0, results = replicate isaacSize 0, mem = replicate isaacSize 0,
     ia = 0, ib = 0, ic = 0\<rparr>"

section \<open>The generator\<close>

text \<open>\<open>s.mem[(x & isaacMask) >> 2]\<close> and \<open>s.mem[((y >> isaacSizeLog) & isaacMask) >> 2]\<close>.\<close>

definition mem_low :: "u32 list \<Rightarrow> u32 \<Rightarrow> u32" where
  "mem_low m x = m ! unat (drop_bit 2 (x AND isaacMask))"

definition mem_high :: "u32 list \<Rightarrow> u32 \<Rightarrow> u32" where
  "mem_high m y = m ! unat (drop_bit 2 (drop_bit isaacSizeLog y AND isaacMask))"

text \<open>One quarter of the unrolled body: \<open>mix\<close> is its update of \<open>s.a\<close>.\<close>

definition isaac_step :: "(u32 \<Rightarrow> u32) \<Rightarrow> nat \<Rightarrow> nat \<Rightarrow> Isaac \<Rightarrow> Isaac" where
  "isaac_step mix i j s =
     (let x = mem s ! i;
          a1 = mix (ia s);
          a2 = a1 + mem s ! j;
          y = mem_low (mem s) x + a2 + ib s;
          m1 = (mem s)[i := y];
          b1 = mem_high m1 y + x
      in s\<lparr>ia := a2, mem := m1, ib := b1, results := (results s)[i := b1]\<rparr>)"

definition isaac_body :: "nat \<Rightarrow> nat \<Rightarrow> Isaac \<Rightarrow> Isaac" where
  "isaac_body i j s =
     isaac_step (\<lambda>a. a XOR drop_bit 16 a) (i + 3) (j + 3)
      (isaac_step (\<lambda>a. a XOR push_bit 2 a) (i + 2) (j + 2)
        (isaac_step (\<lambda>a. a XOR drop_bit 6 a) (i + 1) (j + 1)
          (isaac_step (\<lambda>a. a XOR push_bit 13 a) i j s)))"

text \<open>The two loops of \<open>isaac()\<close>: \<open>n\<close> passes of the body, four indices each.\<close>

fun isaac_loop :: "nat \<Rightarrow> nat \<Rightarrow> nat \<Rightarrow> Isaac \<Rightarrow> Isaac" where
  "isaac_loop 0 i j s = s"
| "isaac_loop (Suc n) i j s = isaac_loop n (i + 4) (j + 4) (isaac_body i j s)"

definition isaac :: "Isaac \<Rightarrow> Isaac" where
  "isaac s =
     (let s1 = s\<lparr>ic := ic s + 1\<rparr>;
          s2 = s1\<lparr>ib := ib s1 + ic s1\<rparr>;
          s3 = isaac_loop (isaacSize div 2 div 4) 0 (isaacSize div 2) s2
      in isaac_loop (isaacSize div 2 div 4) (isaacSize div 2) 0 s3)"

section \<open>Seeding\<close>

text \<open>The eight words \<open>a..h\<close> that \<open>init\<close> mixes.\<close>

type_synonym mixwords = "u32 \<times> u32 \<times> u32 \<times> u32 \<times> u32 \<times> u32 \<times> u32 \<times> u32"

definition isaac_mix :: "mixwords \<Rightarrow> mixwords" where
  "isaac_mix w =
     (let (a, b, c, d, e, f, g, h) = w;
          a = a XOR push_bit 11 b; d = d + a; b = b + c;
          b = b XOR drop_bit 2 c; e = e + b; c = c + d;
          c = c XOR push_bit 8 d; f = f + c; d = d + e;
          d = d XOR drop_bit 16 e; g = g + d; e = e + f;
          e = e XOR push_bit 10 f; h = h + e; f = f + g;
          f = f XOR drop_bit 4 g; a = a + f; g = g + h;
          g = g XOR push_bit 8 h; b = b + g; h = h + a;
          h = h XOR drop_bit 9 a; c = c + h; a = a + b
      in (a, b, c, d, e, f, g, h))"

definition mix_add :: "u32 list \<Rightarrow> nat \<Rightarrow> mixwords \<Rightarrow> mixwords" where
  "mix_add xs i w =
     (let (a, b, c, d, e, f, g, h) = w
      in (a + xs ! i, b + xs ! (i + 1), c + xs ! (i + 2), d + xs ! (i + 3),
          e + xs ! (i + 4), f + xs ! (i + 5), g + xs ! (i + 6), h + xs ! (i + 7)))"

definition mix_store :: "nat \<Rightarrow> mixwords \<Rightarrow> u32 list \<Rightarrow> u32 list" where
  "mix_store i w m =
     (let (a, b, c, d, e, f, g, h) = w
      in m[i := a, i + 1 := b, i + 2 := c, i + 3 := d, i + 4 := e, i + 5 := f, i + 6 := g, i + 7 := h])"

text \<open>The first loop of \<open>init\<close> adds the seed (\<open>results\<close>), the second adds \<open>mem\<close> itself.\<close>

fun init_pass1 :: "bool \<Rightarrow> nat \<Rightarrow> nat \<Rightarrow> mixwords \<Rightarrow> Isaac \<Rightarrow> mixwords \<times> Isaac" where
  "init_pass1 secondPass 0 i w s = (w, s)"
| "init_pass1 secondPass (Suc n) i w s =
     (let w1 = (if secondPass then mix_add (results s) i w else w);
          w2 = isaac_mix w1
      in init_pass1 secondPass n (i + 8) w2 (s\<lparr>mem := mix_store i w2 (mem s)\<rparr>))"

fun init_pass2 :: "nat \<Rightarrow> nat \<Rightarrow> mixwords \<Rightarrow> Isaac \<Rightarrow> mixwords \<times> Isaac" where
  "init_pass2 0 i w s = (w, s)"
| "init_pass2 (Suc n) i w s =
     (let w2 = isaac_mix (mix_add (mem s) i w)
      in init_pass2 n (i + 8) w2 (s\<lparr>mem := mix_store i w2 (mem s)\<rparr>))"

definition isaac_init :: "bool \<Rightarrow> Isaac \<Rightarrow> Isaac" where
  "isaac_init secondPass s =
     (let r = isaacRatio;
          w0 = (isaac_mix ^^ 4) (r, r, r, r, r, r, r, r);
          (w1, s1) = init_pass1 secondPass (isaacSize div 8) 0 w0 s;
          s2 = (if secondPass then snd (init_pass2 (isaacSize div 8) 0 w1 s1) else s1);
          s3 = isaac s2
      in s3\<lparr>icount := isaacSize\<rparr>)"

text \<open>At most 256 keys are copied; the remaining results are zero.\<close>

definition SetKeys :: "u32 list \<Rightarrow> Isaac \<Rightarrow> Isaac" where
  "SetKeys keys s =
     (let ks = take isaacSize keys
      in isaac_init True (s\<lparr>results := ks @ replicate (isaacSize - length ks) 0\<rparr>))"

definition NextValue :: "Isaac \<Rightarrow> u32 \<times> Isaac" where
  "NextValue s =
     (let s1 = (if icount s = 0 then (isaac s)\<lparr>icount := isaacSize\<rparr> else s);
          s2 = s1\<lparr>icount := icount s1 - 1\<rparr>
      in (results s2 ! icount s2, s2))"

definition EncodeOpcode :: "Isaac \<Rightarrow> byte \<Rightarrow> byte \<times> Isaac" where
  "EncodeOpcode s op =
     (let (v, s') = NextValue s in (ucast ((ucast op :: u32) + v) AND 0xFF, s'))"

definition DecodeOpcode :: "Isaac \<Rightarrow> byte \<Rightarrow> byte \<times> Isaac" where
  "DecodeOpcode s enc =
     (let (v, s') = NextValue s in (ucast ((ucast enc :: u32) - v) AND 0xFF, s'))"

section \<open>The arrays keep their size, so no index is out of range\<close>

definition isaac_wf :: "Isaac \<Rightarrow> bool" where
  "isaac_wf s \<longleftrightarrow> length (results s) = isaacSize \<and> length (mem s) = isaacSize \<and> icount s \<le> isaacSize"

lemma isaac_index: "unat (drop_bit 2 (x AND isaacMask)) < isaacSize"
proof -
  have "x AND isaacMask \<le> isaacMask" by (rule word_and_le1)
  then have "unat (x AND isaacMask) \<le> 1020"
    by (simp add: word_le_nat_alt isaacMask_def)
  then show ?thesis
    by (simp add: isaacSize_def drop_bit_eq_div unat_div)
qed

lemma isaac_step_lengths [simp]:
  "length (results (isaac_step f i j s)) = length (results s)"
  "length (mem (isaac_step f i j s)) = length (mem s)"
  "icount (isaac_step f i j s) = icount s"
  by (simp_all add: isaac_step_def Let_def)

lemma isaac_loop_lengths [simp]:
  "length (results (isaac_loop n i j s)) = length (results s)"
  "length (mem (isaac_loop n i j s)) = length (mem s)"
  "icount (isaac_loop n i j s) = icount s"
  by (induction n arbitrary: i j s) (simp_all add: isaac_body_def)

lemma isaac_lengths [simp]:
  "length (results (isaac s)) = length (results s)" "length (mem (isaac s)) = length (mem s)"
  by (simp_all add: isaac_def Let_def)

lemma isaac_init_lengths [simp]:
  "length (mem (snd (init_pass1 p n i w s))) = length (mem s)"
  "length (results (snd (init_pass1 p n i w s))) = length (results s)"
  "length (mem (snd (init_pass2 n i w s))) = length (mem s)"
  "length (results (snd (init_pass2 n i w s))) = length (results s)"
  by (induction n arbitrary: i w s)
     (simp_all add: mix_store_def Let_def case_prod_beta)

lemma isaac_wf_New [wf_intros]: "isaac_wf NewIsaac"
  by (simp add: isaac_wf_def NewIsaac_def)

lemma isaac_wf_SetKeys [wf_intros]: "isaac_wf s \<Longrightarrow> isaac_wf (SetKeys keys s)"
  by (simp add: isaac_wf_def SetKeys_def isaac_init_def Let_def case_prod_beta)

lemma isaac_wf_NextValue [wf_intros]:
  "isaac_wf s \<Longrightarrow> isaac_wf (snd (NextValue s)) \<and> icount (snd (NextValue s)) < isaacSize"
  by (auto simp: isaac_wf_def NextValue_def Let_def isaacSize_def)

section \<open>The cipher satisfies the framing layer's contract\<close>

lemma Decode_Encode: "EncodeOpcode s op = (e, s') \<Longrightarrow> DecodeOpcode s e = (op, s')"
proof -
  assume enc: "EncodeOpcode s op = (e, s')"
  obtain v t where n: "NextValue s = (v, t)" by fastforce
  from enc n have e: "e = ucast (ucast op + v)" and s: "s' = t"
    by (auto simp: EncodeOpcode_def byte_and_ff)
  have "(ucast (ucast e - v :: u32) :: byte) = op"
    by (simp add: e byte_of_u32_add byte_of_u32_diff byte_of_u32_of_byte)
  with n s show ?thesis by (simp add: DecodeOpcode_def byte_and_ff)
qed

interpretation isaac: opcode_cipher EncodeOpcode DecodeOpcode
  by unfold_locales (rule Decode_Encode)

end
