(* ===== verification/Xtea.thy ===== *)
theory Xtea
  imports Prelude
begin

text \<open>
  The XTEA block cipher of \<open>proto/v235/xtea.go\<close>, used for the username block of the login packet.
  The key is the Go array \<open>[4]uint32\<close>, a list of four words; a call returns the error and the slice
  it worked on in place.
\<close>

definition xteaRounds :: nat where
  "xteaRounds = 32"

definition xteaDelta :: u32 where
  "xteaDelta = 0x9E3779B9"

definition xteaDecryptInitSum :: u32 where
  "xteaDecryptInitSum = 0xC6EF3720"

text \<open>\<open>((v << 4) ^ (v >> 5)) + v\<close>, and the two key words a round takes.\<close>

definition xtea_f :: "u32 \<Rightarrow> u32" where
  "xtea_f v = (push_bit 4 v XOR drop_bit 5 v) + v"

definition key_lo :: "u32 list \<Rightarrow> u32 \<Rightarrow> u32" where
  "key_lo keys acc = keys ! unat (acc AND 3)"

definition key_hi :: "u32 list \<Rightarrow> u32 \<Rightarrow> u32" where
  "key_hi keys acc = keys ! unat (drop_bit 11 acc AND 3)"

fun xtea_enc_rounds :: "nat \<Rightarrow> u32 list \<Rightarrow> u32 \<times> u32 \<times> u32 \<Rightarrow> u32 \<times> u32 \<times> u32" where
  "xtea_enc_rounds 0 keys st = st"
| "xtea_enc_rounds (Suc r) keys (v0, v1, acc) =
     (let v0 = v0 + (xtea_f v1 XOR (acc + key_lo keys acc));
          acc = acc + xteaDelta;
          v1 = v1 + (xtea_f v0 XOR (acc + key_hi keys acc))
      in xtea_enc_rounds r keys (v0, v1, acc))"

fun xtea_dec_rounds :: "nat \<Rightarrow> u32 list \<Rightarrow> u32 \<times> u32 \<times> u32 \<Rightarrow> u32 \<times> u32 \<times> u32" where
  "xtea_dec_rounds 0 keys st = st"
| "xtea_dec_rounds (Suc r) keys (v0, v1, acc) =
     (let v1 = v1 - (xtea_f v0 XOR (acc + key_hi keys acc));
          acc = acc - xteaDelta;
          v0 = v0 - (xtea_f v1 XOR (acc + key_lo keys acc))
      in xtea_dec_rounds r keys (v0, v1, acc))"

definition xtea_enc_block :: "u32 list \<Rightarrow> u32 \<times> u32 \<Rightarrow> u32 \<times> u32" where
  "xtea_enc_block keys v =
     (let (v0, v1, acc) = xtea_enc_rounds xteaRounds keys (fst v, snd v, 0) in (v0, v1))"

definition xtea_dec_block :: "u32 list \<Rightarrow> u32 \<times> u32 \<Rightarrow> u32 \<times> u32" where
  "xtea_dec_block keys v =
     (let (v0, v1, acc) = xtea_dec_rounds xteaRounds keys (fst v, snd v, xteaDecryptInitSum)
      in (v0, v1))"

text \<open>The loop over the 8-byte blocks; a shorter rest is left alone (it never occurs).\<close>

fun xtea_blocks :: "(u32 \<times> u32 \<Rightarrow> u32 \<times> u32) \<Rightarrow> byte list \<Rightarrow> byte list" where
  "xtea_blocks f (a # b # c # d # e # g # h # i # rest) =
     (let v = f (be32 a b c d, be32 e g h i)
      in put32 (fst v) @ put32 (snd v) @ xtea_blocks f rest)"
| "xtea_blocks f rest = rest"

definition XTEAEncrypt :: "byte list \<Rightarrow> u32 list \<Rightarrow> goerr option \<times> byte list" where
  "XTEAEncrypt plaintext keys =
     (if length plaintext mod 8 \<noteq> 0 then
        (Some (ErrMsg ''xtea: plaintext length %d is not a multiple of 8'' [int (length plaintext)]),
         plaintext)
      else (None, xtea_blocks (xtea_enc_block keys) plaintext))"

definition XTEADecrypt :: "byte list \<Rightarrow> u32 list \<Rightarrow> goerr option \<times> byte list" where
  "XTEADecrypt ciphertext keys =
     (if length ciphertext mod 8 \<noteq> 0 then
        (Some (ErrMsg ''xtea: ciphertext length %d is not a multiple of 8'' [int (length ciphertext)]),
         ciphertext)
      else (None, xtea_blocks (xtea_dec_block keys) ciphertext))"

section \<open>Decryption inverts encryption\<close>

text \<open>The rounds of the decryption undo those of the encryption from the last one back.\<close>

lemma xtea_enc_rounds_append:
  "xtea_enc_rounds (m + n) keys st = xtea_enc_rounds n keys (xtea_enc_rounds m keys st)"
  by (induction m keys st rule: xtea_enc_rounds.induct) (simp_all add: Let_def)

lemma xtea_dec_enc_round:
  "xtea_dec_rounds (Suc r) keys (xtea_enc_rounds 1 keys st) = xtea_dec_rounds r keys st"
  by (cases st) (simp add: Let_def)

lemma xtea_dec_enc_rounds: "xtea_dec_rounds n keys (xtea_enc_rounds n keys st) = st"
proof (induction n arbitrary: st)
  case 0
  then show ?case by simp
next
  case (Suc n)
  have "xtea_enc_rounds (Suc n) keys st = xtea_enc_rounds 1 keys (xtea_enc_rounds n keys st)"
    using xtea_enc_rounds_append [of n 1] by simp
  with Suc show ?case by (simp only: xtea_dec_enc_round)
qed

lemma xtea_enc_rounds_sum:
  "snd (snd (xtea_enc_rounds n keys (v0, v1, acc))) = acc + of_nat n * xteaDelta"
  by (induction n arbitrary: v0 v1 acc) (simp_all add: Let_def algebra_simps)

text \<open>The precomputed start of the decryption is where 32 rounds leave the sum.\<close>

lemma xteaDecryptInitSum_eq: "of_nat xteaRounds * xteaDelta = xteaDecryptInitSum"
  by (simp add: xteaRounds_def xteaDelta_def xteaDecryptInitSum_def)

lemma xtea_dec_enc_block: "xtea_dec_block keys (xtea_enc_block keys v) = v"
proof -
  obtain v0 v1 s where r: "xtea_enc_rounds xteaRounds keys (fst v, snd v, 0) = (v0, v1, s)"
    by (metis prod_cases3)
  then have "s = xteaDecryptInitSum"
    using xtea_enc_rounds_sum [of xteaRounds keys "fst v" "snd v" 0]
    by (simp add: xteaDecryptInitSum_eq)
  with r xtea_dec_enc_rounds [of xteaRounds keys "(fst v, snd v, 0)"] show ?thesis
    by (simp add: xtea_enc_block_def xtea_dec_block_def)
qed

lemma length_xtea_blocks [simp]: "length (xtea_blocks f p) = length p"
  by (induction f p rule: xtea_blocks.induct) (simp_all add: Let_def)

lemma xtea_blocks_cancel:
  "(\<And>v. g (f v) = v) \<Longrightarrow> xtea_blocks g (xtea_blocks f p) = p"
proof (induction f p rule: xtea_blocks.induct)
  case (1 f a b c d e k h i rest)
  obtain v0 v1 where v: "f (be32 a b c d, be32 e k h i) = (v0, v1)" by fastforce
  obtain a0 a1 a2 a3 where p0: "put32 v0 = [a0, a1, a2, a3]" "be32 a0 a1 a2 a3 = v0"
    using put32_conv by blast
  obtain b0 b1 b2 b3 where p1: "put32 v1 = [b0, b1, b2, b3]" "be32 b0 b1 b2 b3 = v1"
    using put32_conv by blast
  have "g (v0, v1) = (be32 a b c d, be32 e k h i)"
    using 1(2) [of "(be32 a b c d, be32 e k h i)"] v by simp
  moreover have "xtea_blocks g (xtea_blocks f rest) = rest"
    using 1 by simp
  ultimately show ?case using v p0 p1 by simp
qed simp_all

lemma xtea_cancel:
  "length p mod 8 = 0 \<Longrightarrow> XTEAEncrypt p keys = (None, c) \<Longrightarrow> XTEADecrypt c keys = (None, p)"
  by (auto simp: XTEAEncrypt_def XTEADecrypt_def xtea_blocks_cancel xtea_dec_enc_block)

lemma length_XTEAEncrypt: "XTEAEncrypt p keys = (e, c) \<Longrightarrow> length c = length p"
  by (auto simp: XTEAEncrypt_def split: if_splits)

text \<open>
  XTEA round trip: encrypting a buffer of whole 8-byte blocks in place succeeds, keeps its
  length, and decrypting the result under the same key restores it; a buffer of any other length
  is refused by both and left as it was.
\<close>

theorem xtea_roundtrip:
  "if length p mod 8 = 0
   then (\<exists>c. XTEAEncrypt p keys = (None, c) \<and> length c = length p \<and> XTEADecrypt c keys = (None, p))
   else (\<exists>e d. XTEAEncrypt p keys = (Some e, p) \<and> XTEADecrypt p keys = (Some d, p))"
  by (auto simp: XTEAEncrypt_def XTEADecrypt_def xtea_blocks_cancel xtea_dec_enc_block)

end
