(* ===== verification/GoString.thy ===== *)
theory GoString
  imports Prelude
begin

text \<open>
  Go strings. A string is its bytes; \<open>for _, r := range s\<close> and \<open>[]rune(s)\<close> decode it as UTF-8 with
  the rule of package \<open>unicode/utf8\<close>: an invalid byte is one rune U+FFFD. \<open>string(runes)\<close> encodes
  them again. Runes are naturals.
\<close>

type_synonym gostring = "byte list"

definition RuneError :: nat where
  "RuneError = 0xFFFD"

text \<open>The bytes a literal of the source has (all literals here are ASCII).\<close>

definition lit :: "string \<Rightarrow> gostring" where
  "lit s = map (\<lambda>c. of_nat (of_char c)) s"

definition is_cont :: "byte \<Rightarrow> bool" where
  "is_cont b \<longleftrightarrow> 0x80 \<le> unat b \<and> unat b < 0xC0"

text \<open>
  The accepted range of the byte after the leading byte \<open>b0\<close> of a sequence of length 3 or 4: narrower
  where the wider one would admit an overlong form, a surrogate or a value past U+10FFFF.
\<close>

definition second_ok :: "nat \<Rightarrow> nat \<Rightarrow> bool" where
  "second_ok b0 b1 \<longleftrightarrow>
     (if b0 = 0xE0 then 0xA0 \<le> b1 \<and> b1 < 0xC0
      else if b0 = 0xED then 0x80 \<le> b1 \<and> b1 < 0xA0
      else if b0 = 0xF0 then 0x90 \<le> b1 \<and> b1 < 0xC0
      else if b0 = 0xF4 then 0x80 \<le> b1 \<and> b1 < 0x90
      else 0x80 \<le> b1 \<and> b1 < 0xC0)"

text \<open>One rune off the front: its value and the number of bytes it took.\<close>

fun decode_rune :: "gostring \<Rightarrow> nat \<times> nat" where
  "decode_rune [] = (RuneError, 0)"
| "decode_rune (x # xs) =
     (let b0 = unat x in
      if b0 < 0x80 then (b0, 1)
      else if 0xC2 \<le> b0 \<and> b0 < 0xE0 then
        (case xs of
           y # _ \<Rightarrow> (if is_cont y then ((b0 - 0xC0) * 64 + (unat y - 0x80), 2) else (RuneError, 1))
         | _ \<Rightarrow> (RuneError, 1))
      else if 0xE0 \<le> b0 \<and> b0 < 0xF0 then
        (case xs of
           y # z # _ \<Rightarrow>
             (if second_ok b0 (unat y) \<and> is_cont z
              then ((b0 - 0xE0) * 4096 + (unat y - 0x80) * 64 + (unat z - 0x80), 3)
              else (RuneError, 1))
         | _ \<Rightarrow> (RuneError, 1))
      else if 0xF0 \<le> b0 \<and> b0 < 0xF5 then
        (case xs of
           y # z # w # _ \<Rightarrow>
             (if second_ok b0 (unat y) \<and> is_cont z \<and> is_cont w
              then ((b0 - 0xF0) * 262144 + (unat y - 0x80) * 4096 + (unat z - 0x80) * 64
                    + (unat w - 0x80), 4)
              else (RuneError, 1))
         | _ \<Rightarrow> (RuneError, 1))
      else (RuneError, 1))"

lemma decode_rune_width: "s \<noteq> [] \<Longrightarrow> 1 \<le> snd (decode_rune s)"
  by (cases s) (auto simp: Let_def split: list.splits)

function runes :: "gostring \<Rightarrow> nat list" where
  "runes [] = []"
| "runes (x # xs) =
     (let (r, w) = decode_rune (x # xs) in r # runes (drop w (x # xs)))"
  by pat_completeness auto
termination
proof (relation "measure length", goal_cases)
  case (2 x xs q r w)
  then have "1 \<le> w" using decode_rune_width [of "x # xs"] by (metis list.simps(3) snd_conv)
  then show ?case by simp
qed simp

declare runes.simps(2) [simp del]

definition encode_rune :: "nat \<Rightarrow> gostring" where
  "encode_rune r =
     (if r < 0x80 then [of_nat r]
      else if r < 0x800 then [of_nat (0xC0 + r div 64), of_nat (0x80 + r mod 64)]
      else if 0x10FFFF < r \<or> (0xD800 \<le> r \<and> r < 0xE000) then [0xEF, 0xBF, 0xBD]
      else if r < 0x10000 then
        [of_nat (0xE0 + r div 4096), of_nat (0x80 + r div 64 mod 64), of_nat (0x80 + r mod 64)]
      else
        [of_nat (0xF0 + r div 262144), of_nat (0x80 + r div 4096 mod 64),
         of_nat (0x80 + r div 64 mod 64), of_nat (0x80 + r mod 64)])"

definition string_of_runes :: "nat list \<Rightarrow> gostring" where
  "string_of_runes rs = concat (map encode_rune rs)"

section \<open>Strings of runes below U+0800 survive the round trip\<close>

lemma runes_ascii_cons: "unat x < 0x80 \<Longrightarrow> runes (x # xs) = unat x # runes xs"
  by (subst runes.simps) simp

lemma runes_ascii: "\<forall>x \<in> set s. unat x < 0x80 \<Longrightarrow> runes s = map unat s"
  by (induction s) (simp_all add: runes_ascii_cons)

lemma runes_encode_append:
  assumes "r < 0x800"
  shows "runes (encode_rune r @ xs) = r # runes xs"
proof (cases "r < 0x80")
  case True
  then have "unat (of_nat r :: byte) = r" by (simp add: unat_of_nat)
  with True show ?thesis by (simp add: encode_rune_def runes_ascii_cons)
next
  case False
  let ?b = "of_nat (0xC0 + r div 64) :: byte" and ?c = "of_nat (0x80 + r mod 64) :: byte"
  have b: "unat ?b = 0xC0 + r div 64" using assms by (subst unat_of_nat) simp
  have c: "unat ?c = 0x80 + r mod 64" by (subst unat_of_nat) simp
  have "decode_rune (?b # ?c # xs) = (r, 2)"
  proof -
    have "2 \<le> r div 64" "r div 64 < 32" using False assms by linarith+
    with b c show ?thesis by (simp add: is_cont_def Let_def del: of_nat_add)
  qed
  then show ?thesis
    using False assms by (simp add: encode_rune_def runes.simps(2) del: of_nat_add decode_rune.simps)
qed

lemma runes_string_of_runes: "\<forall>r \<in> set rs. r < 0x800 \<Longrightarrow> runes (string_of_runes rs) = rs"
  by (induction rs) (simp_all add: string_of_runes_def runes_encode_append)

end
