(* ===== verification/Login.thy ===== *)
theory Login
  imports Xtea WireFrame WireBuffer GoString
begin

text \<open>
  The login packet: raw RSA (\<open>proto/v235/rsa.go\<close>), the two plaintext blocks and the payload
  (\<open>proto/v235/login.go\<close>).

  \<open>crypto/rand\<close> is an argument: a source that, given the number of bytes wanted, returns them or an
  error, and its next state.
\<close>

section \<open>Big integers and RSA\<close>

fun nat_of_bytes :: "byte list \<Rightarrow> nat \<Rightarrow> nat" where
  "nat_of_bytes [] acc = acc"
| "nat_of_bytes (b # bs) acc = nat_of_bytes bs (256 * acc + unat b)"

text \<open>\<open>big.Int.Bytes\<close>: the minimal big-endian form, empty for zero.\<close>

fun bytes_of_nat :: "nat \<Rightarrow> byte list" where
  "bytes_of_nat n = (if n = 0 then [] else bytes_of_nat (n div 256) @ [of_nat (n mod 256)])"

declare bytes_of_nat.simps [simp del]

text \<open>\<open>big.Int.Exp(m, e, n)\<close> by repeated squaring.\<close>

fun pow_mod :: "nat \<Rightarrow> nat \<Rightarrow> nat \<Rightarrow> nat" where
  "pow_mod m e n =
     (if e = 0 then 1 mod n
      else
        let h = pow_mod (m * m mod n) (e div 2) n
        in if odd e then h * m mod n else h)"

declare pow_mod.simps [simp del]

record RSAPublicKey =
  Modulus :: nat
  Exponent :: nat

definition DefaultServerRSA :: RSAPublicKey where
  "DefaultServerRSA =
     \<lparr>Modulus = 7634250561283973106419144827843935010165327069935723928109242614288318739395804201883596278169185387687268116837066108754542364007806573724086207095863517,
      Exponent = 65537\<rparr>"

definition Encrypt :: "RSAPublicKey \<Rightarrow> byte list \<Rightarrow> goerr + byte list" where
  "Encrypt k plaintext =
     (if length plaintext = 0 then Inl (ErrMsg ''rsa: empty plaintext'' [])
      else
        let m = nat_of_bytes plaintext 0 in
        if m \<ge> Modulus k then Inl (ErrMsg ''rsa: plaintext too large for modulus'' [])
        else
          let c = pow_mod m (Exponent k) (Modulus k);
              b = bytes_of_nat c
          in if length b > 0 \<and> (b ! 0) AND 0x80 \<noteq> 0 then Inr (0 # b) else Inr b)"

section \<open>The plaintext blocks\<close>

text \<open>The loop of \<open>encodePassword\<close> stops once 20 bytes are there; then it pads with spaces.\<close>

fun password_runes :: "nat list \<Rightarrow> byte list \<Rightarrow> byte list" where
  "password_runes [] tr = tr"
| "password_runes (r # rs) tr =
     (let tr' = tr @ [if r = 0x20 then 0x5F else of_nat r]
      in if length tr' \<ge> 20 then tr' else password_runes rs tr')"

definition encodePassword :: "gostring \<Rightarrow> byte list" where
  "encodePassword pw =
     (let tr = password_runes (runes pw) [] in take 20 (tr @ replicate (20 - length tr) 0x20))"

definition BuildRSABlock :: "gostring \<Rightarrow> u32 list \<Rightarrow> u32 list \<Rightarrow> byte list" where
  "BuildRSABlock password keys nonces =
     [10] @ concat (map put32 (take 4 keys)) @ encodePassword password @ [0xFF]
     @ concat (map put32 (take 5 nonces))
     @ [ucast (drop_bit 16 (nonces ! 5)), ucast (drop_bit 8 (nonces ! 5)), ucast (nonces ! 5)]"

definition BuildXTEABlock :: "gostring \<Rightarrow> u32 list \<Rightarrow> byte list" where
  "BuildXTEABlock username nonces =
     (let fixed = 1 + 24;
          total = fixed + length username;
          rem = total mod 8;
          total = (if rem \<noteq> 0 then total + (8 - rem) else total)
      in [30] @ concat (map put32 (take 6 (drop 6 nonces))) @ username
         @ replicate (total - (fixed + length username)) 0)"

section \<open>The payload\<close>

record LoginPayload =
  Username :: gostring
  Password :: gostring
  ClientVersion :: u16
  IsaacKeys :: "u32 list"
  Nonces :: "u32 list"

definition isZeroKeys :: "u32 list \<Rightarrow> bool" where
  "isZeroKeys k \<longleftrightarrow> k ! 0 = 0 \<and> k ! 1 = 0 \<and> k ! 2 = 0 \<and> k ! 3 = 0"

definition isZeroNonces :: "u32 list \<Rightarrow> bool" where
  "isZeroNonces n \<longleftrightarrow> list_all (\<lambda>v. v = 0) n"

type_synonym 'r entropy = "nat \<Rightarrow> 'r \<Rightarrow> (goerr + byte list) \<times> 'r"

fun u32_list :: "nat \<Rightarrow> byte list \<Rightarrow> u32 list" where
  "u32_list (Suc n) (a # b # c # d # rest) = be32 a b c d # u32_list n rest"
| "u32_list n rest = []"

definition randomKeys :: "'r entropy \<Rightarrow> 'r \<Rightarrow> (goerr + u32 list) \<times> 'r" where
  "randomKeys rand s =
     (case rand 16 s of
        (Inl e, s') \<Rightarrow> (Inl e, s')
      | (Inr buf, s') \<Rightarrow> (Inr (u32_list 4 buf), s'))"

definition randomNonces :: "'r entropy \<Rightarrow> 'r \<Rightarrow> (goerr + u32 list) \<times> 'r" where
  "randomNonces rand s =
     (case rand 48 s of
        (Inl e, s') \<Rightarrow> (Inl e, s')
      | (Inr buf, s') \<Rightarrow> (Inr (u32_list 12 buf), s'))"

text \<open>The fields the method fills in are those of the receiver it was called on.\<close>

definition fill_defaults :: "'r entropy \<Rightarrow> 'r \<Rightarrow> LoginPayload \<Rightarrow> (goerr + LoginPayload) \<times> 'r" where
  "fill_defaults rand s p =
     (let (rk, s1) = (if isZeroKeys (IsaacKeys p) then randomKeys rand s else (Inr (IsaacKeys p), s))
      in case rk of
           Inl e \<Rightarrow> (Inl e, s1)
         | Inr keys \<Rightarrow>
             (let p1 = p\<lparr>IsaacKeys := keys\<rparr>;
                  (rn, s2) = (if isZeroNonces (Nonces p1) then randomNonces rand s1
                              else (Inr (Nonces p1), s1))
              in case rn of
                   Inl e \<Rightarrow> (Inl e, s2)
                 | Inr nonces \<Rightarrow> (Inr (p1\<lparr>Nonces := nonces\<rparr>), s2)))"

definition encodePayload :: "'r entropy \<Rightarrow> RSAPublicKey \<Rightarrow> LoginPayload \<Rightarrow> 'r \<Rightarrow> (goerr + byte list \<times> LoginPayload) \<times> 'r" where
  "encodePayload rand pub p s =
     (case fill_defaults rand s p of
        (Inl e, s') \<Rightarrow> (Inl e, s')
      | (Inr p', s') \<Rightarrow>
          (case Encrypt pub (BuildRSABlock (Password p') (IsaacKeys p') (Nonces p')) of
             Inl e \<Rightarrow> (Inl (ErrWrap ''rsa encrypt'' e), s')
           | Inr rsaCiphertext \<Rightarrow>
               (case XTEAEncrypt (BuildXTEABlock (Username p') (Nonces p')) (IsaacKeys p') of
                  (Some e, _) \<Rightarrow> (Inl (ErrWrap ''xtea encrypt'' e), s')
                | (None, xteaBlock) \<Rightarrow>
                    (let body = NewBuffer (8 + length rsaCiphertext + length xteaBlock);
                         body = WriteByte 0 body;
                         body = WriteByte 0 body;
                         body = WriteByte 0 body;
                         body = WriteUint16 (ClientVersion p') body;
                         body = WriteUint16 (of_nat (length rsaCiphertext)) body;
                         body = WriteBytes rsaCiphertext body;
                         body = WriteUint16 (of_nat (length xteaBlock)) body;
                         body = WriteBytes xteaBlock body
                     in (Inr (Bytes body, p'), s')))))"

definition OutLogin :: byte where
  "OutLogin = 0"

definition EncodeLoginFrame :: "'r entropy \<Rightarrow> RSAPublicKey \<Rightarrow> LoginPayload \<Rightarrow> 'r \<Rightarrow> (goerr + byte list \<times> LoginPayload) \<times> 'r" where
  "EncodeLoginFrame rand pub p s =
     (case encodePayload rand pub p s of
        (Inl e, s') \<Rightarrow> (Inl e, s')
      | (Inr (body, p'), s') \<Rightarrow> (Inr (EncodeFrame OutLogin body, p'), s'))"

definition LoginSuccessful :: "byte \<Rightarrow> bool" where
  "LoginSuccessful code \<longleftrightarrow> (code AND 0x40) \<noteq> 0"

section \<open>The credential block fits the server's key\<close>

lemma nat_of_bytes_acc: "nat_of_bytes bs acc = acc * 256 ^ length bs + nat_of_bytes bs 0"
proof (induction bs arbitrary: acc)
  case Nil
  then show ?case by simp
next
  case (Cons b bs)
  show ?case
    using Cons [of "256 * acc + unat b"] Cons [of "unat b"] by (simp add: algebra_simps)
qed

lemma nat_of_bytes_bound: "nat_of_bytes bs 0 < 256 ^ length bs"
proof (induction bs)
  case Nil
  then show ?case by simp
next
  case (Cons b bs)
  have "unat b < 2 ^ LENGTH(8)" by (rule unsigned_less)
  then have "unat b + 1 \<le> 256" by simp
  then have "(unat b + 1) * P \<le> 256 * P" for P by (rule mult_right_mono) simp
  then have m: "unat b * P + P \<le> 256 * P" for P by (simp only: add_mult_distrib mult_1)
  have "nat_of_bytes (b # bs) 0 = unat b * 256 ^ length bs + nat_of_bytes bs 0"
    using nat_of_bytes_acc [of bs "unat b"] by simp
  moreover have "256 ^ length (b # bs) = 256 * (256 ^ length bs :: nat)" by simp
  ultimately show ?case using Cons m [of "256 ^ length bs"] by linarith
qed

lemma nat_of_bytes_append:
  "nat_of_bytes (xs @ [y]) acc = 256 * nat_of_bytes xs acc + unat y"
  by (induction xs arbitrary: acc) auto

lemma nat_of_bytes_of_nat: "nat_of_bytes (bytes_of_nat n) 0 = n"
proof (induction n rule: bytes_of_nat.induct)
  case (1 n)
  show ?case
  proof (cases "n = 0")
    case True
    then show ?thesis by (simp add: bytes_of_nat.simps)
  next
    case False
    have "unat (of_nat (n mod 256) :: byte) = n mod 256" by (subst unat_of_nat) simp
    with False 1 show ?thesis
      by (subst bytes_of_nat.simps) (simp add: nat_of_bytes_append)
  qed
qed

lemma length_bytes_of_nat: "n < 256 ^ k \<Longrightarrow> length (bytes_of_nat n) \<le> k"
proof (induction n arbitrary: k rule: bytes_of_nat.induct)
  case (1 n)
  show ?case
  proof (cases "n = 0")
    case True
    then show ?thesis by (simp add: bytes_of_nat.simps)
  next
    case False
    with 1(2) obtain j where k: "k = Suc j" by (cases k) auto
    with 1(2) have "n div 256 < 256 ^ j" by (simp add: less_mult_imp_div_less mult.commute)
    with 1(1) [OF False this] k False show ?thesis
      by (subst bytes_of_nat.simps) simp
  qed
qed

lemma pow_mod_eq: "pow_mod m e n = m ^ e mod n"
proof (induction m e n rule: pow_mod.induct)
  case (1 m e n)
  show ?case
  proof (cases "e = 0")
    case True
    then show ?thesis by (simp add: pow_mod.simps)
  next
    case False
    have half: "pow_mod (m * m mod n) (e div 2) n = m ^ (2 * (e div 2)) mod n"
      using 1 [OF False] by (simp add: power_mod power_mult power2_eq_square)
    show ?thesis
    proof (cases "odd e")
      case True
      then have "m ^ e = m ^ (2 * (e div 2)) * m"
        by (metis odd_two_times_div_two_succ power_add power_one_right)
      with True False half show ?thesis
        by (subst pow_mod.simps) (simp add: Let_def mod_mult_left_eq)
    next
      case even: False
      then have "2 * (e div 2) = e" by simp
      with even False half show ?thesis by (subst pow_mod.simps) (simp add: Let_def)
    qed
  qed
qed

lemma password_runes_length:
  "length tr \<le> 20 \<Longrightarrow> tr = [] \<or> length tr < 20 \<Longrightarrow> length (password_runes rs tr) \<le> 20"
  by (induction rs arbitrary: tr) (auto simp: Let_def)

lemma length_encodePassword [simp]: "length (encodePassword pw) = 20"
  using password_runes_length [of "[]" "runes pw"] by (simp add: encodePassword_def Let_def)

lemma length_concat_put32 [simp]: "length (concat (map put32 ws)) = 4 * length ws"
  by (induction ws) simp_all

lemma length_BuildRSABlock:
  "length keys = 4 \<Longrightarrow> length nonces = 12 \<Longrightarrow> length (BuildRSABlock pw keys nonces) = 61"
  by (simp add: BuildRSABlock_def)

lemma length_BuildXTEABlock:
  "length nonces = 12 \<Longrightarrow>
     length (BuildXTEABlock u nonces) mod 8 = 0 \<and> 25 + length u \<le> length (BuildXTEABlock u nonces)
     \<and> length (BuildXTEABlock u nonces) < 33 + length u"
proof -
  assume n: "length nonces = 12"
  let ?t = "25 + length u"
  have "length (BuildXTEABlock u nonces) = (if ?t mod 8 \<noteq> 0 then ?t + (8 - ?t mod 8) else ?t)"
    using n by (simp add: BuildXTEABlock_def Let_def)
  then show ?thesis
    by (auto simp: mod_less_divisor) presburger+
qed

lemma Encrypt_Inr:
  assumes "plaintext \<noteq> []" and "nat_of_bytes plaintext 0 < Modulus k"
  shows "\<exists>c. Encrypt k plaintext = Inr c \<and>
    nat_of_bytes c 0 = nat_of_bytes plaintext 0 ^ Exponent k mod Modulus k \<and>
    (c = [] \<or> \<not> bit (c ! 0) 7) \<and>
    (\<forall>j. Modulus k \<le> 256 ^ j \<longrightarrow> length c \<le> Suc j)"
proof -
  let ?b = "bytes_of_nat (pow_mod (nat_of_bytes plaintext 0) (Exponent k) (Modulus k))"
  have "nat_of_bytes ?b 0 = nat_of_bytes plaintext 0 ^ Exponent k mod Modulus k"
    by (simp add: nat_of_bytes_of_nat pow_mod_eq)
  moreover have "length ?b \<le> j" if "Modulus k \<le> 256 ^ j" for j
  proof (rule length_bytes_of_nat)
    from assms have "0 < Modulus k" by simp
    then have "pow_mod (nat_of_bytes plaintext 0) (Exponent k) (Modulus k) < Modulus k"
      by (simp add: pow_mod_eq)
    with that show "pow_mod (nat_of_bytes plaintext 0) (Exponent k) (Modulus k) < 256 ^ j" by simp
  qed
  ultimately show ?thesis using assms
    by (auto simp: Encrypt_def Let_def and_0x80_iff le_SucI)
qed

lemma rsa_block_lt_modulus:
  assumes "length keys = 4" and "length nonces = 12"
  shows "nat_of_bytes (BuildRSABlock pw keys nonces) 0 < Modulus DefaultServerRSA"
proof -
  obtain rest where r: "BuildRSABlock pw keys nonces = 10 # rest"
    by (simp add: BuildRSABlock_def)
  then have len: "length rest = 60" using length_BuildRSABlock [OF assms, of pw] by simp
  have "nat_of_bytes (10 # rest) 0 = 10 * 256 ^ 60 + nat_of_bytes rest 0"
    using nat_of_bytes_acc [of rest 10] len by simp
  also have "\<dots> < 10 * 256 ^ 60 + 256 ^ 60"
    using nat_of_bytes_bound [of rest] unfolding len by (rule add_strict_left_mono)
  also have "\<dots> \<le> Modulus DefaultServerRSA" by (simp add: DefaultServerRSA_def)
  finally show ?thesis using r by simp
qed

lemma Encrypt_default_length:
  assumes "length keys = 4" "length nonces = 12"
    and "Encrypt DefaultServerRSA (BuildRSABlock pw keys nonces) = Inr c"
  shows "length c \<le> 65"
proof -
  have "BuildRSABlock pw keys nonces \<noteq> []" by (simp add: BuildRSABlock_def)
  from Encrypt_Inr [OF this rsa_block_lt_modulus [OF assms(1,2)]] assms(3)
  have "\<forall>j. Modulus DefaultServerRSA \<le> 256 ^ j \<longrightarrow> length c \<le> Suc j" by fastforce
  then have "Modulus DefaultServerRSA \<le> 256 ^ 64 \<longrightarrow> length c \<le> Suc 64" by (rule spec)
  moreover have "Modulus DefaultServerRSA \<le> 256 ^ 64" by (simp add: DefaultServerRSA_def)
  ultimately show ?thesis by simp
qed

text \<open>
  C25. The credential block always fits the server's RSA key: whatever the password, keys and nonces,
  its number is below the modulus (it starts with byte 10), so encryption succeeds, the ciphertext
  is the block's number raised to 65537 modulo the key's modulus, non-negative as Java's
  \<open>BigInteger\<close> reads it, and at most 65 bytes long.
\<close>

theorem rsa_block_accepted:
  assumes "length keys = 4" and "length nonces = 12"
  shows "\<exists>c. Encrypt DefaultServerRSA (BuildRSABlock pw keys nonces) = Inr c \<and>
    nat_of_bytes c 0 =
      nat_of_bytes (BuildRSABlock pw keys nonces) 0 ^ 65537 mod Modulus DefaultServerRSA \<and>
    (c = [] \<or> \<not> bit (c ! 0) 7) \<and> length c \<le> 65"
proof -
  have "BuildRSABlock pw keys nonces \<noteq> []" by (simp add: BuildRSABlock_def)
  from Encrypt_Inr [OF this rsa_block_lt_modulus [OF assms]] obtain c where
    "Encrypt DefaultServerRSA (BuildRSABlock pw keys nonces) = Inr c"
    "nat_of_bytes c 0 = nat_of_bytes (BuildRSABlock pw keys nonces) 0 ^ Exponent DefaultServerRSA
       mod Modulus DefaultServerRSA"
    "c = [] \<or> \<not> bit (c ! 0) 7"
    "Modulus DefaultServerRSA \<le> 256 ^ 64 \<longrightarrow> length c \<le> Suc 64"
    by blast
  moreover have "Modulus DefaultServerRSA \<le> 256 ^ 64" by (simp add: DefaultServerRSA_def)
  moreover have "Exponent DefaultServerRSA = 65537" by (simp add: DefaultServerRSA_def)
  ultimately show ?thesis by (intro exI [of _ c]) (simp only: simp_thms; simp)
qed

theorem rsa_block_accepted_witness:
  "\<exists>c. Encrypt DefaultServerRSA (BuildRSABlock (lit ''pw'') [1, 2, 3, 4] (replicate 12 7)) = Inr c \<and>
    nat_of_bytes c 0 =
      nat_of_bytes (BuildRSABlock (lit ''pw'') [1, 2, 3, 4] (replicate 12 7)) 0 ^ 65537
        mod Modulus DefaultServerRSA \<and>
    (c = [] \<or> \<not> bit (c ! 0) 7) \<and> length c \<le> 65"
  by (rule rsa_block_accepted) simp_all

section \<open>The payload, read back by its documented layout\<close>

text \<open>
  The layout that the comment on \<open>LoginPayload\<close> gives, as a reader: three info bytes, the version,
  then each encrypted block behind its two-byte length; what is left over is returned too.
\<close>

definition parse_login :: "byte list \<Rightarrow> (byte list \<times> u16 \<times> byte list \<times> byte list \<times> byte list) option" where
  "parse_login p =
     (case ReadBytes 3 (WrapBuffer p) of
        (Inl _, _) \<Rightarrow> None
      | (Inr info, b) \<Rightarrow>
          (case ReadUint16 b of
             (Inl _, _) \<Rightarrow> None
           | (Inr version, b) \<Rightarrow>
               (case ReadUint16 b of
                  (Inl _, _) \<Rightarrow> None
                | (Inr rsaLength, b) \<Rightarrow>
                    (case ReadBytes (unat rsaLength) b of
                       (Inl _, _) \<Rightarrow> None
                     | (Inr rsa, b) \<Rightarrow>
                         (case ReadUint16 b of
                            (Inl _, _) \<Rightarrow> None
                          | (Inr xteaLength, b) \<Rightarrow>
                              (case ReadBytes (unat xteaLength) b of
                                 (Inl _, _) \<Rightarrow> None
                               | (Inr xtea, b) \<Rightarrow> Some (info, version, rsa, xtea, RemainingBytes b)))))))"

definition login_body :: "u16 \<Rightarrow> byte list \<Rightarrow> byte list \<Rightarrow> byte list" where
  "login_body version rsa xtea =
     [0, 0, 0] @ put16 version @ put16 (of_nat (length rsa)) @ rsa @
     put16 (of_nat (length xtea)) @ xtea"

lemma parse_login_body:
  assumes "length rsa < 65536" "length xtea < 65536"
  shows "parse_login (login_body version rsa xtea) = Some ([0, 0, 0], version, rsa, xtea, [])"
proof -
  have u: "unat (of_nat (length rsa) :: u16) = length rsa" "unat (of_nat (length xtea) :: u16) = length xtea"
    using assms by (simp_all add: unat_of_nat)
  show ?thesis
    by (simp add: parse_login_def login_body_def wire_simps u)
qed

lemma encodePayload_body:
  "encodePayload rand pub p s = (Inr (body, p'), s') \<Longrightarrow>
     \<exists>rsa xtea. Encrypt pub (BuildRSABlock (Password p') (IsaacKeys p') (Nonces p')) = Inr rsa \<and>
       XTEAEncrypt (BuildXTEABlock (Username p') (Nonces p')) (IsaacKeys p') = (None, xtea) \<and>
       body = login_body (ClientVersion p') rsa xtea"
  by (auto simp: encodePayload_def Let_def wire_simps login_body_def
      split: prod.splits sum.splits option.splits)

lemma fill_defaults_keeps:
  "fill_defaults rand s p = (Inr p', s') \<Longrightarrow>
     Username p' = Username p \<and> Password p' = Password p \<and> ClientVersion p' = ClientVersion p \<and>
     (\<not> isZeroKeys (IsaacKeys p) \<longrightarrow> IsaacKeys p' = IsaacKeys p) \<and>
     (\<not> isZeroNonces (Nonces p) \<longrightarrow> Nonces p' = Nonces p)"
  by (auto simp: fill_defaults_def randomKeys_def randomNonces_def Let_def
      split: prod.splits sum.splits if_splits)

lemma encodePayload_fill:
  "encodePayload rand pub p s = (Inr (body, p'), s') \<Longrightarrow> fill_defaults rand s p = (Inr p', s')"
  by (auto simp: encodePayload_def Let_def split: prod.splits sum.splits option.splits)

lemma length_u32_list: "4 * n \<le> length bs \<Longrightarrow> length (u32_list n bs) = n"
  by (induction n bs rule: u32_list.induct) auto

lemma fill_defaults_lengths:
  assumes "fill_defaults rand s p = (Inr p', s')"
    and "\<And>n s b t. rand n s = (Inr b, t) \<Longrightarrow> length b = n"
    and "length (IsaacKeys p) = 4" "length (Nonces p) = 12"
  shows "length (IsaacKeys p') = 4" "length (Nonces p') = 12"
  using assms(1,3,4)
  by (auto simp: fill_defaults_def randomKeys_def randomNonces_def Let_def length_u32_list
      split: prod.splits sum.splits if_splits dest!: assms(2))

lemma login_payload_read:
  assumes enc: "encodePayload rand DefaultServerRSA p s = (Inr (body, p'), s')"
    and keys: "length (IsaacKeys p') = 4" and nonces: "length (Nonces p') = 12"
    and user: "length (Username p) < 65000"
  shows "\<exists>rsa xtea. length body < 200 + length (Username p) \<and> parse_login body = Some ([0, 0, 0], ClientVersion p, rsa, xtea, []) \<and>
    Encrypt DefaultServerRSA (BuildRSABlock (Password p) (IsaacKeys p') (Nonces p')) = Inr rsa \<and>
    XTEADecrypt xtea (IsaacKeys p') = (None, BuildXTEABlock (Username p) (Nonces p'))"
proof -
  note keep = fill_defaults_keeps [OF encodePayload_fill [OF enc]]
  from encodePayload_body [OF enc] obtain rsa xtea where
    r: "Encrypt DefaultServerRSA (BuildRSABlock (Password p') (IsaacKeys p') (Nonces p')) = Inr rsa"
    and x: "XTEAEncrypt (BuildXTEABlock (Username p') (Nonces p')) (IsaacKeys p') = (None, xtea)"
    and body: "body = login_body (ClientVersion p') rsa xtea"
    by blast
  note blk = length_BuildXTEABlock [OF nonces, of "Username p'"]
  have lx: "length xtea = length (BuildXTEABlock (Username p') (Nonces p'))"
    using x by (rule length_XTEAEncrypt)
  have "length xtea < 65536" using blk user keep lx by simp
  moreover have "length rsa < 65536"
    using Encrypt_default_length [OF keys nonces r] by simp
  ultimately have "parse_login body = Some ([0, 0, 0], ClientVersion p', rsa, xtea, [])"
    unfolding body by (intro parse_login_body)
  moreover have "XTEADecrypt xtea (IsaacKeys p') = (None, BuildXTEABlock (Username p') (Nonces p'))"
    using blk x by (intro xtea_cancel) auto
  moreover have "length body < 200 + length (Username p)"
    using Encrypt_default_length [OF keys nonces r] blk keep lx
    by (simp add: body login_body_def)
  ultimately show ?thesis using r keep by auto
qed

text \<open>
  C24. The login body is laid out as documented and carries what the server needs: read back field by
  field it gives the three info bytes, the client version, the RSA ciphertext of the block that
  commits to the keys and nonces, and an XTEA ciphertext that decrypts under those keys to the
  block with the user name; nothing is left over.
\<close>

theorem login_payload_layout:
  assumes enc: "encodePayload rand DefaultServerRSA p s = (Inr (body, p'), s')"
    and keys: "length (IsaacKeys p') = 4" and nonces: "length (Nonces p') = 12"
    and user: "length (Username p) < 65000"
  shows "\<exists>rsa xtea. parse_login body = Some ([0, 0, 0], ClientVersion p, rsa, xtea, []) \<and>
    Encrypt DefaultServerRSA (BuildRSABlock (Password p) (IsaacKeys p') (Nonces p')) = Inr rsa \<and>
    XTEADecrypt xtea (IsaacKeys p') = (None, BuildXTEABlock (Username p) (Nonces p'))"
  using login_payload_read [OF assms] by blast

lemma encodePayload_total:
  assumes f: "fill_defaults rand s p = (Inr p', s')"
    and "length (IsaacKeys p') = 4" "length (Nonces p') = 12"
  shows "\<exists>body. encodePayload rand DefaultServerRSA p s = (Inr (body, p'), s')"
proof -
  let ?b = "BuildRSABlock (Password p') (IsaacKeys p') (Nonces p')"
  have "?b \<noteq> []" by (simp add: BuildRSABlock_def)
  with rsa_block_lt_modulus [OF assms(2,3)] obtain rsa where r: "Encrypt DefaultServerRSA ?b = Inr rsa"
    using Encrypt_Inr by blast
  have "length (BuildXTEABlock (Username p') (Nonces p')) mod 8 = 0"
    using length_BuildXTEABlock [OF assms(3)] by simp
  then obtain xtea where
    "XTEAEncrypt (BuildXTEABlock (Username p') (Nonces p')) (IsaacKeys p') = (None, xtea)"
    by (simp add: XTEAEncrypt_def)
  with f r show ?thesis by (simp add: encodePayload_def Let_def)
qed

text \<open>A payload whose keys and nonces are set, as the handshake builds it.\<close>

definition sample_payload :: LoginPayload where
  "sample_payload =
     \<lparr>Username = lit ''guide'', Password = lit ''pw'', ClientVersion = 235,
      IsaacKeys = [1, 2, 3, 4], Nonces = [1, 2, 3, 4, 5, 6, 7, 8, 9, 10, 11, 12]\<rparr>"

theorem login_payload_layout_witness:
  "\<exists>body rsa xtea.
    encodePayload (\<lambda>n s. (Inr (replicate n 0), s)) DefaultServerRSA sample_payload () =
      (Inr (body, sample_payload), ()) \<and>
    parse_login body = Some ([0, 0, 0], 235, rsa, xtea, []) \<and>
    XTEADecrypt xtea [1, 2, 3, 4] =
      (None, BuildXTEABlock (lit ''guide'') [1, 2, 3, 4, 5, 6, 7, 8, 9, 10, 11, 12])"
proof -
  have l: "length (IsaacKeys sample_payload) = 4" "length (Nonces sample_payload) = 12"
    "length (Username sample_payload) < 65000"
    by (simp_all add: sample_payload_def lit_def)
  have f: "fill_defaults (\<lambda>n s. (Inr (replicate n 0), s)) () sample_payload = (Inr sample_payload, ())"
    by (simp add: fill_defaults_def sample_payload_def isZeroKeys_def isZeroNonces_def)
  obtain body where b: "encodePayload (\<lambda>n s. (Inr (replicate n 0), s)) DefaultServerRSA sample_payload () =
      (Inr (body, sample_payload), ())"
    using encodePayload_total [OF f l(1,2)] by (elim exE)
  from login_payload_layout [OF b l] obtain rsa xtea where
    r: "parse_login body = Some ([0, 0, 0], ClientVersion sample_payload, rsa, xtea, [])"
    "XTEADecrypt xtea (IsaacKeys sample_payload) =
      (None, BuildXTEABlock (Username sample_payload) (Nonces sample_payload))"
    by (elim exE conjE)
  have "ClientVersion sample_payload = 235" "IsaacKeys sample_payload = [1, 2, 3, 4]"
    "Username sample_payload = lit ''guide''"
    "Nonces sample_payload = [1, 2, 3, 4, 5, 6, 7, 8, 9, 10, 11, 12]"
    by (simp_all add: sample_payload_def)
  with b r show ?thesis by (intro exI conjI) (simp_all only:)
qed

end
