(* ===== verification/Session.thy ===== *)
theory Session
  imports Isaac Login
begin

text \<open>
  The connection of \<open>session/conn.go\<close> and the login handshake of \<open>session/handshake.go\<close>.

  The socket is an argument: what each \<open>Read\<close>, \<open>Write\<close> and \<open>io.ReadFull\<close> on it returned. A
  \<open>select\<close> between delivering a frame and \<open>done\<close> is resolved by a predicate on the number of frames
  delivered so far, so every schedule of the two goroutines is a value of that argument. The
  channels' contents are the lists of frames delivered and of packets taken.
\<close>

section \<open>The connection\<close>

datatype neterr = NetTimeout | NetEOF | NetUnexpectedEOF | NetClosed | NetOther string

datatype connerr =
    DecodeFailed goerr
  | ReadServerClosed
  | ReadFailed neterr
  | WriteFailed neterr
  | SessionMsg string
  | SessionWrap string connerr
  | SessionGo string goerr

text \<open>The cipher \<open>c.dec\<close> is the state of the decoder's closure once the keys are set.\<close>

record Conn =
  enc :: Isaac
  decoder :: "Isaac FrameDecoder"
  closing :: bool
  doneClosed :: bool
  connErr :: "connerr option"

definition new_conn :: Conn where
  "new_conn =
     \<lparr>enc = NewIsaac, decoder = NewFrameDecoder (Some PlainDecode) NewIsaac, closing = False,
      doneClosed = False, connErr = None\<rparr>"

text \<open>\<open>atomicErr.Store\<close> keeps the first error.\<close>

definition err_store :: "connerr \<Rightarrow> Conn \<Rightarrow> Conn" where
  "err_store e c = (case connErr c of None \<Rightarrow> c\<lparr>connErr := Some e\<rparr> | Some _ \<Rightarrow> c)"

definition Close :: "Conn \<Rightarrow> Conn" where
  "Close c = (if doneClosed c then c else c\<lparr>closing := True, doneClosed := True\<rparr>)"

definition SetIsaacKeys :: "u32 list \<Rightarrow> Conn \<Rightarrow> Conn" where
  "SetIsaacKeys keys c =
     c\<lparr>enc := SetKeys keys (enc c),
       decoder := SetDecode DecodeOpcode (SetKeys keys (dstate (decoder c))) (decoder c)\<rparr>"

text \<open>The wire bytes of \<open>SendRaw\<close>: the opcode is left plain.\<close>

definition SendRaw :: "byte \<Rightarrow> byte list \<Rightarrow> byte list" where
  "SendRaw opcode payload = EncodeFrame opcode payload"

text \<open>\<open>rf\<close> is what \<open>io.ReadFull\<close> of four bytes returned before the deadline.\<close>

definition consumeOptionalSessionID :: "neterr + byte list \<Rightarrow> connerr option" where
  "consumeOptionalSessionID rf =
     (case rf of
        Inr _ \<Rightarrow> None
      | Inl NetTimeout \<Rightarrow> None
      | Inl NetEOF \<Rightarrow> Some (SessionMsg ''connection closed prematurely'')
      | Inl NetUnexpectedEOF \<Rightarrow> Some (SessionMsg ''connection closed prematurely'')
      | Inl e \<Rightarrow> Some (ReadFailed e))"

section \<open>The read loop\<close>

record sock_read =
  rdata :: "byte list"
  rerr :: "neterr option"
  localClose :: bool

datatype drain_end = Drained | DrainFailed goerr | DrainStopped

text \<open>
  The inner loop: frames come off the decoder until it needs more bytes, fails, or the \<open>select\<close> of
  the frame with number \<open>k\<close> takes the \<open>done\<close> branch.
\<close>

function drain :: "(nat \<Rightarrow> bool) \<Rightarrow> nat \<Rightarrow> 's FrameDecoder \<Rightarrow> Frame list \<times> drain_end \<times> 's FrameDecoder" where
  "drain stop k d =
     (case NextFrame d of
        (Inl e, d') \<Rightarrow> (if e = ErrShortRead then ([], Drained, d') else ([], DrainFailed e, d'))
      | (Inr f, d') \<Rightarrow>
          (if stop k then ([], DrainStopped, d')
           else let (fs, r, d'') = drain stop (k + 1) d' in (f # fs, r, d'')))"
  by pat_completeness auto
termination
  by (relation "measure (\<lambda>(stop, k, d). length (fbuf d))") (auto dest: NextFrame_shrinks [OF sym])

declare drain.simps [simp del]

definition read_error :: "bool \<Rightarrow> neterr \<Rightarrow> Conn \<Rightarrow> Conn" where
  "read_error closedLocally e c =
     (if closedLocally \<or> closing c then c
      else
        case e of
          NetEOF \<Rightarrow> err_store ReadServerClosed c
        | NetUnexpectedEOF \<Rightarrow> err_store ReadServerClosed c
        | NetClosed \<Rightarrow> err_store ReadServerClosed c
        | _ \<Rightarrow> err_store (ReadFailed e) c)"

text \<open>
  The loop over the reads the socket served; when they run out, it is blocked in the next one. The
  deferred \<open>Close\<close> runs on every return.
\<close>

fun readLoop :: "(nat \<Rightarrow> bool) \<Rightarrow> nat \<Rightarrow> sock_read list \<Rightarrow> Conn \<Rightarrow> Frame list \<times> Conn" where
  "readLoop stop k [] c = ([], c)"
| "readLoop stop k (r # rs) c =
     (let (fs, ending, d) =
            (if rdata r \<noteq> [] then drain stop k (Feed (rdata r) (decoder c))
             else ([], Drained, decoder c));
          c1 = c\<lparr>decoder := d\<rparr>
      in case ending of
           DrainFailed e \<Rightarrow> (fs, Close (err_store (DecodeFailed e) c1))
         | DrainStopped \<Rightarrow> (fs, Close c1)
         | Drained \<Rightarrow>
             (case rerr r of
                Some e \<Rightarrow> (fs, Close (read_error (localClose r) e c1))
              | None \<Rightarrow> (let v = readLoop stop (k + length fs) rs c1 in (fs @ fst v, snd v))))"

section \<open>The write loop\<close>

record outgoing =
  opcode :: byte
  payload :: "byte list"

text \<open>
  The loop over the packets taken from the channel: the bytes written, and the connection. \<open>wr k\<close> is
  the error of the \<open>k\<close>-th write, if it had one.
\<close>

fun writeLoop :: "(nat \<Rightarrow> neterr option) \<Rightarrow> nat \<Rightarrow> outgoing list \<Rightarrow> Conn \<Rightarrow> byte list \<times> Conn" where
  "writeLoop wr k [] c = ([], c)"
| "writeLoop wr k (out # outs) c =
     (if doneClosed c then ([], c)
      else
        let (encOp, e') = EncodeOpcode (enc c) (opcode out);
            wire = EncodeFrame encOp (payload out);
            c1 = c\<lparr>enc := e'\<rparr>
        in case wr k of
             Some e \<Rightarrow> ([], Close (err_store (WriteFailed e) c1))
           | None \<Rightarrow> (let v = writeLoop wr (k + 1) outs c1 in (wire @ fst v, snd v)))"

section \<open>The login handshake\<close>

record LoginParams =
  lpUsername :: gostring
  lpPassword :: gostring
  lpClientVersion :: u16
  lpRSA :: "RSAPublicKey option"

record LoginResult =
  ResponseCode :: byte
  lrIsaacKeys :: "u32 list"

text \<open>
  The result is the Go pair of a result pointer and an error: a rejected login has both. \<open>wres\<close> is the
  error of the write, \<open>rres\<close> what the read of the one response byte returned.
\<close>

definition ConnLogin ::
  "'r entropy \<Rightarrow> neterr option \<Rightarrow> neterr + byte list \<Rightarrow> LoginParams \<Rightarrow> 'r \<Rightarrow> Conn \<Rightarrow>
     LoginResult option \<times> connerr option \<times> byte list \<times> Conn" where
  "ConnLogin rand wres rres p s c =
     (let pub = (case lpRSA p of None \<Rightarrow> DefaultServerRSA | Some k \<Rightarrow> k);
          version = (if lpClientVersion p = 0 then 235 else lpClientVersion p);
          pay = \<lparr>Username = lpUsername p, Password = lpPassword p, ClientVersion = version,
                 IsaacKeys = replicate 4 0, Nonces = replicate 12 0\<rparr>
      in case EncodeLoginFrame rand pub pay s of
           (Inl e, _) \<Rightarrow> (None, Some (SessionGo ''session: build login frame'' e), [], c)
         | (Inr (wire, pay'), _) \<Rightarrow>
             (case wres of
                Some e \<Rightarrow> (None, Some (SessionWrap ''session: write login'' (WriteFailed e)), [], c)
              | None \<Rightarrow>
                  (case rres of
                     Inl e \<Rightarrow> (None, Some (SessionWrap ''session: read login response'' (ReadFailed e)), wire, c)
                   | Inr rsp \<Rightarrow>
                       (if \<not> LoginSuccessful (rsp ! 0) then
                          (Some \<lparr>ResponseCode = rsp ! 0, lrIsaacKeys = replicate 4 0\<rparr>,
                           Some (SessionMsg ''session: login rejected''), wire, c)
                        else
                          (Some \<lparr>ResponseCode = rsp ! 0, lrIsaacKeys = IsaacKeys pay'\<rparr>, None, wire,
                           SetIsaacKeys (IsaacKeys pay') c)))))"

section \<open>A stream of frames through the read loop\<close>

lemma drain_ReadAllFrames:
  "ReadAllFrames d = ((fs, None), d') \<Longrightarrow> drain (\<lambda>_. False) k d = (fs, Drained, d')"
proof (induction d arbitrary: k fs d' rule: ReadAllFrames.induct)
  case (1 d)
  show ?case
  proof (cases "NextFrame d")
    case (Pair r d1)
    show ?thesis
    proof (cases r)
      case (Inl e)
      with 1(2) Pair show ?thesis
        by (subst drain.simps, subst (asm) ReadAllFrames.simps) (auto split: if_splits)
    next
      case (Inr f)
      from 1(2) Pair Inr obtain gs where g: "ReadAllFrames d1 = ((gs, None), d')" "fs = f # gs"
        by (subst (asm) ReadAllFrames.simps) (auto split: prod.splits)
      from 1(1) [OF Pair [symmetric] Inr g(1)] Pair Inr g(2) show ?thesis
        by (subst drain.simps) simp
    qed
  qed
qed

lemma encode_frames_Nil_iff: "fst (encode_frames f s fs) = [] \<longleftrightarrow> fs = []"
  by (cases fs) (auto simp: Let_def case_prod_beta EncodeFrame_not_Nil)

lemma drain_nothing: "fbuf d = [] \<Longrightarrow> drain stop k d = ([], Drained, d)"
  by (subst drain.simps) (simp add: NextFrame_def)

text \<open>A decoder with no whole frame in its buffer: what a drain leaves.\<close>

definition drained :: "'s FrameDecoder \<Rightarrow> bool" where
  "drained d \<longleftrightarrow> ReadAllFrames d = (([], None), d)"

lemma NextFrame_short: "NextFrame d = (Inl ErrShortRead, d') \<Longrightarrow> d' = d"
  by (auto simp: NextFrame_def Let_def decode_body_def case_prod_beta split: if_splits)

lemma ReadAllFrames_drained: "ReadAllFrames d = ((fs, None), d') \<Longrightarrow> drained d'"
proof (induction d arbitrary: fs d' rule: ReadAllFrames.induct)
  case (1 d)
  show ?case
  proof (cases "NextFrame d")
    case (Pair r d1)
    show ?thesis
    proof (cases r)
      case (Inl e)
      with 1(2) Pair have "e = ErrShortRead" "d' = d1"
        by (subst (asm) ReadAllFrames.simps, simp split: if_splits)+
      with Pair Inl NextFrame_short have "NextFrame d' = (Inl ErrShortRead, d')" by metis
      then show ?thesis unfolding drained_def by (rule ReadAllFrames_short)
    next
      case (Inr f)
      from 1(2) Pair Inr obtain gs where "ReadAllFrames d1 = ((gs, None), d')"
        by (subst (asm) ReadAllFrames.simps) (auto split: prod.splits)
      with 1(1) Pair Inr show ?thesis by metis
    qed
  qed
qed

text \<open>
  Whatever the reads cut the stream into, the loop delivers its frames in order; the decoder keeps
  the bytes of a frame that is not complete.
\<close>

lemma readLoop_stream:
  "\<forall>f \<in> set fs. sendable f \<Longrightarrow> dfun (decoder c) = DecodeOpcode \<Longrightarrow>
   fbuf (decoder c) @ concat (map rdata rs) @ later = fst (encode_frames EncodeOpcode (dstate (decoder c)) fs) \<Longrightarrow>
   \<forall>r \<in> set rs. rerr r = None \<Longrightarrow> drained (decoder c) \<Longrightarrow>
   \<exists>gs hs c'. fs = gs @ hs \<and> readLoop (\<lambda>_. False) k (rs @ rest) c =
       (gs @ fst (readLoop (\<lambda>_. False) (k + length gs) rest c'), snd (readLoop (\<lambda>_. False) (k + length gs) rest c')) \<and>
     drained (decoder c') \<and> dfun (decoder c') = DecodeOpcode \<and> connErr c' = connErr c \<and> closing c' = closing c \<and>
     fbuf (decoder c') @ later = fst (encode_frames EncodeOpcode (dstate (decoder c')) hs)"
proof (induction rs arbitrary: fs c k)
  case Nil
  then show ?case by (intro exI [of _ "[]"] exI [of _ fs] exI [of _ c]) simp
next
  case (Cons r rs)
  let ?d = "Feed (rdata r) (decoder c)"
  have buf: "fbuf ?d @ (concat (map rdata rs) @ later) = fst (encode_frames EncodeOpcode (dstate ?d) fs)"
    and "dfun ?d = DecodeOpcode"
    using Cons.prems(2,3) by (simp_all add: Feed_def)
  from isaac.read_stream [OF Cons.prems(1) this(2) this(1)] obtain gs hs d' where
    split: "fs = gs @ hs" and dr: "ReadAllFrames ?d = ((gs, None), d')"
    and dec: "dfun d' = DecodeOpcode"
    and rem: "fbuf d' @ (concat (map rdata rs) @ later) = fst (encode_frames EncodeOpcode (dstate d') hs)"
    by blast
  let ?c = "c\<lparr>decoder := d'\<rparr>"
  from Cons.IH [of hs ?c "k + length gs"] Cons.prems(1,4) split dec rem
    ReadAllFrames_drained [OF dr] obtain gs' hs' c' where
    ih: "hs = gs' @ hs'"
      "readLoop (\<lambda>_. False) (k + length gs) (rs @ rest) ?c =
        (gs' @ fst (readLoop (\<lambda>_. False) (k + length gs + length gs') rest c'),
         snd (readLoop (\<lambda>_. False) (k + length gs + length gs') rest c'))"
      "drained (decoder c')" "dfun (decoder c') = DecodeOpcode" "connErr c' = connErr c" "closing c' = closing c"
      "fbuf (decoder c') @ later = fst (encode_frames EncodeOpcode (dstate (decoder c')) hs')"
    by auto
  have step: "(if rdata r \<noteq> [] then drain (\<lambda>_. False) k ?d else ([], Drained, decoder c))
      = (gs, Drained, d')"
  proof (cases "rdata r = []")
    case False
    then show ?thesis using drain_ReadAllFrames [OF dr] by simp
  next
    case True
    then have same: "?d = decoder c" by (simp add: Feed_def)
    with dr Cons.prems(5) True show ?thesis by (auto simp: drained_def)
  qed
  show ?case
    using ih split step Cons.prems(4) by (intro exI [of _ "gs @ gs'"] exI [of _ hs'] exI [of _ c'])
       (simp add: add.assoc)
qed

text \<open>
  A read that brings the end of the stream: the loop has delivered everything, and the connection
  ends with the error that makes the supervisor restart.
\<close>

definition hangup :: sock_read where
  "hangup = \<lparr>rdata = [], rerr = Some NetEOF, localClose = False\<rparr>"

lemma readLoop_delivers:
  assumes small: "\<forall>f \<in> set fs. sendable f" and noerr: "\<forall>r \<in> set rs. rerr r = None"
    and bytes: "concat (map rdata rs) = fst (encode_frames EncodeOpcode (SetKeys keys NewIsaac) fs)"
  shows "\<exists>c'. readLoop (\<lambda>_. False) 0 (rs @ [hangup]) (SetIsaacKeys keys new_conn) = (fs, c') \<and>
    connErr c' = Some ReadServerClosed \<and> doneClosed c'"
proof -
  let ?c = "SetIsaacKeys keys new_conn"
  have c: "fbuf (decoder ?c) = []" "dstate (decoder ?c) = SetKeys keys NewIsaac"
    "dfun (decoder ?c) = DecodeOpcode" "connErr ?c = None" "\<not> closing ?c"
    by (simp_all add: SetIsaacKeys_def new_conn_def SetDecode_def NewFrameDecoder_def)
  have "drained (decoder ?c)"
    unfolding drained_def by (rule ReadAllFrames_short) (simp add: NextFrame_def c)
  from readLoop_stream [OF small c(3) _ noerr this, of "[]" 0 "[hangup]"] c bytes obtain gs hs c' where
    fs: "fs = gs @ hs"
    and run: "readLoop (\<lambda>_. False) 0 (rs @ [hangup]) ?c =
      (gs @ fst (readLoop (\<lambda>_. False) (length gs) [hangup] c'),
       snd (readLoop (\<lambda>_. False) (length gs) [hangup] c'))"
    and c': "dfun (decoder c') = DecodeOpcode" "connErr c' = None" "\<not> closing c'"
      "fbuf (decoder c') = fst (encode_frames EncodeOpcode (dstate (decoder c')) hs)"
      "drained (decoder c')"
    by auto
  from fs small have "\<forall>f \<in> set hs. sendable f" by simp
  from isaac.read_stream [OF this c'(1), of "[]"] c'(4,5) have "hs = []"
    by (auto simp: drained_def)
  with fs run c'(2,3) show ?thesis
    by (simp add: hangup_def read_error_def err_store_def Close_def)
qed

definition frame_of :: "outgoing \<Rightarrow> Frame" where
  "frame_of out = \<lparr>Opcode = opcode out, Payload = payload out\<rparr>"

lemma writeLoop_bytes:
  "\<not> doneClosed c \<Longrightarrow>
     fst (writeLoop (\<lambda>_. None) k outs c) = fst (encode_frames EncodeOpcode (enc c) (map frame_of outs))"
  by (induction outs arbitrary: k c) (auto simp: Let_def case_prod_beta frame_of_def)

text \<open>
  C4. The write loop of one connection and the read loop of another, seeded with the same keys, are
  a lossless channel: however the network cuts the bytes written into reads, the packets sent come
  out of the read loop with their opcodes and payloads, in order, none missing and none extra, and
  the end of the stream then closes the connection with \<open>ErrServerClosed\<close>. Payloads are at most
  24574 bytes long, the longest whose length the two length bytes can hold.
\<close>

theorem session_lossless:
  assumes "\<forall>out \<in> set outs. length (payload out) \<le> max_payload"
    and "\<forall>r \<in> set rs. rerr r = None"
    and "concat (map rdata rs) = fst (writeLoop (\<lambda>_. None) 0 outs (SetIsaacKeys keys new_conn))"
  shows "\<exists>c'. readLoop (\<lambda>_. False) 0 (rs @ [hangup]) (SetIsaacKeys keys new_conn) =
      (map frame_of outs, c') \<and> connErr c' = Some ReadServerClosed \<and> doneClosed c'"
proof (rule readLoop_delivers)
  show "\<forall>f \<in> set (map frame_of outs). sendable f"
    using assms(1) by (auto simp: sendable_def frame_of_def)
  show "\<forall>r \<in> set rs. rerr r = None" by (fact assms(2))
  have "\<not> doneClosed (SetIsaacKeys keys new_conn)" "enc (SetIsaacKeys keys new_conn) = SetKeys keys NewIsaac"
    by (simp_all add: SetIsaacKeys_def new_conn_def)
  with assms(3) show "concat (map rdata rs) =
      fst (encode_frames EncodeOpcode (SetKeys keys NewIsaac) (map frame_of outs))"
    by (simp add: writeLoop_bytes)
qed

text \<open>Two packets, delivered in two reads that cut the first frame in its middle.\<close>

definition sample_outs :: "outgoing list" where
  "sample_outs = [\<lparr>opcode = 67, payload = []\<rparr>, \<lparr>opcode = 187, payload = [0, 120, 2, 3]\<rparr>]"

definition sample_wire :: "byte list" where
  "sample_wire = fst (writeLoop (\<lambda>_. None) 0 sample_outs (SetIsaacKeys [1, 2, 3, 4] new_conn))"

definition sample_reads :: "sock_read list" where
  "sample_reads =
     [\<lparr>rdata = take 5 sample_wire, rerr = None, localClose = False\<rparr>,
      \<lparr>rdata = drop 5 sample_wire, rerr = None, localClose = False\<rparr>]"

theorem session_lossless_witness:
  "\<exists>c'. readLoop (\<lambda>_. False) 0 (sample_reads @ [hangup]) (SetIsaacKeys [1, 2, 3, 4] new_conn) =
      (map frame_of sample_outs, c') \<and> connErr c' = Some ReadServerClosed \<and> doneClosed c'"
proof (rule session_lossless)
  show "\<forall>out \<in> set sample_outs. length (payload out) \<le> max_payload"
    by (simp add: sample_outs_def max_payload_def)
  show "\<forall>r \<in> set sample_reads. rerr r = None" by (simp add: sample_reads_def)
  show "concat (map rdata sample_reads) =
      fst (writeLoop (\<lambda>_. None) 0 sample_outs (SetIsaacKeys [1, 2, 3, 4] new_conn))"
    by (simp add: sample_reads_def sample_wire_def)
qed

section \<open>The handshake commits to the keys it seeds\<close>

lemma login_frame_decodes:
  assumes "length body \<le> max_payload"
  shows "NextFrame (Feed (EncodeFrame OutLogin body) (NewFrameDecoder (Some PlainDecode) ())) =
    (Inr \<lparr>Opcode = OutLogin, Payload = body\<rparr>, NewFrameDecoder (Some PlainDecode) ())"
  by (subst NextFrame_encoded [of _ OutLogin body "[]" OutLogin "()"])
     (simp_all add: Feed_def NewFrameDecoder_def PlainDecode_def assms)

text \<open>
  C20. A successful login leaves both ciphers seeded with the keys it committed to: the result's keys
  seed the connection, and the frame written, decoded with the plain opcode and read by its layout,
  holds an RSA ciphertext of a block with exactly these keys and an XTEA block that decrypts under
  them to the user name. The source of randomness fills the buffers it is given.
\<close>

theorem login_seeds_committed_keys:
  assumes "ConnLogin rand wres rres p s c = (Some r, None, wire, c')"
    and "\<And>n s b t. rand n s = (Inr b, t) \<Longrightarrow> length b = n"
    and "lpRSA p = None" and "length (lpUsername p) < 24000"
  shows "c' = SetIsaacKeys (lrIsaacKeys r) c \<and> LoginSuccessful (ResponseCode r) \<and>
    (\<exists>body version rsa xtea nonces.
      NextFrame (Feed wire (NewFrameDecoder (Some PlainDecode) ())) =
        (Inr \<lparr>Opcode = OutLogin, Payload = body\<rparr>, NewFrameDecoder (Some PlainDecode) ()) \<and>
      parse_login body = Some ([0, 0, 0], version, rsa, xtea, []) \<and>
      Encrypt DefaultServerRSA (BuildRSABlock (lpPassword p) (lrIsaacKeys r) nonces) = Inr rsa \<and>
      XTEADecrypt xtea (lrIsaacKeys r) = (None, BuildXTEABlock (lpUsername p) nonces))"
proof -
  let ?pay = "\<lparr>Username = lpUsername p, Password = lpPassword p,
    ClientVersion = (if lpClientVersion p = 0 then 235 else lpClientVersion p),
    IsaacKeys = replicate 4 0, Nonces = replicate 12 0\<rparr>"
  from assms(1,3) obtain pay' s' body where
    e: "encodePayload rand DefaultServerRSA ?pay s = (Inr (body, pay'), s')"
    and w: "wire = EncodeFrame OutLogin body" and k: "lrIsaacKeys r = IsaacKeys pay'"
    and c': "c' = SetIsaacKeys (IsaacKeys pay') c" and ok: "LoginSuccessful (ResponseCode r)"
    unfolding ConnLogin_def Let_def EncodeLoginFrame_def
    by (auto split: prod.splits sum.splits option.splits if_splits)
  have l: "length (IsaacKeys pay') = 4" "length (Nonces pay') = 12"
    using fill_defaults_lengths [OF encodePayload_fill [OF e] assms(2)] by simp_all
  from login_payload_read [OF e l] assms(4) obtain rsa xtea where
    "length body < 200 + length (lpUsername p)"
    "parse_login body = Some ([0, 0, 0], ClientVersion ?pay, rsa, xtea, [])"
    "Encrypt DefaultServerRSA (BuildRSABlock (lpPassword p) (IsaacKeys pay') (Nonces pay')) = Inr rsa"
    "XTEADecrypt xtea (IsaacKeys pay') = (None, BuildXTEABlock (lpUsername p) (Nonces pay'))"
    by auto
  moreover from this(1) assms(4) have "length body \<le> max_payload" by (simp add: max_payload_def)
  ultimately show ?thesis using c' ok k w login_frame_decodes [of body] by metis
qed

text \<open>The handshake with a server that answers 64, the first successful code.\<close>

definition sample_params :: LoginParams where
  "sample_params =
     \<lparr>lpUsername = lit ''guide'', lpPassword = lit ''pw'', lpClientVersion = 0, lpRSA = None\<rparr>"

definition ones :: "unit entropy" where
  "ones n s = (Inr (replicate n 1), s)"

theorem login_seeds_committed_keys_witness:
  "\<exists>r wire. ConnLogin ones None (Inr [64]) sample_params () new_conn =
      (Some r, None, wire, SetIsaacKeys (lrIsaacKeys r) new_conn) \<and>
    (\<exists>body version rsa xtea nonces.
      NextFrame (Feed wire (NewFrameDecoder (Some PlainDecode) ())) =
        (Inr \<lparr>Opcode = OutLogin, Payload = body\<rparr>, NewFrameDecoder (Some PlainDecode) ()) \<and>
      parse_login body = Some ([0, 0, 0], version, rsa, xtea, []) \<and>
      Encrypt DefaultServerRSA (BuildRSABlock (lit ''pw'') (lrIsaacKeys r) nonces) = Inr rsa \<and>
      XTEADecrypt xtea (lrIsaacKeys r) = (None, BuildXTEABlock (lit ''guide'') nonces))"
proof -
  let ?pay = "\<lparr>Username = lit ''guide'', Password = lit ''pw'', ClientVersion = 235,
    IsaacKeys = replicate 4 0, Nonces = replicate 12 0\<rparr>"
  have z: "isZeroKeys (replicate 4 0)" "isZeroNonces (replicate 12 0)"
    by (simp_all add: isZeroKeys_def isZeroNonces_def list_all_iff)
  have f: "fill_defaults ones () ?pay =
      (Inr (?pay\<lparr>IsaacKeys := u32_list 4 (replicate 16 1), Nonces := u32_list 12 (replicate 48 1)\<rparr>), ())"
    using z by (simp add: fill_defaults_def randomKeys_def randomNonces_def ones_def)
  have fills: "\<And>n s b t. ones n s = (Inr b, t) \<Longrightarrow> length b = n" by (auto simp: ones_def)
  obtain body pay' where e: "encodePayload ones DefaultServerRSA ?pay () = (Inr (body, pay'), ())"
    using encodePayload_total [OF f] by (auto simp: length_u32_list)
  have "ConnLogin ones None (Inr [64]) sample_params () new_conn =
      (Some \<lparr>ResponseCode = 64, lrIsaacKeys = IsaacKeys pay'\<rparr>, None, EncodeFrame OutLogin body,
       SetIsaacKeys (IsaacKeys pay') new_conn)"
    using e by (simp add: ConnLogin_def sample_params_def EncodeLoginFrame_def LoginSuccessful_def)
  from login_seeds_committed_keys [OF this fills] this show ?thesis
    by (auto simp: sample_params_def lit_def)
qed

end
