(* ===== verification/Action.thy ===== *)
theory Action
  imports Session
begin

text \<open>
  The outbound packets: the builders of \<open>proto/v235/packets.go\<close> and the actions of \<open>action/*.go\<close>
  (all but the compressed chat messages). An action validates its arguments, writes the payload and
  hands one packet to \<open>Conn.Send\<close>; here its result is the error, or the packets it queued.

  \<open>uint16(x)\<close> of a Go \<open>int\<close> keeps the low 16 bits: \<open>word_of_int\<close>.
\<close>

type_synonym action = "goerr + outgoing list"

definition send :: "byte \<Rightarrow> byte list \<Rightarrow> action" where
  "send op p = Inr [\<lparr>opcode = op, payload = p\<rparr>]"

definition in_u16 :: "int \<Rightarrow> bool" where
  "in_u16 x \<longleftrightarrow> \<not> (x < 0 \<or> x > 0xFFFF)"

definition in_u8 :: "int \<Rightarrow> bool" where
  "in_u8 x \<longleftrightarrow> \<not> (x < 0 \<or> x > 0xFF)"

section \<open>Walking\<close>

definition BuildHeartbeat :: "byte list" where
  "BuildHeartbeat = []"

definition BuildLogout :: "byte list" where
  "BuildLogout = []"

definition BuildConfirmLogout :: "byte list" where
  "BuildConfirmLogout = []"

definition BuildWalkToPoint :: "u16 \<Rightarrow> u16 \<Rightarrow> byte list" where
  "BuildWalkToPoint x y = Bytes (WriteUint16 y (WriteUint16 x (NewBuffer 4)))"

text \<open>The loop of \<open>BuildWalkPath\<close> over the steps from number \<open>i\<close> on.\<close>

fun write_steps :: "int \<times> int \<Rightarrow> nat \<Rightarrow> (int \<times> int) list \<Rightarrow> Buffer \<Rightarrow> goerr + Buffer" where
  "write_steps first i [] buf = Inr buf"
| "write_steps first i (s # ss) buf =
     (let dx = fst s - fst first; dy = snd s - snd first in
      if dx < -128 \<or> dx > 127 \<or> dy < -128 \<or> dy > 127 then
        Inl (ErrMsg ''v235: walk step %d delta (%d, %d) exceeds signed-byte range'' [int i, dx, dy])
      else write_steps first (i + 1) ss (WriteByte (word_of_int dy) (WriteByte (word_of_int dx) buf)))"

definition BuildWalkPath :: "(int \<times> int) list \<Rightarrow> goerr + byte list" where
  "BuildWalkPath steps =
     (case steps of
        [] \<Rightarrow> Inr []
      | first # rest \<Rightarrow>
          (if fst first < 0 \<or> fst first > 0xFFFF \<or> snd first < 0 \<or> snd first > 0xFFFF then
             Inl (ErrMsg ''v235: walk firstStep (%d, %d) out of uint16 range'' [fst first, snd first])
           else
             let buf = NewBuffer (4 + 2 * length rest);
                 buf = WriteUint16 (word_of_int (fst first)) buf;
                 buf = WriteUint16 (word_of_int (snd first)) buf
             in case write_steps first 1 rest buf of Inl e \<Rightarrow> Inl e | Inr b \<Rightarrow> Inr (Bytes b)))"

definition MaxClickRange :: int where
  "MaxClickRange = 30"

definition OutWalkToPoint :: byte where
  "OutWalkToPoint = 187"

definition OutWalkToEntity :: byte where
  "OutWalkToEntity = 16"

definition OutHeartbeat :: byte where
  "OutHeartbeat = 67"

definition OutLogout :: byte where
  "OutLogout = 102"

definition ErrOutOfRange :: goerr where
  "ErrOutOfRange = ErrMsg ''action: walk target outside view range'' []"

definition absInt :: "int \<Rightarrow> int" where
  "absInt v = (if v < 0 then - v else v)"

definition Walk :: "int \<Rightarrow> int \<Rightarrow> int \<Rightarrow> int \<Rightarrow> action" where
  "Walk currentX currentY targetX targetY =
     (if targetX < 0 \<or> targetY < 0 \<or> targetX > 0xFFFF \<or> targetY > 0xFFFF then
        Inl (ErrMsg ''action: walk coord (%d, %d) out of range'' [targetX, targetY])
      else
        let dx = targetX - currentX; dy = targetY - currentY in
        if absInt dx > MaxClickRange \<or> absInt dy > MaxClickRange then
          Inl (ErrWrap ''target (%d, %d) is %d east/%d south of (%d, %d); max is %d'' ErrOutOfRange)
        else if currentX = targetX \<and> currentY = targetY then Inr []
        else send OutWalkToPoint (BuildWalkToPoint (word_of_int targetX) (word_of_int targetY)))"

definition MaxWalkCorners :: nat where
  "MaxWalkCorners = 25"

definition WalkPath :: "(int \<times> int) list \<Rightarrow> action" where
  "WalkPath corners =
     (if corners = [] then Inr []
      else
        let corners = (if length corners > MaxWalkCorners then take MaxWalkCorners corners else corners)
        in case BuildWalkPath corners of
             Inl e \<Rightarrow> Inl (ErrWrap ''action: build walk path'' e)
           | Inr p \<Rightarrow> send OutWalkToPoint p)"

definition WalkToEntityPath :: "(int \<times> int) list \<Rightarrow> action" where
  "WalkToEntityPath corners =
     (if corners = [] then Inr []
      else
        let corners = (if length corners > MaxWalkCorners then take MaxWalkCorners corners else corners)
        in case BuildWalkPath corners of
             Inl e \<Rightarrow> Inl (ErrWrap ''action: build walk-to-entity path'' e)
           | Inr p \<Rightarrow> send OutWalkToEntity p)"

definition Logout :: action where
  "Logout = send OutLogout BuildLogout"

definition Heartbeat :: action where
  "Heartbeat = send OutHeartbeat BuildHeartbeat"

section \<open>Bank and shop\<close>

definition bank_packet :: "int \<Rightarrow> int \<Rightarrow> byte list" where
  "bank_packet catalogID amount =
     Bytes (WriteUint32 0 (WriteUint32 (word_of_int amount)
       (WriteUint16 (word_of_int catalogID) (NewBuffer 10))))"

definition BankDeposit :: "int \<Rightarrow> int \<Rightarrow> action" where
  "BankDeposit catalogID amount =
     (if \<not> in_u16 catalogID then
        Inl (ErrMsg ''action: BankDeposit catalogID %d out of uint16 range'' [catalogID])
      else if amount \<le> 0 then Inl (ErrMsg ''action: BankDeposit amount must be > 0 (got %d)'' [amount])
      else send 23 (bank_packet catalogID amount))"

definition BankWithdraw :: "int \<Rightarrow> int \<Rightarrow> action" where
  "BankWithdraw catalogID amount =
     (if \<not> in_u16 catalogID then
        Inl (ErrMsg ''action: BankWithdraw catalogID %d out of uint16 range'' [catalogID])
      else if amount \<le> 0 then Inl (ErrMsg ''action: BankWithdraw amount must be > 0 (got %d)'' [amount])
      else send 22 (bank_packet catalogID amount))"

definition BankClose :: action where
  "BankClose = send 212 []"

definition sendShopTrade :: "byte \<Rightarrow> string \<Rightarrow> int \<Rightarrow> int \<Rightarrow> int \<Rightarrow> action" where
  "sendShopTrade op name catalogID shopStock amount =
     (if \<not> in_u16 catalogID then
        Inl (ErrMsg (''action: '' @ name @ '' catalogID %d out of uint16 range'') [catalogID])
      else if amount \<le> 0 then
        Inl (ErrMsg (''action: '' @ name @ '' amount must be > 0 (got %d)'') [amount])
      else
        let shopStock = (if shopStock < 0 then 0 else shopStock);
            shopStock = (if shopStock > 0xFFFF then 0xFFFF else shopStock);
            amount = (if amount > 0xFFFF then 0xFFFF else amount)
        in send op (Bytes (WriteUint16 (word_of_int amount) (WriteUint16 (word_of_int shopStock)
             (WriteUint16 (word_of_int catalogID) (NewBuffer 6))))))"

definition ShopBuy :: "int \<Rightarrow> int \<Rightarrow> int \<Rightarrow> action" where
  "ShopBuy catalogID shopStock amount = sendShopTrade 236 ''ShopBuy'' catalogID shopStock amount"

definition ShopSell :: "int \<Rightarrow> int \<Rightarrow> int \<Rightarrow> action" where
  "ShopSell catalogID shopStock amount = sendShopTrade 221 ''ShopSell'' catalogID shopStock amount"

definition ShopClose :: action where
  "ShopClose = send 166 []"

section \<open>Combat, boundaries, dialogs\<close>

definition sendShortPacket :: "byte \<Rightarrow> int \<Rightarrow> string \<Rightarrow> action" where
  "sendShortPacket op serverIndex name =
     (if \<not> in_u16 serverIndex then
        Inl (ErrMsg (''action: '' @ name @ '' serverIndex %d out of range'') [serverIndex])
      else send op (Bytes (WriteUint16 (word_of_int serverIndex) (NewBuffer 2))))"

definition CombatStyle_String :: "byte \<Rightarrow> string" where
  "CombatStyle_String s =
     (if s = 1 then ''aggressive'' else if s = 2 then ''accurate''
      else if s = 3 then ''defensive'' else ''controlled'')"

definition SetCombatStyle :: "byte \<Rightarrow> action" where
  "SetCombatStyle style =
     (if style > 3 then Inl (ErrMsg ''action: SetCombatStyle style %d out of range [0..3]'' [uint style])
      else send 29 (Bytes (WriteByte style (NewBuffer 1))))"

definition AttackNpc :: "int \<Rightarrow> action" where
  "AttackNpc i = sendShortPacket 190 i ''AttackNpc''"

definition AttackPlayer :: "int \<Rightarrow> action" where
  "AttackPlayer i = sendShortPacket 171 i ''AttackPlayer''"

definition TalkToNpc :: "int \<Rightarrow> action" where
  "TalkToNpc i = sendShortPacket 153 i ''TalkToNpc''"

definition NpcCommand :: "int \<Rightarrow> action" where
  "NpcCommand i = sendShortPacket 202 i ''NpcCommand''"

definition sendBoundaryPacket :: "byte \<Rightarrow> int \<Rightarrow> int \<Rightarrow> int \<Rightarrow> string \<Rightarrow> action" where
  "sendBoundaryPacket op x y direction name =
     (if \<not> in_u16 x \<or> \<not> in_u16 y then
        Inl (ErrMsg (''action: '' @ name @ '' coord (%d, %d) out of range'') [x, y])
      else if \<not> in_u8 direction then
        Inl (ErrMsg (''action: '' @ name @ '' direction %d out of byte range'') [direction])
      else send op (Bytes (WriteByte (word_of_int direction) (WriteUint16 (word_of_int y)
             (WriteUint16 (word_of_int x) (NewBuffer 5))))))"

definition InteractWithBoundary :: "int \<Rightarrow> int \<Rightarrow> int \<Rightarrow> action" where
  "InteractWithBoundary x y d = sendBoundaryPacket 14 x y d ''InteractWithBoundary''"

definition InteractWithBoundary2 :: "int \<Rightarrow> int \<Rightarrow> int \<Rightarrow> action" where
  "InteractWithBoundary2 x y d = sendBoundaryPacket 127 x y d ''InteractWithBoundary2''"

definition ChooseDialogOption :: "int \<Rightarrow> action" where
  "ChooseDialogOption i =
     (if \<not> in_u8 i then Inl (ErrMsg ''action: dialog option %d out of byte range'' [i])
      else send 116 (Bytes (WriteByte (word_of_int i) (NewBuffer 1))))"

definition ActivatePrayer :: "int \<Rightarrow> action" where
  "ActivatePrayer i =
     (if \<not> in_u8 i then Inl (ErrMsg ''action: ActivatePrayer prayerID %d out of byte range'' [i])
      else send 60 [word_of_int i])"

definition DeactivatePrayer :: "int \<Rightarrow> action" where
  "DeactivatePrayer i =
     (if \<not> in_u8 i then Inl (ErrMsg ''action: DeactivatePrayer prayerID %d out of byte range'' [i])
      else send 254 [word_of_int i])"

section \<open>Inventory, ground items and use-with\<close>

text \<open>The shape most of these packets have: big-endian shorts in a row.\<close>

fun write_shorts :: "int list \<Rightarrow> Buffer \<Rightarrow> Buffer" where
  "write_shorts [] b = b"
| "write_shorts (v # vs) b = write_shorts vs (WriteUint16 (word_of_int v) b)"

definition FollowPlayer :: "int \<Rightarrow> action" where
  "FollowPlayer i =
     (if \<not> in_u16 i then Inl (ErrMsg ''action: follow serverIndex %d out of range'' [i])
      else send 165 (Bytes (WriteUint16 (word_of_int i) (NewBuffer 2))))"

definition DropItem :: "int \<Rightarrow> action" where
  "DropItem slot =
     (if slot < 0 \<or> slot > 0x7FFF then Inl (ErrMsg ''action: drop slot %d out of range'' [slot])
      else send 246 (Bytes (WriteUint16 (word_of_int slot) (NewBuffer 2))))"

definition PickUpItem :: "int \<Rightarrow> int \<Rightarrow> int \<Rightarrow> action" where
  "PickUpItem x y itemID =
     (if \<not> in_u16 x \<or> \<not> in_u16 y \<or> \<not> in_u16 itemID then
        Inl (ErrMsg ''action: pickup coord/id (%d,%d,id=%d) out of range'' [x, y, itemID])
      else send 247 (Bytes (write_shorts [x, y, itemID] (NewBuffer 6))))"

definition ItemCommand :: "int \<Rightarrow> action" where
  "ItemCommand slot =
     (if slot < 0 \<or> slot > 0x7FFF then Inl (ErrMsg ''action: item-command slot %d out of range'' [slot])
      else send 90 (Bytes (WriteUint16 (word_of_int slot) (NewBuffer 2))))"

definition EquipItem :: "int \<Rightarrow> action" where
  "EquipItem slotIndex = send 169 (Bytes (WriteUint16 (word_of_int slotIndex) (NewBuffer 2)))"

definition UnequipItem :: "int \<Rightarrow> action" where
  "UnequipItem slotIndex = send 170 (Bytes (WriteUint16 (word_of_int slotIndex) (NewBuffer 2)))"

definition ObjectCommand :: "int \<Rightarrow> int \<Rightarrow> int \<Rightarrow> action" where
  "ObjectCommand x y option =
     (if \<not> in_u16 x \<or> \<not> in_u16 y then
        Inl (ErrMsg ''action: object coord (%d, %d) out of uint16'' [x, y])
      else send (if option = 2 then 79 else 136) (Bytes (write_shorts [x, y] (NewBuffer 4))))"

definition UseItemOnItem :: "int \<Rightarrow> int \<Rightarrow> action" where
  "UseItemOnItem slot1 slot2 =
     (if \<not> in_u16 slot1 \<or> \<not> in_u16 slot2 then
        Inl (ErrMsg ''action: slot out of range (%d, %d)'' [slot1, slot2])
      else send 91 (Bytes (write_shorts [slot1, slot2] (NewBuffer 4))))"

definition UseItemOnBoundary :: "int \<Rightarrow> int \<Rightarrow> int \<Rightarrow> int \<Rightarrow> action" where
  "UseItemOnBoundary x y direction slot =
     (if \<not> in_u16 x \<or> \<not> in_u16 y then
        Inl (ErrMsg ''action: boundary coord (%d, %d) out of uint16'' [x, y])
      else if \<not> in_u16 slot then Inl (ErrMsg ''action: slot %d out of uint16'' [slot])
      else if \<not> in_u8 direction then Inl (ErrMsg ''action: direction %d out of byte'' [direction])
      else send 161 (Bytes (WriteUint16 (word_of_int slot) (WriteByte (word_of_int direction)
             (write_shorts [x, y] (NewBuffer 7))))))"

definition UseItemOnGroundItem :: "int \<Rightarrow> int \<Rightarrow> int \<Rightarrow> int \<Rightarrow> action" where
  "UseItemOnGroundItem x y groundItemID slot =
     (if \<not> in_u16 x \<or> \<not> in_u16 y then
        Inl (ErrMsg ''action: ground item coord (%d, %d) out of uint16'' [x, y])
      else if \<not> in_u16 groundItemID then
        Inl (ErrMsg ''action: groundItemID %d out of uint16'' [groundItemID])
      else if \<not> in_u16 slot then Inl (ErrMsg ''action: slot %d out of uint16'' [slot])
      else send 53 (Bytes (write_shorts [x, y, groundItemID, slot] (NewBuffer 8))))"

definition UseItemOnNpc :: "int \<Rightarrow> int \<Rightarrow> action" where
  "UseItemOnNpc serverIndex slot =
     (if \<not> in_u16 serverIndex then
        Inl (ErrMsg ''action: npc serverIndex %d out of uint16'' [serverIndex])
      else if \<not> in_u16 slot then Inl (ErrMsg ''action: slot %d out of uint16'' [slot])
      else send 135 (Bytes (write_shorts [serverIndex, slot] (NewBuffer 4))))"

definition UseItemOnPlayer :: "int \<Rightarrow> int \<Rightarrow> action" where
  "UseItemOnPlayer serverIndex slot =
     (if \<not> in_u16 serverIndex then
        Inl (ErrMsg ''action: player serverIndex %d out of uint16'' [serverIndex])
      else if \<not> in_u16 slot then Inl (ErrMsg ''action: slot %d out of uint16'' [slot])
      else send 113 (Bytes (write_shorts [serverIndex, slot] (NewBuffer 4))))"

definition UseItemOnScenery :: "int \<Rightarrow> int \<Rightarrow> int \<Rightarrow> action" where
  "UseItemOnScenery x y slot =
     (if \<not> in_u16 x \<or> \<not> in_u16 y then
        Inl (ErrMsg ''action: scenery coord (%d, %d) out of uint16'' [x, y])
      else if \<not> in_u16 slot then Inl (ErrMsg ''action: slot %d out of uint16'' [slot])
      else send 115 (Bytes (write_shorts [x, y, slot] (NewBuffer 6))))"

section \<open>Magic\<close>

definition CastOnSelf :: "int \<Rightarrow> action" where
  "CastOnSelf spellID = send 137 (Bytes (write_shorts [spellID] (NewBuffer 2)))"

definition CastOnNpc :: "int \<Rightarrow> int \<Rightarrow> action" where
  "CastOnNpc npcServerIndex spellID = send 50 (Bytes (write_shorts [npcServerIndex, spellID] (NewBuffer 4)))"

definition CastOnPlayer :: "int \<Rightarrow> int \<Rightarrow> action" where
  "CastOnPlayer playerServerIndex spellID =
     send 229 (Bytes (write_shorts [playerServerIndex, spellID] (NewBuffer 4)))"

definition CastOnLand :: "int \<Rightarrow> int \<Rightarrow> int \<Rightarrow> action" where
  "CastOnLand x y spellID = send 158 (Bytes (write_shorts [x, y, spellID] (NewBuffer 6)))"

definition CastOnInventory :: "int \<Rightarrow> int \<Rightarrow> action" where
  "CastOnInventory slotIndex spellID = send 4 (Bytes (write_shorts [slotIndex, spellID] (NewBuffer 4)))"

section \<open>Trades and duels\<close>

record TradeItem =
  CatalogID :: int
  Amount :: int

text \<open>The loop of \<open>OfferTradeItems\<close> and \<open>OfferDuelItems\<close>; \<open>what\<close> is the error it reports.\<close>

fun write_offer :: "string \<Rightarrow> TradeItem list \<Rightarrow> Buffer \<Rightarrow> goerr + Buffer" where
  "write_offer what [] b = Inr b"
| "write_offer what (it # its) b =
     (if CatalogID it < 0 \<or> CatalogID it > 0xFFFF then Inl (ErrMsg what [CatalogID it])
      else write_offer what its (WriteUint32 (word_of_int (Amount it))
             (WriteUint16 (word_of_int (CatalogID it)) b)))"

definition OfferTradeItems :: "TradeItem list \<Rightarrow> action" where
  "OfferTradeItems items =
     (if length items > 0xFF then
        Inl (ErrMsg ''action: trade item count %d exceeds 255'' [int (length items)])
      else
        case write_offer ''action: trade item catalogID %d out of range'' items
               (WriteByte (of_nat (length items)) (NewBuffer (1 + length items * 6))) of
          Inl e \<Rightarrow> Inl e
        | Inr b \<Rightarrow> send 46 (Bytes b))"

definition OfferDuelItems :: "TradeItem list \<Rightarrow> action" where
  "OfferDuelItems items =
     (if length items > 0xFF then
        Inl (ErrMsg ''action: duel item count %d exceeds 255'' [int (length items)])
      else
        case write_offer ''action: duel item catalogID %d out of range'' items
               (WriteByte (of_nat (length items)) (NewBuffer (1 + length items * 6))) of
          Inl e \<Rightarrow> Inl e
        | Inr b \<Rightarrow> send 33 (Bytes b))"

definition InitTradeRequest :: "int \<Rightarrow> action" where
  "InitTradeRequest i = sendShortPacket 142 i ''InitTradeRequest''"

definition AcceptTradeOffer :: action where
  "AcceptTradeOffer = send 55 []"

definition DeclineTrade :: action where
  "DeclineTrade = send 230 []"

definition AcceptTradeConfirm :: action where
  "AcceptTradeConfirm = send 104 []"

definition InitDuelRequest :: "int \<Rightarrow> action" where
  "InitDuelRequest i = sendShortPacket 103 i ''InitDuelRequest''"

definition AcceptDuelFirst :: action where
  "AcceptDuelFirst = send 176 []"

definition AcceptDuelSecond :: action where
  "AcceptDuelSecond = send 77 []"

definition DeclineDuel :: action where
  "DeclineDuel = send 197 []"

record DuelRules =
  DisallowRetreat :: bool
  DisallowMagic :: bool
  DisallowPrayer :: bool
  DisallowWeapons :: bool

definition boolByte :: "bool \<Rightarrow> byte" where
  "boolByte b = (if b then 1 else 0)"

definition SetDuelRules :: "DuelRules \<Rightarrow> action" where
  "SetDuelRules r =
     send 8 (Bytes (WriteByte (boolByte (DisallowWeapons r)) (WriteByte (boolByte (DisallowPrayer r))
       (WriteByte (boolByte (DisallowMagic r)) (WriteByte (boolByte (DisallowRetreat r)) (NewBuffer 4))))))"

section \<open>Commands, the sleep word and friends\<close>

definition trim_prefix :: "gostring \<Rightarrow> gostring \<Rightarrow> gostring" where
  "trim_prefix p s = (if take (length p) s = p then drop (length p) s else s)"

definition Command :: "gostring \<Rightarrow> action" where
  "Command command =
     (if command = [] then Inl (ErrMsg ''action: empty command'' [])
      else
        let command = trim_prefix (lit ''::'') command
        in send 38 (Bytes (WriteZeroPaddedString command (NewBuffer (length command + 1)))))"

definition SendSleepWord :: "gostring \<Rightarrow> action" where
  "SendSleepWord word =
     (if word = [] then Inl (ErrMsg ''action: empty sleep word'' [])
      else send 45 (Bytes (WriteZeroPaddedString word (WriteByte 0 (NewBuffer (length word + 3))))))"

definition AddFriend :: "gostring \<Rightarrow> action" where
  "AddFriend name =
     (if name = [] then Inl (ErrMsg ''action: AddFriend name empty'' [])
      else send 195 (Bytes (WriteZeroPaddedString name (NewBuffer (2 + length name)))))"

definition RemoveFriend :: "gostring \<Rightarrow> action" where
  "RemoveFriend name =
     (if name = [] then Inl (ErrMsg ''action: RemoveFriend name empty'' [])
      else send 167 (Bytes (WriteZeroPaddedString name (NewBuffer (2 + length name)))))"

section \<open>What the server reads\<close>

text \<open>The values in range survive the conversion to their width.\<close>

lemma uint_in_u16: "in_u16 x \<Longrightarrow> uint (word_of_int x :: u16) = x"
  by (simp add: in_u16_def uint_word_of_int_eq take_bit_int_eq_self)

lemma uint_in_u8: "in_u8 x \<Longrightarrow> uint (word_of_int x :: byte) = x"
  by (simp add: in_u8_def uint_word_of_int_eq take_bit_int_eq_self)

lemma sint_delta: "-128 \<le> x \<Longrightarrow> x \<le> 127 \<Longrightarrow> sint (word_of_int x :: byte) = x"
  by (simp add: int_word_sint mod_pos_pos_trivial)

lemma sint_delta_diff:
  "-128 \<le> x - y \<Longrightarrow> x - y \<le> 127 \<Longrightarrow> sint (word_of_int x - word_of_int y :: byte) = x - y"
  using sint_delta [of "x - y"] by (simp only: wi_hom_sub)

text \<open>
  The server's view of a walk packet: the absolute first step, then signed byte pairs, each added to
  the first step.
\<close>

fun read_deltas :: "byte list \<Rightarrow> (int \<times> int) option \<Rightarrow> (int \<times> int) list" where
  "read_deltas (a # b # rest) (Some f) = (fst f + sint a, snd f + sint b) # read_deltas rest (Some f)"
| "read_deltas rest f = []"

definition parse_walk :: "byte list \<Rightarrow> (int \<times> int) list" where
  "parse_walk p =
     (case ReadUint16 (WrapBuffer p) of
        (Inl _, _) \<Rightarrow> []
      | (Inr x, b) \<Rightarrow>
          (case ReadUint16 b of
             (Inl _, _) \<Rightarrow> []
           | (Inr y, b) \<Rightarrow> (uint x, uint y) # read_deltas (RemainingBytes b) (Some (uint x, uint y))))"

definition walkable :: "(int \<times> int) list \<Rightarrow> bool" where
  "walkable steps \<longleftrightarrow> in_u16 (fst (hd steps)) \<and> in_u16 (snd (hd steps)) \<and>
     list_all (\<lambda>s. - 128 \<le> fst s - fst (hd steps) \<and> fst s - fst (hd steps) \<le> 127 \<and>
       - 128 \<le> snd s - snd (hd steps) \<and> snd s - snd (hd steps) \<le> 127) (tl steps)"

definition step_bytes :: "int \<times> int \<Rightarrow> (int \<times> int) list \<Rightarrow> byte list" where
  "step_bytes first ss =
     concat (map (\<lambda>s. [word_of_int (fst s - fst first), word_of_int (snd s - snd first)]) ss)"

lemma write_steps_ok:
  "list_all (\<lambda>s. - 128 \<le> fst s - fst first \<and> fst s - fst first \<le> 127 \<and>
       - 128 \<le> snd s - snd first \<and> snd s - snd first \<le> 127) ss \<Longrightarrow> buf_wf b \<Longrightarrow>
   \<exists>b'. write_steps first i ss b = Inr b' \<and> Bytes b' = Bytes b @ step_bytes first ss"
proof (induction ss arbitrary: i b)
  case Nil
  then show ?case by (simp add: step_bytes_def)
next
  case (Cons s ss)
  let ?b = "WriteByte (word_of_int (snd s - snd first)) (WriteByte (word_of_int (fst s - fst first)) b)"
  from Cons.IH [of ?b "i + 1"] Cons.prems obtain b' where
    "write_steps first (i + 1) ss ?b = Inr b'" "Bytes b' = Bytes ?b @ step_bytes first ss" by auto
  moreover have "Bytes ?b = Bytes b @ [word_of_int (fst s - fst first), word_of_int (snd s - snd first)]"
    using Cons.prems by (simp add: wire_simps)
  ultimately show ?case using Cons.prems by (auto simp: Let_def step_bytes_def)
qed

lemma write_steps_error:
  "\<not> list_all (\<lambda>s. - 128 \<le> fst s - fst first \<and> fst s - fst first \<le> 127 \<and>
       - 128 \<le> snd s - snd first \<and> snd s - snd first \<le> 127) ss \<Longrightarrow>
   \<exists>e. write_steps first i ss b = Inl e"
  by (induction ss arbitrary: i b) (auto simp: Let_def)

lemma read_deltas_step_bytes:
  "list_all (\<lambda>s. - 128 \<le> fst s - fst first \<and> fst s - fst first \<le> 127 \<and>
       - 128 \<le> snd s - snd first \<and> snd s - snd first \<le> 127) ss \<Longrightarrow>
   read_deltas (step_bytes first ss) (Some first) = ss"
  by (induction ss) (simp_all add: step_bytes_def sint_delta_diff prod_eq_iff)

lemma BuildWalkPath_cases:
  assumes "steps \<noteq> []"
  shows "if walkable steps then \<exists>p. BuildWalkPath steps = Inr p \<and> parse_walk p = steps
    else \<exists>e. BuildWalkPath steps = Inl e"
proof -
  from assms obtain x y ss where steps: "steps = (x, y) # ss" by (cases steps) auto
  let ?b = "WriteUint16 (word_of_int y) (WriteUint16 (word_of_int x) (NewBuffer (4 + 2 * length ss)))"
  have b: "Bytes ?b = put16 (word_of_int x) @ put16 (word_of_int y)" by (simp add: wire_simps)
  show ?thesis
  proof (cases "walkable steps")
    case True
    then obtain b' where "write_steps (x, y) 1 ss ?b = Inr b'"
      "Bytes b' = put16 (word_of_int x) @ put16 (word_of_int y) @ step_bytes (x, y) ss"
      using write_steps_ok [of "(x, y)" ss ?b 1] b by (auto simp: walkable_def steps)
    moreover have "uint (word_of_int x :: u16) = x" "uint (word_of_int y :: u16) = y"
      using True by (simp_all add: walkable_def steps uint_in_u16)
    moreover have "read_deltas (step_bytes (x, y) ss) (Some (x, y)) = ss"
      using True by (intro read_deltas_step_bytes) (simp add: walkable_def steps)
    ultimately show ?thesis using True
      by (auto simp: steps BuildWalkPath_def Let_def parse_walk_def wire_simps walkable_def in_u16_def)
  next
    case False
    then show ?thesis
      using write_steps_error [of "(x, y)" ss 1 ?b]
      by (auto simp: steps BuildWalkPath_def Let_def walkable_def in_u16_def)
  qed
qed

text \<open>
  C23. A walk packet carries the path: for any non-empty path, \<open>WalkPath\<close> queues one packet with
  opcode 187 from which the server reads back exactly the first 25 corners, when the first corner is
  a 16-bit coordinate pair and the others lie within a signed byte of it; otherwise it reports an
  error and queues nothing.
\<close>

theorem walk_path_delivered:
  assumes "corners \<noteq> []"
  shows "if walkable (take 25 corners)
    then \<exists>p. WalkPath corners = Inr [\<lparr>opcode = OutWalkToPoint, payload = p\<rparr>] \<and>
      parse_walk p = take 25 corners
    else \<exists>e. WalkPath corners = Inl e"
proof -
  have t: "(if length corners > MaxWalkCorners then take MaxWalkCorners corners else corners) =
      take 25 corners"
    by (simp add: MaxWalkCorners_def)
  have "take 25 corners \<noteq> []" using assms by simp
  from BuildWalkPath_cases [OF this] show ?thesis
    using assms unfolding WalkPath_def t Let_def by (auto simp: send_def split: if_splits)
qed

theorem walk_path_delivered_witness:
  "\<exists>p. WalkPath [(120, 504), (122, 506), (118, 506)] =
      Inr [\<lparr>opcode = OutWalkToPoint, payload = p\<rparr>] \<and>
    parse_walk p = [(120, 504), (122, 506), (118, 506)]"
  using walk_path_delivered [of "[(120, 504), (122, 506), (118, 506)]"]
  by (simp add: walkable_def in_u16_def)

section \<open>Offers\<close>

text \<open>An offered item as the server reads it: a short and an unsigned int.\<close>

definition ReadOfferItem :: "Buffer \<Rightarrow> (TradeItem, Buffer) result" where
  "ReadOfferItem b =
     (case ReadUint16 b of
        (Inl e, b) \<Rightarrow> (Inl e, b)
      | (Inr c, b) \<Rightarrow>
          (case ReadUint32 b of
             (Inl e, b) \<Rightarrow> (Inl e, b)
           | (Inr a, b) \<Rightarrow> (Inr \<lparr>CatalogID = uint c, Amount = uint a\<rparr>, b)))"

definition offer_bytes :: "TradeItem \<Rightarrow> byte list" where
  "offer_bytes it = put16 (word_of_int (CatalogID it)) @ put32 (word_of_int (Amount it))"

definition offer_ok :: "TradeItem \<Rightarrow> bool" where
  "offer_ok it \<longleftrightarrow> in_u16 (CatalogID it) \<and> 0 \<le> Amount it \<and> Amount it < 2 ^ 32"

interpretation offer: wire_codec offer_bytes ReadOfferItem offer_ok
proof
  fix it pre post
  assume ok: "offer_ok it"
  then have "uint (word_of_int (Amount it) :: u32) = Amount it"
    by (simp add: offer_ok_def uint_word_of_int_eq take_bit_int_eq_self)
  moreover have "uint (word_of_int (CatalogID it) :: u16) = CatalogID it"
    using ok by (simp add: offer_ok_def uint_in_u16)
  ultimately show "ReadOfferItem (reading pre (offer_bytes it @ post)) =
      (Inr it, reading (pre @ offer_bytes it) post)"
    by (simp add: ReadOfferItem_def offer_bytes_def wire_simps)
qed

definition parse_offer :: "byte list \<Rightarrow> TradeItem list \<times> byte list" where
  "parse_offer p =
     (case ReadByte (WrapBuffer p) of
        (Inl _, b) \<Rightarrow> ([], RemainingBytes b)
      | (Inr n, b) \<Rightarrow> (let (its, b) = read_items ReadOfferItem (unat n) b in (its, RemainingBytes b)))"

lemma write_offer_ok:
  "\<forall>it \<in> set its. in_u16 (CatalogID it) \<Longrightarrow> buf_wf b \<Longrightarrow>
   \<exists>b'. write_offer what its b = Inr b' \<and> Bytes b' = Bytes b @ concat (map offer_bytes its)"
proof (induction its arbitrary: b)
  case Nil
  then show ?case by simp
next
  case (Cons it its)
  let ?b = "WriteUint32 (word_of_int (Amount it)) (WriteUint16 (word_of_int (CatalogID it)) b)"
  from Cons.IH [of ?b] Cons.prems obtain b' where
    "write_offer what its ?b = Inr b'" "Bytes b' = Bytes ?b @ concat (map offer_bytes its)" by auto
  moreover have "Bytes ?b = Bytes b @ offer_bytes it"
    using Cons.prems by (simp add: wire_simps offer_bytes_def)
  ultimately show ?case using Cons.prems by (auto simp: in_u16_def)
qed

text \<open>
  C29. An offer is delivered whole: the packet of \<open>OfferTradeItems\<close> (opcode 46) and that of
  \<open>OfferDuelItems\<close> (opcode 33), read as the server does, give back every offered item with its
  catalogue id and amount, and nothing is left over, for up to 255 items with 16-bit ids and 32-bit
  amounts.
\<close>

theorem offer_delivered:
  assumes "length items \<le> 255" and "\<forall>it \<in> set items. offer_ok it"
  shows "\<exists>p. OfferTradeItems items = Inr [\<lparr>opcode = 46, payload = p\<rparr>] \<and>
    OfferDuelItems items = Inr [\<lparr>opcode = 33, payload = p\<rparr>] \<and> parse_offer p = (items, [])"
proof -
  let ?b = "WriteByte (of_nat (length items)) (NewBuffer (1 + length items * 6))"
  have ids: "\<forall>it \<in> set items. in_u16 (CatalogID it)" using assms(2) by (auto simp: offer_ok_def)
  obtain b1 b2 where
    "write_offer ''action: trade item catalogID %d out of range'' items ?b = Inr b1"
    "write_offer ''action: duel item catalogID %d out of range'' items ?b = Inr b2"
    "Bytes b1 = Bytes ?b @ concat (map offer_bytes items)"
    "Bytes b2 = Bytes ?b @ concat (map offer_bytes items)"
    using write_offer_ok [OF ids, of ?b "''action: trade item catalogID %d out of range''"]
      write_offer_ok [OF ids, of ?b "''action: duel item catalogID %d out of range''"]
    by auto
  moreover have "Bytes ?b = [of_nat (length items)]" by (simp add: wire_simps)
  moreover have "unat (of_nat (length items) :: byte) = length items"
    using assms(1) by (intro unat_byte_of_nat) simp
  ultimately show ?thesis using assms
    by (auto simp: OfferTradeItems_def OfferDuelItems_def send_def parse_offer_def wire_simps
        offer.read_items_enc_last)
qed

theorem offer_delivered_witness:
  "\<exists>p. OfferTradeItems [\<lparr>CatalogID = 10, Amount = 2000\<rparr>] = Inr [\<lparr>opcode = 46, payload = p\<rparr>] \<and>
    OfferDuelItems [\<lparr>CatalogID = 10, Amount = 2000\<rparr>] = Inr [\<lparr>opcode = 33, payload = p\<rparr>] \<and>
    parse_offer p = ([\<lparr>CatalogID = 10, Amount = 2000\<rparr>], [])"
  by (rule offer_delivered) (simp_all add: offer_ok_def in_u16_def)

section \<open>Packets of shorts\<close>

lemma write_shorts_bytes:
  "buf_wf b \<Longrightarrow> Bytes (write_shorts vs b) = Bytes b @ concat (map (\<lambda>v. put16 (word_of_int v)) vs) \<and>
     buf_wf (write_shorts vs b)"
  by (induction vs arbitrary: b) (simp_all add: wire_simps)

text \<open>The server's view: all the shorts of the payload.\<close>

definition parse_shorts :: "byte list \<Rightarrow> int list" where
  "parse_shorts p = map uint (fst (read_items ReadUint16 (length p div 2) (WrapBuffer p)))"

lemma length_concat_put16: "length (concat (map put16 ws)) = 2 * length ws"
  by (induction ws) simp_all

lemma parse_shorts_bytes: "parse_shorts (concat (map put16 ws)) = map uint ws"
  using u16be.read_items_enc_last [of ws "[]"]
  by (simp add: parse_shorts_def length_concat_put16 wire_simps)

lemma parse_write_shorts:
  "list_all in_u16 vs \<Longrightarrow> parse_shorts (Bytes (write_shorts vs (NewBuffer n))) = vs"
proof -
  assume "list_all in_u16 vs"
  then have "map (uint \<circ> (word_of_int :: int \<Rightarrow> u16)) vs = vs"
    by (induction vs) (simp_all add: uint_in_u16)
  then show ?thesis
    using write_shorts_bytes [of "NewBuffer n" vs] parse_shorts_bytes [of "map word_of_int vs"]
    by (simp add: comp_def)
qed

text \<open>
  C32. An action that names several 16-bit fields never sends a mangled one: whatever integers it is
  given, either it reports an error and queues nothing, because some argument is out of range, or
  it queues one packet from which the server reads back exactly the arguments.
\<close>

theorem use_actions_exact:
  "(if list_all in_u16 [x, y, z]
    then \<exists>p q. PickUpItem x y z = Inr [\<lparr>opcode = 247, payload = p\<rparr>] \<and> parse_shorts p = [x, y, z] \<and>
      UseItemOnScenery x y z = Inr [\<lparr>opcode = 115, payload = q\<rparr>] \<and> parse_shorts q = [x, y, z]
    else \<exists>d e. PickUpItem x y z = Inl d \<and> UseItemOnScenery x y z = Inl e) \<and>
   (if list_all in_u16 [x, y, z, w]
    then \<exists>p. UseItemOnGroundItem x y z w = Inr [\<lparr>opcode = 53, payload = p\<rparr>] \<and>
      parse_shorts p = [x, y, z, w]
    else \<exists>e. UseItemOnGroundItem x y z w = Inl e) \<and>
   (if list_all in_u16 [x, y]
    then \<exists>p q r. UseItemOnNpc x y = Inr [\<lparr>opcode = 135, payload = p\<rparr>] \<and> parse_shorts p = [x, y] \<and>
      UseItemOnPlayer x y = Inr [\<lparr>opcode = 113, payload = q\<rparr>] \<and> parse_shorts q = [x, y] \<and>
      UseItemOnItem x y = Inr [\<lparr>opcode = 91, payload = r\<rparr>] \<and> parse_shorts r = [x, y]
    else \<exists>c d e. UseItemOnNpc x y = Inl c \<and> UseItemOnPlayer x y = Inl d \<and> UseItemOnItem x y = Inl e)"
  by (auto simp: PickUpItem_def UseItemOnScenery_def UseItemOnGroundItem_def UseItemOnNpc_def
      UseItemOnPlayer_def UseItemOnItem_def send_def parse_write_shorts
      simp del: write_shorts.simps)

text \<open>
  The spell and equipment actions have no such guard: an argument out of the 16-bit range is
  sent reduced modulo 65536, so casting at NPC 65536 + n is the packet that casts at NPC n, and
  equipping slot -1 is the packet that equips slot 65535.
\<close>

theorem unguarded_actions_wrap:
  "CastOnNpc (65536 + n) spell = CastOnNpc n spell \<and> CastOnNpc n (65536 + spell) = CastOnNpc n spell \<and>
   CastOnPlayer (65536 + n) spell = CastOnPlayer n spell \<and>
   CastOnInventory (65536 + n) spell = CastOnInventory n spell \<and>
   EquipItem (-1) = EquipItem 65535 \<and> UnequipItem (-1) = UnequipItem 65535"
proof -
  have "word_of_int (65536 + k) = (word_of_int k :: u16)" for k
    by (simp add: word_of_int_eq_iff take_bit_eq_mod)
  moreover have "(word_of_int (-1) :: u16) = word_of_int 65535" by simp
  ultimately show ?thesis
    by (simp only: CastOnNpc_def CastOnPlayer_def CastOnInventory_def EquipItem_def UnequipItem_def
        write_shorts.simps simp_thms)
qed

end
