(* ===== verification/Events.thy ===== *)
theory Events
  imports Prelude GoString
begin

text \<open>
  The typed events of \<open>event/events.go\<close> that the decoders emit and the world mirror applies. A Go
  struct with several fields is a record; the sum of the event types is one datatype with a
  constructor per struct (small structs have their fields as arguments). The timestamp every event
  embeds is left out: nothing modelled reads it.
\<close>

text \<open>Instants; 0 is Go's zero \<open>time.Time\<close>.\<close>

type_synonym gotime = nat

section \<open>Message types and skills\<close>

definition MessageGame :: int where
  "MessageGame = 0"

definition MessageQuest :: int where
  "MessageQuest = 1"

definition MessageChat :: int where
  "MessageChat = 2"

definition SkillName :: "int \<Rightarrow> string" where
  "SkillName s =
     (if 0 \<le> s \<and> s < 18 then
        [''attack'', ''defence'', ''strength'', ''hits'', ''ranged'', ''prayer'', ''magic'',
         ''cooking'', ''woodcutting'', ''fletching'', ''fishing'', ''firemaking'', ''crafting'',
         ''smithing'', ''mining'', ''herblaw'', ''agility'', ''thieving''] ! nat s
      else ''unknown'')"

definition NumEquipSlots :: nat where
  "NumEquipSlots = 12"

definition EquipSlotName :: "nat \<Rightarrow> string" where
  "EquipSlotName slot =
     (if slot = 0 \<or> slot = 5 then ''head''
      else if slot = 1 \<or> slot = 6 then ''body''
      else if slot = 2 \<or> slot = 7 then ''legs''
      else if slot = 3 then ''shield''
      else if slot = 4 then ''weapon''
      else if slot = 8 then ''gloves''
      else if slot = 9 then ''boots''
      else if slot = 10 then ''amulet''
      else if slot = 11 then ''cape''
      else ''unknown'')"

section \<open>The structs\<close>

record InventoryItem =
  itemID :: int
  itemAmount :: int
  itemWielded :: bool

record PrivateMessage =
  pmSender :: gostring
  pmFormerName :: gostring
  pmMessage :: gostring
  pmIconSprite :: int
  pmWorld :: int

record StatUpdate =
  suSkill :: int
  suCurrent :: int
  suMax :: int
  suExperience :: int

record StatsSnapshot =
  ssCurrent :: "int list"
  ssMax :: "int list"
  ssExperience :: "int list"
  ssQuestPoints :: int

record WelcomeInfo =
  wiLastLoginIP :: "int list"
  wiDaysSinceLogin :: int
  wiRecoveryDaysAgo :: int
  wiUnreadMessages :: int

record OwnPositionUpdate =
  opX :: int
  opY :: int
  opSprite :: int

record NearbyPlayerEvent =
  npIndex :: int
  npX :: int
  npY :: int
  npSprite :: int
  npIsNew :: bool
  npRemoved :: bool

record OtherPlayerChat =
  ocPlayerIndex :: int
  ocIcon :: int
  ocChatKind :: string
  ocMessageText :: gostring
  ocMessageRaw :: "byte list"

record OtherPlayerDamage =
  odPlayerIndex :: int
  odDamage :: int
  odCurHits :: int
  odMaxHits :: int

record OtherPlayerProjectile =
  orCasterIndex :: int
  orProjectileID :: int
  orVictimNpcIndex :: int
  orVictimPlayerIndex :: int
  orVictimIsNpc :: bool

record OtherPlayerAppearance =
  oaPlayerIndex :: int
  oaName :: gostring
  oaAppearanceID :: int
  oaCombatLevel :: int
  oaSkullType :: int
  oaHasCombat :: bool
  oaHairColour :: int
  oaTopColour :: int
  oaTrouserColour :: int
  oaSkinColour :: int
  oaHasColours :: bool
  oaWornSprites :: "int list"
  oaWornCount :: int
  oaHasWorn :: bool

record NpcNearby =
  nnIndex :: int
  nnX :: int
  nnY :: int
  nnDX :: int
  nnDY :: int
  nnSprite :: int
  nnTypeID :: int
  nnIsNew :: bool
  nnRemoved :: bool

record NpcDamage =
  ndNpcIndex :: int
  ndDamage :: int
  ndCurHits :: int
  ndMaxHits :: int

record NpcChat =
  ncNpcIndex :: int
  ncRecipientIndex :: int
  ncMessageText :: gostring
  ncMessageRaw :: "byte list"

record NpcProjectile =
  nrCasterNpcIndex :: int
  nrProjectileID :: int
  nrVictimNpcIndex :: int
  nrVictimPlayerIndex :: int
  nrVictimIsNpc :: bool

record TradeOpened =
  toOtherPlayerIndex :: int
  toOpponentName :: gostring
  toMyItems :: "InventoryItem list"
  toOpponentItems :: "InventoryItem list"

record DuelSettingsUpdate =
  dsRetreat :: bool
  dsMagic :: bool
  dsPrayer :: bool
  dsWeapons :: bool

record DuelConfirmShown =
  dcOpponentName :: gostring
  dcOpponentItems :: "InventoryItem list"
  dcMyItems :: "InventoryItem list"
  dcSettings :: DuelSettingsUpdate

record TradeConfirmShown =
  tcOpponentName :: gostring
  tcOpponentItems :: "InventoryItem list"
  tcMyItems :: "InventoryItem list"

record ShopItem =
  siItemID :: int
  siStock :: int
  siBaseStock :: int

record ShopOpened =
  soIsGeneral :: bool
  soSellPriceMod :: int
  soBuyPriceMod :: int
  soPriceMultiplier :: int
  soItems :: "ShopItem list"

record BoundaryDelta =
  bdID :: int
  bdOffsetX :: int
  bdOffsetY :: int
  bdDir :: int

record SceneryDelta =
  sdID :: int
  sdOffsetX :: int
  sdOffsetY :: int

record GroundItemDelta =
  gdItemID :: int
  gdOffsetX :: int
  gdOffsetY :: int
  gdDisappear :: bool

record RemovePoint =
  rpOffsetX :: int
  rpOffsetY :: int

section \<open>Events\<close>

datatype (plugins only: code size) event =
    ChatReceived int gostring gostring gostring
  | EvPrivateMessage PrivateMessage
  | SystemMessage int gostring gostring
  | EvStatUpdate StatUpdate
  | EvStatsSnapshot StatsSnapshot
  | ExperienceGain int int
  | FatigueUpdate int
  | InventorySnapshot "InventoryItem list"
  | InventorySlotUpdate int "InventoryItem option"
  | InventoryRemoveSlot int
  | ItemGained int int
  | EvWelcomeInfo WelcomeInfo
  | LogoutConfirm
  | Death
  | EvGroundItem GroundItemDelta
  | NpcDialog "gostring list"
  | NpcDialogText gostring
  | SleepScreenAppeared int
  | SleepFatigueUpdate int
  | SleepwordIncorrect
  | SleepEnded
  | UnknownPacket byte int
  | EvOwnPosition OwnPositionUpdate
  | EvNearbyPlayer NearbyPlayerEvent
  | EvOtherPlayerChat OtherPlayerChat
  | EvOtherPlayerDamage OtherPlayerDamage
  | EvOtherPlayerProjectile OtherPlayerProjectile
  | EvOtherPlayerAppearance OtherPlayerAppearance
  | PlayerActionBubble int int
  | EvNpcNearby NpcNearby
  | EvNpcDamage NpcDamage
  | EvNpcChat NpcChat
  | EvNpcProjectile NpcProjectile
  | TradeRequestReceived int gostring
  | DuelRequestReceived gostring
  | EvTradeOpened TradeOpened
  | TradeOtherOffer "InventoryItem list"
  | TradeClosed bool
  | TradeOtherAccepted
  | DuelOpened int
  | DuelOtherOffer "InventoryItem list"
  | EvDuelSettings DuelSettingsUpdate
  | DuelOtherAccepted
  | EvDuelConfirmShown DuelConfirmShown
  | DuelClosed bool
  | EvTradeConfirmShown TradeConfirmShown
  | BankOpened int "InventoryItem list"
  | BankSlotUpdate int int int
  | BankClosed
  | EvShopOpened ShopOpened
  | ShopClosed
  | PrayersActive "bool list"
  | BoundaryUpdates "BoundaryDelta list"
  | SceneryUpdates "SceneryDelta list"
  | GroundItemUpdates "GroundItemDelta list"
  | RemoveWorldEntities "RemovePoint list"

text \<open>The method \<open>Kind\<close>: the stable identifier used for routing.\<close>

primrec Kind :: "event \<Rightarrow> string" where
  "Kind (ChatReceived _ _ _ _) = ''chat_received''"
| "Kind (EvPrivateMessage _) = ''private_message''"
| "Kind (SystemMessage _ _ _) = ''system_message''"
| "Kind (EvStatUpdate _) = ''stat_update''"
| "Kind (EvStatsSnapshot _) = ''stats_snapshot''"
| "Kind (ExperienceGain _ _) = ''experience_gain''"
| "Kind (FatigueUpdate _) = ''fatigue_update''"
| "Kind (InventorySnapshot _) = ''inventory_snapshot''"
| "Kind (InventorySlotUpdate _ _) = ''inventory_slot_update''"
| "Kind (InventoryRemoveSlot _) = ''inventory_remove_slot''"
| "Kind (ItemGained _ _) = ''item_gained''"
| "Kind (EvWelcomeInfo _) = ''welcome_info''"
| "Kind (LogoutConfirm) = ''logout_confirm''"
| "Kind (Death) = ''death''"
| "Kind (EvGroundItem _) = ''ground_item''"
| "Kind (NpcDialog _) = ''npc_dialog''"
| "Kind (NpcDialogText _) = ''npc_dialog_text''"
| "Kind (SleepScreenAppeared _) = ''sleep_screen''"
| "Kind (SleepFatigueUpdate _) = ''sleep_fatigue_update''"
| "Kind (SleepwordIncorrect) = ''sleepword_incorrect''"
| "Kind (SleepEnded) = ''sleep_ended''"
| "Kind (UnknownPacket _ _) = ''unknown_packet''"
| "Kind (EvOwnPosition _) = ''own_position''"
| "Kind (EvNearbyPlayer _) = ''nearby_player''"
| "Kind (EvOtherPlayerChat _) = ''other_player_chat''"
| "Kind (EvOtherPlayerDamage _) = ''other_player_damage''"
| "Kind (EvOtherPlayerProjectile _) = ''other_player_projectile''"
| "Kind (EvOtherPlayerAppearance _) = ''other_player_appearance''"
| "Kind (PlayerActionBubble _ _) = ''player_action_bubble''"
| "Kind (EvNpcNearby _) = ''npc_nearby''"
| "Kind (EvNpcDamage _) = ''npc_damage''"
| "Kind (EvNpcChat _) = ''npc_chat''"
| "Kind (EvNpcProjectile _) = ''npc_projectile''"
| "Kind (TradeRequestReceived _ _) = ''trade_request''"
| "Kind (DuelRequestReceived _) = ''duel_request''"
| "Kind (EvTradeOpened _) = ''trade_opened''"
| "Kind (TradeOtherOffer _) = ''trade_other_offer''"
| "Kind (TradeClosed _) = ''trade_closed''"
| "Kind (TradeOtherAccepted) = ''trade_other_accepted''"
| "Kind (DuelOpened _) = ''duel_opened''"
| "Kind (DuelOtherOffer _) = ''duel_other_offer''"
| "Kind (EvDuelSettings _) = ''duel_settings_update''"
| "Kind (DuelOtherAccepted) = ''duel_other_accepted''"
| "Kind (EvDuelConfirmShown _) = ''duel_confirm_shown''"
| "Kind (DuelClosed _) = ''duel_closed''"
| "Kind (EvTradeConfirmShown _) = ''trade_confirm_shown''"
| "Kind (BankOpened _ _) = ''bank_opened''"
| "Kind (BankSlotUpdate _ _ _) = ''bank_slot_update''"
| "Kind (BankClosed) = ''bank_closed''"
| "Kind (EvShopOpened _) = ''shop_opened''"
| "Kind (ShopClosed) = ''shop_closed''"
| "Kind (PrayersActive _) = ''prayers_active''"
| "Kind (BoundaryUpdates _) = ''boundary_updates''"
| "Kind (SceneryUpdates _) = ''scenery_updates''"
| "Kind (GroundItemUpdates _) = ''ground_item_updates''"
| "Kind (RemoveWorldEntities _) = ''remove_world_entities''"

end
