(* ===== verification/Coords.thy ===== *)
theory Coords
  imports WireBits Events
begin

text \<open>
  The two bit-packed position packets: \<open>DecodePlayerCoords\<close> (\<open>proto/v235/playercoords.go\<close>) and
  \<open>DecodeNpcCoords\<close> (\<open>proto/v235/npccoords.go\<close>), and what they decode from a packet laid out as
  their comments document it.
\<close>

section \<open>Shared steps\<close>

text \<open>The bits left, as both decoders compute them in bit mode.\<close>

definition bits_left :: "Buffer \<Rightarrow> int" where
  "bits_left b = int (Len b) * 8 - (int (bitPos b) - int (rpos b) * 8)"

text \<open>A five-bit offset, 16 to 31 standing for -16 to -1.\<close>

definition signed5 :: "u32 \<Rightarrow> int" where
  "signed5 v = (if uint v \<ge> 16 then uint v - 32 else uint v)"

definition no_npc :: NpcNearby where
  "no_npc = \<lparr>nnIndex = 0, nnX = 0, nnY = 0, nnDX = 0, nnDY = 0, nnSprite = 0, nnTypeID = 0,
     nnIsNew = False, nnRemoved = False\<rparr>"

section \<open>Player coordinates (opcode 191)\<close>

text \<open>The loop over the tracked players: \<open>None\<close> is its early return on a read error.\<close>

fun skip_local_players :: "nat \<Rightarrow> Buffer \<Rightarrow> Buffer option" where
  "skip_local_players 0 b = Some b"
| "skip_local_players (Suc n) b =
     (case ReadBits 1 b of
        (Inl _, _) \<Rightarrow> None
      | (Inr needsUpdate, b) \<Rightarrow>
          (if needsUpdate = 0 then skip_local_players n b
           else
             case ReadBits 1 b of
               (Inl _, _) \<Rightarrow> None
             | (Inr updateType, b) \<Rightarrow>
                 (if updateType = 0 then
                    (case ReadBits 3 b of (Inl _, _) \<Rightarrow> None | (Inr _, b) \<Rightarrow> skip_local_players n b)
                  else
                    case ReadBits 2 b of
                      (Inl _, _) \<Rightarrow> None
                    | (Inr subType, b) \<Rightarrow>
                        (if subType = 3 then skip_local_players n b
                         else
                           case ReadBits 2 b of
                             (Inl _, _) \<Rightarrow> None
                           | (Inr _, b) \<Rightarrow> skip_local_players n b))))"

text \<open>The loop over the players entering view; every round but the last adds one, up to 251.\<close>

function read_new_players :: "int \<Rightarrow> int \<Rightarrow> NearbyPlayerEvent list \<Rightarrow> Buffer \<Rightarrow> NearbyPlayerEvent list \<times> Buffer" where
  "read_new_players ownX ownY nearby b =
     (if bits_left b < 25 then (nearby, b)
      else
        case ReadBits 11 b of
          (Inl _, b) \<Rightarrow> (nearby, b)
        | (Inr idx, b) \<Rightarrow>
          (case ReadBits 5 b of
             (Inl _, b) \<Rightarrow> (nearby, b)
           | (Inr offX, b) \<Rightarrow>
             (case ReadBits 5 b of
                (Inl _, b) \<Rightarrow> (nearby, b)
              | (Inr offY, b) \<Rightarrow>
                (case ReadBits 4 b of
                   (Inl _, b) \<Rightarrow> (nearby, b)
                 | (Inr sprite, b) \<Rightarrow>
                   (let nearby' = nearby @
                          [\<lparr>npIndex = uint idx, npX = ownX + signed5 offX, npY = ownY + signed5 offY,
                            npSprite = uint sprite, npIsNew = True, npRemoved = False\<rparr>]
                    in if length nearby' > 250 then (nearby', b)
                       else read_new_players ownX ownY nearby' b)))))"
  by pat_completeness auto
termination
  by (relation "measure (\<lambda>(x, y, nearby, b). 251 - length nearby)") auto

declare read_new_players.simps [simp del]

definition DecodePlayerCoords :: "byte list \<Rightarrow> goerr + OwnPositionUpdate \<times> NearbyPlayerEvent list" where
  "DecodePlayerCoords payload =
     (let b = StartBitAccess (WrapBuffer payload) in
      case ReadBits 11 b of
        (Inl e, _) \<Rightarrow> Inl (ErrWrap ''playercoords own_x'' e)
      | (Inr ownX, b) \<Rightarrow>
        (case ReadBits 13 b of
           (Inl e, _) \<Rightarrow> Inl (ErrWrap ''playercoords own_y'' e)
         | (Inr ownY, b) \<Rightarrow>
           (case ReadBits 4 b of
              (Inl e, _) \<Rightarrow> Inl (ErrWrap ''playercoords own_sprite'' e)
            | (Inr ownSprite, b) \<Rightarrow>
              (case ReadBits 8 b of
                 (Inl e, _) \<Rightarrow> Inl (ErrWrap ''playercoords local_count'' e)
               | (Inr localCount, b) \<Rightarrow>
                 (let own = \<lparr>opX = uint ownX, opY = uint ownY, opSprite = uint ownSprite\<rparr>
                  in case skip_local_players (unat localCount) b of
                       None \<Rightarrow> Inr (own, [])
                     | Some b \<Rightarrow> Inr (own, fst (read_new_players (uint ownX) (uint ownY) [] b)))))))"

section \<open>NPC coordinates (opcode 79)\<close>

definition npcMoveOffset :: "int \<Rightarrow> int \<times> int" where
  "npcMoveOffset dir =
     (if dir = 0 then (0, -1) else if dir = 1 then (1, -1) else if dir = 2 then (1, 0)
      else if dir = 3 then (1, 1) else if dir = 4 then (0, 1) else if dir = 5 then (-1, 1)
      else if dir = 6 then (-1, 0) else if dir = 7 then (-1, -1) else (0, 0))"

definition indexAt :: "int list \<Rightarrow> nat \<Rightarrow> int" where
  "indexAt order slot = (if slot < length order then order ! slot else -1)"

text \<open>
  The loop over the tracked NPCs, from slot \<open>i\<close> on; the result is the events and whether the loop
  ended without a read error.
\<close>

fun read_local_npcs :: "int list \<Rightarrow> nat \<Rightarrow> nat \<Rightarrow> Buffer \<Rightarrow> event list \<times> Buffer option" where
  "read_local_npcs order i 0 b = ([], Some b)"
| "read_local_npcs order i (Suc n) b =
     (case ReadBits 1 b of
        (Inl _, _) \<Rightarrow> ([], None)
      | (Inr needsUpdate, b) \<Rightarrow>
          (if needsUpdate = 0 then read_local_npcs order (i + 1) n b
           else
             case ReadBits 1 b of
               (Inl _, _) \<Rightarrow> ([], None)
             | (Inr discrim, b) \<Rightarrow>
                 (if discrim = 0 then
                    (case ReadBits 3 b of
                       (Inl _, _) \<Rightarrow> ([], None)
                     | (Inr dir, b) \<Rightarrow>
                         (let idx = indexAt order i;
                              (dx, dy) = npcMoveOffset (uint dir);
                              evs = (if idx \<ge> 0 then
                                       [EvNpcNearby (no_npc\<lparr>nnIndex := idx, nnDX := dx, nnDY := dy,
                                          nnSprite := uint dir\<rparr>)]
                                     else []);
                              r = read_local_npcs order (i + 1) n b
                          in (evs @ fst r, snd r)))
                  else
                    case ReadBits 2 b of
                      (Inl _, _) \<Rightarrow> ([], None)
                    | (Inr subType, b) \<Rightarrow>
                        (if subType = 3 then
                           (let idx = indexAt order i;
                                evs = (if idx \<ge> 0 then
                                         [EvNpcNearby (no_npc\<lparr>nnIndex := idx, nnRemoved := True\<rparr>)]
                                       else []);
                                r = read_local_npcs order (i + 1) n b
                            in (evs @ fst r, snd r))
                         else
                           case ReadBits 2 b of
                             (Inl _, _) \<Rightarrow> ([], None)
                           | (Inr _, b) \<Rightarrow> read_local_npcs order (i + 1) n b))))"

function read_new_npcs :: "int \<Rightarrow> int \<Rightarrow> event list \<Rightarrow> Buffer \<Rightarrow> event list \<times> Buffer" where
  "read_new_npcs ownX ownY events b =
     (if bits_left b < 36 then (events, b)
      else
        case ReadBits 12 b of
          (Inl _, b) \<Rightarrow> (events, b)
        | (Inr idx, b) \<Rightarrow>
          (case ReadBits 5 b of
             (Inl _, b) \<Rightarrow> (events, b)
           | (Inr offX, b) \<Rightarrow>
             (case ReadBits 5 b of
                (Inl _, b) \<Rightarrow> (events, b)
              | (Inr offY, b) \<Rightarrow>
                (case ReadBits 4 b of
                   (Inl _, b) \<Rightarrow> (events, b)
                 | (Inr sprite, b) \<Rightarrow>
                   (case ReadBits 10 b of
                      (Inl _, b) \<Rightarrow> (events, b)
                    | (Inr typeID, b) \<Rightarrow>
                      (let events' = events @
                             [EvNpcNearby (no_npc\<lparr>nnIndex := uint idx, nnX := ownX + signed5 offX,
                                nnY := ownY + signed5 offY, nnSprite := uint sprite,
                                nnTypeID := uint typeID, nnIsNew := True\<rparr>)]
                       in if length events' > 250 then (events', b)
                          else read_new_npcs ownX ownY events' b))))))"
  by pat_completeness auto
termination
  by (relation "measure (\<lambda>(x, y, events, b). 251 - length events)") auto

declare read_new_npcs.simps [simp del]

definition is_readded :: "event list \<Rightarrow> int \<Rightarrow> bool" where
  "is_readded events i \<longleftrightarrow>
     list_ex (\<lambda>ev. case ev of EvNpcNearby n \<Rightarrow> nnIsNew n \<and> nnIndex n = i | _ \<Rightarrow> False) events"

definition dropChurnedRemovals :: "event list \<Rightarrow> event list" where
  "dropChurnedRemovals events =
     filter (\<lambda>ev. case ev of
                    EvNpcNearby n \<Rightarrow> \<not> (nnRemoved n \<and> is_readded events (nnIndex n))
                  | _ \<Rightarrow> True) events"

definition DecodeNpcCoords :: "byte list \<Rightarrow> int \<Rightarrow> int \<Rightarrow> int list \<Rightarrow> goerr + event list \<times> int" where
  "DecodeNpcCoords payload ownX ownY order =
     (let b = StartBitAccess (WrapBuffer payload) in
      case ReadBits 8 b of
        (Inl e, _) \<Rightarrow> Inl (ErrWrap ''npccoords local_count'' e)
      | (Inr localCount, b) \<Rightarrow>
          (case read_local_npcs order 0 (unat localCount) b of
             (events, None) \<Rightarrow> Inr (events, uint localCount)
           | (events, Some b) \<Rightarrow>
               Inr (dropChurnedRemovals (fst (read_new_npcs ownX ownY events b)), uint localCount)))"

section \<open>The documented layout\<close>

text \<open>
  A packet as the server lays it out: one record per tracked mob, in its order, then one per mob
  that enters view, then less than a byte of padding.
\<close>

datatype mob_rec = Keep | Move nat | Remove | Sprite nat

fun mob_bits :: "mob_rec \<Rightarrow> bool list" where
  "mob_bits Keep = nbits 1 0"
| "mob_bits (Move d) = nbits 1 1 @ nbits 1 0 @ nbits 3 d"
| "mob_bits Remove = nbits 1 1 @ nbits 1 1 @ nbits 2 3"
| "mob_bits (Sprite s) = nbits 1 1 @ nbits 1 1 @ nbits 2 (s div 4) @ nbits 2 (s mod 4)"

fun mob_ok :: "mob_rec \<Rightarrow> bool" where
  "mob_ok (Move d) \<longleftrightarrow> d < 8"
| "mob_ok (Sprite s) \<longleftrightarrow> s < 12"
| "mob_ok _ \<longleftrightarrow> True"

record new_npc =
  newIndex :: nat
  newOffX :: int
  newOffY :: int
  newSprite :: nat
  newType :: nat

definition wrap5 :: "int \<Rightarrow> nat" where
  "wrap5 d = nat (d mod 32)"

definition new_npc_bits :: "new_npc \<Rightarrow> bool list" where
  "new_npc_bits n =
     nbits 12 (newIndex n) @ nbits 5 (wrap5 (newOffX n)) @ nbits 5 (wrap5 (newOffY n)) @
     nbits 4 (newSprite n) @ nbits 10 (newType n)"

definition new_npc_ok :: "new_npc \<Rightarrow> bool" where
  "new_npc_ok n \<longleftrightarrow> newIndex n < 4096 \<and> -16 \<le> newOffX n \<and> newOffX n < 16 \<and>
     -16 \<le> newOffY n \<and> newOffY n < 16 \<and> newSprite n < 16 \<and> newType n < 1024"

definition npc_packet :: "mob_rec list \<Rightarrow> new_npc list \<Rightarrow> bool list" where
  "npc_packet recs news = nbits 8 (length recs) @ concat (map mob_bits recs) @ concat (map new_npc_bits news)"

text \<open>What the packet says, in terms of events.\<close>

fun mob_event :: "int \<Rightarrow> mob_rec \<Rightarrow> event list" where
  "mob_event idx (Move d) =
     [EvNpcNearby (no_npc\<lparr>nnIndex := idx, nnDX := fst (npcMoveOffset (int d)),
        nnDY := snd (npcMoveOffset (int d)), nnSprite := int d\<rparr>)]"
| "mob_event idx Remove = [EvNpcNearby (no_npc\<lparr>nnIndex := idx, nnRemoved := True\<rparr>)]"
| "mob_event idx _ = []"

definition new_npc_event :: "int \<Rightarrow> int \<Rightarrow> new_npc \<Rightarrow> event" where
  "new_npc_event ownX ownY n =
     EvNpcNearby (no_npc\<lparr>nnIndex := int (newIndex n), nnX := ownX + newOffX n,
       nnY := ownY + newOffY n, nnSprite := int (newSprite n), nnTypeID := int (newType n),
       nnIsNew := True\<rparr>)"

section \<open>Decoding that layout\<close>

lemma uint_of_nat_small: "v < 4294967296 \<Longrightarrow> uint (of_nat v :: u32) = int v"
  by (simp add: unsigned_of_nat take_bit_nat_eq_self)

lemma signed5_wrap5: "-16 \<le> d \<Longrightarrow> d < 16 \<Longrightarrow> signed5 (of_nat (wrap5 d)) = d"
proof -
  assume d: "-16 \<le> d" "d < 16"
  have w: "int (wrap5 d) = d mod 32" by (simp add: wrap5_def)
  then have u: "uint (of_nat (wrap5 d) :: u32) = d mod 32"
    by (subst uint_of_nat_small) (simp_all add: wrap5_def nat_less_iff)
  show ?thesis
  proof (cases "0 \<le> d")
    case True
    with d have "d mod 32 = d" by simp
    with u d show ?thesis by (simp add: signed5_def)
  next
    case False
    with d have "(d + 32) mod 32 = d + 32" by (intro mod_pos_pos_trivial) simp_all
    then have "d mod 32 = d + 32" by simp
    with u d False show ?thesis by (simp add: signed5_def)
  qed
qed

lemma wrap5_bound: "wrap5 d < 32"
  by (simp add: wrap5_def nat_less_iff)

lemma bits_left_bitreading:
  "bits_left (bitreading data p) = 8 * int (length data) - int p"
  by (simp add: bits_left_def bitreading_def Len_def)

lemma bits_left_drop:
  "drop p (bits_of data) = bs \<Longrightarrow> bs \<noteq> [] \<Longrightarrow> bits_left (bitreading data p) = int (length bs)"
  by (auto simp: bits_left_bitreading of_nat_diff)

lemma bits_left_few:
  "drop p (bits_of data) = bs \<Longrightarrow> bits_left (bitreading data p) \<le> int (length bs)"
  by (auto simp: bits_left_bitreading)

text \<open>The high bits of a sprite are never the removal mark.\<close>

lemma sprite_not_removal: "v < 3 \<Longrightarrow> (of_nat v :: u32) \<noteq> 3"
proof
  assume "v < 3" "(of_nat v :: u32) = 3"
  then have "uint (of_nat v :: u32) = 3" by simp
  with \<open>v < 3\<close> show False by (simp add: uint_of_nat_small)
qed

lemma read_mob:
  assumes "mob_ok r" and "drop p (bits_of data) = mob_bits r @ rest"
    and "i < length order" and "\<forall>j \<in> set order. 0 \<le> j"
  shows "\<exists>p'. drop p' (bits_of data) = rest \<and>
    read_local_npcs order i (Suc n) (bitreading data p) =
      (mob_event (order ! i) r @ fst (read_local_npcs order (i + 1) n (bitreading data p')),
       snd (read_local_npcs order (i + 1) n (bitreading data p')))"
proof (cases r)
  case Keep
  with assms(2) have "drop p (bits_of data) = nbits 1 0 @ rest" by simp
  note f = ReadBits_field [OF this]
  show ?thesis using Keep f by (intro exI [of _ "p + 1"]) simp
next
  case (Move d)
  with assms(2) have "drop p (bits_of data) = nbits 1 1 @ nbits 1 0 @ nbits 3 d @ rest" by simp
  note f1 = ReadBits_field [OF this]
  have "drop (p + 1) (bits_of data) = nbits 1 0 @ nbits 3 d @ rest" using f1(2) by simp
  note f2 = ReadBits_field [OF this]
  have "drop (p + 1 + 1) (bits_of data) = nbits 3 d @ rest" using f2(2) by simp
  note f3 = ReadBits_field [OF this]
  have "d < 8" using assms(1) Move by simp
  moreover have "indexAt order i \<ge> 0" "indexAt order i = order ! i"
    using assms(3,4) by (simp_all add: indexAt_def)
  ultimately show ?thesis using Move f1 f2 f3
    by (intro exI [of _ "p + 1 + 1 + 3"]) (simp add: Let_def case_prod_beta uint_of_nat_small)
next
  case Remove
  with assms(2) have "drop p (bits_of data) = nbits 1 1 @ nbits 1 1 @ nbits 2 3 @ rest" by simp
  note f1 = ReadBits_field [OF this]
  have "drop (p + 1) (bits_of data) = nbits 1 1 @ nbits 2 3 @ rest" using f1(2) by simp
  note f2 = ReadBits_field [OF this]
  have "drop (p + 1 + 1) (bits_of data) = nbits 2 3 @ rest" using f2(2) by simp
  note f3 = ReadBits_field [OF this]
  have "indexAt order i \<ge> 0" "indexAt order i = order ! i"
    using assms(3,4) by (simp_all add: indexAt_def)
  with Remove f1 f2 f3 show ?thesis
    by (intro exI [of _ "p + 1 + 1 + 2"]) (simp add: Let_def)
next
  case (Sprite s)
  with assms(2) have "drop p (bits_of data) =
    nbits 1 1 @ nbits 1 1 @ nbits 2 (s div 4) @ nbits 2 (s mod 4) @ rest" by simp
  note f1 = ReadBits_field [OF this]
  have "drop (p + 1) (bits_of data) = nbits 1 1 @ nbits 2 (s div 4) @ nbits 2 (s mod 4) @ rest"
    using f1(2) by simp
  note f2 = ReadBits_field [OF this]
  have "drop (p + 1 + 1) (bits_of data) = nbits 2 (s div 4) @ nbits 2 (s mod 4) @ rest"
    using f2(2) by simp
  note f3 = ReadBits_field [OF this]
  have s: "s div 4 < 3" "s mod 4 < 4" using assms(1) Sprite by (simp_all add: less_mult_imp_div_less)
  have "drop (p + 1 + 1 + 2) (bits_of data) = nbits 2 (s mod 4) @ rest" using f3(2) s by simp
  note f4 = ReadBits_field [OF this]
  note ne = sprite_not_removal [OF s(1)]
  from Sprite ne f1 f2 f3 f4 s show ?thesis
    by (intro exI [of _ "p + 1 + 1 + 2 + 2"]) simp
qed

lemma read_mobs:
  "list_all mob_ok recs \<Longrightarrow> drop p (bits_of data) = concat (map mob_bits recs) @ rest \<Longrightarrow>
   i + length recs \<le> length order \<Longrightarrow> \<forall>j \<in> set order. 0 \<le> j \<Longrightarrow>
   \<exists>p'. drop p' (bits_of data) = rest \<and>
     read_local_npcs order i (length recs) (bitreading data p) =
       (concat (map2 mob_event (drop i order) recs), Some (bitreading data p'))"
proof (induction recs arbitrary: p i)
  case Nil
  then show ?case by (intro exI [of _ p]) simp
next
  case (Cons r recs)
  from Cons.prems have i: "i < length order" by simp
  have "drop p (bits_of data) = mob_bits r @ (concat (map mob_bits recs) @ rest)"
    using Cons.prems(2) by simp
  from read_mob [OF _ this i Cons.prems(4), of "length recs"] Cons.prems(1) obtain q where
    q: "drop q (bits_of data) = concat (map mob_bits recs) @ rest"
      "read_local_npcs order i (Suc (length recs)) (bitreading data p) =
        (mob_event (order ! i) r @ fst (read_local_npcs order (i + 1) (length recs) (bitreading data q)),
         snd (read_local_npcs order (i + 1) (length recs) (bitreading data q)))"
    by auto
  from Cons.IH [OF _ q(1), of "i + 1"] Cons.prems obtain p' where
    "drop p' (bits_of data) = rest"
    "read_local_npcs order (i + 1) (length recs) (bitreading data q) =
      (concat (map2 mob_event (drop (i + 1) order) recs), Some (bitreading data p'))"
    by auto
  with q(2) i show ?case
    by (intro exI [of _ p']) (simp add: Cons_nth_drop_Suc [symmetric])
qed

lemma length_new_npc_bits [simp]: "length (new_npc_bits n) = 36"
  by (simp add: new_npc_bits_def)

lemma read_new_npc:
  assumes ok: "new_npc_ok n" and d: "drop p (bits_of data) = new_npc_bits n @ rest"
    and few: "length events < 250"
  shows "\<exists>p'. drop p' (bits_of data) = rest \<and>
    read_new_npcs x y events (bitreading data p) =
      read_new_npcs x y (events @ [new_npc_event x y n]) (bitreading data p')"
proof -
  have left: "\<not> bits_left (bitreading data p) < 36"
    using bits_left_drop [OF d] length_new_npc_bits [of n] by (cases "new_npc_bits n") auto
  have "drop p (bits_of data) = nbits 12 (newIndex n) @ nbits 5 (wrap5 (newOffX n)) @
      nbits 5 (wrap5 (newOffY n)) @ nbits 4 (newSprite n) @ nbits 10 (newType n) @ rest"
    using d by (simp add: new_npc_bits_def)
  note f1 = ReadBits_field [OF this]
  have "drop (p + 12) (bits_of data) = nbits 5 (wrap5 (newOffX n)) @
      nbits 5 (wrap5 (newOffY n)) @ nbits 4 (newSprite n) @ nbits 10 (newType n) @ rest"
    using f1(2) ok by (simp add: new_npc_ok_def)
  note f2 = ReadBits_field [OF this]
  have "drop (p + 12 + 5) (bits_of data) =
      nbits 5 (wrap5 (newOffY n)) @ nbits 4 (newSprite n) @ nbits 10 (newType n) @ rest"
    using f2(2) wrap5_bound by simp
  note f3 = ReadBits_field [OF this]
  have "drop (p + 12 + 5 + 5) (bits_of data) = nbits 4 (newSprite n) @ nbits 10 (newType n) @ rest"
    using f3(2) wrap5_bound by simp
  note f4 = ReadBits_field [OF this]
  have "drop (p + 12 + 5 + 5 + 4) (bits_of data) = nbits 10 (newType n) @ rest"
    using f4(2) ok by (simp add: new_npc_ok_def)
  note f5 = ReadBits_field [OF this]
  show ?thesis
    using ok left few f1 f2 f3 f4 f5 wrap5_bound
    by (intro exI [of _ "p + 12 + 5 + 5 + 4 + 10"], subst read_new_npcs.simps)
       (simp add: Let_def new_npc_ok_def uint_of_nat_small signed5_wrap5 new_npc_event_def)
qed

lemma read_new_npcs_all:
  "list_all new_npc_ok news \<Longrightarrow> drop p (bits_of data) = concat (map new_npc_bits news) @ pad \<Longrightarrow>
   length pad < 36 \<Longrightarrow> length events + length news \<le> 250 \<Longrightarrow>
   fst (read_new_npcs x y events (bitreading data p)) = events @ map (new_npc_event x y) news"
proof (induction news arbitrary: p events)
  case Nil
  then show ?case
    using bits_left_few [of p data pad] by (subst read_new_npcs.simps) simp
next
  case (Cons n news)
  have "drop p (bits_of data) = new_npc_bits n @ (concat (map new_npc_bits news) @ pad)"
    using Cons.prems(2) by simp
  from read_new_npc [OF _ this, of events x y] Cons.prems obtain q where
    "drop q (bits_of data) = concat (map new_npc_bits news) @ pad"
    "read_new_npcs x y events (bitreading data p) =
      read_new_npcs x y (events @ [new_npc_event x y n]) (bitreading data q)"
    by auto
  with Cons.IH [of q "events @ [new_npc_event x y n]"] Cons.prems show ?case by simp
qed

text \<open>The events of a packet before the churn is collapsed.\<close>

definition npc_events :: "int \<Rightarrow> int \<Rightarrow> int list \<Rightarrow> mob_rec list \<Rightarrow> new_npc list \<Rightarrow> event list" where
  "npc_events x y order recs news =
     concat (map2 mob_event order recs) @ map (new_npc_event x y) news"

lemma length_mob_events: "length (concat (map2 mob_event order recs)) \<le> length recs"
proof (induction recs arbitrary: order)
  case (Cons r recs)
  have "length (mob_event i r) \<le> 1" for i by (cases r) simp_all
  moreover have "length (concat (map2 mob_event os recs)) \<le> length recs" for os
    by (rule Cons.IH)
  ultimately show ?case by (cases order) (simp_all add: add_mono [of _ "Suc 0", simplified])
qed simp

lemma npc_packet_decoded:
  assumes "bits_of payload = npc_packet recs news @ pad" and "length pad < 36"
    and "list_all mob_ok recs" and "list_all new_npc_ok news"
    and "length recs \<le> length order" and "\<forall>j \<in> set order. 0 \<le> j"
    and few: "length recs + length news \<le> 250"
  shows "DecodeNpcCoords payload x y order =
    Inr (dropChurnedRemovals (npc_events x y order recs news), int (length recs))"
proof -
  have "drop 0 (bits_of payload) = nbits 8 (length recs) @
      concat (map mob_bits recs) @ (concat (map new_npc_bits news) @ pad)"
    using assms(1) by (simp add: npc_packet_def)
  note f = ReadBits_field [OF this]
  have "drop (0 + 8) (bits_of payload) =
      concat (map mob_bits recs) @ (concat (map new_npc_bits news) @ pad)"
    using f(2) few by simp
  from read_mobs [OF assms(3) this, of 0 order] assms(5,6) obtain q where
    q: "drop q (bits_of payload) = concat (map new_npc_bits news) @ pad"
      "read_local_npcs order 0 (length recs) (bitreading payload (0 + 8)) =
        (concat (map2 mob_event order recs), Some (bitreading payload q))"
    by auto
  have "fst (read_new_npcs x y (concat (map2 mob_event order recs)) (bitreading payload q)) =
      npc_events x y order recs news"
    using read_new_npcs_all [OF assms(4) q(1) assms(2)] length_mob_events [of order recs] few
    by (simp add: npc_events_def)
  moreover have "unat (of_nat (length recs) :: u32) = length recs"
    using few by (simp add: unsigned_of_nat take_bit_nat_eq_self)
  ultimately show ?thesis using f(1) q(2) few
    by (simp add: DecodeNpcCoords_def Let_def StartBitAccess_WrapBuffer uint_of_nat_small)
qed

section \<open>Packing bits into bytes\<close>

text \<open>The server's bit writer: bytes filled from the top bit down, the last one padded with zeros.\<close>

function pack_bits :: "bool list \<Rightarrow> byte list" where
  "pack_bits bs =
     (if bs = [] then []
      else of_nat (bits_val (take 8 (bs @ replicate 7 False)) 0) # pack_bits (drop 8 bs))"
  by pat_completeness auto
termination
  by (relation "measure length") auto

declare pack_bits.simps [simp del]

lemma bit_bits_val: "bit (bits_val xs 0) i \<longleftrightarrow> i < length xs \<and> rev xs ! i"
proof (induction xs arbitrary: i rule: rev_induct)
  case Nil
  then show ?case by simp
next
  case (snoc b xs)
  have v: "bits_val (xs @ [b]) 0 = 2 * bits_val xs 0 + of_bool b" by simp
  show ?case
  proof (cases i)
    case 0
    then show ?thesis unfolding v by (simp add: bit_0)
  next
    case (Suc j)
    then show ?thesis unfolding v using snoc [of j] by (simp add: bit_Suc)
  qed
qed

lemma byte_bits_of_val:
  assumes "length bs = 8"
  shows "byte_bits (of_nat (bits_val bs 0)) = bs"
proof (rule nth_equalityI)
  show "length (byte_bits (of_nat (bits_val bs 0))) = length bs" using assms by simp
  fix i assume "i < length (byte_bits (of_nat (bits_val bs 0)))"
  then have "i < 8" by simp
  with assms show "byte_bits (of_nat (bits_val bs 0)) ! i = bs ! i"
    by (auto simp: byte_bits_nth bit_of_nat_iff bit_bits_val rev_nth)
qed

lemma bits_of_pack: "\<exists>k < 8. bits_of (pack_bits bs) = bs @ replicate k False"
proof (induction bs rule: pack_bits.induct)
  case (1 bs)
  show ?case
  proof (cases "bs = []")
    case True
    then show ?thesis by (intro exI [of _ 0]) (simp add: pack_bits.simps bits_of_def)
  next
    case False
    have len: "length (take 8 (bs @ replicate 7 False)) = 8" using False by (cases bs) auto
    have split: "bits_of (pack_bits bs) = take 8 (bs @ replicate 7 False) @ bits_of (pack_bits (drop 8 bs))"
      using False byte_bits_of_val [OF len] by (subst pack_bits.simps) (simp add: bits_of_def)
    show ?thesis
    proof (cases "length bs < 8")
      case True
      then have "pack_bits (drop 8 bs) = []" by (simp add: pack_bits.simps)
      moreover from True have "take 8 (bs @ replicate 7 False) = bs @ replicate (8 - length bs) False"
        using False by (cases bs) (auto simp: min_def)
      ultimately show ?thesis using split False
        by (intro exI [of _ "8 - length bs"]) (simp add: bits_of_def)
    next
      case long: False
      from 1 [OF False] obtain k where "k < 8" "bits_of (pack_bits (drop 8 bs)) = drop 8 bs @ replicate k False"
        by blast
      with long split show ?thesis by (intro exI [of _ k]) (simp add: append_assoc [symmetric])
    qed
  qed
qed

text \<open>
  C19. An NPC packet is understood exactly: for any tracked list \<open>order\<close> and any sequence of update
  records and entering NPCs, packed as the server packs them, \<open>DecodeNpcCoords\<close> returns the number
  of records and, for each record at slot i, the event for the NPC at \<open>order[i]\<close> (a one-tile step
  in the direction sent, a removal, nothing for a kept or re-sprited one), then each entering NPC at
  its absolute position, with the removals of NPCs that re-enter dropped; the padding of the last
  byte is never read as a record.
\<close>

theorem npc_coords_decoded:
  assumes "list_all mob_ok recs" and "list_all new_npc_ok news"
    and "length recs \<le> length order" and "\<forall>j \<in> set order. 0 \<le> j"
    and "length recs + length news \<le> 250"
  shows "DecodeNpcCoords (pack_bits (npc_packet recs news)) x y order =
    Inr (dropChurnedRemovals (npc_events x y order recs news), int (length recs))"
proof -
  obtain k where "k < 8" "bits_of (pack_bits (npc_packet recs news)) = npc_packet recs news @ replicate k False"
    using bits_of_pack by blast
  with assms show ?thesis by (intro npc_packet_decoded) auto
qed

theorem npc_coords_decoded_witness:
  "DecodeNpcCoords (pack_bits (npc_packet [Move 2, Remove, Sprite 5]
      [\<lparr>newIndex = 8, newOffX = -3, newOffY = 4, newSprite = 9, newType = 95\<rparr>])) 120 504 [7, 8, 9] =
    Inr (dropChurnedRemovals (npc_events 120 504 [7, 8, 9] [Move 2, Remove, Sprite 5]
      [\<lparr>newIndex = 8, newOffX = -3, newOffY = 4, newSprite = 9, newType = 95\<rparr>]), 3) \<and>
   dropChurnedRemovals (npc_events 120 504 [7, 8, 9] [Move 2, Remove, Sprite 5]
      [\<lparr>newIndex = 8, newOffX = -3, newOffY = 4, newSprite = 9, newType = 95\<rparr>]) =
    [EvNpcNearby (no_npc\<lparr>nnIndex := 7, nnDX := 1, nnDY := 0, nnSprite := 2\<rparr>),
     EvNpcNearby (no_npc\<lparr>nnIndex := 8, nnX := 117, nnY := 508, nnSprite := 9, nnTypeID := 95,
       nnIsNew := True\<rparr>)]"
  using npc_coords_decoded [of "[Move 2, Remove, Sprite 5]"
      "[\<lparr>newIndex = 8, newOffX = -3, newOffY = 4, newSprite = 9, newType = 95\<rparr>]" "[7, 8, 9]" 120 504]
  by (simp add: new_npc_ok_def dropChurnedRemovals_def npc_events_def is_readded_def
      new_npc_event_def npcMoveOffset_def no_npc_def)

section \<open>Player packets\<close>

record new_player =
  playerIdx :: nat
  playerOffX :: int
  playerOffY :: int
  playerSprite :: nat

definition new_player_bits :: "new_player \<Rightarrow> bool list" where
  "new_player_bits n =
     nbits 11 (playerIdx n) @ nbits 5 (wrap5 (playerOffX n)) @ nbits 5 (wrap5 (playerOffY n)) @
     nbits 4 (playerSprite n)"

definition new_player_ok :: "new_player \<Rightarrow> bool" where
  "new_player_ok n \<longleftrightarrow> playerIdx n < 2048 \<and> -16 \<le> playerOffX n \<and> playerOffX n < 16 \<and>
     -16 \<le> playerOffY n \<and> playerOffY n < 16 \<and> playerSprite n < 16"

definition player_packet :: "nat \<Rightarrow> nat \<Rightarrow> nat \<Rightarrow> mob_rec list \<Rightarrow> new_player list \<Rightarrow> bool list" where
  "player_packet x y sprite recs news =
     nbits 11 x @ nbits 13 y @ nbits 4 sprite @ nbits 8 (length recs) @
     concat (map mob_bits recs) @ concat (map new_player_bits news)"

definition new_player_event :: "int \<Rightarrow> int \<Rightarrow> new_player \<Rightarrow> NearbyPlayerEvent" where
  "new_player_event x y n =
     \<lparr>npIndex = int (playerIdx n), npX = x + playerOffX n, npY = y + playerOffY n,
      npSprite = int (playerSprite n), npIsNew = True, npRemoved = False\<rparr>"

lemma skip_mob:
  assumes "mob_ok r" and "drop p (bits_of data) = mob_bits r @ rest"
  shows "\<exists>p'. drop p' (bits_of data) = rest \<and>
    skip_local_players (Suc n) (bitreading data p) = skip_local_players n (bitreading data p')"
proof (cases r)
  case Keep
  with assms(2) have "drop p (bits_of data) = nbits 1 0 @ rest" by simp
  note f = ReadBits_field [OF this]
  show ?thesis using Keep f by (intro exI [of _ "p + 1"]) simp
next
  case (Move d)
  with assms(2) have "drop p (bits_of data) = nbits 1 1 @ nbits 1 0 @ nbits 3 d @ rest" by simp
  note f1 = ReadBits_field [OF this]
  have "drop (p + 1) (bits_of data) = nbits 1 0 @ nbits 3 d @ rest" using f1(2) by simp
  note f2 = ReadBits_field [OF this]
  have "drop (p + 1 + 1) (bits_of data) = nbits 3 d @ rest" using f2(2) by simp
  note f3 = ReadBits_field [OF this]
  show ?thesis using assms(1) Move f1 f2 f3 by (intro exI [of _ "p + 1 + 1 + 3"]) simp
next
  case Remove
  with assms(2) have "drop p (bits_of data) = nbits 1 1 @ nbits 1 1 @ nbits 2 3 @ rest" by simp
  note f1 = ReadBits_field [OF this]
  have "drop (p + 1) (bits_of data) = nbits 1 1 @ nbits 2 3 @ rest" using f1(2) by simp
  note f2 = ReadBits_field [OF this]
  have "drop (p + 1 + 1) (bits_of data) = nbits 2 3 @ rest" using f2(2) by simp
  note f3 = ReadBits_field [OF this]
  show ?thesis using Remove f1 f2 f3 by (intro exI [of _ "p + 1 + 1 + 2"]) simp
next
  case (Sprite s)
  with assms(2) have "drop p (bits_of data) =
    nbits 1 1 @ nbits 1 1 @ nbits 2 (s div 4) @ nbits 2 (s mod 4) @ rest" by simp
  note f1 = ReadBits_field [OF this]
  have "drop (p + 1) (bits_of data) = nbits 1 1 @ nbits 2 (s div 4) @ nbits 2 (s mod 4) @ rest"
    using f1(2) by simp
  note f2 = ReadBits_field [OF this]
  have "drop (p + 1 + 1) (bits_of data) = nbits 2 (s div 4) @ nbits 2 (s mod 4) @ rest"
    using f2(2) by simp
  note f3 = ReadBits_field [OF this]
  have s: "s div 4 < 3" "s mod 4 < 4" using assms(1) Sprite by (simp_all add: less_mult_imp_div_less)
  have "drop (p + 1 + 1 + 2) (bits_of data) = nbits 2 (s mod 4) @ rest" using f3(2) s by simp
  note f4 = ReadBits_field [OF this]
  note ne = sprite_not_removal [OF s(1)]
  from Sprite ne f1 f2 f3 f4 s show ?thesis by (intro exI [of _ "p + 1 + 1 + 2 + 2"]) simp
qed

lemma skip_mobs:
  "list_all mob_ok recs \<Longrightarrow> drop p (bits_of data) = concat (map mob_bits recs) @ rest \<Longrightarrow>
   \<exists>p'. drop p' (bits_of data) = rest \<and>
     skip_local_players (length recs) (bitreading data p) = Some (bitreading data p')"
proof (induction recs arbitrary: p)
  case Nil
  then show ?case by auto
next
  case (Cons r recs)
  have "drop p (bits_of data) = mob_bits r @ (concat (map mob_bits recs) @ rest)"
    using Cons.prems(2) by simp
  from skip_mob [OF _ this, of "length recs"] Cons.prems(1) obtain q where
    "drop q (bits_of data) = concat (map mob_bits recs) @ rest"
    "skip_local_players (Suc (length recs)) (bitreading data p) =
      skip_local_players (length recs) (bitreading data q)"
    by auto
  with Cons.IH [of q] Cons.prems(1) show ?case by simp
qed

lemma length_new_player_bits [simp]: "length (new_player_bits n) = 25"
  by (simp add: new_player_bits_def)

lemma read_new_player:
  assumes ok: "new_player_ok n" and d: "drop p (bits_of data) = new_player_bits n @ rest"
    and few: "length nearby < 250"
  shows "\<exists>p'. drop p' (bits_of data) = rest \<and>
    read_new_players x y nearby (bitreading data p) =
      read_new_players x y (nearby @ [new_player_event x y n]) (bitreading data p')"
proof -
  have left: "\<not> bits_left (bitreading data p) < 25"
    using bits_left_drop [OF d] length_new_player_bits [of n] by (cases "new_player_bits n") auto
  have "drop p (bits_of data) = nbits 11 (playerIdx n) @ nbits 5 (wrap5 (playerOffX n)) @
      nbits 5 (wrap5 (playerOffY n)) @ nbits 4 (playerSprite n) @ rest"
    using d by (simp add: new_player_bits_def)
  note f1 = ReadBits_field [OF this]
  have "drop (p + 11) (bits_of data) = nbits 5 (wrap5 (playerOffX n)) @
      nbits 5 (wrap5 (playerOffY n)) @ nbits 4 (playerSprite n) @ rest"
    using f1(2) ok by (simp add: new_player_ok_def)
  note f2 = ReadBits_field [OF this]
  have "drop (p + 11 + 5) (bits_of data) =
      nbits 5 (wrap5 (playerOffY n)) @ nbits 4 (playerSprite n) @ rest"
    using f2(2) wrap5_bound by simp
  note f3 = ReadBits_field [OF this]
  have "drop (p + 11 + 5 + 5) (bits_of data) = nbits 4 (playerSprite n) @ rest"
    using f3(2) wrap5_bound by simp
  note f4 = ReadBits_field [OF this]
  show ?thesis
    using ok left few f1 f2 f3 f4 wrap5_bound
    by (intro exI [of _ "p + 11 + 5 + 5 + 4"], subst read_new_players.simps)
       (simp add: Let_def new_player_ok_def uint_of_nat_small signed5_wrap5 new_player_event_def)
qed

lemma read_new_players_all:
  "list_all new_player_ok news \<Longrightarrow> drop p (bits_of data) = concat (map new_player_bits news) @ pad \<Longrightarrow>
   length pad < 25 \<Longrightarrow> length nearby + length news \<le> 250 \<Longrightarrow>
   fst (read_new_players x y nearby (bitreading data p)) = nearby @ map (new_player_event x y) news"
proof (induction news arbitrary: p nearby)
  case Nil
  then show ?case
    using bits_left_few [of p data pad] by (subst read_new_players.simps) simp
next
  case (Cons n news)
  have "drop p (bits_of data) = new_player_bits n @ (concat (map new_player_bits news) @ pad)"
    using Cons.prems(2) by simp
  from read_new_player [OF _ this, of nearby x y] Cons.prems obtain q where
    "drop q (bits_of data) = concat (map new_player_bits news) @ pad"
    "read_new_players x y nearby (bitreading data p) =
      read_new_players x y (nearby @ [new_player_event x y n]) (bitreading data q)"
    by auto
  with Cons.IH [of q "nearby @ [new_player_event x y n]"] Cons.prems show ?case by simp
qed



end
