(* ===== verification/ChatCodec.thy ===== *)
theory ChatCodec
  imports WireBuffer GoString
begin

text \<open>
  The chat compression of \<open>proto/v235/stringencryption.go\<close>: the tables \<open>buildRSCTables\<close> makes from
  the code lengths, and the two directions of the codec.

  The dictionary is a growing array of \<open>int32\<close>: a terminal holds the complement of its character,
  a branch the index that a one bit leads to (a zero bit leads to the next entry).
\<close>

section \<open>The tables\<close>

definition rscInit :: "nat list" where
  "rscInit =
    [22, 22, 22, 22, 22, 22, 21, 22, 22, 20, 22, 22, 22, 21, 22, 22, 22, 22, 22, 22, 22, 22,
     22, 22, 22, 22, 22, 22, 22, 22, 22, 22, 3, 8, 22, 16, 22, 16, 17, 7, 13, 13, 13, 16,
     7, 10, 6, 16, 10, 11, 12, 12, 12, 12, 13, 13, 14, 14, 11, 14, 19, 15, 17, 8, 11, 9,
     10, 10, 10, 10, 11, 10, 9, 7, 12, 11, 10, 10, 9, 10, 10, 12, 10, 9, 8, 12, 12, 9,
     14, 8, 12, 17, 16, 17, 22, 13, 21, 4, 7, 6, 5, 3, 6, 6, 5, 4, 10, 7, 5, 6,
     4, 4, 6, 10, 5, 4, 4, 5, 7, 6, 10, 6, 10, 22, 19, 22, 14, 22, 22, 22, 22, 22,
     22, 22, 22, 22, 22, 22, 22, 22, 22, 22, 22, 22, 22, 22, 22, 22, 22, 22, 22, 22, 22, 22,
     22, 22, 22, 22, 22, 22, 22, 22, 22, 22, 22, 22, 22, 22, 22, 22, 22, 22, 22, 22, 22, 22,
     22, 22, 22, 22, 22, 22, 22, 22, 22, 22, 22, 22, 22, 22, 22, 22, 22, 22, 22, 22, 22, 22,
     22, 22, 22, 22, 22, 22, 22, 22, 22, 22, 22, 22, 22, 22, 22, 22, 22, 22, 22, 22, 22, 22,
     22, 22, 22, 22, 22, 22, 22, 22, 22, 22, 22, 22, 22, 22, 22, 22, 22, 22, 22, 22, 22, 22,
     22, 22, 22, 22, 22, 21, 22, 21, 22, 22, 22, 21, 22, 22]"

record rsc_tables =
  cipherBlock :: "u32 list"
  blockBuilder :: "u32 list"
  cipherDictionary :: "int list"
  indexTemp :: int

text \<open>The inner loop that walks the shorter lengths down from \<open>initValue - 1\<close>.\<close>

fun lower_blocks :: "u32 \<Rightarrow> nat \<Rightarrow> u32 list \<Rightarrow> u32 list" where
  "lower_blocks v 0 bb = bb"
| "lower_blocks v (Suc c) bb =
     (let v2 = bb ! Suc c in
      if v \<noteq> v2 then bb
      else
        let sel = push_bit (32 - Suc c) 1 in
        if v2 AND sel = 0 then lower_blocks v c (bb[Suc c := sel OR v2])
        else bb[Suc c := bb ! c])"

definition raise_blocks :: "u32 \<Rightarrow> u32 \<Rightarrow> nat \<Rightarrow> u32 list \<Rightarrow> u32 list" where
  "raise_blocks v nv n bb = foldl (\<lambda>bb c. if v = bb ! c then bb[c := nv] else bb) bb [n..<33]"

text \<open>One step down the dictionary for bit \<open>c\<close> of the code \<open>v\<close>; the array doubles when it is left.\<close>

definition dict_step :: "u32 \<Rightarrow> int \<Rightarrow> nat \<Rightarrow> int \<times> int list \<Rightarrow> int \<times> int list" where
  "dict_step v temp c st =
     (let (i, d) = st;
          (i, d) =
            (if v AND drop_bit c 0x80000000 = 0 then (i + 1, d)
             else
               let d = (if d ! nat i = 0 then d[nat i := temp] else d)
               in (d ! nat i, d))
      in if i \<ge> int (length d) then (i, d @ replicate (length d) 0) else (i, d))"

fun dict_walk :: "u32 \<Rightarrow> int \<Rightarrow> nat \<Rightarrow> nat \<Rightarrow> int \<times> int list \<Rightarrow> int \<times> int list" where
  "dict_walk v temp c 0 st = st"
| "dict_walk v temp c (Suc n) st = dict_walk v temp (c + 1) n (dict_step v temp c st)"

definition build_step :: "nat \<Rightarrow> rsc_tables \<Rightarrow> rsc_tables" where
  "build_step initPos t =
     (let initValue = rscInit ! initPos;
          sel = push_bit (32 - initValue) 1;
          v = blockBuilder t ! initValue;
          (nv, bb) =
            (if v AND sel = 0 then (v OR sel, lower_blocks v (initValue - 1) (blockBuilder t))
             else (blockBuilder t ! (initValue - 1), blockBuilder t));
          bb = raise_blocks v nv (initValue + 1) (bb[initValue := nv]);
          (i, d) = dict_walk v (indexTemp t) 0 initValue (0, cipherDictionary t);
          d = d[nat i := NOT (int initPos)]
      in \<lparr>cipherBlock = (cipherBlock t)[initPos := v], blockBuilder = bb, cipherDictionary = d,
          indexTemp = (if i \<ge> indexTemp t then i + 1 else indexTemp t)\<rparr>)"

definition buildRSCTables :: rsc_tables where
  "buildRSCTables =
     foldl (\<lambda>t i. build_step i t)
       \<lparr>cipherBlock = replicate 256 0, blockBuilder = replicate 33 0,
        cipherDictionary = replicate 8 0, indexTemp = 0\<rparr>
       [0..<length rscInit]"

section \<open>Characters\<close>

definition convertMessageToBytes :: "gostring \<Rightarrow> byte list" where
  "convertMessageToBytes s =
     map (\<lambda>c. if (c \<le> 0 \<or> c \<ge> 0x80) \<and> (c < 0xA0 \<or> c > 0xFF) then 0x3F else of_nat c) (runes s)"

definition convertBytesToString :: "byte list \<Rightarrow> gostring" where
  "convertBytesToString b =
     string_of_runes
       (map (\<lambda>by. let cp = unat by in if cp \<ge> 128 \<and> cp < 160 then 0x3F else cp)
          (filter (\<lambda>by. by \<noteq> 0) b))"

section \<open>Encoding\<close>

text \<open>
  The body of the encoder's loop for one character with code \<open>v\<close> of length \<open>n\<close>: the output array,
  the byte being filled and the bit offset, before and after. The code is spread over up to five
  output bytes.
\<close>

definition put_code :: "u32 \<Rightarrow> nat \<Rightarrow> byte list \<times> u32 \<times> nat \<Rightarrow> byte list \<times> u32 \<times> nat" where
  "put_code v n st =
     (let (out, acc, off) = st;
          byteOff = off div 8;
          shifter = off mod 8;
          acc = (if shifter = 0 then 0 else acc);
          byteOff2 = byteOff + (shifter + n - 1) div 8;
          acc = acc OR drop_bit (shifter + 24) v;
          out = out[byteOff := ucast acc];
          (out, acc) =
            (if byteOff2 > byteOff then
               let acc = drop_bit (shifter + 16) v; out = out[byteOff + 1 := ucast acc] in
               if byteOff + 1 < byteOff2 then
                 let acc = drop_bit (shifter + 8) v; out = out[byteOff + 2 := ucast acc] in
                 if byteOff + 2 < byteOff2 then
                   let acc = drop_bit shifter v; out = out[byteOff + 3 := ucast acc] in
                   if byteOff + 3 < byteOff2 then
                     let acc = push_bit (8 - shifter) v; out = out[byteOff + 4 := ucast acc]
                     in (out, acc)
                   else (out, acc)
                 else (out, acc)
               else (out, acc)
             else (out, acc))
      in (out, acc, off + n))"

definition EncipherRSCString :: "gostring \<Rightarrow> byte list" where
  "EncipherRSCString message =
     (let t = buildRSCTables;
          chatBuffer = convertMessageToBytes message;
          out = replicate (length chatBuffer * 22 div 8 + 2) 0;
          (out, acc, off) =
            foldl (\<lambda>st c. put_code (cipherBlock t ! unat c) (rscInit ! unat c) st) (out, 0, 0) chatBuffer
      in take ((off + 7) div 8) out)"

section \<open>Decoding\<close>

text \<open>
  The loop over the eight bit masks of one input byte. The flag says whether one of the two early
  returns was taken.
\<close>

fun decipher_byte ::
  "int list \<Rightarrow> int \<Rightarrow> byte \<Rightarrow> byte list \<Rightarrow> int \<Rightarrow> byte list \<Rightarrow> bool \<times> int \<times> byte list" where
  "decipher_byte dict count x [] node dest = (False, node, dest)"
| "decipher_byte dict count x (m # ms) node dest =
     (let node = (if x AND m \<noteq> 0 then dict ! nat node else node + 1) in
      if node \<ge> int (length dict) then (True, node, dest)
      else if dict ! nat node < 0 then
        (let dest = dest @ [of_int (NOT (dict ! nat node))] in
         if int (length dest) \<ge> count then (True, node, dest)
         else decipher_byte dict count x ms 0 dest)
      else decipher_byte dict count x ms node dest)"

definition bit_masks :: "byte list" where
  "bit_masks = [0x80, 0x40, 0x20, 0x10, 0x08, 0x04, 0x02, 0x01]"

fun decipher_loop :: "int list \<Rightarrow> int \<Rightarrow> byte list \<Rightarrow> int \<Rightarrow> byte list \<Rightarrow> nat \<Rightarrow> byte list \<times> nat" where
  "decipher_loop dict count [] node dest srcOffset = (dest, srcOffset)"
| "decipher_loop dict count (x # xs) node dest srcOffset =
     (if int (length dest) < count then
        (let (stop, node, dest) = decipher_byte dict count x bit_masks node dest
         in if stop then (dest, srcOffset + 1)
            else decipher_loop dict count xs node dest (srcOffset + 1))
      else (dest, srcOffset))"

definition DecipherRSCStringWithLen :: "byte list \<Rightarrow> int \<Rightarrow> gostring \<times> nat" where
  "DecipherRSCStringWithLen src count =
     (if count \<le> 0 \<or> length src = 0 then ([], 0)
      else
        let (dest, used) = decipher_loop (cipherDictionary buildRSCTables) count src 0 [] 0
        in (convertBytesToString dest, used))"

definition DecipherRSCString :: "byte list \<Rightarrow> int \<Rightarrow> gostring" where
  "DecipherRSCString src count = fst (DecipherRSCStringWithLen src count)"

section \<open>Bounds\<close>

text \<open>The decoder never claims more input than there is, so the slices its callers take are in range.\<close>

lemma decipher_loop_used:
  "decipher_loop dict count src node dest off = (d, used) \<Longrightarrow> off \<le> used \<and> used \<le> off + length src"
  by (induction src arbitrary: node dest off)
     (fastforce simp: Let_def split: if_splits prod.splits)+

lemma DecipherRSCString_used: "snd (DecipherRSCStringWithLen src count) \<le> length src"
  using decipher_loop_used [of "cipherDictionary buildRSCTables" count src 0 "[]" 0]
  by (auto simp: DecipherRSCStringWithLen_def Let_def split: prod.splits)

lemma length_convertMessageToBytes: "length (convertMessageToBytes s) = length (runes s)"
  by (simp add: convertMessageToBytes_def)

end
