(* ===== verification/Updates.thy ===== *)
theory Updates
  imports ChatCodec Events
begin

text \<open>
  The two multi-record update packets: \<open>DecodeUpdatePlayers\<close> (opcode 234,
  \<open>proto/v235/updateplayers.go\<close>) and \<open>DecodeUpdateNpcs\<close> (opcode 104, \<open>proto/v235/updatenpcs.go\<close>).

  One round of the decoder's loop is a reader of the record at the front of the buffer: the events
  it appends, or the error that makes the code leave the loop (\<open>break\<close> out of the \<open>for\<close>, or an early
  \<open>return out, nil\<close>; both keep the events so far). The loop is then \<open>read_items\<close>.
\<close>

definition chatKindName :: "byte \<Rightarrow> string" where
  "chatKindName t =
     (if t = 1 then ''public'' else if t = 6 then ''quest'' else if t = 7 then ''muted'' else ''unknown'')"

text \<open>The bodies shared by several update types.\<close>

definition read_chat_body :: "Buffer \<Rightarrow> (gostring \<times> byte list) \<times> Buffer" where
  "read_chat_body b =
     (let (rscLen, b) = or_zero 0 (ReadSmart08_16 b);
          remaining = Bytes b;
          (decoded, consumed) = DecipherRSCStringWithLen remaining rscLen;
          b = snd (ReadBytes consumed b)
      in ((decoded, take consumed remaining), b))"

definition read_hits :: "Buffer \<Rightarrow> (int \<times> int \<times> int) \<times> Buffer" where
  "read_hits b =
     (let (dmg, b) = or_zero 0 (ReadByte b);
          (curHits, b) = or_zero 0 (ReadByte b);
          (maxHits, b) = or_zero 0 (ReadByte b)
      in ((uint dmg, uint curHits, uint maxHits), b))"

definition read_two_shorts :: "Buffer \<Rightarrow> (int \<times> int) \<times> Buffer" where
  "read_two_shorts b =
     (let (u, b) = or_zero 0 (ReadUint16 b);
          (v, b) = or_zero 0 (ReadUint16 b)
      in ((uint u, uint v), b))"

section \<open>Players\<close>

definition no_appearance :: OtherPlayerAppearance where
  "no_appearance =
     \<lparr>oaPlayerIndex = 0, oaName = [], oaAppearanceID = 0, oaCombatLevel = 0, oaSkullType = 0,
      oaHasCombat = False, oaHairColour = 0, oaTopColour = 0, oaTrouserColour = 0, oaSkinColour = 0,
      oaHasColours = False, oaWornSprites = replicate NumEquipSlots 0, oaWornCount = 0,
      oaHasWorn = False\<rparr>"

definition worn_sprites :: "byte list \<Rightarrow> int list" where
  "worn_sprites worn =
     (let w = take NumEquipSlots (map uint worn) in w @ replicate (NumEquipSlots - length w) 0)"

definition read_appearance :: "int \<Rightarrow> Buffer \<Rightarrow> (event list, Buffer) result" where
  "read_appearance idx b =
     (case ReadUint16 b of
        (Inl e, b) \<Rightarrow> (Inl e, b)
      | (Inr appearanceID, b) \<Rightarrow>
        (case ReadZeroQuotedString b of
           (Inl e, b) \<Rightarrow> (Inl e, b)
         | (Inr name, b) \<Rightarrow>
           (let b = snd (ReadZeroQuotedString b);
                ap = no_appearance\<lparr>oaPlayerIndex := idx, oaName := name,
                       oaAppearanceID := uint appearanceID\<rparr>;
                (eqCount, b) = or_zero 0 (ReadByte b);
                (ap, b) =
                  (if unat eqCount > 0 \<and> Len b \<ge> unat eqCount then
                     let (worn, b) = or_zero [] (ReadBytes (unat eqCount) b)
                     in (ap\<lparr>oaWornCount := int (length worn), oaWornSprites := worn_sprites worn,
                           oaHasWorn := True\<rparr>, b)
                   else (ap, b));
                (ap, b) =
                  (if Len b \<ge> 4 then
                     let (cols, b) = or_zero [] (ReadBytes 4 b)
                     in (if length cols = 4 then
                           ap\<lparr>oaHairColour := uint (cols ! 0), oaTopColour := uint (cols ! 1),
                              oaTrouserColour := uint (cols ! 2), oaSkinColour := uint (cols ! 3),
                              oaHasColours := True\<rparr>
                         else ap, b)
                   else (ap, b));
                (ap, b) =
                  (if Len b \<ge> 2 then
                     (case ReadByte b of
                        (Inl _, b) \<Rightarrow> (ap, snd (ReadByte b))
                      | (Inr combatLevel, b) \<Rightarrow>
                        (case ReadByte b of
                           (Inl _, b) \<Rightarrow> (ap, b)
                         | (Inr skullType, b) \<Rightarrow>
                             (ap\<lparr>oaCombatLevel := uint combatLevel, oaSkullType := uint skullType,
                                 oaHasCombat := True\<rparr>, b)))
                   else (ap, b))
            in (Inr [EvOtherPlayerAppearance ap], b))))"

definition read_player_update :: "Buffer \<Rightarrow> (event list, Buffer) result" where
  "read_player_update b =
     (if Len b < 3 then (Inl ErrEOF, b)
      else
        case ReadUint16 b of
          (Inl e, b) \<Rightarrow> (Inl e, b)
        | (Inr i, b) \<Rightarrow>
          (case ReadByte b of
             (Inl e, b) \<Rightarrow> (Inl e, b)
           | (Inr typ, b) \<Rightarrow>
             (let idx = uint i in
              if typ = 0 then
                (let (bubbleID, b) = or_zero 0 (ReadUint16 b)
                 in (Inr [PlayerActionBubble idx (uint bubbleID)], b))
              else if typ = 1 \<or> typ = 6 \<or> typ = 7 then
                (let (icon, b) = (if typ = 1 \<or> typ = 7 then or_zero 0 (ReadByte b) else (0, b));
                     ((decoded, raw), b) = read_chat_body b
                 in (Inr [EvOtherPlayerChat
                       \<lparr>ocPlayerIndex = idx, ocIcon = uint icon, ocChatKind = chatKindName typ,
                        ocMessageText = decoded, ocMessageRaw = raw\<rparr>], b))
              else if typ = 2 then
                (let ((dmg, cur, mx), b) = read_hits b
                 in (Inr [EvOtherPlayerDamage
                       \<lparr>odPlayerIndex = idx, odDamage = dmg, odCurHits = cur, odMaxHits = mx\<rparr>], b))
              else if typ = 3 then
                (let ((projID, victim), b) = read_two_shorts b
                 in (Inr [EvOtherPlayerProjectile
                       \<lparr>orCasterIndex = idx, orProjectileID = projID, orVictimNpcIndex = victim,
                        orVictimPlayerIndex = 0, orVictimIsNpc = True\<rparr>], b))
              else if typ = 4 then
                (let ((projID, victim), b) = read_two_shorts b
                 in (Inr [EvOtherPlayerProjectile
                       \<lparr>orCasterIndex = idx, orProjectileID = projID, orVictimNpcIndex = 0,
                        orVictimPlayerIndex = victim, orVictimIsNpc = False\<rparr>], b))
              else if typ = 5 then read_appearance idx b
              else (Inl (ErrMsg ''unknown update type'' []), b))))"

definition DecodeUpdatePlayers :: "byte list \<Rightarrow> goerr + event list" where
  "DecodeUpdatePlayers payload =
     (case ReadUint16 (WrapBuffer payload) of
        (Inl e, _) \<Rightarrow> Inl (ErrWrap ''updateplayers count'' e)
      | (Inr count, b) \<Rightarrow> Inr (concat (fst (read_items read_player_update (unat count) b))))"

section \<open>NPCs\<close>

text \<open>
  In case 1 the code's \<open>break\<close> on a failed read leaves the \<open>switch\<close> only, so the loop goes on; the
  types 5 to 7 consume their bytes and emit nothing.
\<close>

definition read_npc_update :: "Buffer \<Rightarrow> (event list, Buffer) result" where
  "read_npc_update b =
     (if Len b < 3 then (Inl ErrEOF, b)
      else
        case ReadUint16 b of
          (Inl e, b) \<Rightarrow> (Inl e, b)
        | (Inr i, b) \<Rightarrow>
          (case ReadByte b of
             (Inl e, b) \<Rightarrow> (Inl e, b)
           | (Inr typ, b) \<Rightarrow>
             (let idx = uint i in
              if typ = 1 then
                (case ReadUint16 b of
                   (Inl _, b) \<Rightarrow> (Inr [], b)
                 | (Inr recip, b) \<Rightarrow>
                   (let ((decoded, raw), b) = read_chat_body b
                    in (Inr [EvNpcChat \<lparr>ncNpcIndex = idx, ncRecipientIndex = sint recip,
                          ncMessageText = decoded, ncMessageRaw = raw\<rparr>], b)))
              else if typ = 2 then
                (let ((dmg, cur, mx), b) = read_hits b
                 in (Inr [EvNpcDamage
                       \<lparr>ndNpcIndex = idx, ndDamage = dmg, ndCurHits = cur, ndMaxHits = mx\<rparr>], b))
              else if typ = 3 then
                (let ((projID, victim), b) = read_two_shorts b
                 in (Inr [EvNpcProjectile
                       \<lparr>nrCasterNpcIndex = idx, nrProjectileID = projID, nrVictimNpcIndex = victim,
                        nrVictimPlayerIndex = 0, nrVictimIsNpc = True\<rparr>], b))
              else if typ = 4 then
                (let ((projID, victim), b) = read_two_shorts b
                 in (Inr [EvNpcProjectile
                       \<lparr>nrCasterNpcIndex = idx, nrProjectileID = projID, nrVictimNpcIndex = 0,
                        nrVictimPlayerIndex = victim, nrVictimIsNpc = False\<rparr>], b))
              else if typ = 5 then
                (case ReadByte b of (Inl e, b) \<Rightarrow> (Inl e, b) | (Inr _, b) \<Rightarrow> (Inr [], b))
              else if typ = 6 then
                (if Len b < 2 then (Inl ErrEOF, b)
                 else (Inr [], snd (ReadByte (snd (ReadByte b)))))
              else if typ = 7 then
                (case ReadUint16 b of (Inl e, b) \<Rightarrow> (Inl e, b) | (Inr _, b) \<Rightarrow> (Inr [], b))
              else (Inl (ErrMsg ''unknown update type'' []), b))))"

definition DecodeUpdateNpcs :: "byte list \<Rightarrow> goerr + event list" where
  "DecodeUpdateNpcs payload =
     (case ReadUint16 (WrapBuffer payload) of
        (Inl e, _) \<Rightarrow> Inl (ErrWrap ''updatenpcs count'' e)
      | (Inr count, b) \<Rightarrow> Inr (concat (fst (read_items read_npc_update (unat count) b))))"

section \<open>The documented layout of the records\<close>

datatype player_update =
    PuBubble u16 u16
  | PuChat u16 byte byte int "byte list"
  | PuQuestChat u16 int "byte list"
  | PuDamage u16 byte byte byte
  | PuAtNpc u16 u16 u16
  | PuAtPlayer u16 u16 u16
  | PuAppearance u16 u16 gostring gostring "byte list" "byte list" byte byte

fun player_update_bytes :: "player_update \<Rightarrow> byte list" where
  "player_update_bytes (PuBubble i v) = put16 i @ [0] @ put16 v"
| "player_update_bytes (PuChat i typ icon n body) = put16 i @ [typ, icon] @ smart_bytes n @ body"
| "player_update_bytes (PuQuestChat i n body) = put16 i @ [6] @ smart_bytes n @ body"
| "player_update_bytes (PuDamage i d c m) = put16 i @ [2, d, c, m]"
| "player_update_bytes (PuAtNpc i p v) = put16 i @ [3] @ put16 p @ put16 v"
| "player_update_bytes (PuAtPlayer i p v) = put16 i @ [4] @ put16 p @ put16 v"
| "player_update_bytes (PuAppearance i a name name2 worn cols lvl skull) =
     put16 i @ [5] @ put16 a @ zq_bytes name @ zq_bytes name2 @ [of_nat (length worn)] @ worn @ cols
     @ [lvl, skull]"

text \<open>A chat body is whole when the decoder stops exactly at its end, whatever follows.\<close>

definition body_ok :: "int \<Rightarrow> byte list \<Rightarrow> bool" where
  "body_ok n body \<longleftrightarrow> 0 \<le> n \<and> n < 32768 \<and>
     (\<forall>rest. DecipherRSCStringWithLen (body @ rest) n = (DecipherRSCString body n, length body))"

fun player_update_ok :: "player_update \<Rightarrow> bool" where
  "player_update_ok (PuChat i typ icon n body) \<longleftrightarrow> (typ = 1 \<or> typ = 7) \<and> body_ok n body"
| "player_update_ok (PuQuestChat i n body) \<longleftrightarrow> body_ok n body"
| "player_update_ok (PuAppearance i a name name2 worn cols lvl skull) \<longleftrightarrow>
     0 \<notin> set name \<and> 0 \<notin> set name2 \<and> 0 < length worn \<and> length worn < 256 \<and> length cols = 4"
| "player_update_ok _ \<longleftrightarrow> True"

fun player_update_event :: "player_update \<Rightarrow> event" where
  "player_update_event (PuBubble i v) = PlayerActionBubble (uint i) (uint v)"
| "player_update_event (PuChat i typ icon n body) =
     EvOtherPlayerChat \<lparr>ocPlayerIndex = uint i, ocIcon = uint icon, ocChatKind = chatKindName typ,
       ocMessageText = DecipherRSCString body n, ocMessageRaw = body\<rparr>"
| "player_update_event (PuQuestChat i n body) =
     EvOtherPlayerChat \<lparr>ocPlayerIndex = uint i, ocIcon = 0, ocChatKind = ''quest'',
       ocMessageText = DecipherRSCString body n, ocMessageRaw = body\<rparr>"
| "player_update_event (PuDamage i d c m) =
     EvOtherPlayerDamage \<lparr>odPlayerIndex = uint i, odDamage = uint d, odCurHits = uint c,
       odMaxHits = uint m\<rparr>"
| "player_update_event (PuAtNpc i p v) =
     EvOtherPlayerProjectile \<lparr>orCasterIndex = uint i, orProjectileID = uint p,
       orVictimNpcIndex = uint v, orVictimPlayerIndex = 0, orVictimIsNpc = True\<rparr>"
| "player_update_event (PuAtPlayer i p v) =
     EvOtherPlayerProjectile \<lparr>orCasterIndex = uint i, orProjectileID = uint p,
       orVictimNpcIndex = 0, orVictimPlayerIndex = uint v, orVictimIsNpc = False\<rparr>"
| "player_update_event (PuAppearance i a name name2 worn cols lvl skull) =
     EvOtherPlayerAppearance
       \<lparr>oaPlayerIndex = uint i, oaName = name, oaAppearanceID = uint a, oaCombatLevel = uint lvl,
        oaSkullType = uint skull, oaHasCombat = True, oaHairColour = uint (cols ! 0),
        oaTopColour = uint (cols ! 1), oaTrouserColour = uint (cols ! 2),
        oaSkinColour = uint (cols ! 3), oaHasColours = True, oaWornSprites = worn_sprites worn,
        oaWornCount = int (length worn), oaHasWorn = True\<rparr>"

section \<open>The records are codecs\<close>

lemma read_chat_body_reading:
  assumes "body_ok n body"
  shows "read_chat_body (reading pre (smart_bytes n @ body @ post)) =
    ((DecipherRSCString body n, body), reading (pre @ smart_bytes n @ body) post)"
  using assms by (simp add: read_chat_body_def body_ok_def wire_simps)

lemma read_hits_reading:
  "read_hits (reading pre (d # c # m # post)) =
    ((uint d, uint c, uint m), reading (pre @ [d, c, m]) post)"
  by (simp add: read_hits_def wire_simps)

lemma read_two_shorts_reading:
  "read_two_shorts (reading pre (put16 u @ put16 v @ post)) =
    ((uint u, uint v), reading (pre @ put16 u @ put16 v) post)"
  by (simp add: read_two_shorts_def wire_simps)

lemmas update_readings = read_chat_body_reading read_hits_reading read_two_shorts_reading

lemma read_appearance_reading:
  assumes "player_update_ok (PuAppearance i a name name2 worn cols lvl skull)"
  shows "read_appearance (uint i) (reading pre
      (put16 a @ zq_bytes name @ zq_bytes name2 @ of_nat (length worn) # worn @ cols @ lvl # skull # post)) =
    (Inr [player_update_event (PuAppearance i a name name2 worn cols lvl skull)],
     reading (pre @ put16 a @ zq_bytes name @ zq_bytes name2 @ of_nat (length worn) # worn @ cols @
       [lvl, skull]) post)"
proof -
  have n: "unat (of_nat (length worn) :: byte) = length worn" "0 < length worn" "length cols = 4"
    "0 \<notin> set name" "0 \<notin> set name2"
    using assms by (simp_all add: unat_of_nat)
  show ?thesis
    using n by (simp add: read_appearance_def wire_simps Let_def no_appearance_def)
qed

lemma read_player_update_reading:
  assumes "player_update_ok u"
  shows "read_player_update (reading pre (player_update_bytes u @ post)) =
    (Inr [player_update_event u], reading (pre @ player_update_bytes u) post)"
proof (cases u)
  case (PuChat i ty icon n body)
  with assms have "ty = 1 \<or> ty = 7" "body_ok n body" by auto
  then show ?thesis using PuChat
    by (auto simp: read_player_update_def wire_simps update_readings)
next
  case (PuQuestChat i n body)
  with assms show ?thesis
    by (auto simp: read_player_update_def wire_simps update_readings chatKindName_def)
next
  case (PuAppearance i a name name2 worn cols lvl skull)
  then show ?thesis
    using read_appearance_reading [of i a name name2 worn cols lvl skull "pre @ put16 i @ [5]" post] assms
    by (simp add: read_player_update_def wire_simps)
qed (simp_all add: read_player_update_def wire_simps update_readings)

interpretation player_update: wire_reader player_update_bytes read_player_update player_update_ok
  "\<lambda>u. [player_update_event u]"
  by unfold_locales (rule read_player_update_reading)


lemma body_ok_empty: "body_ok 0 []"
  by (simp add: body_ok_def DecipherRSCStringWithLen_def DecipherRSCString_def)


section \<open>NPC updates\<close>

datatype npc_update =
    NuChat u16 u16 int "byte list"
  | NuDamage u16 byte byte byte
  | NuAtNpc u16 u16 u16
  | NuAtPlayer u16 u16 u16
  | NuSkull u16 byte
  | NuWield u16 byte byte
  | NuBubble u16 u16

fun npc_update_bytes :: "npc_update \<Rightarrow> byte list" where
  "npc_update_bytes (NuChat i r n body) = put16 i @ [1] @ put16 r @ smart_bytes n @ body"
| "npc_update_bytes (NuDamage i d c m) = put16 i @ [2, d, c, m]"
| "npc_update_bytes (NuAtNpc i p v) = put16 i @ [3] @ put16 p @ put16 v"
| "npc_update_bytes (NuAtPlayer i p v) = put16 i @ [4] @ put16 p @ put16 v"
| "npc_update_bytes (NuSkull i k) = put16 i @ [5, k]"
| "npc_update_bytes (NuWield i v w) = put16 i @ [6, v, w]"
| "npc_update_bytes (NuBubble i v) = put16 i @ [7] @ put16 v"

fun npc_update_ok :: "npc_update \<Rightarrow> bool" where
  "npc_update_ok (NuChat i r n body) \<longleftrightarrow> body_ok n body"
| "npc_update_ok _ \<longleftrightarrow> True"

fun npc_update_events :: "npc_update \<Rightarrow> event list" where
  "npc_update_events (NuChat i r n body) =
     [EvNpcChat \<lparr>ncNpcIndex = uint i, ncRecipientIndex = sint r,
        ncMessageText = DecipherRSCString body n, ncMessageRaw = body\<rparr>]"
| "npc_update_events (NuDamage i d c m) =
     [EvNpcDamage \<lparr>ndNpcIndex = uint i, ndDamage = uint d, ndCurHits = uint c, ndMaxHits = uint m\<rparr>]"
| "npc_update_events (NuAtNpc i p v) =
     [EvNpcProjectile \<lparr>nrCasterNpcIndex = uint i, nrProjectileID = uint p,
        nrVictimNpcIndex = uint v, nrVictimPlayerIndex = 0, nrVictimIsNpc = True\<rparr>]"
| "npc_update_events (NuAtPlayer i p v) =
     [EvNpcProjectile \<lparr>nrCasterNpcIndex = uint i, nrProjectileID = uint p,
        nrVictimNpcIndex = 0, nrVictimPlayerIndex = uint v, nrVictimIsNpc = False\<rparr>]"
| "npc_update_events _ = []"

lemma read_npc_update_reading:
  assumes "npc_update_ok u"
  shows "read_npc_update (reading pre (npc_update_bytes u @ post)) =
    (Inr (npc_update_events u), reading (pre @ npc_update_bytes u) post)"
  using assms
  by (cases u) (simp_all add: read_npc_update_def wire_simps update_readings)

interpretation npc_update: wire_reader npc_update_bytes read_npc_update npc_update_ok npc_update_events
  by unfold_locales (rule read_npc_update_reading)




end
