(* ===== verification/Inbound.thy ===== *)
theory Inbound
  imports WireFrame Coords Updates
begin

text \<open>
  The single-event decoders and the dispatcher \<open>DecodeInbound\<close> of \<open>proto/v235/inbound.go\<close>. The
  callback \<open>isStackable\<close> is an argument (\<open>None\<close> for Go's nil). \<open>flagAnomaly\<close> only logs and is left
  out; an IP address is the list of its four numbers rather than the formatted string.
\<close>

section \<open>Loops that read to the end\<close>

text \<open>
  A loop \<open>for { ...; if err != nil { break }; ... }\<close> runs until its reader fails. Every round consumes
  at least a byte, so as many rounds as there are bytes left are enough (\<open>read_items_enough\<close>).
\<close>

definition read_all :: "(Buffer \<Rightarrow> ('a, Buffer) result) \<Rightarrow> Buffer \<Rightarrow> 'a list" where
  "read_all rd b = fst (read_items rd (Len b) b)"

definition consumes :: "(Buffer \<Rightarrow> ('a, Buffer) result) \<Rightarrow> bool" where
  "consumes rd \<longleftrightarrow> (\<forall>b x b'. rd b = (Inr x, b') \<longrightarrow> Len b' < Len b)"

lemma read_items_enough:
  "consumes rd \<Longrightarrow> Len b \<le> n \<Longrightarrow> fst (read_items rd n b) = read_all rd b"
proof (induction n arbitrary: b rule: less_induct)
  case (less n)
  show ?case
  proof (cases "rd b")
    case (Pair r b')
    show ?thesis
    proof (cases r)
      case (Inl e)
      then show ?thesis using Pair by (cases n; cases "Len b") (simp_all add: read_all_def)
    next
      case (Inr x)
      with less.prems(1) Pair have l: "Len b' < Len b" by (auto simp: consumes_def)
      with less.prems(2) obtain m k where m: "n = Suc m" "Len b = Suc k" by (cases n; cases "Len b") auto
      have "fst (read_items rd m b') = read_all rd b'"
        using less.IH [of m b'] less.prems m l by simp
      moreover have "fst (read_items rd k b') = read_all rd b'"
        using less.IH [of k b'] less.prems m l by simp
      ultimately show ?thesis using Pair Inr m by (simp add: read_all_def case_prod_beta Let_def)
    qed
  qed
qed

section \<open>Chat and messages\<close>

text \<open>\<open>strings.Index\<close>, with \<open>None\<close> for -1; \<open>strings.Contains\<close> is that it finds something.\<close>

fun string_index :: "gostring \<Rightarrow> gostring \<Rightarrow> nat option" where
  "string_index sub [] = (if sub = [] then Some 0 else None)"
| "string_index sub (x # xs) =
     (if take (length sub) (x # xs) = sub then Some 0
      else map_option Suc (string_index sub xs))"

definition duel_name :: "gostring \<Rightarrow> gostring" where
  "duel_name text =
     (case string_index (lit '' '') text of
        Some i \<Rightarrow> (if i > 0 then take i text else text)
      | None \<Rightarrow> text)"

definition classify_message :: "byte \<Rightarrow> gostring \<Rightarrow> gostring \<Rightarrow> gostring \<Rightarrow> event" where
  "classify_message msgType sender txt color =
     (if sender \<noteq> [] \<and> msgType = 6 then TradeRequestReceived (-1) sender
      else if sender = [] \<and> msgType = 7 \<and> string_index (lit ''wishes to duel with you'') txt \<noteq> None then
        DuelRequestReceived (duel_name txt)
      else if sender \<noteq> [] then ChatReceived (uint msgType) sender txt color
      else SystemMessage (uint msgType) txt color)"

definition decodeServerMessage :: "byte list \<Rightarrow> goerr + event" where
  "decodeServerMessage payload =
     (case ReadByte (WrapBuffer payload) of
        (Inl e, _) \<Rightarrow> Inl (ErrWrap ''server_message type'' e)
      | (Inr msgType, b) \<Rightarrow>
        (case ReadByte b of
           (Inl e, _) \<Rightarrow> Inl (ErrWrap ''server_message info'' e)
         | (Inr info, b) \<Rightarrow>
           (case ReadZeroQuotedString b of
              (Inl e, _) \<Rightarrow> Inl (ErrWrap ''server_message text'' e)
            | (Inr txt, b) \<Rightarrow>
              (let sender_result =
                     (if info AND 0x01 \<noteq> 0 then
                        (case ReadZeroQuotedString b of
                           (Inl e, b) \<Rightarrow> (Inl (ErrWrap ''server_message sender'' e), b)
                         | (Inr sender, b) \<Rightarrow>
                           (case ReadZeroQuotedString b of
                              (Inl e, b) \<Rightarrow> (Inl (ErrWrap ''server_message sender_dup'' e), b)
                            | (Inr _, b) \<Rightarrow> (Inr sender, b)))
                      else (Inr [], b))
               in case sender_result of
                    (Inl e, _) \<Rightarrow> Inl e
                  | (Inr sender, b) \<Rightarrow>
                    (if info AND 0x02 \<noteq> 0 then
                       (case ReadZeroQuotedString b of
                          (Inl e, _) \<Rightarrow> Inl (ErrWrap ''server_message color'' e)
                        | (Inr color, _) \<Rightarrow> Inr (classify_message msgType sender txt color))
                     else Inr (classify_message msgType sender txt []))))))"

definition decodePrivateMessage :: "byte list \<Rightarrow> goerr + event" where
  "decodePrivateMessage payload =
     (case ReadZeroQuotedString (WrapBuffer payload) of
        (Inl e, _) \<Rightarrow> Inl (ErrWrap ''private_message sender'' e)
      | (Inr sender, b) \<Rightarrow>
        (let (former, b) = or_zero [] (ReadZeroQuotedString b);
             (icon, b) = or_zero 0 (ReadByte b);
             b = snd (ReadByte (snd (ReadByte (snd (ReadByte b)))));
             (world, b) = or_zero 0 (ReadUint16 b);
             b = snd (ReadByte (snd (ReadByte (snd (ReadByte b)))));
             (charCount, b) = or_zero 0 (ReadSmart08_16 b);
             body = DecipherRSCString (RemainingBytes b) charCount
         in Inr (EvPrivateMessage \<lparr>pmSender = sender, pmFormerName = former, pmMessage = body,
              pmIconSprite = uint icon, pmWorld = uint world\<rparr>)))"

definition decodeNpcDialogText :: "byte list \<Rightarrow> goerr + event" where
  "decodeNpcDialogText payload =
     (case ReadZeroQuotedString (WrapBuffer payload) of
        (Inl e, _) \<Rightarrow> Inl (ErrWrap ''npc_dialog_text'' e)
      | (Inr t, _) \<Rightarrow> Inr (NpcDialogText t))"

definition decodeNpcDialogOptions :: "byte list \<Rightarrow> goerr + event" where
  "decodeNpcDialogOptions payload =
     (let (num, b) = or_zero 0 (ReadByte (WrapBuffer payload))
      in Inr (NpcDialog (fst (read_items ReadZeroQuotedString (unat num) b))))"

section \<open>Stats\<close>

definition decodeStat :: "byte list \<Rightarrow> goerr + event" where
  "decodeStat payload =
     (let b = WrapBuffer payload;
          (skill, b) = or_zero 0 (ReadByte b);
          (cur, b) = or_zero 0 (ReadByte b);
          (mx, b) = or_zero 0 (ReadByte b)
      in case ReadUint32 b of
           (Inl e, _) \<Rightarrow> Inl (ErrWrap ''stat xp'' e)
         | (Inr xp, _) \<Rightarrow> Inr (EvStatUpdate \<lparr>suSkill = uint skill, suCurrent = uint cur,
             suMax = uint mx, suExperience = uint xp\<rparr>))"

text \<open>The loops of \<open>decodeStats\<close>: \<open>n\<close> reads whose error is ignored.\<close>

fun read_many :: "(Buffer \<Rightarrow> (('a::len) word, Buffer) result) \<Rightarrow> nat \<Rightarrow> Buffer \<Rightarrow> int list \<times> Buffer" where
  "read_many rd 0 b = ([], b)"
| "read_many rd (Suc n) b =
     (let (v, b) = or_zero 0 (rd b); (vs, b) = read_many rd n b in (uint v # vs, b))"

definition decodeStats :: "byte list \<Rightarrow> goerr + event" where
  "decodeStats payload =
     (if length payload < 18 * 2 + 18 * 4 + 1 then
        Inl (ErrMsg ''stats: short payload %d'' [int (length payload)])
      else
        let b = WrapBuffer payload;
            (cur, b) = read_many ReadByte 18 b;
            (mx, b) = read_many ReadByte 18 b;
            (xp, b) = read_many ReadUint32 18 b;
            (qp, b) = or_zero 0 (ReadByte b)
        in Inr (EvStatsSnapshot \<lparr>ssCurrent = cur, ssMax = mx, ssExperience = xp, ssQuestPoints = uint qp\<rparr>))"

definition decodeExperience :: "byte list \<Rightarrow> goerr + event" where
  "decodeExperience payload =
     (let (skill, b) = or_zero 0 (ReadByte (WrapBuffer payload));
          (xp, b) = or_zero 0 (ReadUint32 b)
      in Inr (ExperienceGain (uint skill) (uint xp)))"

definition decodeFatigue :: "byte list \<Rightarrow> goerr + event" where
  "decodeFatigue payload =
     (let (v, b) = or_zero 0 (ReadUint16 (WrapBuffer payload)) in Inr (FatigueUpdate (uint v)))"

definition decodeSleepFatigue :: "byte list \<Rightarrow> goerr + event" where
  "decodeSleepFatigue payload =
     (let (v, b) = or_zero 0 (ReadUint16 (WrapBuffer payload)) in Inr (SleepFatigueUpdate (uint v)))"

definition decodeWelcomeInfo :: "byte list \<Rightarrow> goerr + event" where
  "decodeWelcomeInfo payload =
     (let b = WrapBuffer payload in
      if Len b < 4 then Inl (ErrMsg ''welcome_info: short payload %d'' [int (Len b)])
      else
        let (ipBytes, b) = or_zero [] (ReadBytes 4 b);
            (days, b) = or_zero 0 (ReadUint16 b);
            (rec, b) = or_zero 0 (ReadByte b);
            (unread, b) = or_zero 0 (ReadUint16 b)
        in Inr (EvWelcomeInfo \<lparr>wiLastLoginIP = map uint ipBytes, wiDaysSinceLogin = uint days,
             wiRecoveryDaysAgo = uint rec, wiUnreadMessages = uint unread - 1\<rparr>))"

section \<open>Inventory, bank and shop\<close>

definition stackable :: "(int \<Rightarrow> bool) option \<Rightarrow> int \<Rightarrow> bool" where
  "stackable isStackable iid = (case isStackable of None \<Rightarrow> False | Some f \<Rightarrow> f iid)"

text \<open>An item's id with its wielded bit, and the amount that only stackable items carry.\<close>

definition item_of_raw :: "(int \<Rightarrow> bool) option \<Rightarrow> u16 \<Rightarrow> Buffer \<Rightarrow> InventoryItem \<times> Buffer" where
  "item_of_raw isStackable raw b =
     (let wielded = (raw AND 0x8000 \<noteq> 0);
          iid = uint (raw AND 0x7FFF);
          (amount, b) = (if stackable isStackable iid then readUnsignedShortIntSmart b else (1, b))
      in (\<lparr>itemID = iid, itemAmount = amount, itemWielded = wielded\<rparr>, b))"

definition read_inventory_item :: "(int \<Rightarrow> bool) option \<Rightarrow> Buffer \<Rightarrow> (InventoryItem, Buffer) result" where
  "read_inventory_item isStackable b =
     (if Len b < 2 then (Inl ErrEOF, b)
      else
        let (raw, b) = or_zero 0 (ReadUint16 b);
            (item, b) = item_of_raw isStackable raw b
        in (Inr item, b))"

definition decodeInventory :: "(int \<Rightarrow> bool) option \<Rightarrow> byte list \<Rightarrow> goerr + event" where
  "decodeInventory isStackable payload =
     (if length payload < 1 then Inl (ErrMsg ''inventory: empty payload'' [])
      else
        let (size, b) = or_zero 0 (ReadByte (WrapBuffer payload))
        in Inr (InventorySnapshot (fst (read_items (read_inventory_item isStackable) (unat size) b))))"

definition decodeInventorySlotUpdate :: "(int \<Rightarrow> bool) option \<Rightarrow> byte list \<Rightarrow> goerr + event" where
  "decodeInventorySlotUpdate isStackable payload =
     (let (slot, b) = or_zero 0 (ReadByte (WrapBuffer payload));
          (raw, b) = or_zero 0 (ReadUint16 b)
      in if raw = 0 then Inr (InventorySlotUpdate (uint slot) None)
         else Inr (InventorySlotUpdate (uint slot) (Some (fst (item_of_raw isStackable raw b)))))"

definition read_bank_item :: "Buffer \<Rightarrow> (InventoryItem, Buffer) result" where
  "read_bank_item b =
     (case ReadUint16 b of
        (Inl e, b) \<Rightarrow> (Inl e, b)
      | (Inr iid, b) \<Rightarrow>
        (let (amt, b) = readUnsignedShortIntSmart b
         in (Inr \<lparr>itemID = uint iid, itemAmount = amt, itemWielded = False\<rparr>, b)))"

definition decodeBankOpen :: "byte list \<Rightarrow> goerr + event" where
  "decodeBankOpen payload =
     (let (stored, b) = or_zero 0 (ReadByte (WrapBuffer payload));
          (maxSize, b) = or_zero 0 (ReadByte b)
      in Inr (BankOpened (uint maxSize) (fst (read_items read_bank_item (unat stored) b))))"

definition decodeBankUpdate :: "byte list \<Rightarrow> goerr + event" where
  "decodeBankUpdate payload =
     (let (slot, b) = or_zero 0 (ReadByte (WrapBuffer payload));
          (iid, b) = or_zero 0 (ReadUint16 b);
          (amt, b) = readUnsignedShortIntSmart b
      in Inr (BankSlotUpdate (uint slot) (uint iid) amt))"

definition read_shop_item :: "Buffer \<Rightarrow> (ShopItem, Buffer) result" where
  "read_shop_item b =
     (case ReadUint16 b of
        (Inl e, b) \<Rightarrow> (Inl e, b)
      | (Inr iid, b) \<Rightarrow>
        (case ReadUint16 b of
           (Inl e, b) \<Rightarrow> (Inl e, b)
         | (Inr stock, b) \<Rightarrow>
           (case ReadUint16 b of
              (Inl e, b) \<Rightarrow> (Inl e, b)
            | (Inr baseStock, b) \<Rightarrow>
                (Inr \<lparr>siItemID = uint iid, siStock = uint stock, siBaseStock = uint baseStock\<rparr>, b))))"

definition decodeShopOpen :: "byte list \<Rightarrow> goerr + event" where
  "decodeShopOpen payload =
     (let (count, b) = or_zero 0 (ReadByte (WrapBuffer payload));
          (isGeneral, b) = or_zero 0 (ReadByte b);
          (sellMod, b) = or_zero 0 (ReadByte b);
          (buyMod, b) = or_zero 0 (ReadByte b);
          (priceMult, b) = or_zero 0 (ReadByte b)
      in Inr (EvShopOpened
           \<lparr>soIsGeneral = (isGeneral = 1), soSellPriceMod = uint sellMod, soBuyPriceMod = uint buyMod,
            soPriceMultiplier = uint priceMult,
            soItems = fst (read_items read_shop_item (unat count) b)\<rparr>))"

section \<open>Trades and duels\<close>

definition read_trade_item :: "Buffer \<Rightarrow> (InventoryItem, Buffer) result" where
  "read_trade_item b =
     (case ReadUint16 b of
        (Inl e, b) \<Rightarrow> (Inl e, b)
      | (Inr iid, b) \<Rightarrow>
        (case ReadUint32 b of
           (Inl e, b) \<Rightarrow> (Inl e, b)
         | (Inr amt, b) \<Rightarrow> (Inr \<lparr>itemID = uint iid, itemAmount = uint amt, itemWielded = False\<rparr>, b)))"

definition read_counted_items :: "Buffer \<Rightarrow> InventoryItem list \<times> Buffer" where
  "read_counted_items b =
     (let (count, b) = or_zero 0 (ReadByte b) in read_items read_trade_item (unat count) b)"

definition decodeTradeOtherItems :: "byte list \<Rightarrow> goerr + event" where
  "decodeTradeOtherItems payload =
     (case ReadByte (WrapBuffer payload) of
        (Inl _, _) \<Rightarrow> Inr (TradeOtherOffer [])
      | (Inr count, b) \<Rightarrow> Inr (TradeOtherOffer (fst (read_items read_trade_item (unat count) b))))"

definition decodeDuelOtherItems :: "byte list \<Rightarrow> goerr + event" where
  "decodeDuelOtherItems payload =
     (case ReadByte (WrapBuffer payload) of
        (Inl _, _) \<Rightarrow> Inr (DuelOtherOffer [])
      | (Inr count, b) \<Rightarrow> Inr (DuelOtherOffer (fst (read_items read_trade_item (unat count) b))))"

definition decodeTradeConfirmShown :: "byte list \<Rightarrow> goerr + event" where
  "decodeTradeConfirmShown payload =
     (let (name, b) = or_zero [] (ReadZeroQuotedString (WrapBuffer payload));
          (oppItems, b) = read_counted_items b;
          (myItems, b) = read_counted_items b
      in Inr (EvTradeConfirmShown
           \<lparr>tcOpponentName = name, tcOpponentItems = oppItems, tcMyItems = myItems\<rparr>))"

definition read_duel_settings :: "Buffer \<Rightarrow> DuelSettingsUpdate \<times> Buffer" where
  "read_duel_settings b =
     (let (retreat, b) = or_zero 0 (ReadByte b);
          (magic, b) = or_zero 0 (ReadByte b);
          (prayer, b) = or_zero 0 (ReadByte b);
          (weapons, b) = or_zero 0 (ReadByte b)
      in (\<lparr>dsRetreat = (retreat = 1), dsMagic = (magic = 1), dsPrayer = (prayer = 1),
           dsWeapons = (weapons = 1)\<rparr>, b))"

definition decodeDuelSettings :: "byte list \<Rightarrow> goerr + event" where
  "decodeDuelSettings payload = Inr (EvDuelSettings (fst (read_duel_settings (WrapBuffer payload))))"

definition decodeDuelConfirmWindow :: "byte list \<Rightarrow> goerr + event" where
  "decodeDuelConfirmWindow payload =
     (let (name, b) = or_zero [] (ReadZeroQuotedString (WrapBuffer payload));
          (oppItems, b) = read_counted_items b;
          (myItems, b) = read_counted_items b;
          (rules, b) = read_duel_settings b
      in Inr (EvDuelConfirmShown
           \<lparr>dcOpponentName = name, dcOpponentItems = oppItems, dcMyItems = myItems,
            dcSettings = rules\<rparr>))"

section \<open>World entities\<close>

definition signed_byte :: "byte \<Rightarrow> int" where
  "signed_byte v = sint v"

text \<open>One round of the ground-item loop; the error is its exit (too few bytes left).\<close>

definition read_ground_item :: "Buffer \<Rightarrow> (GroundItemDelta, Buffer) result" where
  "read_ground_item b =
     (if Len b < 3 then (Inl ErrEOF, b)
      else
        let (first, b) = or_zero 0 (ReadByte b) in
        if first = 0xFF then
          (let (dx, b) = or_zero 0 (ReadByte b);
               (dy, b) = or_zero 0 (ReadByte b)
           in (Inr \<lparr>gdItemID = 0, gdOffsetX = signed_byte dx, gdOffsetY = signed_byte dy,
                 gdDisappear = True\<rparr>, b))
        else if Len b < 3 then (Inl ErrEOF, b)
        else
          let (low, b) = or_zero 0 (ReadByte b);
              raw = be16 first low;
              disappear = (raw AND 0x8000 \<noteq> 0);
              (dx, b) = or_zero 0 (ReadByte b);
              (dy, b) = or_zero 0 (ReadByte b)
          in (Inr \<lparr>gdItemID = uint (if disappear then raw AND 0x7FFF else raw),
                gdOffsetX = signed_byte dx, gdOffsetY = signed_byte dy, gdDisappear = disappear\<rparr>, b))"

definition decodeGroundItem :: "byte list \<Rightarrow> goerr + event" where
  "decodeGroundItem payload =
     (if length payload < 1 then Inl (ErrMsg ''ground_item: empty payload'' [])
      else Inr (GroundItemUpdates (read_all read_ground_item (WrapBuffer payload))))"

definition read_remove_point :: "Buffer \<Rightarrow> (RemovePoint, Buffer) result" where
  "read_remove_point b =
     (if Len b < 4 then (Inl ErrEOF, b)
      else
        let (dx, b) = or_zero 0 (ReadInt16 b);
            (dy, b) = or_zero 0 (ReadInt16 b)
        in (Inr \<lparr>rpOffsetX = dx, rpOffsetY = dy\<rparr>, b))"

definition decodeRemoveWorldEntity :: "byte list \<Rightarrow> goerr + event" where
  "decodeRemoveWorldEntity payload =
     Inr (RemoveWorldEntities (read_all read_remove_point (WrapBuffer payload)))"

definition read_boundary :: "Buffer \<Rightarrow> (BoundaryDelta, Buffer) result" where
  "read_boundary b =
     (case ReadUint16 b of
        (Inl e, b) \<Rightarrow> (Inl e, b)
      | (Inr idU, b) \<Rightarrow>
        (case ReadByte b of
           (Inl e, b) \<Rightarrow> (Inl e, b)
         | (Inr ox, b) \<Rightarrow>
           (case ReadByte b of
              (Inl e, b) \<Rightarrow> (Inl e, b)
            | (Inr oy, b) \<Rightarrow>
              (case ReadByte b of
                 (Inl e, b) \<Rightarrow> (Inl e, b)
               | (Inr dir, b) \<Rightarrow>
                   (Inr \<lparr>bdID = (if idU = 0xFFFF then -1 else uint idU), bdOffsetX = signed_byte ox,
                      bdOffsetY = signed_byte oy, bdDir = uint dir\<rparr>, b)))))"

definition decodeBoundaryUpdates :: "byte list \<Rightarrow> goerr + event" where
  "decodeBoundaryUpdates payload = Inr (BoundaryUpdates (read_all read_boundary (WrapBuffer payload)))"

definition read_scenery :: "Buffer \<Rightarrow> (SceneryDelta, Buffer) result" where
  "read_scenery b =
     (case ReadUint16 b of
        (Inl e, b) \<Rightarrow> (Inl e, b)
      | (Inr iid, b) \<Rightarrow>
        (case ReadByte b of
           (Inl e, b) \<Rightarrow> (Inl e, b)
         | (Inr ox, b) \<Rightarrow>
           (case ReadByte b of
              (Inl e, b) \<Rightarrow> (Inl e, b)
            | (Inr oy, b) \<Rightarrow>
                (Inr \<lparr>sdID = uint iid, sdOffsetX = signed_byte ox, sdOffsetY = signed_byte oy\<rparr>, b))))"

definition decodeSceneryUpdates :: "byte list \<Rightarrow> goerr + event" where
  "decodeSceneryUpdates payload = Inr (SceneryUpdates (read_all read_scenery (WrapBuffer payload)))"

section \<open>The dispatcher\<close>

definition decodeTradeWindow :: "byte \<Rightarrow> byte list \<Rightarrow> event" where
  "decodeTradeWindow op payload =
     (case ReadUint16 (WrapBuffer payload) of
        (Inl _, _) \<Rightarrow> UnknownPacket op (int (length payload))
      | (Inr idx, _) \<Rightarrow>
          EvTradeOpened \<lparr>toOtherPlayerIndex = uint idx, toOpponentName = [], toMyItems = [],
            toOpponentItems = []\<rparr>)"

text \<open>The first event of a multi-record packet, or \<open>UnknownPacket\<close>.\<close>

definition first_event :: "byte \<Rightarrow> byte list \<Rightarrow> goerr + event list \<Rightarrow> event" where
  "first_event op payload r =
     (case r of
        Inr (ev # _) \<Rightarrow> ev
      | _ \<Rightarrow> UnknownPacket op (int (length payload)))"

text \<open>The numbers are the opcodes of \<open>inbound_opcodes.go\<close> and \<open>opcodes.go\<close>, in the code's order.\<close>

definition DecodeInbound :: "Frame \<Rightarrow> (int \<Rightarrow> bool) option \<Rightarrow> goerr + event" where
  "DecodeInbound f isStackable =
     (let op = Opcode f; p = Payload f; unknown = UnknownPacket op (int (length p)) in
      if op = 131 then decodeServerMessage p
      else if op = 120 then decodePrivateMessage p
      else if op = 159 then decodeStat p
      else if op = 156 then decodeStats p
      else if op = 33 then decodeExperience p
      else if op = 114 then decodeFatigue p
      else if op = 244 then decodeSleepFatigue p
      else if op = 194 then Inr SleepwordIncorrect
      else if op = 53 then decodeInventory isStackable p
      else if op = 90 then decodeInventorySlotUpdate isStackable p
      else if op = 123 then
        Inr (InventoryRemoveSlot (uint (fst (or_zero 0 (ReadByte (WrapBuffer p))))))
      else if op = 182 then decodeWelcomeInfo p
      else if op = 165 then Inr LogoutConfirm
      else if op = 83 then Inr Death
      else if op = 99 then decodeGroundItem p
      else if op = 211 then decodeRemoveWorldEntity p
      else if op = 222 \<or> op = 89 then decodeNpcDialogText p
      else if op = 245 then decodeNpcDialogOptions p
      else if op = 117 then Inr (SleepScreenAppeared (int (length p)))
      else if op = 84 then Inr SleepEnded
      else if op = 92 then Inr (decodeTradeWindow op p)
      else if op = 128 then Inr (TradeClosed False)
      else if op = 162 then Inr TradeOtherAccepted
      else if op = 20 then decodeTradeConfirmShown p
      else if op = 97 then decodeTradeOtherItems p
      else if op = 176 then Inr (DuelOpened (uint (fst (or_zero 0 (ReadUint16 (WrapBuffer p))))))
      else if op = 6 then decodeDuelOtherItems p
      else if op = 30 then decodeDuelSettings p
      else if op = 210 \<or> op = 253 then
        (if op = 253 then Inr DuelOtherAccepted else Inr unknown)
      else if op = 172 then decodeDuelConfirmWindow p
      else if op = 206 then Inr (PrayersActive (map (\<lambda>v. v = 1) p))
      else if op = 91 then decodeBoundaryUpdates p
      else if op = 48 then decodeSceneryUpdates p
      else if op = 42 then decodeBankOpen p
      else if op = 249 then decodeBankUpdate p
      else if op = 203 then Inr BankClosed
      else if op = 101 then decodeShopOpen p
      else if op = 137 then Inr ShopClosed
      else if op = 225 then Inr (DuelClosed False)
      else if op = 191 then
        (case DecodePlayerCoords p of
           Inl _ \<Rightarrow> Inr unknown
         | Inr (own, _) \<Rightarrow> Inr (EvOwnPosition own))
      else if op = 234 then Inr (first_event op p (DecodeUpdatePlayers p))
      else if op = 104 then Inr (first_event op p (DecodeUpdateNpcs p))
      else Inr unknown)"

section \<open>Which packets can be rejected\<close>

text \<open>
  Only nine opcodes can make \<open>DecodeInbound\<close> fail: server and private messages, the two stat
  packets, the full inventory, the welcome screen, ground items and the two dialog boxes. A packet
  with any other opcode, known or not and however mangled its payload, always yields an event, so
  it never stops the session.
\<close>

theorem inbound_errors:
  "DecodeInbound f st = Inl e \<Longrightarrow> Opcode f \<in> {131, 120, 159, 156, 53, 182, 99, 222, 89}"
  by (rule ccontr)
     (simp add: DecodeInbound_def Let_def decodeExperience_def decodeFatigue_def
        decodeSleepFatigue_def decodeInventorySlotUpdate_def decodeRemoveWorldEntity_def
        decodeNpcDialogOptions_def decodeTradeConfirmShown_def decodeTradeOtherItems_def
        decodeDuelOtherItems_def decodeDuelSettings_def decodeDuelConfirmWindow_def
        decodeBoundaryUpdates_def decodeSceneryUpdates_def decodeBankOpen_def decodeBankUpdate_def
        decodeShopOpen_def case_prod_beta
        split: if_splits sum.splits prod.splits)

theorem inbound_errors_witness:
  "DecodeInbound \<lparr>Opcode = 99, Payload = []\<rparr> None = Inl (ErrMsg ''ground_item: empty payload'' []) \<and>
   (99 :: byte) \<in> {131, 120, 159, 156, 53, 182, 99, 222, 89}"
proof -
  have e: "DecodeInbound \<lparr>Opcode = 99, Payload = []\<rparr> None = Inl (ErrMsg ''ground_item: empty payload'' [])"
    by (simp add: DecodeInbound_def decodeGroundItem_def)
  from inbound_errors [OF e] e show ?thesis by simp
qed

section \<open>Reading back the documented layouts\<close>

context wire_reader
begin

text \<open>A stream of records read to the end: all of them, and nothing made of a tail too short to read.\<close>

lemma read_items_stop:
  "\<forall>v \<in> set vs. ok v \<Longrightarrow> (\<And>pre. \<exists>e b. dec (reading pre tail) = (Inl e, b)) \<Longrightarrow> length vs \<le> n \<Longrightarrow>
     fst (read_items dec n (reading pre (concat (map enc vs) @ tail))) = map val vs"
proof (induction vs arbitrary: pre n)
  case Nil
  then obtain e b where "dec (reading pre tail) = (Inl e, b)" by blast
  then show ?case by (cases n) simp_all
next
  case (Cons v vs)
  then obtain m where "n = Suc m" by (cases n) auto
  then show ?case
    using Cons.IH [of m "pre @ enc v"] Cons.prems by (simp add: dec_val case_prod_beta Let_def)
qed

lemma read_all_val:
  assumes "\<forall>v \<in> set vs. ok v \<and> enc v \<noteq> []"
    and "\<And>pre. \<exists>e b. dec (reading pre tail) = (Inl e, b)"
  shows "read_all dec (reading pre (concat (map enc vs) @ tail)) = map val vs"
proof -
  have "length vs \<le> length (concat (map enc vs))"
    using assms(1) by (induction vs) (auto simp: neq_Nil_conv)
  then show ?thesis
    using assms read_items_stop [of vs tail] by (simp add: read_all_def wire_simps)
qed

end

text \<open>Ground items: the three kinds of entries of opcode 99.\<close>

datatype ground_rec = GClear byte byte | GAdd u16 byte byte | GRemove u16 byte byte

fun ground_bytes :: "ground_rec \<Rightarrow> byte list" where
  "ground_bytes (GClear x y) = [0xFF, x, y]"
| "ground_bytes (GAdd i x y) = put16 i @ [x, y]"
| "ground_bytes (GRemove i x y) = put16 (i OR 0x8000) @ [x, y]"

fun ground_ok :: "ground_rec \<Rightarrow> bool" where
  "ground_ok (GClear x y) \<longleftrightarrow> True"
| "ground_ok (GAdd i x y) \<longleftrightarrow> i < 0x7F00"
| "ground_ok (GRemove i x y) \<longleftrightarrow> i < 0x7F00"

fun ground_delta :: "ground_rec \<Rightarrow> GroundItemDelta" where
  "ground_delta (GClear x y) = \<lparr>gdItemID = 0, gdOffsetX = sint x, gdOffsetY = sint y, gdDisappear = True\<rparr>"
| "ground_delta (GAdd i x y) =
     \<lparr>gdItemID = uint i, gdOffsetX = sint x, gdOffsetY = sint y, gdDisappear = False\<rparr>"
| "ground_delta (GRemove i x y) =
     \<lparr>gdItemID = uint i, gdOffsetX = sint x, gdOffsetY = sint y, gdDisappear = True\<rparr>"

lemma small_id_bits: "(i :: u16) < 0x7F00 \<Longrightarrow> 15 \<le> n \<Longrightarrow> \<not> bit i n"
proof -
  assume "i < 0x7F00" "15 \<le> n"
  then have "uint i < 2 ^ 15" by (simp add: word_less_def)
  then have "\<not> bit (uint i) n"
    using \<open>15 \<le> n\<close> by (metis bit_take_bit_iff not_le take_bit_int_eq_self uint_ge_0)
  then show ?thesis by (auto simp: bit_uint_iff dest: bit_imp_le_length)
qed

lemma small_id_word:
  assumes "(i :: u16) < 0x7F00"
  shows "i AND 0x8000 = 0" "(i OR 0x8000) AND 0x8000 \<noteq> 0" "(i OR 0x8000) AND 0x7FFF = i"
proof -
  have m: "(0x8000 :: u16) = push_bit 15 1" "(0x7FFF :: u16) = mask 15"
    by (simp_all add: mask_eq_decr_exp)
  note small = small_id_bits [OF assms]
  show "i AND 0x8000 = 0"
    using and_exp_eq_0_iff_not_bit [of i 15] small [of 15] by simp
  have "bit (i OR 0x8000) 15"
    unfolding m by (rule top_bit_mask(2)) (use small in simp_all)
  then show "(i OR 0x8000) AND 0x8000 \<noteq> 0"
    using and_exp_eq_0_iff_not_bit [of "i OR 0x8000" 15] by simp
  show "(i OR 0x8000) AND 0x7FFF = i"
    unfolding m by (rule top_bit_mask(1)) (use small in simp_all)
qed

text \<open>No id below 0x7F00 has the leading byte of a clear entry, with or without the removal bit.\<close>

lemma small_id_leading:
  assumes "(i :: u16) < 0x7F00"
  shows "ucast (drop_bit 8 i) \<noteq> (0xFF :: byte)" "ucast (drop_bit 8 (i OR 0x8000)) \<noteq> (0xFF :: byte)"
proof -
  have "\<exists>n. 8 \<le> n \<and> n < 15 \<and> \<not> bit i n"
  proof (rule ccontr)
    assume "\<nexists>n. 8 \<le> n \<and> n < 15 \<and> \<not> bit i n"
    then have b: "bit i n" if "8 \<le> n" "n < 15" for n using that by blast
    have "drop_bit 8 i = 0x7F"
    proof (rule bit_word_eqI)
      fix n assume "n < LENGTH(16)"
      have m7: "bit (0x7F :: u16) n \<longleftrightarrow> n < 7"
      proof -
        have "(0x7F :: u16) = mask 7" by (simp add: mask_eq_decr_exp)
        then show ?thesis by (simp only: bit_mask_iff) auto
      qed
      show "bit (drop_bit 8 i) n = bit (0x7F :: u16) n"
        unfolding m7 using b [of "8 + n"] small_id_bits [OF assms, of "8 + n"]
        by (cases "n < 7") (simp_all add: bit_drop_bit_eq)
    qed
    then have "unat (drop_bit 8 i) = 127" by simp
    then have "unat i div 256 = 127" by (simp only: unat_drop_bit_eq) (simp add: drop_bit_eq_div)
    with assms show False by (simp add: word_less_nat_alt)
  qed
  then obtain n where n: "8 \<le> n" "n < 15" "\<not> bit i n" by blast
  have ff: "bit (0xFF :: byte) (n - 8)"
  proof -
    have "(0xFF :: byte) = mask 8" by (simp add: mask_eq_decr_exp)
    then show ?thesis using n by (simp only: bit_mask_iff) simp
  qed
  have e: "(0x8000 :: u16) = 2 ^ 15" by simp
  have "\<not> bit (0x8000 :: u16) n" using n unfolding e bit_exp_iff by simp
  with n have "\<not> bit (ucast (drop_bit 8 i) :: byte) (n - 8)"
    "\<not> bit (ucast (drop_bit 8 (i OR 0x8000)) :: byte) (n - 8)"
    by (simp_all only: bit_ucast_iff bit_drop_bit_eq bit_or_iff comp_apply) simp_all
  with ff show "ucast (drop_bit 8 i) \<noteq> (0xFF :: byte)" "ucast (drop_bit 8 (i OR 0x8000)) \<noteq> (0xFF :: byte)"
    by auto
qed

lemma put16_split: "put16 i = [ucast (drop_bit 8 i), ucast i]"
  by (simp add: put16_def)

lemma read_ground_item_reading:
  assumes "ground_ok g"
  shows "read_ground_item (reading pre (ground_bytes g @ post)) =
    (Inr (ground_delta g), reading (pre @ ground_bytes g) post)"
proof (cases g)
  case (GClear x y)
  then show ?thesis by (simp add: read_ground_item_def wire_simps signed_byte_def)
next
  case (GAdd i x y)
  with assms have i: "i < 0x7F00" by simp
  from GAdd show ?thesis
    using small_id_leading(1) [OF i] small_id_word(1) [OF i]
    by (simp add: read_ground_item_def put16_split wire_simps signed_byte_def Let_def)
next
  case (GRemove i x y)
  with assms have i: "i < 0x7F00" by simp
  have "be16 (ucast (drop_bit 8 (i OR 0x8000))) (ucast (i OR 0x8000)) = i OR 0x8000"
    by (rule be16_put16)
  then show ?thesis
    using GRemove small_id_leading(2) [OF i] small_id_word(2,3) [OF i]
    by (simp add: read_ground_item_def put16_split wire_simps signed_byte_def Let_def
        del: drop_bit_or be16_put16)
qed

interpretation ground: wire_reader ground_bytes read_ground_item ground_ok ground_delta
  by unfold_locales (rule read_ground_item_reading)

text \<open>
  C28. Every ground item in a packet is seen: a packet of opcode 99 made of any sequence of added
  items, in-range removals and out-of-range clears decodes to one delta per entry, in order, with
  signed offsets; fewer than three bytes left over at the end add nothing. Item ids are below
  32512, so that no entry's first byte is the 255 that marks a clear.
\<close>

theorem ground_items_decoded:
  assumes "\<forall>g \<in> set gs. ground_ok g" and "length tail < 3" and "gs \<noteq> []"
  shows "DecodeInbound \<lparr>Opcode = 99, Payload = concat (map ground_bytes gs) @ tail\<rparr> st =
    Inr (GroundItemUpdates (map ground_delta gs))"
proof -
  have ne: "ground_bytes g \<noteq> []" for g by (cases g) (simp_all add: put16_def)
  with assms(3) have "concat (map ground_bytes gs) @ tail \<noteq> []" by (cases gs) auto
  moreover have "\<exists>e b. read_ground_item (reading pre tail) = (Inl e, b)" for pre
    using assms(2) by (simp add: read_ground_item_def wire_simps)
  ultimately show ?thesis
    using ground.read_all_val [of gs tail "[]"] assms(1) ne
    by (simp add: DecodeInbound_def decodeGroundItem_def wire_simps Suc_le_eq)
qed

theorem ground_items_decoded_witness:
  "DecodeInbound \<lparr>Opcode = 99, Payload = [0, 156, 254, 1, 255, 3, 4, 128, 20, 0, 0, 7]\<rparr> None =
    Inr (GroundItemUpdates
      [\<lparr>gdItemID = 156, gdOffsetX = -2, gdOffsetY = 1, gdDisappear = False\<rparr>,
       \<lparr>gdItemID = 0, gdOffsetX = 3, gdOffsetY = 4, gdDisappear = True\<rparr>,
       \<lparr>gdItemID = 20, gdOffsetX = 0, gdOffsetY = 0, gdDisappear = True\<rparr>])"
proof -
  have e: "(32788 :: byte) = 20" by simp
  show ?thesis
    using ground_items_decoded [of "[GAdd 156 254 1, GClear 3 4, GRemove 20 0 0]" "[7]" None]
    by (simp add: put16_def e)
qed

section \<open>Inventory\<close>

text \<open>An inventory slot as the server writes it: the amount follows only a stackable item.\<close>

definition raw_item :: "InventoryItem \<Rightarrow> u16" where
  "raw_item it = (if itemWielded it then word_of_int (itemID it) OR 0x8000 else word_of_int (itemID it))"

definition item_bytes :: "(int \<Rightarrow> bool) option \<Rightarrow> InventoryItem \<Rightarrow> byte list" where
  "item_bytes st it =
     put16 (raw_item it) @ (if stackable st (itemID it) then amount_bytes (itemAmount it) else [])"

definition item_ok :: "(int \<Rightarrow> bool) option \<Rightarrow> InventoryItem \<Rightarrow> bool" where
  "item_ok st it \<longleftrightarrow> 0 \<le> itemID it \<and> itemID it < 32768 \<and>
     (if stackable st (itemID it) then 0 \<le> itemAmount it \<and> itemAmount it < 2 ^ 31
      else itemAmount it = 1)"

lemma raw_item_fields:
  assumes "0 \<le> itemID it" "itemID it < 32768"
  shows "raw_item it AND 0x8000 \<noteq> 0 \<longleftrightarrow> itemWielded it" "uint (raw_item it AND 0x7FFF) = itemID it"
proof -
  let ?w = "word_of_int (itemID it) :: u16"
  have m: "(0x8000 :: u16) = push_bit 15 1" "(0x7FFF :: u16) = mask 15"
    by (simp_all add: mask_eq_decr_exp)
  have small: "\<not> bit ?w n" if "15 \<le> n" for n
    using bit_of_int_small [of "itemID it" 15 n] assms that by simp
  have top: "bit (?w OR 0x8000) 15" "(?w OR 0x8000) AND 0x7FFF = ?w"
    unfolding m by (rule top_bit_mask; use small in simp)+
  have low: "?w AND 0x7FFF = ?w"
    unfolding m by (rule bit_word_eqI) (metis bit_and_iff bit_mask_iff possible_bit_word not_le small)
  show "raw_item it AND 0x8000 \<noteq> 0 \<longleftrightarrow> itemWielded it"
    using and_exp_eq_0_iff_not_bit [of ?w 15] and_exp_eq_0_iff_not_bit [of "?w OR 0x8000" 15]
      top(1) small [of 15] by (simp add: raw_item_def)
  have "uint ?w = itemID it" using assms by (simp add: uint_word_of_int_eq take_bit_int_eq_self)
  with top(2) low show "uint (raw_item it AND 0x7FFF) = itemID it" by (simp add: raw_item_def)
qed

lemma item_of_raw_reading:
  assumes "item_ok st it"
  shows "item_of_raw st (raw_item it) (reading pre
      ((if stackable st (itemID it) then amount_bytes (itemAmount it) else []) @ post)) =
    (it, reading (pre @ (if stackable st (itemID it) then amount_bytes (itemAmount it) else [])) post)"
  using assms raw_item_fields [of it]
  by (auto simp: item_of_raw_def item_ok_def Let_def wire_simps)

lemma read_inventory_item_reading:
  assumes "item_ok st it"
  shows "read_inventory_item st (reading pre (item_bytes st it @ post)) =
    (Inr it, reading (pre @ item_bytes st it) post)"
  using item_of_raw_reading [OF assms, of "pre @ put16 (raw_item it)" post]
  by (simp add: read_inventory_item_def item_bytes_def wire_simps)

interpretation inventory: wire_codec "item_bytes st" "read_inventory_item st" "item_ok st"
  by unfold_locales (rule read_inventory_item_reading)

lemma inventory_frame:
  assumes "\<forall>it \<in> set its. item_ok st it" and "length its < 256"
  shows "DecodeInbound
      \<lparr>Opcode = 53, Payload = of_nat (length its) # concat (map (item_bytes st) its) @ junk\<rparr> st =
    Inr (InventorySnapshot its)"
proof -
  have "unat (of_nat (length its) :: byte) = length its"
    using assms(2) by (simp add: unat_of_nat)
  then show ?thesis
    using inventory.read_items_enc [OF assms(1), of "[of_nat (length its)]" junk]
    by (simp add: DecodeInbound_def decodeInventory_def wire_simps)
qed

text \<open>
  C26. The inventory arrives slot for slot: for any stackability rule, a full inventory of up to 255
  slots written as the server writes it (wielded bit in the id, an amount in its short or long form
  after stackable items only) decodes to exactly those items, whatever bytes follow.
\<close>

theorem inventory_decoded:
  assumes "\<forall>it \<in> set its. item_ok st it" and "length its < 256"
  shows "DecodeInbound
      \<lparr>Opcode = 53, Payload = of_nat (length its) # concat (map (item_bytes st) its) @ junk\<rparr> st =
    Inr (InventorySnapshot its)"
  using assms by (rule inventory_frame)

theorem inventory_decoded_witness:
  "DecodeInbound \<lparr>Opcode = 53, Payload = [3, 0, 87, 0, 10, 128, 1, 17, 112, 128, 4]\<rparr>
      (Some (\<lambda>i. i = 10)) =
    Inr (InventorySnapshot [\<lparr>itemID = 87, itemAmount = 1, itemWielded = False\<rparr>,
      \<lparr>itemID = 10, itemAmount = 70000, itemWielded = False\<rparr>,
      \<lparr>itemID = 4, itemAmount = 1, itemWielded = True\<rparr>])"
proof -
  have e: "(273 :: byte) = 17" "(70000 :: byte) = 112" "(2147553648 :: byte) = 112" "(32772 :: byte) = 4"
    "(8388881 :: byte) = 17" "(32769 :: byte) = 1"
    by simp_all
  show ?thesis
    using inventory_decoded [of "[\<lparr>itemID = 87, itemAmount = 1, itemWielded = False\<rparr>,
        \<lparr>itemID = 10, itemAmount = 70000, itemWielded = False\<rparr>,
        \<lparr>itemID = 4, itemAmount = 1, itemWielded = True\<rparr>]" "Some (\<lambda>i. i = 10)" "[]"]
    by (simp add: item_ok_def stackable_def item_bytes_def raw_item_def amount_bytes_def
        put16_def put32_def e)
qed

section \<open>Banks, shops and offers\<close>

definition bank_item_bytes :: "InventoryItem \<Rightarrow> byte list" where
  "bank_item_bytes it = put16 (word_of_int (itemID it)) @ amount_bytes (itemAmount it)"

definition bank_item_ok :: "InventoryItem \<Rightarrow> bool" where
  "bank_item_ok it \<longleftrightarrow> 0 \<le> itemID it \<and> itemID it < 65536 \<and> 0 \<le> itemAmount it \<and>
     itemAmount it < 2 ^ 31 \<and> \<not> itemWielded it"

definition trade_item_bytes :: "InventoryItem \<Rightarrow> byte list" where
  "trade_item_bytes it = put16 (word_of_int (itemID it)) @ put32 (word_of_int (itemAmount it))"

definition trade_item_ok :: "InventoryItem \<Rightarrow> bool" where
  "trade_item_ok it \<longleftrightarrow> 0 \<le> itemID it \<and> itemID it < 65536 \<and> 0 \<le> itemAmount it \<and>
     itemAmount it < 2 ^ 32 \<and> \<not> itemWielded it"

definition shop_item_bytes :: "ShopItem \<Rightarrow> byte list" where
  "shop_item_bytes it = put16 (word_of_int (siItemID it)) @ put16 (word_of_int (siStock it)) @
     put16 (word_of_int (siBaseStock it))"

definition shop_item_ok :: "ShopItem \<Rightarrow> bool" where
  "shop_item_ok it \<longleftrightarrow> 0 \<le> siItemID it \<and> siItemID it < 65536 \<and> 0 \<le> siStock it \<and>
     siStock it < 65536 \<and> 0 \<le> siBaseStock it \<and> siBaseStock it < 65536"

lemma uint_u16: "0 \<le> x \<Longrightarrow> x < 65536 \<Longrightarrow> uint (word_of_int x :: u16) = x"
  by (simp add: uint_word_of_int_eq take_bit_int_eq_self)

lemma uint_u32: "0 \<le> x \<Longrightarrow> x < 4294967296 \<Longrightarrow> uint (word_of_int x :: u32) = x"
  by (simp add: uint_word_of_int_eq take_bit_int_eq_self)

interpretation bank: wire_codec bank_item_bytes read_bank_item bank_item_ok
  by unfold_locales
     (auto simp: read_bank_item_def bank_item_bytes_def bank_item_ok_def wire_simps uint_u16)

interpretation trade: wire_codec trade_item_bytes read_trade_item trade_item_ok
  by unfold_locales
     (auto simp: read_trade_item_def trade_item_bytes_def trade_item_ok_def wire_simps uint_u16 uint_u32)

interpretation shop: wire_codec shop_item_bytes read_shop_item shop_item_ok
  by unfold_locales
     (auto simp: read_shop_item_def shop_item_bytes_def shop_item_ok_def wire_simps uint_u16)

lemma read_counted_items_reading:
  assumes "\<forall>it \<in> set its. trade_item_ok it" and "length its < 256"
  shows "read_counted_items
      (reading pre (of_nat (length its) # concat (map trade_item_bytes its) @ post)) =
    (its, reading (pre @ of_nat (length its) # concat (map trade_item_bytes its)) post)"
proof -
  have "unat (of_nat (length its) :: byte) = length its"
    using assms(2) by (simp add: unat_of_nat)
  then show ?thesis
    using trade.read_items_enc [OF assms(1), of "pre @ [of_nat (length its)]" post]
    by (simp add: read_counted_items_def wire_simps)
qed

definition flag_byte :: "bool \<Rightarrow> byte" where
  "flag_byte f = (if f then 1 else 0)"

definition settings_bytes :: "DuelSettingsUpdate \<Rightarrow> byte list" where
  "settings_bytes r = [flag_byte (dsRetreat r), flag_byte (dsMagic r), flag_byte (dsPrayer r), flag_byte (dsWeapons r)]"

text \<open>
  C27. The duel confirmation screen is read whole: the opponent's name, both stakes (up to 255 items
  each, with 32-bit amounts) and the four rules come out as they were sent, and the trade
  confirmation, which has no rules, likewise.
\<close>

theorem confirm_screens_decoded:
  assumes "0 \<notin> set name"
    and "\<forall>it \<in> set theirs. trade_item_ok it" and "length theirs < 256"
    and "\<forall>it \<in> set mine. trade_item_ok it" and "length mine < 256"
  shows "DecodeInbound \<lparr>Opcode = 172, Payload = zq_bytes name @
        of_nat (length theirs) # concat (map trade_item_bytes theirs) @
        of_nat (length mine) # concat (map trade_item_bytes mine) @ settings_bytes rules\<rparr> st =
      Inr (EvDuelConfirmShown \<lparr>dcOpponentName = name, dcOpponentItems = theirs, dcMyItems = mine,
        dcSettings = rules\<rparr>) \<and>
    DecodeInbound \<lparr>Opcode = 20, Payload = zq_bytes name @
        of_nat (length theirs) # concat (map trade_item_bytes theirs) @
        of_nat (length mine) # concat (map trade_item_bytes mine)\<rparr> st =
      Inr (EvTradeConfirmShown \<lparr>tcOpponentName = name, tcOpponentItems = theirs, tcMyItems = mine\<rparr>)"
proof -
  have mine: "read_counted_items (reading pre (of_nat (length mine) # concat (map trade_item_bytes mine))) =
      (mine, reading (pre @ of_nat (length mine) # concat (map trade_item_bytes mine)) [])" for pre
    using read_counted_items_reading [OF assms(4,5), of pre "[]"] by simp
  have "fst (read_duel_settings (reading pre (settings_bytes rules))) = rules" for pre
    by (cases rules) (simp add: read_duel_settings_def settings_bytes_def flag_byte_def wire_simps)
  then show ?thesis
    using assms(1) read_counted_items_reading [OF assms(2,3)] read_counted_items_reading [OF assms(4,5)] mine
    by (simp add: DecodeInbound_def decodeDuelConfirmWindow_def decodeTradeConfirmShown_def wire_simps
        case_prod_beta)
qed

theorem confirm_screens_decoded_witness:
  "DecodeInbound \<lparr>Opcode = 172, Payload = [0, 65, 0, 1, 0, 10, 0, 0, 1, 0, 0, 1, 0, 0, 1]\<rparr> None =
    Inr (EvDuelConfirmShown
      \<lparr>dcOpponentName = [65], dcOpponentItems = [\<lparr>itemID = 10, itemAmount = 256, itemWielded = False\<rparr>],
       dcMyItems = [],
       dcSettings = \<lparr>dsRetreat = True, dsMagic = False, dsPrayer = False, dsWeapons = True\<rparr>\<rparr>)"
proof -
  have e: "(256 :: byte) = 0" by simp
  show ?thesis
    using confirm_screens_decoded [of "[65]" "[\<lparr>itemID = 10, itemAmount = 256, itemWielded = False\<rparr>]"
        "[]" "\<lparr>dsRetreat = True, dsMagic = False, dsPrayer = False, dsWeapons = True\<rparr>" None]
    by (simp add: trade_item_ok_def trade_item_bytes_def put16_def put32_def zq_bytes_def
        settings_bytes_def flag_byte_def e)
qed

text \<open>
  C31. The bank and the shop arrive complete: the bank's capacity and every slot with its amount in
  either form, and the shop's price modifiers and every catalogue entry, for any bytes behind them.
\<close>

theorem bank_shop_decoded:
  assumes "\<forall>it \<in> set slots. bank_item_ok it" and "length slots < 256"
    and "\<forall>it \<in> set wares. shop_item_ok it" and "length wares < 256"
  shows "DecodeInbound \<lparr>Opcode = 42, Payload = of_nat (length slots) # cap #
        concat (map bank_item_bytes slots) @ junk\<rparr> st = Inr (BankOpened (uint cap) slots) \<and>
    DecodeInbound \<lparr>Opcode = 101, Payload = of_nat (length wares) # general # sell # buy # mult #
        concat (map shop_item_bytes wares) @ junk\<rparr> st =
      Inr (EvShopOpened \<lparr>soIsGeneral = (general = 1), soSellPriceMod = uint sell,
        soBuyPriceMod = uint buy, soPriceMultiplier = uint mult, soItems = wares\<rparr>)"
proof -
  have "unat (of_nat (length slots) :: byte) = length slots"
    "unat (of_nat (length wares) :: byte) = length wares"
    using assms(2,4) by (simp_all add: unat_of_nat)
  then show ?thesis
    using bank.read_items_enc [OF assms(1), of _ junk] shop.read_items_enc [OF assms(3), of _ junk]
    by (simp add: DecodeInbound_def decodeBankOpen_def decodeShopOpen_def wire_simps)
qed

theorem bank_shop_decoded_witness:
  "DecodeInbound \<lparr>Opcode = 42, Payload = [1, 48, 0, 10, 0, 25]\<rparr> None =
      Inr (BankOpened 48 [\<lparr>itemID = 10, itemAmount = 25, itemWielded = False\<rparr>]) \<and>
   DecodeInbound \<lparr>Opcode = 101, Payload = [1, 1, 40, 130, 3, 0, 5, 0, 2, 0, 7]\<rparr> None =
      Inr (EvShopOpened \<lparr>soIsGeneral = True, soSellPriceMod = 40, soBuyPriceMod = 130,
        soPriceMultiplier = 3, soItems = [\<lparr>siItemID = 5, siStock = 2, siBaseStock = 7\<rparr>]\<rparr>)"
  using bank_shop_decoded [of "[\<lparr>itemID = 10, itemAmount = 25, itemWielded = False\<rparr>]"
      "[\<lparr>siItemID = 5, siStock = 2, siBaseStock = 7\<rparr>]" 48 "[]" None 1 40 130 3]
  by (simp add: bank_item_ok_def shop_item_ok_def bank_item_bytes_def shop_item_bytes_def
      amount_bytes_def put16_def)

end
