(* ===== verification/WorldMobs.thy ===== *)
theory WorldMobs
  imports Coords
begin

text \<open>
  The mobs of the world mirror (\<open>world/world.go\<close>): \<open>NpcsState\<close> with its ordered list that mirrors
  the server's, and \<open>PlayersState\<close>.

  A Go map is a partial function; the zero record is what a lookup of a missing key returns. The
  clock is the argument \<open>now\<close>; 0 is the zero time. Locks are left out: each method runs under its
  state's mutex. A loop over a map takes the iteration order as an argument, the list of keys.
\<close>

section \<open>NPCs\<close>

record NpcRecord =
  nIndex :: int
  nX :: int
  nY :: int
  nTypeID :: int
  nLastSeen :: gotime
  nHeading :: int
  nCurHits :: int
  nMaxHits :: int
  nLastDamage :: int
  nHasHits :: bool
  nLastDamageAt :: gotime
  nIncomingFrom :: int
  nIncomingProjectileID :: int
  nIncomingAt :: gotime

definition zero_npc :: NpcRecord where
  "zero_npc = \<lparr>nIndex = 0, nX = 0, nY = 0, nTypeID = 0, nLastSeen = 0, nHeading = 0, nCurHits = 0,
     nMaxHits = 0, nLastDamage = 0, nHasHits = False, nLastDamageAt = 0, nIncomingFrom = 0,
     nIncomingProjectileID = 0, nIncomingAt = 0\<rparr>"

record NpcsState =
  npcMap :: "int \<rightharpoonup> NpcRecord"
  npcOrder :: "int list"

definition NewNpcsState :: NpcsState where
  "NewNpcsState = \<lparr>npcMap = Map.empty, npcOrder = []\<rparr>"

definition Order :: "NpcsState \<Rightarrow> int list" where
  "Order s = npcOrder s"

definition npc_or_zero :: "int \<Rightarrow> NpcsState \<Rightarrow> NpcRecord" where
  "npc_or_zero i s = (case npcMap s i of Some r \<Rightarrow> r | None \<Rightarrow> zero_npc)"

definition appendOrderLocked :: "int \<Rightarrow> int list \<Rightarrow> int list" where
  "appendOrderLocked i xs = (if i \<in> set xs then xs else xs @ [i])"

text \<open>Only the first occurrence is dropped, as the loop returns there.\<close>

fun removeOrderLocked :: "int \<Rightarrow> int list \<Rightarrow> int list" where
  "removeOrderLocked i [] = []"
| "removeOrderLocked i (x # xs) = (if x = i then xs else x # removeOrderLocked i xs)"

definition setOrderToEndLocked :: "int \<Rightarrow> int list \<Rightarrow> int list" where
  "setOrderToEndLocked i xs = removeOrderLocked i xs @ [i]"

definition NpcRemove :: "int \<Rightarrow> NpcsState \<Rightarrow> NpcsState" where
  "NpcRemove i s = \<lparr>npcMap = (npcMap s)(i := None), npcOrder = removeOrderLocked i (npcOrder s)\<rparr>"

definition NpcSet :: "gotime \<Rightarrow> NpcRecord \<Rightarrow> NpcsState \<Rightarrow> NpcsState" where
  "NpcSet now rec s =
     (let rec1 =
            (case npcMap s (nIndex rec) of
               Some prev \<Rightarrow>
                 rec\<lparr>nCurHits := nCurHits prev, nMaxHits := nMaxHits prev,
                     nLastDamage := nLastDamage prev, nHasHits := nHasHits prev,
                     nLastDamageAt := nLastDamageAt prev, nIncomingFrom := nIncomingFrom prev,
                     nIncomingProjectileID := nIncomingProjectileID prev,
                     nIncomingAt := nIncomingAt prev\<rparr>
             | None \<Rightarrow> rec);
          rec2 = rec1\<lparr>nLastSeen := now\<rparr>
      in \<lparr>npcMap = (npcMap s)(nIndex rec := Some rec2),
          npcOrder = setOrderToEndLocked (nIndex rec) (npcOrder s)\<rparr>)"

definition NpcMove :: "gotime \<Rightarrow> int \<Rightarrow> int \<Rightarrow> int \<Rightarrow> int \<Rightarrow> NpcsState \<Rightarrow> NpcsState" where
  "NpcMove now i x y heading s =
     (let r = (npc_or_zero i s)\<lparr>nIndex := i, nX := x, nY := y, nHeading := heading AND 7, nLastSeen := now\<rparr>
      in \<lparr>npcMap = (npcMap s)(i := Some r), npcOrder = appendOrderLocked i (npcOrder s)\<rparr>)"

definition NpcMoveBy :: "gotime \<Rightarrow> int \<Rightarrow> int \<Rightarrow> int \<Rightarrow> int \<Rightarrow> NpcsState \<Rightarrow> NpcsState" where
  "NpcMoveBy now i dx dy heading s =
     (case npcMap s i of
        None \<Rightarrow> s
      | Some r \<Rightarrow>
          (let r' = r\<lparr>nX := nX r + dx, nY := nY r + dy, nHeading := heading AND 7, nLastSeen := now\<rparr>
           in \<lparr>npcMap = (npcMap s)(i := Some r'), npcOrder = appendOrderLocked i (npcOrder s)\<rparr>))"

definition NpcSetHits :: "gotime \<Rightarrow> int \<Rightarrow> int \<Rightarrow> int \<Rightarrow> int \<Rightarrow> NpcsState \<Rightarrow> NpcsState" where
  "NpcSetHits now i damage curHits maxHits s =
     (let r = npc_or_zero i s;
          r = r\<lparr>nIndex := i, nLastDamage := damage, nCurHits := curHits, nMaxHits := maxHits,
                nHasHits := True, nLastDamageAt := now\<rparr>;
          r = (if nLastSeen r = 0 then r\<lparr>nLastSeen := now\<rparr> else r)
      in s\<lparr>npcMap := (npcMap s)(i := Some r)\<rparr>)"

definition SetIncomingAttack :: "gotime \<Rightarrow> int \<Rightarrow> int \<Rightarrow> int \<Rightarrow> NpcsState \<Rightarrow> NpcsState" where
  "SetIncomingAttack now npcIndex fromPlayerIndex projectileID s =
     (let r = npc_or_zero npcIndex s;
          r = r\<lparr>nIndex := npcIndex, nIncomingFrom := fromPlayerIndex,
                nIncomingProjectileID := projectileID, nIncomingAt := now\<rparr>;
          r = (if nLastSeen r = 0 then r\<lparr>nLastSeen := now\<rparr> else r)
      in s\<lparr>npcMap := (npcMap s)(npcIndex := Some r)\<rparr>)"

definition NpcGet :: "int \<Rightarrow> NpcsState \<Rightarrow> NpcRecord \<times> bool" where
  "NpcGet i s = (npc_or_zero i s, npcMap s i \<noteq> None)"

text \<open>The \<open>NpcNearby\<close> case of \<open>World.Apply\<close>.\<close>

definition apply_npc_nearby :: "gotime \<Rightarrow> NpcNearby \<Rightarrow> NpcsState \<Rightarrow> NpcsState" where
  "apply_npc_nearby now e s =
     (if nnRemoved e then NpcRemove (nnIndex e) s
      else if nnIsNew e then
        NpcSet now (zero_npc\<lparr>nIndex := nnIndex e, nX := nnX e, nY := nnY e, nTypeID := nnTypeID e,
          nHeading := nnSprite e AND 7\<rparr>) s
      else NpcMoveBy now (nnIndex e) (nnDX e) (nnDY e) (nnSprite e) s)"

section \<open>Players\<close>

record PlayerRecord =
  pIndex :: int
  pName :: gostring
  pX :: int
  pY :: int
  pLastSeen :: gotime
  pHeading :: int
  pCombatLevel :: int
  pSkullType :: int
  pHasAppearanceCombat :: bool
  pEquipBySlot :: "int list"
  pHasEquip :: bool
  pHairColour :: int
  pTopColour :: int
  pTrouserColour :: int
  pSkinColour :: int
  pHasColours :: bool
  pCurHits :: int
  pMaxHits :: int
  pLastDamage :: int
  pHasHits :: bool
  pLastDamageAt :: gotime
  pEngagedNpcIndex :: int
  pEngagedPlayerIndex :: int
  pProjectileID :: int
  pEngagedAt :: gotime

definition zero_player :: PlayerRecord where
  "zero_player = \<lparr>pIndex = 0, pName = [], pX = 0, pY = 0, pLastSeen = 0, pHeading = 0,
     pCombatLevel = 0, pSkullType = 0, pHasAppearanceCombat = False,
     pEquipBySlot = replicate NumEquipSlots 0, pHasEquip = False, pHairColour = 0, pTopColour = 0,
     pTrouserColour = 0, pSkinColour = 0, pHasColours = False, pCurHits = 0, pMaxHits = 0,
     pLastDamage = 0, pHasHits = False, pLastDamageAt = 0, pEngagedNpcIndex = 0,
     pEngagedPlayerIndex = 0, pProjectileID = 0, pEngagedAt = 0\<rparr>"

record PlayersState =
  playerMap :: "int \<rightharpoonup> PlayerRecord"
  selfName :: gostring
  selfIndex :: int

definition NewPlayersState :: PlayersState where
  "NewPlayersState = \<lparr>playerMap = Map.empty, selfName = [], selfIndex = 0\<rparr>"

definition player_or_zero :: "int \<Rightarrow> PlayersState \<Rightarrow> PlayerRecord" where
  "player_or_zero i s = (case playerMap s i of Some r \<Rightarrow> r | None \<Rightarrow> zero_player)"

text \<open>The shape all setters have: update the record, stamp it if it was never seen, store it.\<close>

definition touch_player :: "gotime \<Rightarrow> PlayerRecord \<Rightarrow> PlayerRecord" where
  "touch_player now r = (if pLastSeen r = 0 then r\<lparr>pLastSeen := now\<rparr> else r)"

definition store_player :: "int \<Rightarrow> PlayerRecord \<Rightarrow> PlayersState \<Rightarrow> PlayersState" where
  "store_player i r s = s\<lparr>playerMap := (playerMap s)(i := Some r)\<rparr>"

definition SetPlayerPosition :: "gotime \<Rightarrow> int \<Rightarrow> int \<Rightarrow> int \<Rightarrow> int \<Rightarrow> PlayersState \<Rightarrow> PlayersState" where
  "SetPlayerPosition now i x y heading s =
     store_player i ((player_or_zero i s)\<lparr>pIndex := i, pX := x, pY := y, pHeading := heading AND 7,
       pLastSeen := now\<rparr>) s"

definition SetName :: "gotime \<Rightarrow> int \<Rightarrow> gostring \<Rightarrow> PlayersState \<Rightarrow> PlayersState" where
  "SetName now i name s =
     (let r = touch_player now ((player_or_zero i s)\<lparr>pIndex := i, pName := name\<rparr>);
          s1 = store_player i r s
      in if name \<noteq> [] \<and> name = selfName s then s1\<lparr>selfIndex := i\<rparr> else s1)"

definition SetSelfName :: "gostring \<Rightarrow> PlayersState \<Rightarrow> PlayersState" where
  "SetSelfName name s = s\<lparr>selfName := name\<rparr>"

definition SelfIndex :: "PlayersState \<Rightarrow> int" where
  "SelfIndex s = selfIndex s"

definition SetAppearanceCombat :: "gotime \<Rightarrow> int \<Rightarrow> int \<Rightarrow> int \<Rightarrow> PlayersState \<Rightarrow> PlayersState" where
  "SetAppearanceCombat now i combatLevel skullType s =
     store_player i (touch_player now ((player_or_zero i s)\<lparr>pIndex := i, pCombatLevel := combatLevel,
       pSkullType := skullType, pHasAppearanceCombat := True\<rparr>)) s"

definition SetWornEquipment :: "gotime \<Rightarrow> int \<Rightarrow> int list \<Rightarrow> PlayersState \<Rightarrow> PlayersState" where
  "SetWornEquipment now i worn s =
     store_player i (touch_player now ((player_or_zero i s)\<lparr>pIndex := i, pEquipBySlot := worn,
       pHasEquip := True\<rparr>)) s"

definition SetAppearanceColours ::
  "gotime \<Rightarrow> int \<Rightarrow> int \<Rightarrow> int \<Rightarrow> int \<Rightarrow> int \<Rightarrow> PlayersState \<Rightarrow> PlayersState" where
  "SetAppearanceColours now i hair topc trouser skin s =
     store_player i (touch_player now ((player_or_zero i s)\<lparr>pIndex := i, pHairColour := hair,
       pTopColour := topc, pTrouserColour := trouser, pSkinColour := skin, pHasColours := True\<rparr>)) s"

definition PlayerSetHits :: "gotime \<Rightarrow> int \<Rightarrow> int \<Rightarrow> int \<Rightarrow> int \<Rightarrow> PlayersState \<Rightarrow> PlayersState" where
  "PlayerSetHits now i damage curHits maxHits s =
     store_player i (touch_player now ((player_or_zero i s)\<lparr>pIndex := i, pLastDamage := damage,
       pCurHits := curHits, pMaxHits := maxHits, pHasHits := True, pLastDamageAt := now\<rparr>)) s"

definition SetEngagement :: "gotime \<Rightarrow> int \<Rightarrow> int \<Rightarrow> int \<Rightarrow> int \<Rightarrow> PlayersState \<Rightarrow> PlayersState" where
  "SetEngagement now i projectileID npcIndex playerIndex s =
     store_player i (touch_player now ((player_or_zero i s)\<lparr>pIndex := i, pProjectileID := projectileID,
       pEngagedNpcIndex := npcIndex, pEngagedPlayerIndex := playerIndex, pEngagedAt := now\<rparr>)) s"

definition PlayerRemove :: "int \<Rightarrow> PlayersState \<Rightarrow> PlayersState" where
  "PlayerRemove i s = s\<lparr>playerMap := (playerMap s)(i := None)\<rparr>"

definition PlayerGet :: "int \<Rightarrow> PlayersState \<Rightarrow> PlayerRecord \<times> bool" where
  "PlayerGet i s = (player_or_zero i s, playerMap s i \<noteq> None)"

definition SelfRecord :: "PlayersState \<Rightarrow> PlayerRecord \<times> bool" where
  "SelfRecord s = PlayerGet (SelfIndex s) s"

text \<open>The loop of \<open>AttackerOfSelf\<close>, over the map's entries in the order the runtime picks.\<close>

fun attacker_loop :: "int \<Rightarrow> (int \<times> PlayerRecord) list \<Rightarrow> int \<times> bool \<times> gotime \<Rightarrow> int \<times> bool" where
  "attacker_loop self [] (best, found, at) = (best, found)"
| "attacker_loop self ((i, r) # rest) (best, found, at) =
     (if i = self then attacker_loop self rest (best, found, at)
      else if pEngagedPlayerIndex r = self then
        (if \<not> found \<or> pEngagedAt r > at then attacker_loop self rest (i, True, pEngagedAt r)
         else attacker_loop self rest (best, found, at))
      else attacker_loop self rest (best, found, at))"

definition AttackerOfSelf :: "int list \<Rightarrow> PlayersState \<Rightarrow> int \<times> bool" where
  "AttackerOfSelf keys s =
     attacker_loop (selfIndex s) (map (\<lambda>i. (i, player_or_zero i s)) keys) (-1, False, 0)"

definition fold_byte :: "byte \<Rightarrow> byte" where
  "fold_byte c = (if 65 \<le> c \<and> c \<le> 90 then c + 32 else c)"

definition equalFold :: "gostring \<Rightarrow> gostring \<Rightarrow> bool" where
  "equalFold a b \<longleftrightarrow> length a = length b \<and> list_all2 (\<lambda>x y. fold_byte x = fold_byte y) a b"

fun find_loop :: "gostring \<Rightarrow> PlayerRecord list \<Rightarrow> PlayerRecord \<times> bool \<Rightarrow> PlayerRecord \<times> bool" where
  "find_loop name [] (best, found) = (best, found)"
| "find_loop name (r # rest) (best, found) =
     (if equalFold (pName r) name \<and> (\<not> found \<or> pLastSeen r > pLastSeen best)
      then find_loop name rest (r, True) else find_loop name rest (best, found))"

definition FindByName :: "int list \<Rightarrow> gostring \<Rightarrow> PlayersState \<Rightarrow> PlayerRecord \<times> bool" where
  "FindByName keys name s = find_loop name (map (\<lambda>i. player_or_zero i s) keys) (zero_player, False)"

section \<open>The NPC mirror follows the server\<close>

text \<open>
  The server's side, as the protocol comments describe it: an ordered list of the tracked NPCs with
  their tiles. A tick sends one record per entry, drops the removed ones and appends the entering
  ones; an NPC in combat is removed and appended again in the same tick.
\<close>

type_synonym npc_list = "(int \<times> int \<times> int) list"

fun server_step :: "(int \<times> int \<times> int) \<times> mob_rec \<Rightarrow> npc_list" where
  "server_step ((i, x, y), Move d) = [(i, x + fst (npcMoveOffset (int d)), y + snd (npcMoveOffset (int d)))]"
| "server_step (e, Remove) = []"
| "server_step (e, _) = [e]"

definition server_tick :: "int \<Rightarrow> int \<Rightarrow> mob_rec list \<Rightarrow> new_npc list \<Rightarrow> npc_list \<Rightarrow> npc_list" where
  "server_tick px py recs news l =
     concat (map server_step (zip l recs)) @
     map (\<lambda>n. (int (newIndex n), px + newOffX n, py + newOffY n)) news"

text \<open>What a tick may send: indices stay distinct, and only removed NPCs re-enter.\<close>

definition tick_ok :: "int \<Rightarrow> int \<Rightarrow> mob_rec list \<Rightarrow> new_npc list \<Rightarrow> npc_list \<Rightarrow> bool" where
  "tick_ok px py recs news l \<longleftrightarrow>
     length recs = length l \<and> length recs + length news \<le> 250 \<and>
     list_all mob_ok recs \<and> list_all new_npc_ok news \<and>
     distinct (map fst (server_tick px py recs news l))"

text \<open>The mirror's side: decode the packet against the mirror's order and apply its events.\<close>

definition npc_of_event :: "event \<Rightarrow> NpcNearby option" where
  "npc_of_event ev = (case ev of EvNpcNearby n \<Rightarrow> Some n | _ \<Rightarrow> None)"

definition apply_npc_events :: "gotime \<Rightarrow> event list \<Rightarrow> NpcsState \<Rightarrow> NpcsState" where
  "apply_npc_events now evs s =
     foldl (\<lambda>s ev. case npc_of_event ev of Some n \<Rightarrow> apply_npc_nearby now n s | None \<Rightarrow> s) s evs"

definition npc_tick :: "gotime \<Rightarrow> byte list \<Rightarrow> int \<Rightarrow> int \<Rightarrow> NpcsState \<Rightarrow> NpcsState" where
  "npc_tick now payload px py s =
     (case DecodeNpcCoords payload px py (Order s) of
        Inl _ \<Rightarrow> s
      | Inr (evs, _) \<Rightarrow> apply_npc_events now evs s)"

text \<open>The mirror shows what the server tracks: the same order, and every NPC on its tile.\<close>

definition npc_pos :: "int \<Rightarrow> NpcsState \<Rightarrow> (int \<times> int) option" where
  "npc_pos i s = map_option (\<lambda>r. (nX r, nY r)) (npcMap s i)"

definition mirrors :: "NpcsState \<Rightarrow> npc_list \<Rightarrow> bool" where
  "mirrors s l \<longleftrightarrow> Order s = map fst l \<and> distinct (map fst l) \<and> (\<forall>i \<in> set (map fst l). 0 \<le> i) \<and>
     (\<forall>(i, p) \<in> set l. npc_pos i s = Some p)"

lemma removeOrder_filter: "distinct xs \<Longrightarrow> removeOrderLocked i xs = filter (\<lambda>j. j \<noteq> i) xs"
proof (induction xs)
  case (Cons x xs)
  have "i \<notin> set xs \<Longrightarrow> filter (\<lambda>j. j \<noteq> i) xs = xs" by (rule filter_True) auto
  with Cons show ?case by auto
qed simp

lemma npc_pos_steps:
  "npc_pos j (NpcRemove i s) = (if j = i then None else npc_pos j s)"
  "npc_pos j (NpcSet now rec s) = (if j = nIndex rec then Some (nX rec, nY rec) else npc_pos j s)"
  "npc_pos j (NpcMoveBy now i dx dy h s) =
     (if j = i then map_option (\<lambda>(x, y). (x + dx, y + dy)) (npc_pos i s) else npc_pos j s)"
  by (auto simp: npc_pos_def NpcRemove_def NpcSet_def NpcMoveBy_def Let_def split: option.splits)

lemma order_steps:
  "npcOrder (NpcRemove i s) = removeOrderLocked i (npcOrder s)"
  "npcOrder (NpcSet now rec s) = setOrderToEndLocked (nIndex rec) (npcOrder s)"
  "i \<in> set (npcOrder s) \<Longrightarrow> npcOrder (NpcMoveBy now i dx dy h s) = npcOrder s"
  by (auto simp: NpcRemove_def NpcSet_def NpcMoveBy_def Let_def appendOrderLocked_def
      split: option.splits)

text \<open>Whether the events of the tick keep the removal of \<open>i\<close>: not if it re-enters.\<close>

definition keep_event :: "int set \<Rightarrow> event \<Rightarrow> bool" where
  "keep_event readded ev =
     (case ev of EvNpcNearby n \<Rightarrow> \<not> (nnRemoved n \<and> nnIndex n \<in> readded) | _ \<Rightarrow> True)"

lemma is_readded_npc_events:
  "is_readded (npc_events px py order recs news) i \<longleftrightarrow> i \<in> (\<lambda>n. int (newIndex n)) ` set news"
proof -
  have "\<not> is_readded (concat (map2 mob_event order recs)) i"
  proof -
    have "\<not> is_readded (mob_event j r) i" for j r
      by (cases r) (simp_all add: is_readded_def no_npc_def)
    then show ?thesis
      by (auto simp: is_readded_def list_ex_iff dest: set_zip_rightD)
  qed
  moreover have "is_readded (map (new_npc_event px py) news) i \<longleftrightarrow> i \<in> (\<lambda>n. int (newIndex n)) ` set news"
    by (induction news) (auto simp: is_readded_def new_npc_event_def)
  moreover have "is_readded (xs @ ys) i \<longleftrightarrow> is_readded xs i \<or> is_readded ys i" for xs ys
    by (simp add: is_readded_def)
  ultimately show ?thesis by (simp add: npc_events_def)
qed

lemma drop_churned_npc_events:
  "dropChurnedRemovals (npc_events px py order recs news) =
     filter (keep_event ((\<lambda>n. int (newIndex n)) ` set news)) (concat (map2 mob_event order recs)) @
     map (new_npc_event px py) news"
proof -
  have "dropChurnedRemovals (npc_events px py order recs news) =
      filter (keep_event ((\<lambda>n. int (newIndex n)) ` set news)) (npc_events px py order recs news)"
    unfolding dropChurnedRemovals_def is_readded_npc_events keep_event_def
    by (rule filter_cong) (auto split: event.splits)
  moreover have "filter (keep_event N) (map (new_npc_event px py) news) = map (new_npc_event px py) news" for N
    by (rule filter_True) (auto simp: keep_event_def new_npc_event_def no_npc_def)
  ultimately show ?thesis by (simp add: npc_events_def)
qed

lemma apply_npc_events_append [simp]:
  "apply_npc_events now (xs @ ys) s = apply_npc_events now ys (apply_npc_events now xs s)"
  by (simp add: apply_npc_events_def)

lemma apply_npc_events_simps [simp]:
  "apply_npc_events now [] s = s"
  "apply_npc_events now (EvNpcNearby n # evs) s = apply_npc_events now evs (apply_npc_nearby now n s)"
  by (simp_all add: apply_npc_events_def npc_of_event_def)

text \<open>One update record.\<close>

lemma mob_event_step:
  assumes "i \<in> set (npcOrder s)" and "distinct (npcOrder s)" and "npc_pos i s = Some (x, y)"
    and s1: "s1 = apply_npc_events now (filter (keep_event N) (mob_event i r)) s"
  shows "npcOrder s1 = (if r = Remove \<and> i \<notin> N then filter (\<lambda>j. j \<noteq> i) (npcOrder s) else npcOrder s)"
    "\<forall>j. j \<noteq> i \<longrightarrow> npc_pos j s1 = npc_pos j s"
    "\<forall>(k, p) \<in> set (server_step ((i, x, y), r)). npc_pos k s1 = Some p"
  using assms(1-3)
  by (cases r; simp add: s1 keep_event_def no_npc_def apply_npc_nearby_def order_steps npc_pos_steps
      removeOrder_filter)+

definition gone :: "int set \<Rightarrow> npc_list \<Rightarrow> mob_rec list \<Rightarrow> int set" where
  "gone N l recs = {i. (i, Remove) \<in> set (zip (map fst l) recs)} - N"

text \<open>The update records of a tick.\<close>

lemma mob_events_effect:
  "length l = length recs \<Longrightarrow> distinct (map fst l) \<Longrightarrow> set (map fst l) \<subseteq> set (npcOrder s) \<Longrightarrow>
   distinct (npcOrder s) \<Longrightarrow> \<forall>(i, p) \<in> set l. npc_pos i s = Some p \<Longrightarrow>
   s' = apply_npc_events now (filter (keep_event N) (concat (map2 mob_event (map fst l) recs))) s \<Longrightarrow>
   npcOrder s' = filter (\<lambda>i. i \<notin> gone N l recs) (npcOrder s) \<and>
   (\<forall>j. j \<notin> fst ` set l \<longrightarrow> npc_pos j s' = npc_pos j s) \<and>
   (\<forall>(i, p) \<in> set (concat (map server_step (zip l recs))). npc_pos i s' = Some p)"
proof (induction l recs arbitrary: s rule: list_induct2)
  case Nil
  then show ?case by (simp add: gone_def)
next
  case (Cons e l r recs)
  obtain i x y where e: "e = (i, x, y)" by (cases e)
  let ?s1 = "apply_npc_events now (filter (keep_event N) (mob_event i r)) s"
  have i: "i \<in> set (npcOrder s)" "npc_pos i s = Some (x, y)" "i \<notin> fst ` set l"
    using Cons.prems e by auto
  note step = mob_event_step [OF i(1) Cons.prems(3) i(2) refl, where now = now and N = N and r = r]
  have o1: "npcOrder ?s1 = filter (\<lambda>j. \<not> (r = Remove \<and> i \<notin> N \<and> j = i)) (npcOrder s)"
    unfolding step(1) by (auto intro: filter_cong)
  have "s' = apply_npc_events now (filter (keep_event N) (concat (map2 mob_event (map fst l) recs))) ?s1"
    using Cons.prems(5) e by simp
  moreover have "distinct (map fst l)" "set (map fst l) \<subseteq> set (npcOrder ?s1)" "distinct (npcOrder ?s1)"
    using Cons.prems(1-3) i(3) e unfolding o1 by auto
  moreover have "npc_pos j ?s1 = Some p" if "(j, p) \<in> set l" for j p
  proof -
    have "j \<noteq> i" using that i(3) by force
    with step(2) Cons.prems(4) that show ?thesis by auto
  qed
  then have "\<forall>(j, p) \<in> set l. npc_pos j ?s1 = Some p" by blast
  ultimately have ih: "npcOrder s' = filter (\<lambda>i. i \<notin> gone N l recs) (npcOrder ?s1)"
    "\<forall>j. j \<notin> fst ` set l \<longrightarrow> npc_pos j s' = npc_pos j ?s1"
    "\<forall>(i, p) \<in> set (concat (map server_step (zip l recs))). npc_pos i s' = Some p"
    using Cons.IH [of ?s1] by blast+
  have "npcOrder s' = filter (\<lambda>i. i \<notin> gone N (e # l) (r # recs)) (npcOrder s)"
    unfolding ih(1) o1 filter_filter by (rule filter_cong) (auto simp: gone_def e)
  moreover have "npc_pos j s' = npc_pos j s" if "j \<notin> fst ` set (e # l)" for j
    using that ih(2) step(2) e by simp
  moreover have "npc_pos k s' = Some p" if "(k, p) \<in> set (server_step (e, r))" for k p
  proof -
    have "k = i" using that e by (cases r) auto
    moreover have "npc_pos k ?s1 = Some p" using that step(3) e by auto
    ultimately show ?thesis using ih(2) i(3) by simp
  qed
  ultimately show ?case using ih(3) by auto
qed

lemma filter_twice:
  "filter (\<lambda>i. i \<notin> S) (filter (\<lambda>j. j \<noteq> k) xs) = filter (\<lambda>i. i \<notin> insert k S) xs"
  by (induction xs) auto

text \<open>The entering NPCs of a tick.\<close>

lemma new_npcs_effect:
  "distinct (map newIndex news) \<Longrightarrow> distinct (npcOrder s) \<Longrightarrow>
   s' = apply_npc_events now (map (new_npc_event px py) news) s \<Longrightarrow>
   npcOrder s' = filter (\<lambda>i. i \<notin> (\<lambda>n. int (newIndex n)) ` set news) (npcOrder s) @
     map (\<lambda>n. int (newIndex n)) news \<and>
   (\<forall>j. j \<notin> (\<lambda>n. int (newIndex n)) ` set news \<longrightarrow> npc_pos j s' = npc_pos j s) \<and>
   (\<forall>n \<in> set news. npc_pos (int (newIndex n)) s' = Some (px + newOffX n, py + newOffY n))"
proof (induction news arbitrary: s)
  case Nil
  then show ?case by simp
next
  case (Cons n news)
  let ?k = "int (newIndex n)"
  let ?s1 = "apply_npc_events now [new_npc_event px py n] s"
  have o1: "npcOrder ?s1 = filter (\<lambda>j. j \<noteq> ?k) (npcOrder s) @ [?k]"
    and p1: "npc_pos j ?s1 = (if j = ?k then Some (px + newOffX n, py + newOffY n) else npc_pos j s)" for j
    using Cons.prems(2)
    by (simp_all add: new_npc_event_def apply_npc_nearby_def no_npc_def order_steps npc_pos_steps
        setOrderToEndLocked_def removeOrder_filter zero_npc_def)
  have "s' = apply_npc_events now (map (new_npc_event px py) news) ?s1"
  proof -
    have "map (new_npc_event px py) (n # news) = [new_npc_event px py n] @ map (new_npc_event px py) news"
      by simp
    then show ?thesis unfolding Cons.prems(3) by (simp only: apply_npc_events_append)
  qed
  moreover have "distinct (map newIndex news)" "distinct (npcOrder ?s1)"
    using Cons.prems(1,2) unfolding o1 by auto
  ultimately have ih: "npcOrder s' = filter (\<lambda>i. i \<notin> (\<lambda>n. int (newIndex n)) ` set news) (npcOrder ?s1) @
     map (\<lambda>n. int (newIndex n)) news"
    "\<forall>j. j \<notin> (\<lambda>n. int (newIndex n)) ` set news \<longrightarrow> npc_pos j s' = npc_pos j ?s1"
    "\<forall>n \<in> set news. npc_pos (int (newIndex n)) s' = Some (px + newOffX n, py + newOffY n)"
    using Cons.IH [of ?s1] by blast+
  have k: "?k \<notin> (\<lambda>n. int (newIndex n)) ` set news" using Cons.prems(1) by auto
  have "npcOrder s' = filter (\<lambda>i. i \<notin> (\<lambda>n. int (newIndex n)) ` set (n # news)) (npcOrder s) @
      map (\<lambda>n. int (newIndex n)) (n # news)"
    unfolding ih(1) o1 using k
      filter_twice [of "(\<lambda>n. int (newIndex n)) ` set news" ?k "npcOrder s"] by simp
  with ih(2,3) p1 k show ?case by auto
qed

lemma server_step_index: "(k, p) \<in> set (server_step (e, r)) \<Longrightarrow> k = fst e"
  by (cases r; cases e) auto

lemma server_step_distinct:
  "length l = length recs \<Longrightarrow> distinct (map fst l) \<Longrightarrow>
   map fst (concat (map server_step (zip l recs))) =
     filter (\<lambda>i. (i, Remove) \<notin> set (zip (map fst l) recs)) (map fst l)"
proof (induction l recs rule: list_induct2)
  case Nil
  then show ?case by simp
next
  case (Cons e l r recs)
  obtain i x y where e: "e = (i, x, y)" by (cases e)
  have ne: "(i, Remove) \<notin> set (zip (map fst l) recs)"
    using Cons.prems e by (auto dest: set_zip_leftD)
  have "map fst (server_step (e, r)) = (if r = Remove then [] else [i])"
    using e by (cases r) auto
  moreover have "filter (\<lambda>j. (j, Remove) \<notin> set (zip (map fst (e # l)) (r # recs))) (map fst l) =
      filter (\<lambda>j. (j, Remove) \<notin> set (zip (map fst l) recs)) (map fst l)"
    using Cons.prems e by (intro filter_cong) auto
  ultimately show ?case using Cons e ne by auto
qed

lemma npc_tick_mirrors:
  assumes m: "mirrors s l" and ok: "tick_ok px py recs news l"
  shows "mirrors (npc_tick now (pack_bits (npc_packet recs news)) px py s) (server_tick px py recs news l)"
proof -
  let ?N = "(\<lambda>n. int (newIndex n)) ` set news"
  let ?order = "map fst l"
  have len: "length l = length recs" using ok by (simp add: tick_ok_def)
  have ord: "npcOrder s = ?order" "distinct ?order" "\<forall>i \<in> set ?order. 0 \<le> i"
    "\<forall>(i, p) \<in> set l. npc_pos i s = Some p"
    using m by (simp_all add: mirrors_def Order_def)
  obtain k where k: "k < 8" "bits_of (pack_bits (npc_packet recs news)) = npc_packet recs news @ replicate k False"
    using bits_of_pack by blast
  have dec: "DecodeNpcCoords (pack_bits (npc_packet recs news)) px py ?order =
      Inr (dropChurnedRemovals (npc_events px py ?order recs news), int (length recs))"
    using ok ord(3) k len by (intro npc_packet_decoded) (auto simp: tick_ok_def)
  let ?evs = "filter (keep_event ?N) (concat (map2 mob_event ?order recs))"
  let ?s1 = "apply_npc_events now ?evs s"
  let ?s2 = "apply_npc_events now (map (new_npc_event px py) news) ?s1"
  have tick: "npc_tick now (pack_bits (npc_packet recs news)) px py s = ?s2"
    by (simp add: npc_tick_def Order_def ord(1) dec drop_churned_npc_events)
  have e1: "npcOrder ?s1 = filter (\<lambda>i. i \<notin> gone ?N l recs) ?order"
    "\<forall>(i, p) \<in> set (concat (map server_step (zip l recs))). npc_pos i ?s1 = Some p"
    using mob_events_effect [OF len ord(2), of s ?s1 now ?N] ord by auto
  let ?kept = "filter (\<lambda>i. (i, Remove) \<notin> set (zip ?order recs)) ?order"
  have dist: "distinct (?kept @ map (\<lambda>n. int (newIndex n)) news)"
    using ok server_step_distinct [OF len ord(2)]
    by (simp add: tick_ok_def server_tick_def comp_def)
  then have "distinct (map newIndex news)" by (simp add: distinct_map inj_on_def)
  moreover have "distinct (npcOrder ?s1)" using ord(2) unfolding e1 by simp
  ultimately have e2: "npcOrder ?s2 = filter (\<lambda>i. i \<notin> ?N) (npcOrder ?s1) @ map (\<lambda>n. int (newIndex n)) news"
    "\<forall>j. j \<notin> ?N \<longrightarrow> npc_pos j ?s2 = npc_pos j ?s1"
    "\<forall>n \<in> set news. npc_pos (int (newIndex n)) ?s2 = Some (px + newOffX n, py + newOffY n)"
    using new_npcs_effect [of news ?s1 ?s2 now px py] by blast+
  have kept: "filter (\<lambda>i. i \<notin> ?N) (npcOrder ?s1) = ?kept"
    unfolding e1 filter_filter using dist by (intro filter_cong) (auto simp: gone_def)
  have fst2: "map fst (server_tick px py recs news l) = ?kept @ map (\<lambda>n. int (newIndex n)) news"
    using server_step_distinct [OF len ord(2)] by (simp add: server_tick_def comp_def)
  have "npc_pos i ?s2 = Some p" if "(i, p) \<in> set (server_tick px py recs news l)" for i p
  proof -
    from that consider (old) "(i, p) \<in> set (concat (map server_step (zip l recs)))"
      | (new) n where "n \<in> set news" "i = int (newIndex n)" "p = (px + newOffX n, py + newOffY n)"
      by (auto simp: server_tick_def)
    then show ?thesis
    proof cases
      case old
      then have "fst (i, p) \<in> set (map fst (concat (map server_step (zip l recs))))"
        unfolding set_map by (rule imageI)
      then have "i \<in> set ?kept"
        unfolding server_step_distinct [OF len ord(2)] by simp
      then have "i \<notin> ?N" using dist by auto
      with old e1(2) e2(2) show ?thesis by auto
    next
      case new
      then show ?thesis using e2(3) by simp
    qed
  qed
  moreover have "\<forall>i \<in> set (map fst (server_tick px py recs news l)). 0 \<le> i"
    unfolding fst2 using ord(3) by auto
  moreover have "Order ?s2 = map fst (server_tick px py recs news l)"
    unfolding Order_def e2(1) kept fst2 ..
  moreover have "distinct (map fst (server_tick px py recs news l))"
    using dist unfolding fst2 .
  ultimately show ?thesis unfolding tick mirrors_def by blast
qed

text \<open>The damage and attack packets that arrive between ticks leave order and tiles alone.\<close>

lemma combat_updates_pos:
  "npc_pos j s = Some p \<Longrightarrow> npc_pos j (NpcSetHits now i d c m s) = Some p"
  "npc_pos j s = Some p \<Longrightarrow> npc_pos j (SetIncomingAttack now i from proj s) = Some p"
  "npcOrder (NpcSetHits now i d c m s) = npcOrder s"
  "npcOrder (SetIncomingAttack now i from proj s) = npcOrder s"
  by (auto simp: npc_pos_def NpcSetHits_def SetIncomingAttack_def npc_or_zero_def Let_def)

lemma combat_updates_mirror:
  "mirrors s l \<Longrightarrow> mirrors (NpcSetHits now i d c m s) l"
  "mirrors s l \<Longrightarrow> mirrors (SetIncomingAttack now i from proj s) l"
  by (fastforce simp: mirrors_def Order_def combat_updates_pos)+

text \<open>
  A session, as the pairs of the server's list and the mirror it can reach: it starts with both
  empty, and ticks (whose packet the mirror decodes and applies) come interleaved with damage and
  attack updates for any NPC index, tracked or not.
\<close>

inductive npc_session :: "npc_list \<Rightarrow> NpcsState \<Rightarrow> bool" where
  start: "npc_session [] NewNpcsState"
| tick: "npc_session l s \<Longrightarrow> tick_ok px py recs news l \<Longrightarrow>
    npc_session (server_tick px py recs news l)
      (npc_tick now (pack_bits (npc_packet recs news)) px py s)"
| hits: "npc_session l s \<Longrightarrow> npc_session l (NpcSetHits now i d c m s)"
| attacked: "npc_session l s \<Longrightarrow> npc_session l (SetIncomingAttack now i from proj s)"

text \<open>
  C1. The NPC mirror never desynchronises: in every reachable state of a session the mirror's
  ordered list is the server's list of tracked NPCs, entry for entry, and each of them is on the
  tile where the server has it. Movement, removal, entry, the remove-and-re-enter churn of an NPC
  in combat, and the damage and attack updates in between are all covered; each tick goes through
  the bit-packed packet, \<open>DecodeNpcCoords\<close> and \<open>World.Apply\<close>.
\<close>

theorem npc_mirror_in_sync:
  "npc_session l s \<Longrightarrow>
     Order s = map fst l \<and> distinct (Order s) \<and> (\<forall>(i, p) \<in> set l. npc_pos i s = Some p)"
proof -
  assume "npc_session l s"
  then have "mirrors s l"
  proof (induction rule: npc_session.induct)
    case start
    then show ?case by (simp add: mirrors_def Order_def NewNpcsState_def)
  next
    case (tick l s px py recs news now)
    then show ?case by (blast intro: npc_tick_mirrors)
  qed (blast intro: combat_updates_mirror)+
  then show ?thesis by (simp add: mirrors_def)
qed

text \<open>Three NPCs enter; then the second, in combat, is removed and re-enters while the first walks.\<close>

definition sample_enter :: "new_npc list" where
  "sample_enter =
     map (\<lambda>i. \<lparr>newIndex = i, newOffX = 1, newOffY = 2, newSprite = 0, newType = 95\<rparr>) [10, 11, 12]"

definition sample_churn :: "new_npc list" where
  "sample_churn = [\<lparr>newIndex = 11, newOffX = 3, newOffY = 2, newSprite = 8, newType = 95\<rparr>]"

theorem npc_mirror_in_sync_witness:
  "\<exists>s. npc_session [(10, 121, 505), (12, 121, 506), (11, 123, 506)] s \<and>
     Order s = [10, 12, 11] \<and> npc_pos 11 s = Some (123, 506)"
proof -
  let ?l = "server_tick 120 504 [] sample_enter []"
  have l: "?l = [(10, 121, 506), (11, 121, 506), (12, 121, 506)]"
    by (simp add: server_tick_def sample_enter_def)
  have "tick_ok 120 504 [] sample_enter []"
    by (simp add: tick_ok_def sample_enter_def server_tick_def new_npc_ok_def)
  from npc_session.tick [OF npc_session.start this] obtain s where s: "npc_session ?l s" by blast
  have nxt: "server_tick 120 504 [Move 0, Remove, Keep] sample_churn ?l =
      [(10, 121, 505), (12, 121, 506), (11, 123, 506)]"
    unfolding l by (simp add: server_tick_def sample_churn_def npcMoveOffset_def)
  have "tick_ok 120 504 [Move 0, Remove, Keep] sample_churn ?l"
    unfolding tick_ok_def nxt by (simp add: l sample_churn_def new_npc_ok_def)
  from npc_session.tick [OF s this] obtain s' where
    s': "npc_session [(10, 121, 505), (12, 121, 506), (11, 123, 506)] s'"
    unfolding nxt by blast
  from npc_mirror_in_sync [OF this] s' show ?thesis by auto
qed

section \<open>Players\<close>

text \<open>
  A player who was only ever seen walking by counts as attacking us: the record of a visible
  player starts with engaged-player index 0, the host's own index is 0 until its appearance is
  seen, and so \<open>AttackerOfSelf\<close> reports the bystander.
\<close>

theorem bystander_reported_as_attacker:
  "i \<noteq> 0 \<Longrightarrow> AttackerOfSelf [i] (SetPlayerPosition now i x y h NewPlayersState) = (i, True)"
  by (simp add: AttackerOfSelf_def SetPlayerPosition_def store_player_def player_or_zero_def
      NewPlayersState_def zero_player_def)

theorem bystander_reported_as_attacker_witness:
  "AttackerOfSelf [7] (SetPlayerPosition 1 7 120 504 2 NewPlayersState) = (7, True)"
  by (rule bystander_reported_as_attacker) simp

end
