(* ===== verification/WorldStores.thy ===== *)
theory WorldStores
  imports Events
begin

text \<open>
  The tile-keyed stores of the world mirror: boundary overrides (\<open>world/boundaries.go\<close>), dynamic
  scenery (\<open>world/scenery.go\<close>) and ground items (\<open>world/world.go\<close>). All three are Go maps that packets
  put into, delete from and sweep by 8x8 region; the locale \<open>tile_store\<close> states what the client of
  such a store relies on.
\<close>

lemma find_append1:
  "find P (xs @ ys) = (case find P xs of None \<Rightarrow> find P ys | Some x \<Rightarrow> Some x)"
  by (induction xs) auto

section \<open>The interface of a tile store\<close>

text \<open>The 8x8 region of a tile; Go's \<open>>>\<close> on signed integers rounds down, as \<open>drop_bit\<close> does.\<close>

definition region_of :: "int \<times> int \<Rightarrow> int \<times> int" where
  "region_of p = (drop_bit 3 (fst p), drop_bit 3 (snd p))"

definition in_region :: "int \<Rightarrow> int \<Rightarrow> int \<Rightarrow> int \<Rightarrow> bool" where
  "in_region rx ry x y \<longleftrightarrow> drop_bit 3 x = rx \<and> drop_bit 3 y = ry"

datatype ('k, 'v) tile_op = Put 'k 'v | Del 'k | Sweep int int

locale tile_store =
  fixes put :: "'k \<Rightarrow> 'v \<Rightarrow> 's \<Rightarrow> 's"
    and del :: "'k \<Rightarrow> 's \<Rightarrow> 's"
    and sweep :: "int \<Rightarrow> int \<Rightarrow> 's \<Rightarrow> 's"
    and look :: "'k \<Rightarrow> 's \<Rightarrow> 'v option"
    and tile :: "'k \<Rightarrow> int \<times> int"
  assumes look_put: "look k (put k' v s) = (if k = k' then Some v else look k s)"
    and look_del: "look k (del k' s) = (if k = k' then None else look k s)"
    and look_sweep: "look k (sweep rx ry s) = (if region_of (tile k) = (rx, ry) then None else look k s)"
begin

fun run_op :: "('k, 'v) tile_op \<Rightarrow> 's \<Rightarrow> 's" where
  "run_op (Put k v) s = put k v s"
| "run_op (Del k) s = del k s"
| "run_op (Sweep rx ry) s = sweep rx ry s"

text \<open>What an operation decides about a key: nothing, or the value it leaves there.\<close>

fun verdict :: "'k \<Rightarrow> ('k, 'v) tile_op \<Rightarrow> 'v option option" where
  "verdict k (Put k' v) = (if k = k' then Some (Some v) else None)"
| "verdict k (Del k') = (if k = k' then Some None else None)"
| "verdict k (Sweep rx ry) = (if region_of (tile k) = (rx, ry) then Some None else None)"

lemma look_run_op: "look k (run_op a s) = (case verdict k a of None \<Rightarrow> look k s | Some r \<Rightarrow> r)"
  by (cases a) (auto simp: look_put look_del look_sweep)

text \<open>After a batch, a key holds what the last operation that concerns it left there.\<close>

lemma look_run_ops:
  "look k (fold run_op ops s) =
     (case find (\<lambda>a. verdict k a \<noteq> None) (rev ops) of
        None \<Rightarrow> look k s | Some a \<Rightarrow> the (verdict k a))"
proof (induction ops arbitrary: s)
  case Nil
  then show ?case by simp
next
  case (Cons a ops)
  then show ?case
    by (auto simp: look_run_op find_append1 split: option.splits)
qed

lemma look_sweeps:
  "look k (fold (\<lambda>(rx, ry). sweep rx ry) rs s) =
     (if region_of (tile k) \<in> set rs then None else look k s)"
  by (induction rs arbitrary: s) (auto simp: look_sweep)

lemma look_puts:
  "look k (fold (\<lambda>(k, v). put k v) kvs s) =
     (case map_of (rev kvs) k of None \<Rightarrow> look k s | Some v \<Rightarrow> Some v)"
  by (induction kvs arbitrary: s) (auto simp: look_put map_add_def split: option.splits)

end

section \<open>Boundaries\<close>

record BoundaryKey =
  bkX :: int
  bkY :: int
  bkDir :: int

record DynamicBoundaries =
  overrides :: "BoundaryKey \<rightharpoonup> int"

definition NewDynamicBoundaries :: DynamicBoundaries where
  "NewDynamicBoundaries = \<lparr>overrides = Map.empty\<rparr>"

definition boundary_key :: "int \<Rightarrow> int \<Rightarrow> int \<Rightarrow> BoundaryKey" where
  "boundary_key x y dir = \<lparr>bkX = x, bkY = y, bkDir = dir\<rparr>"

definition BoundarySet :: "int \<Rightarrow> int \<Rightarrow> int \<Rightarrow> int \<Rightarrow> DynamicBoundaries \<Rightarrow> DynamicBoundaries" where
  "BoundarySet x y dir i d = d\<lparr>overrides := (overrides d)(boundary_key x y dir := Some i)\<rparr>"

definition BoundaryGet :: "int \<Rightarrow> int \<Rightarrow> int \<Rightarrow> DynamicBoundaries \<Rightarrow> int \<times> bool" where
  "BoundaryGet x y dir d =
     (case overrides d (boundary_key x y dir) of Some i \<Rightarrow> (i, True) | None \<Rightarrow> (0, False))"

definition BoundaryIsRemoved :: "int \<Rightarrow> int \<Rightarrow> int \<Rightarrow> DynamicBoundaries \<Rightarrow> bool" where
  "BoundaryIsRemoved x y dir d = (let (i, ok) = BoundaryGet x y dir d in ok \<and> i < 0)"

definition BoundaryClear :: "int \<Rightarrow> int \<Rightarrow> int \<Rightarrow> DynamicBoundaries \<Rightarrow> DynamicBoundaries" where
  "BoundaryClear x y dir d = d\<lparr>overrides := (overrides d)(boundary_key x y dir := None)\<rparr>"

text \<open>The loop visits every key of the map once and deletes those in the region.\<close>

definition BoundaryRemoveRegion :: "int \<Rightarrow> int \<Rightarrow> DynamicBoundaries \<Rightarrow> DynamicBoundaries" where
  "BoundaryRemoveRegion rx ry d =
     d\<lparr>overrides := (\<lambda>k. if in_region rx ry (bkX k) (bkY k) then None else overrides d k)\<rparr>"

section \<open>Scenery\<close>

definition SceneryRemoveSentinel :: int where
  "SceneryRemoveSentinel = 60000"

record SceneryRecord =
  scX :: int
  scY :: int
  scID :: int
  scLastSeen :: gotime

text \<open>\<open>removed\<close> is a map to bool that only ever holds true: the set of its keys.\<close>

record DynamicScenery =
  sceneryMap :: "int \<times> int \<rightharpoonup> SceneryRecord"
  removedTiles :: "(int \<times> int) set"

definition NewDynamicScenery :: DynamicScenery where
  "NewDynamicScenery = \<lparr>sceneryMap = Map.empty, removedTiles = {}\<rparr>"

definition SceneryAdd :: "gotime \<Rightarrow> int \<Rightarrow> int \<Rightarrow> int \<Rightarrow> DynamicScenery \<Rightarrow> DynamicScenery" where
  "SceneryAdd now x y i s =
     s\<lparr>sceneryMap := (sceneryMap s)((x, y) := Some \<lparr>scX = x, scY = y, scID = i, scLastSeen = now\<rparr>),
       removedTiles := removedTiles s - {(x, y)}\<rparr>"

definition SceneryRemove :: "int \<Rightarrow> int \<Rightarrow> DynamicScenery \<Rightarrow> DynamicScenery" where
  "SceneryRemove x y s =
     s\<lparr>sceneryMap := (sceneryMap s)((x, y) := None), removedTiles := insert (x, y) (removedTiles s)\<rparr>"

definition SceneryIsRemoved :: "int \<Rightarrow> int \<Rightarrow> DynamicScenery \<Rightarrow> bool" where
  "SceneryIsRemoved x y s \<longleftrightarrow> (x, y) \<in> removedTiles s"

definition SceneryRemoveRegion :: "int \<Rightarrow> int \<Rightarrow> DynamicScenery \<Rightarrow> DynamicScenery" where
  "SceneryRemoveRegion rx ry s =
     s\<lparr>sceneryMap := (\<lambda>(x, y). if in_region rx ry x y then None else sceneryMap s (x, y)),
       removedTiles := {(x, y) \<in> removedTiles s. \<not> in_region rx ry x y}\<rparr>"

definition SceneryAt :: "int \<Rightarrow> int \<Rightarrow> DynamicScenery \<Rightarrow> SceneryRecord option" where
  "SceneryAt x y s = sceneryMap s (x, y)"

text \<open>The distance test that \<open>Near\<close> makes on every record.\<close>

definition near_tile :: "int \<Rightarrow> int \<Rightarrow> int \<Rightarrow> int \<Rightarrow> int \<Rightarrow> bool" where
  "near_tile cx cy radius x y =
     (let dx = x - cx; dx = (if dx < 0 then - dx else dx);
          dy = y - cy; dy = (if dy < 0 then - dy else dy)
      in dx \<le> radius \<and> dy \<le> radius)"

text \<open>\<open>keys\<close> is the map's iteration order.\<close>

definition SceneryNear :: "(int \<times> int) list \<Rightarrow> int \<Rightarrow> int \<Rightarrow> int \<Rightarrow> DynamicScenery \<Rightarrow> SceneryRecord list" where
  "SceneryNear keys cx cy radius s =
     filter (\<lambda>r. near_tile cx cy radius (scX r) (scY r)) (List.map_filter (sceneryMap s) keys)"

section \<open>Ground items\<close>

record GroundItemRecord =
  giX :: int
  giY :: int
  giItemID :: int
  giLastSeen :: gotime

record GroundItemsState =
  groundMap :: "int \<times> int \<rightharpoonup> GroundItemRecord"

definition NewGroundItemsState :: GroundItemsState where
  "NewGroundItemsState = \<lparr>groundMap = Map.empty\<rparr>"

definition GroundAdd :: "gotime \<Rightarrow> int \<Rightarrow> int \<Rightarrow> int \<Rightarrow> GroundItemsState \<Rightarrow> GroundItemsState" where
  "GroundAdd now x y i s =
     s\<lparr>groundMap := (groundMap s)((x, y) := Some \<lparr>giX = x, giY = y, giItemID = i, giLastSeen = now\<rparr>)\<rparr>"

definition GroundRemove :: "int \<Rightarrow> int \<Rightarrow> GroundItemsState \<Rightarrow> GroundItemsState" where
  "GroundRemove x y s = s\<lparr>groundMap := (groundMap s)((x, y) := None)\<rparr>"

definition GroundRemoveRegion :: "int \<Rightarrow> int \<Rightarrow> GroundItemsState \<Rightarrow> GroundItemsState" where
  "GroundRemoveRegion rx ry s =
     s\<lparr>groundMap := (\<lambda>(x, y). if in_region rx ry x y then None else groundMap s (x, y))\<rparr>"

definition GroundNear :: "(int \<times> int) list \<Rightarrow> int \<Rightarrow> int \<Rightarrow> int \<Rightarrow> GroundItemsState \<Rightarrow> GroundItemRecord list" where
  "GroundNear keys cx cy radius s =
     filter (\<lambda>r. near_tile cx cy radius (giX r) (giY r)) (List.map_filter (groundMap s) keys)"

section \<open>The three stores keep the contract\<close>

definition ground_at :: "int \<times> int \<Rightarrow> GroundItemsState \<Rightarrow> int option" where
  "ground_at p s = map_option giItemID (groundMap s p)"

definition ground_put :: "gotime \<Rightarrow> int \<times> int \<Rightarrow> int \<Rightarrow> GroundItemsState \<Rightarrow> GroundItemsState" where
  "ground_put now p i = GroundAdd now (fst p) (snd p) i"

definition ground_del :: "int \<times> int \<Rightarrow> GroundItemsState \<Rightarrow> GroundItemsState" where
  "ground_del p = GroundRemove (fst p) (snd p)"

interpretation gi: tile_store "ground_put now" ground_del GroundRemoveRegion ground_at id for now
  by unfold_locales
    (auto simp: ground_at_def ground_put_def ground_del_def GroundAdd_def GroundRemove_def
      GroundRemoveRegion_def region_of_def in_region_def)

definition boundary_at :: "BoundaryKey \<Rightarrow> DynamicBoundaries \<Rightarrow> int option" where
  "boundary_at k d = overrides d k"

definition boundary_put :: "BoundaryKey \<Rightarrow> int \<Rightarrow> DynamicBoundaries \<Rightarrow> DynamicBoundaries" where
  "boundary_put k i = BoundarySet (bkX k) (bkY k) (bkDir k) i"

definition boundary_del :: "BoundaryKey \<Rightarrow> DynamicBoundaries \<Rightarrow> DynamicBoundaries" where
  "boundary_del k = BoundaryClear (bkX k) (bkY k) (bkDir k)"

definition boundary_tile :: "BoundaryKey \<Rightarrow> int \<times> int" where
  "boundary_tile k = (bkX k, bkY k)"

interpretation bo: tile_store boundary_put boundary_del BoundaryRemoveRegion boundary_at boundary_tile
  by unfold_locales
    (auto simp: boundary_at_def boundary_put_def boundary_del_def boundary_tile_def BoundarySet_def
      BoundaryClear_def BoundaryRemoveRegion_def boundary_key_def region_of_def in_region_def)

text \<open>
  The scenery store says three things of a tile: an object stands there, it was actively cleared, or
  nothing is known. The view of a tile as a store value: the object's id, or \<open>None\<close> for cleared.
\<close>

definition scenery_at :: "int \<times> int \<Rightarrow> DynamicScenery \<Rightarrow> int option option" where
  "scenery_at p s =
     (case sceneryMap s p of
        Some r \<Rightarrow> Some (Some (scID r))
      | None \<Rightarrow> (if p \<in> removedTiles s then Some None else None))"

definition scenery_put :: "gotime \<Rightarrow> int \<times> int \<Rightarrow> int option \<Rightarrow> DynamicScenery \<Rightarrow> DynamicScenery" where
  "scenery_put now p v =
     (case v of Some i \<Rightarrow> SceneryAdd now (fst p) (snd p) i | None \<Rightarrow> SceneryRemove (fst p) (snd p))"

definition scenery_forget :: "int \<times> int \<Rightarrow> DynamicScenery \<Rightarrow> DynamicScenery" where
  "scenery_forget p s =
     s\<lparr>sceneryMap := (sceneryMap s)(p := None), removedTiles := removedTiles s - {p}\<rparr>"

interpretation sc: tile_store "scenery_put now" scenery_forget SceneryRemoveRegion scenery_at id for now
  by unfold_locales
    (auto simp: scenery_at_def scenery_put_def scenery_forget_def SceneryAdd_def SceneryRemove_def
      SceneryRemoveRegion_def region_of_def in_region_def split: option.splits if_splits)

text \<open>An object and a removal mark never share a tile.\<close>

definition scenery_wf :: "DynamicScenery \<Rightarrow> bool" where
  "scenery_wf s \<longleftrightarrow> (\<forall>p \<in> removedTiles s. sceneryMap s p = None)"

lemma scenery_wf_ops [wf_intros]:
  "scenery_wf NewDynamicScenery"
  "scenery_wf s \<Longrightarrow> scenery_wf (SceneryAdd now x y i s)"
  "scenery_wf s \<Longrightarrow> scenery_wf (SceneryRemove x y s)"
  "scenery_wf s \<Longrightarrow> scenery_wf (SceneryRemoveRegion rx ry s)"
  by (auto simp: scenery_wf_def NewDynamicScenery_def SceneryAdd_def SceneryRemove_def
      SceneryRemoveRegion_def)

end
