(* ===== verification/WorldItems.thy ===== *)
theory WorldItems
  imports Events "HOL-Library.Signed_Division"
begin

text \<open>
  The item lists of the world mirror: \<open>world/inventory.go\<close>, \<open>world/bank.go\<close> and \<open>world/shop.go\<close>.

  A slot index is a Go \<open>int\<close>. Storing at a negative index panics, so the operations that do it
  return an option, \<open>None\<close> for the panic. \<open>append(xs[:i], xs[i+1:]...)\<close> is \<open>drop_slot\<close>.
\<close>

definition drop_slot :: "nat \<Rightarrow> 'a list \<Rightarrow> 'a list" where
  "drop_slot i xs = take i xs @ drop (Suc i) xs"

text \<open>The loop that appends zero values until the index exists, and the assignment after it.\<close>

definition grow_set :: "'a \<Rightarrow> int \<Rightarrow> 'a \<Rightarrow> 'a list \<Rightarrow> 'a list option" where
  "grow_set z i v xs =
     (if i < 0 then None
      else Some ((xs @ replicate (Suc (nat i) - length xs) z)[nat i := v]))"

lemma length_drop_slot [simp]: "i < length xs \<Longrightarrow> length (drop_slot i xs) = length xs - 1"
  by (simp add: drop_slot_def)

lemma nth_drop_slot:
  "i < length xs \<Longrightarrow> j < length xs - 1 \<Longrightarrow> drop_slot i xs ! j = (if j < i then xs ! j else xs ! Suc j)"
  by (auto simp: drop_slot_def nth_append min_def)

lemma grow_set_in: "0 \<le> i \<Longrightarrow> nat i < length xs \<Longrightarrow> grow_set z i v xs = Some (xs[nat i := v])"
  by (simp add: grow_set_def)

lemma grow_set_end: "i = int (length xs) \<Longrightarrow> grow_set z i v xs = Some (xs @ [v])"
  by (simp add: grow_set_def list_update_append)

section \<open>The inventory\<close>

record InvSlot =
  invItemID :: int
  invAmount :: int
  invWielded :: bool

definition empty_slot :: InvSlot where
  "empty_slot = \<lparr>invItemID = 0, invAmount = 0, invWielded = False\<rparr>"

record Inventory =
  invSlots :: "InvSlot list"

definition NewInventory :: Inventory where
  "NewInventory = \<lparr>invSlots = []\<rparr>"

definition InvReplace :: "InvSlot list \<Rightarrow> Inventory \<Rightarrow> Inventory" where
  "InvReplace slots i = i\<lparr>invSlots := slots\<rparr>"

definition InvSet :: "int \<Rightarrow> InvSlot option \<Rightarrow> Inventory \<Rightarrow> Inventory option" where
  "InvSet slot item i =
     map_option (\<lambda>xs. i\<lparr>invSlots := xs\<rparr>)
       (grow_set empty_slot slot (case item of None \<Rightarrow> empty_slot | Some it \<Rightarrow> it) (invSlots i))"

definition RemoveSlot :: "int \<Rightarrow> Inventory \<Rightarrow> Inventory" where
  "RemoveSlot slot i =
     (if slot < 0 \<or> slot \<ge> int (length (invSlots i)) then i
      else i\<lparr>invSlots := drop_slot (nat slot) (invSlots i)\<rparr>)"

definition Slots :: "Inventory \<Rightarrow> InvSlot list" where
  "Slots i = invSlots i"

fun count_loop :: "int \<Rightarrow> InvSlot list \<Rightarrow> int \<Rightarrow> int" where
  "count_loop iid [] tot = tot"
| "count_loop iid (s # ss) tot =
     count_loop iid ss (if invItemID s = iid then tot + invAmount s else tot)"

definition InvCount :: "int \<Rightarrow> Inventory \<Rightarrow> int" where
  "InvCount iid i = count_loop iid (invSlots i) 0"

definition FreeSlots :: "Inventory \<Rightarrow> int" where
  "FreeSlots i = 30 - int (length (filter (\<lambda>s. invItemID s > 0) (invSlots i)))"

definition InvHas :: "int \<Rightarrow> Inventory \<Rightarrow> bool" where
  "InvHas iid i \<longleftrightarrow> InvCount iid i > 0"

lemma count_loop_sum:
  "count_loop iid ss tot = tot + sum_list (map invAmount (filter (\<lambda>s. invItemID s = iid) ss))"
  by (induction ss arbitrary: tot) auto

lemma InvCount_sum:
  "InvCount iid i = sum_list (map invAmount (filter (\<lambda>s. invItemID s = iid) (invSlots i)))"
  by (simp add: InvCount_def count_loop_sum)

section \<open>The bank\<close>

record BankSlot =
  bkItemID :: int
  bkAmount :: int

record BankRecord =
  bankMaxSize :: int
  bankSlots :: "BankSlot list"
  bankOpenedAt :: gotime
  bankUpdatedAt :: gotime

type_synonym BankState = "BankRecord option"

definition BankIsOpen :: "BankState \<Rightarrow> bool" where
  "BankIsOpen s \<longleftrightarrow> s \<noteq> None"

definition BankOpen :: "gotime \<Rightarrow> int \<Rightarrow> BankSlot list \<Rightarrow> BankState \<Rightarrow> BankState" where
  "BankOpen now maxSize items s =
     Some \<lparr>bankMaxSize = maxSize, bankSlots = items, bankOpenedAt = now, bankUpdatedAt = now\<rparr>"

definition BankUpdateSlot :: "gotime \<Rightarrow> int \<Rightarrow> int \<Rightarrow> int \<Rightarrow> BankState \<Rightarrow> BankState option" where
  "BankUpdateSlot now slot iid amount s =
     (case s of
        None \<Rightarrow> Some None
      | Some b \<Rightarrow>
          (let b = b\<lparr>bankUpdatedAt := now\<rparr> in
           if amount = 0 then
             (if slot \<ge> 0 \<and> slot < int (length (bankSlots b))
              then Some (Some (b\<lparr>bankSlots := drop_slot (nat slot) (bankSlots b)\<rparr>))
              else Some (Some b))
           else
             map_option (\<lambda>xs. Some (b\<lparr>bankSlots := xs\<rparr>))
               (grow_set \<lparr>bkItemID = 0, bkAmount = 0\<rparr> slot \<lparr>bkItemID = iid, bkAmount = amount\<rparr> (bankSlots b))))"

definition BankClose :: "BankState \<Rightarrow> BankState" where
  "BankClose s = None"

definition BankHas :: "int \<Rightarrow> BankState \<Rightarrow> int" where
  "BankHas iid s =
     (case s of
        None \<Rightarrow> 0
      | Some b \<Rightarrow> fold (\<lambda>sl tot. if bkItemID sl = iid then tot + bkAmount sl else tot) (bankSlots b) 0)"

section \<open>The shop\<close>

record ShopSlot =
  shItemID :: int
  shStock :: int
  shBaseStock :: int

record ShopRecord =
  shIsGeneral :: bool
  shSellPriceMod :: int
  shBuyPriceMod :: int
  shPriceMultiplier :: int
  shSlots :: "ShopSlot list"
  shOpenedAt :: gotime
  shUpdatedAt :: gotime

type_synonym ShopState = "ShopRecord option"

definition ShopIsOpen :: "ShopState \<Rightarrow> bool" where
  "ShopIsOpen s \<longleftrightarrow> s \<noteq> None"

definition ShopOpen :: "gotime \<Rightarrow> bool \<Rightarrow> int \<Rightarrow> int \<Rightarrow> int \<Rightarrow> ShopSlot list \<Rightarrow> ShopState \<Rightarrow> ShopState" where
  "ShopOpen now isGeneral sellMod buyMod priceMult slots s =
     Some \<lparr>shIsGeneral = isGeneral, shSellPriceMod = sellMod, shBuyPriceMod = buyMod,
       shPriceMultiplier = priceMult, shSlots = slots,
       shOpenedAt = (case s of None \<Rightarrow> now | Some r \<Rightarrow> shOpenedAt r), shUpdatedAt = now\<rparr>"

definition ShopCloseWindow :: "ShopState \<Rightarrow> ShopState" where
  "ShopCloseWindow s = None"

definition ShopStock :: "int \<Rightarrow> ShopState \<Rightarrow> int" where
  "ShopStock iid s =
     (case s of
        None \<Rightarrow> 0
      | Some r \<Rightarrow> fold (\<lambda>sl tot. if shItemID sl = iid then tot + shStock sl else tot) (shSlots r) 0)"

definition shop_slot :: "int \<Rightarrow> ShopState \<Rightarrow> ShopSlot option" where
  "shop_slot iid s =
     (case s of None \<Rightarrow> None | Some r \<Rightarrow> find (\<lambda>sl. shItemID sl = iid) (shSlots r))"

text \<open>Go's division truncates towards zero.\<close>

definition unitShopPrice :: "int \<Rightarrow> int \<Rightarrow> int \<Rightarrow> int \<Rightarrow> int \<Rightarrow> int" where
  "unitShopPrice basePrice priceMod priceMult baseStock currentStock =
     (let offset = priceMult * (baseStock - currentStock);
          offset = (if offset < -100 then -100 else if offset > 100 then 100 else offset);
          scaling = priceMod + offset;
          scaling = (if scaling < 10 then 10 else scaling)
      in (basePrice * scaling) sdiv 100)"

definition BuyPrice :: "int \<Rightarrow> int \<Rightarrow> ShopState \<Rightarrow> int" where
  "BuyPrice iid basePrice s =
     (case shop_slot iid s of
        None \<Rightarrow> 0
      | Some sl \<Rightarrow>
          (let (buyMod, priceMult) =
                 (case s of None \<Rightarrow> (0, 0) | Some r \<Rightarrow> (shBuyPriceMod r, shPriceMultiplier r))
           in unitShopPrice basePrice buyMod priceMult (shBaseStock sl) (shStock sl)))"

definition SellPrice :: "int \<Rightarrow> int \<Rightarrow> ShopState \<Rightarrow> int" where
  "SellPrice iid basePrice s =
     (case shop_slot iid s of
        None \<Rightarrow> 0
      | Some sl \<Rightarrow>
          (let (sellMod, priceMult) =
                 (case s of None \<Rightarrow> (0, 0) | Some r \<Rightarrow> (shSellPriceMod r, shPriceMultiplier r))
           in unitShopPrice basePrice sellMod priceMult (shBaseStock sl) (shStock sl)))"

lemma sdiv_100_nonneg: "0 \<le> a \<Longrightarrow> a sdiv 100 = a div (100 :: int)"
  by (simp add: signed_divide_int_def sgn_if)

lemma sdiv_100_mono: "0 \<le> a \<Longrightarrow> a \<le> b \<Longrightarrow> a sdiv 100 \<le> b sdiv (100 :: int)"
  by (simp add: sdiv_100_nonneg zdiv_mono1)

text \<open>The clamped sum that scales the base price.\<close>

definition price_scale :: "int \<Rightarrow> int \<Rightarrow> int \<Rightarrow> int" where
  "price_scale priceMod priceMult missing = max 10 (priceMod + max (-100) (min 100 (priceMult * missing)))"

lemma unitShopPrice_scale:
  "unitShopPrice p md m base cur = (p * price_scale md m (base - cur)) sdiv 100"
  unfolding unitShopPrice_def price_scale_def Let_def
  by (rule arg_cong [where f = "\<lambda>z. (p * z) sdiv 100"]) auto

lemma price_scale_bounds: "10 \<le> price_scale md m d" "price_scale md m d \<le> max 10 (md + 100)"
  by (auto simp: price_scale_def)

lemma price_scale_mono: "0 \<le> m \<Longrightarrow> d \<le> e \<Longrightarrow> price_scale md m d \<le> price_scale md m e"
proof -
  assume "0 \<le> m" "d \<le> e"
  then have "m * d \<le> m * e"
    by (rule mult_left_mono [rotated])
  then show ?thesis
    by (auto simp: price_scale_def)
qed

lemma price_mono:
  assumes "0 \<le> p" "0 \<le> m" "cur' \<le> cur"
  shows "unitShopPrice p md m base cur \<le> unitShopPrice p md m base cur'"
proof -
  have s: "price_scale md m (base - cur) \<le> price_scale md m (base - cur')"
    using assms by (intro price_scale_mono) auto
  have n: "0 \<le> price_scale md m (base - cur)"
    using price_scale_bounds(1) [of md m "base - cur"] by simp
  show ?thesis
    unfolding unitShopPrice_scale
    by (rule sdiv_100_mono) (simp_all add: assms(1) n s mult_left_mono)
qed

lemma price_bounds:
  assumes "0 \<le> p"
  shows "p * 10 div 100 \<le> unitShopPrice p md m base cur"
    and "unitShopPrice p md m base cur \<le> p * max 10 (md + 100) div 100"
proof -
  note b = price_scale_bounds [of md m "base - cur"]
  have "p * 10 \<le> p * price_scale md m (base - cur)" "p * price_scale md m (base - cur) \<le> p * max 10 (md + 100)"
    using assms b by (simp_all only: mult_left_mono)
  then show "p * 10 div 100 \<le> unitShopPrice p md m base cur"
    and "unitShopPrice p md m base cur \<le> p * max 10 (md + 100) div 100"
    using assms b by (simp_all add: unitShopPrice_scale sdiv_100_nonneg zdiv_mono1)
qed

end
