(* ===== verification/WorldDeals.thy ===== *)
theory WorldDeals
  imports Events
begin

text \<open>
  The trade and duel windows of the world mirror: \<open>world/trade.go\<close> and \<open>world/duel.go\<close>. The pointer
  that is nil while no deal is known is an option; an operation that returns early on nil maps over
  it. Phases are the strings of the code: request_sent, open, confirm, completed, cancelled.

  The two windows share a contract, the locale \<open>deal_window\<close>: a first acceptance stands until
  somebody changes the deal.
\<close>

section \<open>The contract of a deal window\<close>

locale deal_window =
  fixes step :: "'op \<Rightarrow> 's \<Rightarrow> 's"
    and live :: "'s \<Rightarrow> bool"
    and mine theirs :: "'s \<Rightarrow> bool"
    and changes my_accept their_accept :: "'op \<Rightarrow> bool"
  assumes live_step: "live s \<Longrightarrow> live (step a s)"
    and change_resets: "live s \<Longrightarrow> changes a \<Longrightarrow> \<not> mine (step a s) \<and> \<not> theirs (step a s)"
    and accept_mine: "live s \<Longrightarrow> my_accept a \<Longrightarrow> mine (step a s)"
    and accept_theirs: "live s \<Longrightarrow> their_accept a \<Longrightarrow> theirs (step a s)"
    and keep_mine: "live s \<Longrightarrow> \<not> changes a \<Longrightarrow> \<not> my_accept a \<Longrightarrow> mine (step a s) = mine s"
    and keep_theirs: "live s \<Longrightarrow> \<not> changes a \<Longrightarrow> \<not> their_accept a \<Longrightarrow> theirs (step a s) = theirs s"
    and change_no_accept: "changes a \<Longrightarrow> \<not> my_accept a \<and> \<not> their_accept a"
begin

lemma live_run: "live s \<Longrightarrow> live (fold step as s)"
  by (induction as arbitrary: s) (auto intro: live_step)

text \<open>Whether a flag is up after a run: the last operation that concerns it decides.\<close>

lemma mine_run:
  "live s \<Longrightarrow> mine (fold step as s) =
     (case find (\<lambda>a. changes a \<or> my_accept a) (rev as) of None \<Rightarrow> mine s | Some a \<Rightarrow> my_accept a)"
proof (induction as rule: rev_induct)
  case Nil
  then show ?case by simp
next
  case (snoc a as)
  then show ?case
    using live_run [OF snoc.prems, of as] change_resets [of "fold step as s" a]
      accept_mine [of "fold step as s" a] keep_mine [of "fold step as s" a] change_no_accept [of a]
    by auto
qed

lemma theirs_run:
  "live s \<Longrightarrow> theirs (fold step as s) =
     (case find (\<lambda>a. changes a \<or> their_accept a) (rev as) of None \<Rightarrow> theirs s | Some a \<Rightarrow> their_accept a)"
proof (induction as rule: rev_induct)
  case Nil
  then show ?case by simp
next
  case (snoc a as)
  then show ?case
    using live_run [OF snoc.prems, of as] change_resets [of "fold step as s" a]
      accept_theirs [of "fold step as s" a] keep_theirs [of "fold step as s" a] change_no_accept [of a]
    by auto
qed

end

section \<open>Trades\<close>

record TradeItem =
  tiItemID :: int
  tiAmount :: int

record TradeRecord =
  tWithIndex :: int
  tWithName :: gostring
  tMyOffer :: "TradeItem list"
  tTheirOffer :: "TradeItem list"
  tMyFirst :: bool
  tTheirFirst :: bool
  tMySecond :: bool
  tTheirSecond :: bool
  tPhase :: string
  tOpenedAt :: gotime
  tUpdatedAt :: gotime

type_synonym TradeState = "TradeRecord option"

definition zero_trade :: TradeRecord where
  "zero_trade = \<lparr>tWithIndex = 0, tWithName = [], tMyOffer = [], tTheirOffer = [], tMyFirst = False,
     tTheirFirst = False, tMySecond = False, tTheirSecond = False, tPhase = [], tOpenedAt = 0,
     tUpdatedAt = 0\<rparr>"

definition TradeIsActive :: "TradeState \<Rightarrow> bool" where
  "TradeIsActive s = (case s of None \<Rightarrow> False
     | Some r \<Rightarrow> tPhase r \<noteq> ''completed'' \<and> tPhase r \<noteq> ''cancelled'')"

definition TradeBeginRequest :: "gotime \<Rightarrow> int \<Rightarrow> gostring \<Rightarrow> TradeState \<Rightarrow> TradeState" where
  "TradeBeginRequest now withIndex withName s =
     Some (zero_trade\<lparr>tWithIndex := withIndex, tWithName := withName, tPhase := ''request_sent'',
       tOpenedAt := now, tUpdatedAt := now\<rparr>)"

definition TradeMarkOpened :: "gotime \<Rightarrow> int \<Rightarrow> gostring \<Rightarrow> TradeState \<Rightarrow> TradeState" where
  "TradeMarkOpened now withIndex withName s =
     (let r = (case s of None \<Rightarrow> zero_trade\<lparr>tOpenedAt := now\<rparr> | Some r \<Rightarrow> r);
          r = r\<lparr>tWithIndex := withIndex\<rparr>;
          r = (if withName \<noteq> [] then r\<lparr>tWithName := withName\<rparr> else r)
      in Some (r\<lparr>tPhase := ''open'', tUpdatedAt := now\<rparr>))"

definition TradeSetMyOffer :: "gotime \<Rightarrow> TradeItem list \<Rightarrow> TradeState \<Rightarrow> TradeState" where
  "TradeSetMyOffer now items =
     map_option (\<lambda>r. r\<lparr>tMyOffer := items, tMyFirst := False, tTheirFirst := False, tMySecond := False,
       tTheirSecond := False, tUpdatedAt := now\<rparr>)"

definition TradeSetTheirOffer :: "gotime \<Rightarrow> TradeItem list \<Rightarrow> TradeState \<Rightarrow> TradeState" where
  "TradeSetTheirOffer now items =
     map_option (\<lambda>r. r\<lparr>tTheirOffer := items, tTheirFirst := False, tMyFirst := False, tUpdatedAt := now\<rparr>)"

definition TradeMarkOtherFirstAccepted :: "gotime \<Rightarrow> TradeState \<Rightarrow> TradeState" where
  "TradeMarkOtherFirstAccepted now = map_option (\<lambda>r. r\<lparr>tTheirFirst := True, tUpdatedAt := now\<rparr>)"

definition TradeMarkMyFirstAccepted :: "gotime \<Rightarrow> TradeState \<Rightarrow> TradeState" where
  "TradeMarkMyFirstAccepted now =
     map_option (\<lambda>r. (let r = r\<lparr>tMyFirst := True\<rparr>;
                          r = (if tTheirFirst r then r\<lparr>tPhase := ''confirm''\<rparr> else r)
                      in r\<lparr>tUpdatedAt := now\<rparr>))"

definition TradeMarkMySecondAccepted :: "gotime \<Rightarrow> TradeState \<Rightarrow> TradeState" where
  "TradeMarkMySecondAccepted now = map_option (\<lambda>r. r\<lparr>tMySecond := True, tUpdatedAt := now\<rparr>)"

definition TradeMarkClosed :: "gotime \<Rightarrow> bool \<Rightarrow> TradeState \<Rightarrow> TradeState" where
  "TradeMarkClosed now completed =
     map_option (\<lambda>r. r\<lparr>tPhase := (if completed then ''completed'' else ''cancelled''), tUpdatedAt := now\<rparr>)"

definition TradeClear :: "TradeState \<Rightarrow> TradeState" where
  "TradeClear s = None"

text \<open>The operations on a trade in progress, as data.\<close>

datatype trade_op =
    TReopen int gostring
  | TMine "TradeItem list"
  | TTheirs "TradeItem list"
  | TOtherFirst
  | TMyFirst
  | TMySecond
  | TClose bool

fun trade_step :: "gotime \<Rightarrow> trade_op \<Rightarrow> TradeState \<Rightarrow> TradeState" where
  "trade_step now (TReopen i n) = TradeMarkOpened now i n"
| "trade_step now (TMine items) = TradeSetMyOffer now items"
| "trade_step now (TTheirs items) = TradeSetTheirOffer now items"
| "trade_step now TOtherFirst = TradeMarkOtherFirstAccepted now"
| "trade_step now TMyFirst = TradeMarkMyFirstAccepted now"
| "trade_step now TMySecond = TradeMarkMySecondAccepted now"
| "trade_step now (TClose c) = TradeMarkClosed now c"

fun trade_changes :: "trade_op \<Rightarrow> bool" where
  "trade_changes (TMine _) = True"
| "trade_changes (TTheirs _) = True"
| "trade_changes _ = False"

definition trade_mine :: "TradeState \<Rightarrow> bool" where
  "trade_mine s = (case s of None \<Rightarrow> False | Some r \<Rightarrow> tMyFirst r)"

definition trade_theirs :: "TradeState \<Rightarrow> bool" where
  "trade_theirs s = (case s of None \<Rightarrow> False | Some r \<Rightarrow> tTheirFirst r)"

lemmas trade_op_defs = TradeMarkOpened_def TradeSetMyOffer_def TradeSetTheirOffer_def
  TradeMarkOtherFirstAccepted_def TradeMarkMyFirstAccepted_def TradeMarkMySecondAccepted_def
  TradeMarkClosed_def trade_mine_def trade_theirs_def

interpretation tw: deal_window "trade_step now" "\<lambda>s. s \<noteq> None" trade_mine trade_theirs trade_changes
    "\<lambda>a. a = TMyFirst" "\<lambda>a. a = TOtherFirst" for now
proof (unfold_locales, goal_cases)
  case (1 s a) then show ?case by (cases a) (auto simp: trade_op_defs Let_def)
next
  case (2 s a) then show ?case by (cases a) (auto simp: trade_op_defs Let_def split: option.splits)
next
  case (3 s a) then show ?case by (auto simp: trade_op_defs Let_def split: option.splits)
next
  case (4 s a) then show ?case by (auto simp: trade_op_defs Let_def split: option.splits)
next
  case (5 s a) then show ?case by (cases a) (auto simp: trade_op_defs Let_def split: option.splits)
next
  case (6 s a) then show ?case by (cases a) (auto simp: trade_op_defs Let_def split: option.splits)
next
  case (7 a) then show ?case by (cases a) auto
qed

text \<open>Nothing ever records the other side's second acceptance of a trade.\<close>

lemma trade_their_second_step:
  "(\<And>r. s = Some r \<Longrightarrow> \<not> tTheirSecond r) \<Longrightarrow> trade_step now a s = Some r' \<Longrightarrow> \<not> tTheirSecond r'"
  by (cases a) (auto simp: trade_op_defs Let_def zero_trade_def split: option.splits if_splits)

section \<open>Duels\<close>

record DuelRules =
  drRetreat :: bool
  drMagic :: bool
  drPrayer :: bool
  drWeapons :: bool

record DuelRecord =
  dWithIndex :: int
  dWithName :: gostring
  dMyOffer :: "TradeItem list"
  dTheirOffer :: "TradeItem list"
  dMyFirst :: bool
  dTheirFirst :: bool
  dMySecond :: bool
  dTheirSecond :: bool
  dRules :: DuelRules
  dPhase :: string
  dOpenedAt :: gotime
  dUpdatedAt :: gotime

type_synonym DuelState = "DuelRecord option"

definition zero_duel :: DuelRecord where
  "zero_duel = \<lparr>dWithIndex = 0, dWithName = [], dMyOffer = [], dTheirOffer = [], dMyFirst = False,
     dTheirFirst = False, dMySecond = False, dTheirSecond = False,
     dRules = \<lparr>drRetreat = False, drMagic = False, drPrayer = False, drWeapons = False\<rparr>,
     dPhase = [], dOpenedAt = 0, dUpdatedAt = 0\<rparr>"

definition DuelIsActive :: "DuelState \<Rightarrow> bool" where
  "DuelIsActive s = (case s of None \<Rightarrow> False
     | Some r \<Rightarrow> dPhase r \<noteq> ''completed'' \<and> dPhase r \<noteq> ''cancelled'')"

definition DuelBeginRequest :: "gotime \<Rightarrow> int \<Rightarrow> gostring \<Rightarrow> DuelState \<Rightarrow> DuelState" where
  "DuelBeginRequest now withIndex withName s =
     Some (zero_duel\<lparr>dWithIndex := withIndex, dWithName := withName, dPhase := ''request_sent'',
       dOpenedAt := now, dUpdatedAt := now\<rparr>)"

definition DuelMarkOpened :: "gotime \<Rightarrow> int \<Rightarrow> gostring \<Rightarrow> DuelState \<Rightarrow> DuelState" where
  "DuelMarkOpened now withIndex withName s =
     (let r = (case s of None \<Rightarrow> zero_duel\<lparr>dOpenedAt := now\<rparr> | Some r \<Rightarrow> r);
          r = r\<lparr>dWithIndex := withIndex\<rparr>;
          r = (if withName \<noteq> [] then r\<lparr>dWithName := withName\<rparr> else r)
      in Some (r\<lparr>dPhase := ''open'', dUpdatedAt := now\<rparr>))"

definition DuelSetMyOffer :: "gotime \<Rightarrow> TradeItem list \<Rightarrow> DuelState \<Rightarrow> DuelState" where
  "DuelSetMyOffer now items =
     map_option (\<lambda>r. r\<lparr>dMyOffer := items, dMyFirst := False, dTheirFirst := False, dMySecond := False,
       dTheirSecond := False, dUpdatedAt := now\<rparr>)"

definition DuelSetTheirOffer :: "gotime \<Rightarrow> TradeItem list \<Rightarrow> DuelState \<Rightarrow> DuelState" where
  "DuelSetTheirOffer now items =
     map_option (\<lambda>r. r\<lparr>dTheirOffer := items, dTheirFirst := False, dMyFirst := False, dUpdatedAt := now\<rparr>)"

definition UpdateTheirOfferNoReset :: "gotime \<Rightarrow> TradeItem list \<Rightarrow> DuelState \<Rightarrow> DuelState" where
  "UpdateTheirOfferNoReset now items = map_option (\<lambda>r. r\<lparr>dTheirOffer := items, dUpdatedAt := now\<rparr>)"

definition UpdateRulesNoReset :: "gotime \<Rightarrow> DuelRules \<Rightarrow> DuelState \<Rightarrow> DuelState" where
  "UpdateRulesNoReset now rules = map_option (\<lambda>r. r\<lparr>dRules := rules, dUpdatedAt := now\<rparr>)"

definition SetRules :: "gotime \<Rightarrow> DuelRules \<Rightarrow> DuelState \<Rightarrow> DuelState" where
  "SetRules now rules =
     map_option (\<lambda>r. r\<lparr>dRules := rules, dMyFirst := False, dTheirFirst := False, dUpdatedAt := now\<rparr>)"

definition DuelMarkOtherFirstAccepted :: "gotime \<Rightarrow> DuelState \<Rightarrow> DuelState" where
  "DuelMarkOtherFirstAccepted now = map_option (\<lambda>r. r\<lparr>dTheirFirst := True, dUpdatedAt := now\<rparr>)"

definition MarkOtherSecondAccepted :: "gotime \<Rightarrow> DuelState \<Rightarrow> DuelState" where
  "MarkOtherSecondAccepted now = map_option (\<lambda>r. r\<lparr>dTheirSecond := True, dUpdatedAt := now\<rparr>)"

definition DuelMarkMyFirstAccepted :: "gotime \<Rightarrow> DuelState \<Rightarrow> DuelState" where
  "DuelMarkMyFirstAccepted now =
     map_option (\<lambda>r. (let r = r\<lparr>dMyFirst := True\<rparr>;
                          r = (if dTheirFirst r then r\<lparr>dPhase := ''confirm''\<rparr> else r)
                      in r\<lparr>dUpdatedAt := now\<rparr>))"

definition MarkConfirmShown :: "gotime \<Rightarrow> DuelState \<Rightarrow> DuelState" where
  "MarkConfirmShown now = map_option (\<lambda>r. r\<lparr>dPhase := ''confirm'', dUpdatedAt := now\<rparr>)"

definition DuelMarkMySecondAccepted :: "gotime \<Rightarrow> DuelState \<Rightarrow> DuelState" where
  "DuelMarkMySecondAccepted now = map_option (\<lambda>r. r\<lparr>dMySecond := True, dUpdatedAt := now\<rparr>)"

definition DuelMarkClosed :: "gotime \<Rightarrow> bool \<Rightarrow> DuelState \<Rightarrow> DuelState" where
  "DuelMarkClosed now completed =
     map_option (\<lambda>r. r\<lparr>dPhase := (if completed then ''completed'' else ''cancelled''), dUpdatedAt := now\<rparr>)"

definition DuelClear :: "DuelState \<Rightarrow> DuelState" where
  "DuelClear s = None"

datatype duel_op =
    DReopen int gostring
  | DMine "TradeItem list"
  | DTheirs "TradeItem list"
  | DTheirsFinal "TradeItem list"
  | DRules DuelRules
  | DRulesFinal DuelRules
  | DOtherFirst
  | DOtherSecond
  | DMyFirst
  | DConfirm
  | DMySecond
  | DClose bool

fun duel_step :: "gotime \<Rightarrow> duel_op \<Rightarrow> DuelState \<Rightarrow> DuelState" where
  "duel_step now (DReopen i n) = DuelMarkOpened now i n"
| "duel_step now (DMine items) = DuelSetMyOffer now items"
| "duel_step now (DTheirs items) = DuelSetTheirOffer now items"
| "duel_step now (DTheirsFinal items) = UpdateTheirOfferNoReset now items"
| "duel_step now (DRules r) = SetRules now r"
| "duel_step now (DRulesFinal r) = UpdateRulesNoReset now r"
| "duel_step now DOtherFirst = DuelMarkOtherFirstAccepted now"
| "duel_step now DOtherSecond = MarkOtherSecondAccepted now"
| "duel_step now DMyFirst = DuelMarkMyFirstAccepted now"
| "duel_step now DConfirm = MarkConfirmShown now"
| "duel_step now DMySecond = DuelMarkMySecondAccepted now"
| "duel_step now (DClose c) = DuelMarkClosed now c"

fun duel_changes :: "duel_op \<Rightarrow> bool" where
  "duel_changes (DMine _) = True"
| "duel_changes (DTheirs _) = True"
| "duel_changes (DRules _) = True"
| "duel_changes _ = False"

definition duel_mine :: "DuelState \<Rightarrow> bool" where
  "duel_mine s = (case s of None \<Rightarrow> False | Some r \<Rightarrow> dMyFirst r)"

definition duel_theirs :: "DuelState \<Rightarrow> bool" where
  "duel_theirs s = (case s of None \<Rightarrow> False | Some r \<Rightarrow> dTheirFirst r)"

lemmas duel_op_defs = DuelMarkOpened_def DuelSetMyOffer_def DuelSetTheirOffer_def
  UpdateTheirOfferNoReset_def UpdateRulesNoReset_def SetRules_def DuelMarkOtherFirstAccepted_def
  MarkOtherSecondAccepted_def DuelMarkMyFirstAccepted_def MarkConfirmShown_def
  DuelMarkMySecondAccepted_def DuelMarkClosed_def duel_mine_def duel_theirs_def

interpretation dw: deal_window "duel_step now" "\<lambda>s. s \<noteq> None" duel_mine duel_theirs duel_changes
    "\<lambda>a. a = DMyFirst" "\<lambda>a. a = DOtherFirst" for now
proof (unfold_locales, goal_cases)
  case (1 s a) then show ?case by (cases a) (auto simp: duel_op_defs Let_def)
next
  case (2 s a) then show ?case by (cases a) (auto simp: duel_op_defs Let_def split: option.splits)
next
  case (3 s a) then show ?case by (auto simp: duel_op_defs Let_def split: option.splits)
next
  case (4 s a) then show ?case by (auto simp: duel_op_defs Let_def split: option.splits)
next
  case (5 s a) then show ?case by (cases a) (auto simp: duel_op_defs Let_def split: option.splits)
next
  case (6 s a) then show ?case by (cases a) (auto simp: duel_op_defs Let_def split: option.splits)
next
  case (7 a) then show ?case by (cases a) auto
qed


end
