(* ===== verification/WorldSelf.thy ===== *)
theory WorldSelf
  imports Events "HOL-Library.Signed_Division"
begin

text \<open>
  The host's own state (\<open>world/self.go\<close>) and the buffer of recent messages (\<open>world/recent.go\<close>).
  A Go array of fixed length is a list of that length (\<open>self_wf\<close>).
\<close>

section \<open>Self\<close>

definition PlaneHeight :: int where
  "PlaneHeight = 944"

definition PlaneOf :: "int \<Rightarrow> int" where
  "PlaneOf y = (if y < 0 then 0 else y sdiv PlaneHeight)"

record Coord =
  coX :: int
  coY :: int

definition NumSkills :: nat where
  "NumSkills = 18"

record Self =
  position :: Coord
  heading :: int
  skillLevels :: "int list"
  skillMax :: "int list"
  skillXP :: "int list"
  fatigue :: int
  questPoints :: int
  lastDeathAt :: Coord
  deathCount :: int
  sleeping :: bool
  activePrayers :: "bool list"
  equipBySlot :: "int list"
  hasEquip :: bool
  colourHair :: int
  colourTop :: int
  colourTrouser :: int
  colourSkin :: int
  hasColours :: bool

definition NewSelf :: Self where
  "NewSelf = \<lparr>position = \<lparr>coX = 0, coY = 0\<rparr>, heading = 0, skillLevels = replicate NumSkills 0,
     skillMax = replicate NumSkills 0, skillXP = replicate NumSkills 0, fatigue = 0, questPoints = 0,
     lastDeathAt = \<lparr>coX = 0, coY = 0\<rparr>, deathCount = 0, sleeping = False, activePrayers = [],
     equipBySlot = replicate NumEquipSlots 0, hasEquip = False, colourHair = 0, colourTop = 0,
     colourTrouser = 0, colourSkin = 0, hasColours = False\<rparr>"

definition SelfSetPosition :: "Coord \<Rightarrow> Self \<Rightarrow> Self" where
  "SelfSetPosition c s = s\<lparr>position := c\<rparr>"

definition SetHeading :: "int \<Rightarrow> Self \<Rightarrow> Self" where
  "SetHeading h s = s\<lparr>heading := h AND 7\<rparr>"

definition SelfPlane :: "Self \<Rightarrow> int" where
  "SelfPlane s = PlaneOf (coY (position s))"

definition skill_at :: "int list \<Rightarrow> int \<Rightarrow> int" where
  "skill_at xs i = (if i < 0 \<or> i \<ge> int NumSkills then 0 else xs ! nat i)"

definition SkillLevel :: "int \<Rightarrow> Self \<Rightarrow> int" where
  "SkillLevel i s = skill_at (skillLevels s) i"

definition SkillMax :: "int \<Rightarrow> Self \<Rightarrow> int" where
  "SkillMax i s = skill_at (skillMax s) i"

definition SkillXP :: "int \<Rightarrow> Self \<Rightarrow> int" where
  "SkillXP i s = skill_at (skillXP s) i"

definition SetSkill :: "int \<Rightarrow> int \<Rightarrow> int \<Rightarrow> int \<Rightarrow> Self \<Rightarrow> Self" where
  "SetSkill i cur mx xp s =
     (if i < 0 \<or> i \<ge> int NumSkills then s
      else s\<lparr>skillLevels := (skillLevels s)[nat i := cur], skillMax := (skillMax s)[nat i := mx],
             skillXP := (skillXP s)[nat i := xp]\<rparr>)"

definition SetAllSkills :: "int list \<Rightarrow> int list \<Rightarrow> int list \<Rightarrow> int \<Rightarrow> Self \<Rightarrow> Self" where
  "SetAllSkills cur mx xp qp s =
     s\<lparr>skillLevels := cur, skillMax := mx, skillXP := xp, questPoints := qp\<rparr>"

definition FatiguePercent :: "Self \<Rightarrow> int" where
  "FatiguePercent s = (fatigue s * 100 + 375) sdiv 750"

definition SetFatigue :: "int \<Rightarrow> Self \<Rightarrow> Self" where
  "SetFatigue v s = s\<lparr>fatigue := v\<rparr>"

definition SetSleeping :: "bool \<Rightarrow> Self \<Rightarrow> Self" where
  "SetSleeping v s = s\<lparr>sleeping := v\<rparr>"

definition RecordDeath :: "Self \<Rightarrow> Self" where
  "RecordDeath s = s\<lparr>lastDeathAt := position s, deathCount := deathCount s + 1\<rparr>"

definition SetActivePrayers :: "bool list \<Rightarrow> Self \<Rightarrow> Self" where
  "SetActivePrayers active s = s\<lparr>activePrayers := active\<rparr>"

definition PrayerActive :: "int \<Rightarrow> Self \<Rightarrow> bool" where
  "PrayerActive i s =
     (if i < 0 \<or> i \<ge> int (length (activePrayers s)) then False else activePrayers s ! nat i)"

definition EquipSpriteAt :: "int \<Rightarrow> Self \<Rightarrow> int" where
  "EquipSpriteAt slot s = (if slot < 0 \<or> slot \<ge> int NumEquipSlots then 0 else equipBySlot s ! nat slot)"

definition SelfSetWornEquipment :: "int list \<Rightarrow> Self \<Rightarrow> Self" where
  "SelfSetWornEquipment worn s = s\<lparr>equipBySlot := worn, hasEquip := True\<rparr>"

definition SelfSetAppearanceColours :: "int \<Rightarrow> int \<Rightarrow> int \<Rightarrow> int \<Rightarrow> Self \<Rightarrow> Self" where
  "SelfSetAppearanceColours hair topc trouser skin s =
     s\<lparr>colourHair := hair, colourTop := topc, colourTrouser := trouser, colourSkin := skin,
       hasColours := True\<rparr>"

definition CombatLevel :: "Self \<Rightarrow> int" where
  "CombatLevel s =
     (let m = (\<lambda>i. skillMax s ! i);
          atk = m 0; def = m 1; str = m 2; hp = m 3; ranged = m 4; pray = m 5; magic = m 6;
          base = def + hp + pray sdiv 2;
          melee = ((atk + str) * 13) sdiv 10;
          rangedC = (ranged * 13) sdiv 8;
          magicC = (magic * 13) sdiv 8;
          best = melee;
          best = (if rangedC > best then rangedC else best);
          best = (if magicC > best then magicC else best)
      in (base + best) sdiv 4)"

definition self_wf :: "Self \<Rightarrow> bool" where
  "self_wf s \<longleftrightarrow> length (skillLevels s) = NumSkills \<and> length (skillMax s) = NumSkills \<and>
     length (skillXP s) = NumSkills \<and> length (equipBySlot s) = NumEquipSlots"

lemma self_wf_NewSelf [wf_intros]: "self_wf NewSelf"
  by (simp add: self_wf_def NewSelf_def)

lemma self_wf_ops [wf_intros]:
  "self_wf s \<Longrightarrow> self_wf (SelfSetPosition c s)"
  "self_wf s \<Longrightarrow> self_wf (SetHeading h s)"
  "self_wf s \<Longrightarrow> self_wf (SetSkill i cur mx xp s)"
  "self_wf s \<Longrightarrow> length cs = NumSkills \<Longrightarrow> length ms = NumSkills \<Longrightarrow> length xs = NumSkills \<Longrightarrow>
     self_wf (SetAllSkills cs ms xs qp s)"
  "self_wf s \<Longrightarrow> self_wf (SetFatigue v s)"
  "self_wf s \<Longrightarrow> self_wf (SetSleeping b s)"
  "self_wf s \<Longrightarrow> self_wf (RecordDeath s)"
  "self_wf s \<Longrightarrow> self_wf (SetActivePrayers a s)"
  "self_wf s \<Longrightarrow> length w = NumEquipSlots \<Longrightarrow> self_wf (SelfSetWornEquipment w s)"
  "self_wf s \<Longrightarrow> self_wf (SelfSetAppearanceColours a1 a2 a3 a4 s)"
  by (simp_all add: self_wf_def SelfSetPosition_def SetHeading_def SetSkill_def SetAllSkills_def
      SetFatigue_def SetSleeping_def RecordDeath_def SetActivePrayers_def SelfSetWornEquipment_def
      SelfSetAppearanceColours_def)

lemma skill_after_SetSkill:
  assumes "self_wf s" "0 \<le> i" "i < int NumSkills"
  shows "SkillLevel j (SetSkill i cur mx xp s) = (if j = i then cur else SkillLevel j s)"
    and "SkillMax j (SetSkill i cur mx xp s) = (if j = i then mx else SkillMax j s)"
    and "SkillXP j (SetSkill i cur mx xp s) = (if j = i then xp else SkillXP j s)"
  using assms
  by (auto simp: SkillLevel_def SkillMax_def SkillXP_def SetSkill_def skill_at_def self_wf_def
      nth_list_update nat_eq_iff)

section \<open>Recent events\<close>

record ChatRecord =
  crSpeaker :: gostring
  crMessage :: gostring
  crAt :: gotime

record PMRecord =
  prSender :: gostring
  prMessage :: gostring
  prAt :: gotime

record DamageRecord =
  dgAmount :: int
  dgSource :: gostring
  dgAt :: gotime

record ServerMsgRecord =
  smMessage :: gostring
  smKind :: string
  smAt :: gotime

record RecentEvents =
  reChat :: "ChatRecord option"
  rePM :: "PMRecord option"
  reDamage :: "DamageRecord option"
  reServerMsg :: "ServerMsgRecord option"
  reDialogText :: "(gostring \<times> gotime) option"
  reDialogOptions :: "(gostring list \<times> gotime) option"
  reRing :: "ServerMsgRecord list"

definition ServerMsgRingCap :: nat where
  "ServerMsgRingCap = 32"

definition NewRecentEvents :: RecentEvents where
  "NewRecentEvents = \<lparr>reChat = None, rePM = None, reDamage = None, reServerMsg = None,
     reDialogText = None, reDialogOptions = None, reRing = []\<rparr>"

definition SetChat :: "gotime \<Rightarrow> gostring \<Rightarrow> gostring \<Rightarrow> RecentEvents \<Rightarrow> RecentEvents" where
  "SetChat now speaker message r = r\<lparr>reChat := Some \<lparr>crSpeaker = speaker, crMessage = message, crAt = now\<rparr>\<rparr>"

definition SetPM :: "gotime \<Rightarrow> gostring \<Rightarrow> gostring \<Rightarrow> RecentEvents \<Rightarrow> RecentEvents" where
  "SetPM now sender message r = r\<lparr>rePM := Some \<lparr>prSender = sender, prMessage = message, prAt = now\<rparr>\<rparr>"

definition SetDamage :: "gotime \<Rightarrow> int \<Rightarrow> gostring \<Rightarrow> RecentEvents \<Rightarrow> RecentEvents" where
  "SetDamage now amount source r =
     r\<lparr>reDamage := Some \<lparr>dgAmount = amount, dgSource = source, dgAt = now\<rparr>\<rparr>"

text \<open>\<open>copy\<close> moves the last 32 entries to the front; the slice is then cut to their number.\<close>

definition SetMessage :: "gotime \<Rightarrow> string \<Rightarrow> gostring \<Rightarrow> RecentEvents \<Rightarrow> RecentEvents" where
  "SetMessage now kind message r =
     (let m = \<lparr>smMessage = message, smKind = kind, smAt = now\<rparr>;
          ring = reRing r @ [m];
          ring = (if length ring > ServerMsgRingCap then drop (length ring - ServerMsgRingCap) ring else ring)
      in r\<lparr>reServerMsg := Some m, reRing := ring\<rparr>)"

definition SetServerMessage :: "gotime \<Rightarrow> gostring \<Rightarrow> RecentEvents \<Rightarrow> RecentEvents" where
  "SetServerMessage now message r = SetMessage now ''server'' message r"

definition SetDialogText :: "gotime \<Rightarrow> gostring \<Rightarrow> RecentEvents \<Rightarrow> RecentEvents" where
  "SetDialogText now txt r = r\<lparr>reDialogText := Some (txt, now)\<rparr>"

definition SetDialogOptions :: "gotime \<Rightarrow> gostring list \<Rightarrow> RecentEvents \<Rightarrow> RecentEvents" where
  "SetDialogOptions now options r = r\<lparr>reDialogOptions := Some (options, now)\<rparr>"

definition ClearDialogOptions :: "RecentEvents \<Rightarrow> RecentEvents" where
  "ClearDialogOptions r = r\<lparr>reDialogOptions := None\<rparr>"

text \<open>The last \<open>n\<close> elements of a list: what a bounded history of all messages holds.\<close>

definition last_n :: "nat \<Rightarrow> 'a list \<Rightarrow> 'a list" where
  "last_n n xs = drop (length xs - n) xs"

lemma length_last_n [simp]: "length (last_n n xs) = min n (length xs)"
  by (simp add: last_n_def)

lemma last_n_snoc: "last_n n (last_n n xs @ [x]) = last_n n (xs @ [x])"
  by (cases "n \<le> length xs") (auto simp: last_n_def Suc_diff_le)

lemma SetMessage_last_n:
  "reRing (SetMessage now k m r) =
     last_n ServerMsgRingCap (reRing r @ [\<lparr>smMessage = m, smKind = k, smAt = now\<rparr>])"
  by (simp add: SetMessage_def Let_def last_n_def)

lemma SetMessage_ring:
  "reRing r = last_n ServerMsgRingCap h \<Longrightarrow>
   reRing (SetMessage now k m r) = last_n ServerMsgRingCap (h @ [\<lparr>smMessage = m, smKind = k, smAt = now\<rparr>])"
  by (simp add: SetMessage_last_n last_n_snoc)

lemma ring_kept [simp]:
  "reRing (SetChat now a b r) = reRing r" "reRing (SetPM now a b r) = reRing r"
  "reRing (SetDamage now d a r) = reRing r" "reRing (SetDialogText now a r) = reRing r"
  "reRing (SetDialogOptions now os r) = reRing r"
  "reServerMsg (SetChat now a b r) = reServerMsg r" "reServerMsg (SetPM now a b r) = reServerMsg r"
  "reServerMsg (SetDamage now d a r) = reServerMsg r" "reServerMsg (SetDialogText now a r) = reServerMsg r"
  "reServerMsg (SetDialogOptions now os r) = reServerMsg r"
  by (simp_all add: SetChat_def SetPM_def SetDamage_def SetDialogText_def SetDialogOptions_def)

end
