(* ===== verification/World.thy ===== *)
theory World
  imports Inbound WorldMobs WorldStores WorldItems WorldDeals WorldSelf
begin

text \<open>
  The world mirror as a whole (\<open>world/world.go\<close>): the record of all its parts and \<open>World.Apply\<close>, which
  every decoded event goes through. \<open>Apply\<close> returns the new world and whether the event was
  handled, or \<open>None\<close> where the code panics (storing at a negative slot index). The clock is read
  once per event, as \<open>now\<close>.
\<close>

section \<open>The record and Apply\<close>

record World =
  wSelf :: Self
  wInventory :: Inventory
  wNpcs :: NpcsState
  wPlayers :: PlayersState
  wGroundItems :: GroundItemsState
  wRecent :: RecentEvents
  wTrade :: TradeState
  wDuel :: DuelState
  wBank :: BankState
  wShop :: ShopState
  wBoundaries :: DynamicBoundaries
  wScenery :: DynamicScenery

definition NewWorld :: World where
  "NewWorld = \<lparr>wSelf = NewSelf, wInventory = NewInventory, wNpcs = NewNpcsState,
     wPlayers = NewPlayersState, wGroundItems = NewGroundItemsState, wRecent = NewRecentEvents,
     wTrade = None, wDuel = None, wBank = None, wShop = None, wBoundaries = NewDynamicBoundaries,
     wScenery = NewDynamicScenery\<rparr>"

definition InCommittedRegion :: "World \<Rightarrow> bool" where
  "InCommittedRegion w \<longleftrightarrow> TradeIsActive (wTrade w) \<or> DuelIsActive (wDuel w) \<or> BankIsOpen (wBank w)"

definition snapshotSkills :: "int list \<Rightarrow> int list" where
  "snapshotSkills xs = map (\<lambda>i. if i < length xs then xs ! i else 0) [0..<NumSkills]"

definition inv_slot :: "InventoryItem \<Rightarrow> InvSlot" where
  "inv_slot it = \<lparr>invItemID = itemID it, invAmount = itemAmount it, invWielded = itemWielded it\<rparr>"

definition trade_items :: "InventoryItem list \<Rightarrow> TradeItem list" where
  "trade_items = map (\<lambda>it. \<lparr>tiItemID = itemID it, tiAmount = itemAmount it\<rparr>)"

definition bank_slots :: "InventoryItem list \<Rightarrow> BankSlot list" where
  "bank_slots = map (\<lambda>it. \<lparr>bkItemID = itemID it, bkAmount = itemAmount it\<rparr>)"

definition shop_slots :: "ShopItem list \<Rightarrow> ShopSlot list" where
  "shop_slots = map (\<lambda>it. \<lparr>shItemID = siItemID it, shStock = siStock it, shBaseStock = siBaseStock it\<rparr>)"

definition duel_rules :: "DuelSettingsUpdate \<Rightarrow> DuelRules" where
  "duel_rules e = \<lparr>drRetreat = dsRetreat e, drMagic = dsMagic e, drPrayer = dsPrayer e,
     drWeapons = dsWeapons e\<rparr>"

text \<open>The name of a player we know, or the empty string.\<close>

definition name_of :: "int \<Rightarrow> PlayersState \<Rightarrow> gostring" where
  "name_of i ps = (let (r, ok) = PlayerGet i ps in if ok then pName r else [])"

definition apply_appearance :: "gotime \<Rightarrow> OtherPlayerAppearance \<Rightarrow> World \<Rightarrow> World" where
  "apply_appearance now e w =
     (let i = oaPlayerIndex e;
          ps = SetName now i (oaName e) (wPlayers w);
          ps = (if oaHasCombat e then SetAppearanceCombat now i (oaCombatLevel e) (oaSkullType e) ps else ps);
          ps = (if oaHasWorn e then SetWornEquipment now i (oaWornSprites e) ps else ps);
          ps = (if oaHasColours e
                then SetAppearanceColours now i (oaHairColour e) (oaTopColour e) (oaTrouserColour e)
                       (oaSkinColour e) ps
                else ps);
          w = w\<lparr>wPlayers := ps\<rparr>
      in if i = SelfIndex ps then
           (let s = wSelf w;
                s = (if oaHasWorn e then SelfSetWornEquipment (oaWornSprites e) s else s);
                s = (if oaHasColours e
                     then SelfSetAppearanceColours (oaHairColour e) (oaTopColour e) (oaTrouserColour e)
                            (oaSkinColour e) s
                     else s)
            in w\<lparr>wSelf := s\<rparr>)
         else w)"

definition apply_trade_closed :: "gotime \<Rightarrow> bool \<Rightarrow> TradeState \<Rightarrow> TradeState" where
  "apply_trade_closed now completed t =
     TradeMarkClosed now
       (if completed then True else (case t of None \<Rightarrow> False | Some r \<Rightarrow>
          if tMySecond r \<and> tTheirSecond r then True else tMySecond r)) t"

definition apply_trade_confirm :: "gotime \<Rightarrow> TradeConfirmShown \<Rightarrow> TradeState \<Rightarrow> TradeState" where
  "apply_trade_confirm now e t =
     (let t = TradeSetTheirOffer now (trade_items (tcOpponentItems e)) t
      in case t of
           None \<Rightarrow> t
         | Some r \<Rightarrow> (if tPhase r \<noteq> ''confirm'' then TradeMarkMyFirstAccepted now t else t))"

definition apply_duel_accepted :: "gotime \<Rightarrow> DuelState \<Rightarrow> DuelState" where
  "apply_duel_accepted now d =
     (case d of
        None \<Rightarrow> DuelMarkOtherFirstAccepted now d
      | Some r \<Rightarrow> (if dPhase r = ''confirm'' then MarkOtherSecondAccepted now d
                   else DuelMarkOtherFirstAccepted now d))"

definition apply_duel_confirm :: "gotime \<Rightarrow> DuelConfirmShown \<Rightarrow> DuelState \<Rightarrow> DuelState" where
  "apply_duel_confirm now e d =
     MarkConfirmShown now (UpdateRulesNoReset now (duel_rules (dcSettings e))
       (UpdateTheirOfferNoReset now (trade_items (dcOpponentItems e)) d))"

definition apply_duel_closed :: "gotime \<Rightarrow> bool \<Rightarrow> DuelState \<Rightarrow> DuelState" where
  "apply_duel_closed now completed d =
     DuelMarkClosed now
       (if completed then True else (case d of None \<Rightarrow> False | Some r \<Rightarrow> dMySecond r)) d"

definition apply_ground :: "gotime \<Rightarrow> Coord \<Rightarrow> GroundItemDelta \<Rightarrow> GroundItemsState \<Rightarrow> GroundItemsState" where
  "apply_ground now pos u g =
     (let x = coX pos + gdOffsetX u; y = coY pos + gdOffsetY u
      in if gdDisappear u then GroundRemove x y g else GroundAdd now x y (gdItemID u) g)"

definition apply_boundary :: "Coord \<Rightarrow> BoundaryDelta \<Rightarrow> DynamicBoundaries \<Rightarrow> DynamicBoundaries" where
  "apply_boundary pos d b =
     BoundarySet (coX pos + bdOffsetX d) (coY pos + bdOffsetY d) (bdDir d) (bdID d) b"

definition apply_scenery :: "gotime \<Rightarrow> Coord \<Rightarrow> SceneryDelta \<Rightarrow> DynamicScenery \<Rightarrow> DynamicScenery" where
  "apply_scenery now pos d s =
     (let ax = coX pos + sdOffsetX d; ay = coY pos + sdOffsetY d
      in if sdID d = SceneryRemoveSentinel then SceneryRemove ax ay s else SceneryAdd now ax ay (sdID d) s)"

definition apply_clear :: "Coord \<Rightarrow> RemovePoint \<Rightarrow> World \<Rightarrow> World" where
  "apply_clear pos p w =
     (let rx = drop_bit 3 (coX pos + rpOffsetX p); ry = drop_bit 3 (coY pos + rpOffsetY p)
      in w\<lparr>wBoundaries := BoundaryRemoveRegion rx ry (wBoundaries w),
           wScenery := SceneryRemoveRegion rx ry (wScenery w),
           wGroundItems := GroundRemoveRegion rx ry (wGroundItems w)\<rparr>)"

definition apply_projectile :: "gotime \<Rightarrow> OtherPlayerProjectile \<Rightarrow> World \<Rightarrow> World" where
  "apply_projectile now e w =
     (let npcVictim = (if orVictimIsNpc e then orVictimNpcIndex e else -1);
          playerVictim = (if orVictimIsNpc e then -1 else orVictimPlayerIndex e);
          w = w\<lparr>wPlayers := SetEngagement now (orCasterIndex e) (orProjectileID e) npcVictim playerVictim
                  (wPlayers w)\<rparr>
      in if npcVictim \<ge> 0
         then w\<lparr>wNpcs := SetIncomingAttack now npcVictim (orCasterIndex e) (orProjectileID e) (wNpcs w)\<rparr>
         else w)"

definition Apply :: "gotime \<Rightarrow> event \<Rightarrow> World \<Rightarrow> (World \<times> bool) option" where
  "Apply now ev w =
     (let ok = (\<lambda>w'. Some (w', True)); pos = position (wSelf w) in
      case ev of
        EvStatUpdate e \<Rightarrow>
          ok (w\<lparr>wSelf := SetSkill (suSkill e) (suCurrent e) (suMax e) (suExperience e) (wSelf w)\<rparr>)
      | EvStatsSnapshot e \<Rightarrow>
          ok (w\<lparr>wSelf := SetAllSkills (snapshotSkills (ssCurrent e)) (snapshotSkills (ssMax e))
                (snapshotSkills (ssExperience e)) (ssQuestPoints e) (wSelf w)\<rparr>)
      | ExperienceGain s xp \<Rightarrow>
          ok (w\<lparr>wSelf := SetSkill s (SkillLevel s (wSelf w)) (SkillMax s (wSelf w)) xp (wSelf w)\<rparr>)
      | FatigueUpdate v \<Rightarrow> ok (w\<lparr>wSelf := SetFatigue v (wSelf w)\<rparr>)
      | SleepScreenAppeared _ \<Rightarrow> ok (w\<lparr>wSelf := SetSleeping True (wSelf w)\<rparr>)
      | SleepEnded \<Rightarrow> ok (w\<lparr>wSelf := SetSleeping False (wSelf w)\<rparr>)
      | InventorySnapshot items \<Rightarrow>
          ok (w\<lparr>wInventory := InvReplace (map inv_slot items) (wInventory w)\<rparr>)
      | InventorySlotUpdate slot item \<Rightarrow>
          map_option (\<lambda>i. (w\<lparr>wInventory := i\<rparr>, True))
            (InvSet slot (map_option inv_slot item) (wInventory w))
      | InventoryRemoveSlot slot \<Rightarrow> ok (w\<lparr>wInventory := RemoveSlot slot (wInventory w)\<rparr>)
      | EvOwnPosition e \<Rightarrow>
          ok (w\<lparr>wSelf := SetHeading (opSprite e AND 7)
                (SelfSetPosition \<lparr>coX = opX e, coY = opY e\<rparr> (wSelf w))\<rparr>)
      | Death \<Rightarrow> ok (w\<lparr>wSelf := RecordDeath (wSelf w)\<rparr>)
      | EvNpcNearby e \<Rightarrow> ok (w\<lparr>wNpcs := apply_npc_nearby now e (wNpcs w)\<rparr>)
      | EvNpcDamage e \<Rightarrow>
          ok (w\<lparr>wNpcs := NpcSetHits now (ndNpcIndex e) (ndDamage e) (ndCurHits e) (ndMaxHits e) (wNpcs w),
                wRecent := SetDamage now (ndDamage e) [] (wRecent w)\<rparr>)
      | EvNpcChat e \<Rightarrow>
          ok (w\<lparr>wRecent := SetMessage now ''dialog'' (ncMessageText e)
                (SetDialogText now (ncMessageText e) (wRecent w))\<rparr>)
      | EvNpcProjectile e \<Rightarrow>
          ok (if nrVictimIsNpc e
              then w\<lparr>wNpcs := SetIncomingAttack now (nrVictimNpcIndex e) (-1) (nrProjectileID e) (wNpcs w)\<rparr>
              else w)
      | EvNearbyPlayer e \<Rightarrow>
          ok (w\<lparr>wPlayers :=
                (if npRemoved e then PlayerRemove (npIndex e) (wPlayers w)
                 else SetPlayerPosition now (npIndex e) (npX e) (npY e) (npSprite e AND 7) (wPlayers w))\<rparr>)
      | EvOtherPlayerAppearance e \<Rightarrow> ok (apply_appearance now e w)
      | ChatReceived _ speaker message _ \<Rightarrow> ok (w\<lparr>wRecent := SetChat now speaker message (wRecent w)\<rparr>)
      | EvOtherPlayerChat e \<Rightarrow>
          ok (w\<lparr>wRecent := SetChat now (name_of (ocPlayerIndex e) (wPlayers w)) (ocMessageText e) (wRecent w)\<rparr>)
      | EvPrivateMessage e \<Rightarrow> ok (w\<lparr>wRecent := SetPM now (pmSender e) (pmMessage e) (wRecent w)\<rparr>)
      | SystemMessage _ message _ \<Rightarrow> ok (w\<lparr>wRecent := SetServerMessage now message (wRecent w)\<rparr>)
      | NpcDialogText t \<Rightarrow>
          ok (w\<lparr>wRecent := SetMessage now ''dialog'' t (SetDialogText now t (wRecent w))\<rparr>)
      | NpcDialog options \<Rightarrow> ok (w\<lparr>wRecent := SetDialogOptions now options (wRecent w)\<rparr>)
      | EvTradeOpened e \<Rightarrow>
          ok (w\<lparr>wTrade := TradeMarkOpened now (toOtherPlayerIndex e)
                (name_of (toOtherPlayerIndex e) (wPlayers w)) (wTrade w)\<rparr>)
      | TradeOtherAccepted \<Rightarrow> ok (w\<lparr>wTrade := TradeMarkOtherFirstAccepted now (wTrade w)\<rparr>)
      | TradeClosed completed \<Rightarrow> ok (w\<lparr>wTrade := apply_trade_closed now completed (wTrade w)\<rparr>)
      | TradeOtherOffer items \<Rightarrow>
          ok (w\<lparr>wTrade := TradeSetTheirOffer now (trade_items items) (wTrade w)\<rparr>)
      | EvTradeConfirmShown e \<Rightarrow> ok (w\<lparr>wTrade := apply_trade_confirm now e (wTrade w)\<rparr>)
      | DuelOpened i \<Rightarrow>
          ok (w\<lparr>wDuel := DuelMarkOpened now i (name_of i (wPlayers w)) (wDuel w)\<rparr>)
      | DuelOtherOffer items \<Rightarrow> ok (w\<lparr>wDuel := DuelSetTheirOffer now (trade_items items) (wDuel w)\<rparr>)
      | EvDuelSettings e \<Rightarrow> ok (w\<lparr>wDuel := SetRules now (duel_rules e) (wDuel w)\<rparr>)
      | DuelOtherAccepted \<Rightarrow> ok (w\<lparr>wDuel := apply_duel_accepted now (wDuel w)\<rparr>)
      | EvDuelConfirmShown e \<Rightarrow> ok (w\<lparr>wDuel := apply_duel_confirm now e (wDuel w)\<rparr>)
      | BankOpened maxSize items \<Rightarrow> ok (w\<lparr>wBank := BankOpen now maxSize (bank_slots items) (wBank w)\<rparr>)
      | BankSlotUpdate slot iid amount \<Rightarrow>
          map_option (\<lambda>b. (w\<lparr>wBank := b\<rparr>, True)) (BankUpdateSlot now slot iid amount (wBank w))
      | BankClosed \<Rightarrow> ok (w\<lparr>wBank := BankClose (wBank w)\<rparr>)
      | EvShopOpened e \<Rightarrow>
          ok (w\<lparr>wShop := ShopOpen now (soIsGeneral e) (soSellPriceMod e) (soBuyPriceMod e)
                (soPriceMultiplier e) (shop_slots (soItems e)) (wShop w)\<rparr>)
      | ShopClosed \<Rightarrow> ok (w\<lparr>wShop := ShopCloseWindow (wShop w)\<rparr>)
      | PrayersActive active \<Rightarrow> ok (w\<lparr>wSelf := SetActivePrayers active (wSelf w)\<rparr>)
      | BoundaryUpdates us \<Rightarrow> ok (w\<lparr>wBoundaries := fold (apply_boundary pos) us (wBoundaries w)\<rparr>)
      | SceneryUpdates us \<Rightarrow> ok (w\<lparr>wScenery := fold (apply_scenery now pos) us (wScenery w)\<rparr>)
      | DuelClosed completed \<Rightarrow> ok (w\<lparr>wDuel := apply_duel_closed now completed (wDuel w)\<rparr>)
      | EvOtherPlayerDamage e \<Rightarrow>
          ok (w\<lparr>wRecent := SetDamage now (odDamage e) [] (wRecent w),
                wPlayers := PlayerSetHits now (odPlayerIndex e) (odDamage e) (odCurHits e) (odMaxHits e)
                  (wPlayers w)\<rparr>)
      | EvOtherPlayerProjectile e \<Rightarrow> ok (apply_projectile now e w)
      | EvGroundItem u \<Rightarrow> ok (w\<lparr>wGroundItems := apply_ground now pos u (wGroundItems w)\<rparr>)
      | GroundItemUpdates us \<Rightarrow> ok (w\<lparr>wGroundItems := fold (apply_ground now pos) us (wGroundItems w)\<rparr>)
      | RemoveWorldEntities ps \<Rightarrow> ok (fold (apply_clear pos) ps w)
      | _ \<Rightarrow> Some (w, False))"

end
