(* ===== verification/WorldInv.thy ===== *)
theory WorldInv
  imports World
begin

text \<open>
  The invariant of the world mirror and its preservation by \<open>World.Apply\<close>: every record is stored
  under its own key, the ordered NPC list has no duplicates and only known NPCs, fixed-size arrays
  keep their size, the message log is bounded, and an object and a removal mark never share a tile.
\<close>

section \<open>The invariant\<close>

definition npcs_wf :: "NpcsState \<Rightarrow> bool" where
  "npcs_wf s \<longleftrightarrow> distinct (npcOrder s) \<and> set (npcOrder s) \<subseteq> dom (npcMap s) \<and>
     (\<forall>i r. npcMap s i = Some r \<longrightarrow> nIndex r = i)"

definition players_wf :: "PlayersState \<Rightarrow> bool" where
  "players_wf s \<longleftrightarrow>
     (\<forall>i r. playerMap s i = Some r \<longrightarrow> pIndex r = i \<and> length (pEquipBySlot r) = NumEquipSlots)"

definition ground_wf :: "GroundItemsState \<Rightarrow> bool" where
  "ground_wf s \<longleftrightarrow> (\<forall>p r. groundMap s p = Some r \<longrightarrow> (giX r, giY r) = p)"

definition scenery_keys_wf :: "DynamicScenery \<Rightarrow> bool" where
  "scenery_keys_wf s \<longleftrightarrow> (\<forall>p r. sceneryMap s p = Some r \<longrightarrow> (scX r, scY r) = p)"

definition recent_wf :: "RecentEvents \<Rightarrow> bool" where
  "recent_wf r \<longleftrightarrow> length (reRing r) \<le> ServerMsgRingCap \<and>
     reServerMsg r = (if reRing r = [] then None else Some (last (reRing r)))"

definition world_wf :: "World \<Rightarrow> bool" where
  "world_wf w \<longleftrightarrow> self_wf (wSelf w) \<and> npcs_wf (wNpcs w) \<and> players_wf (wPlayers w) \<and>
     ground_wf (wGroundItems w) \<and> scenery_wf (wScenery w) \<and> scenery_keys_wf (wScenery w) \<and>
     recent_wf (wRecent w)"

text \<open>What the decoders guarantee of an event: slots are not negative, the worn array has its size.\<close>

definition event_wf :: "event \<Rightarrow> bool" where
  "event_wf ev \<longleftrightarrow>
     (case ev of
        InventorySlotUpdate slot _ \<Rightarrow> 0 \<le> slot
      | BankSlotUpdate slot _ _ \<Rightarrow> 0 \<le> slot
      | EvOtherPlayerAppearance e \<Rightarrow> length (oaWornSprites e) = NumEquipSlots
      | _ \<Rightarrow> True)"

section \<open>The NPC mirror\<close>

lemma set_removeOrder: "set (removeOrderLocked i xs) \<subseteq> set xs"
  by (induction xs) auto

lemma distinct_removeOrder:
  "distinct xs \<Longrightarrow> distinct (removeOrderLocked i xs) \<and> set (removeOrderLocked i xs) = set xs - {i}"
  by (induction xs) auto

lemma npcs_wf_ops [wf_intros]:
  "npcs_wf NewNpcsState"
  "npcs_wf s \<Longrightarrow> npcs_wf (NpcRemove i s)"
  "npcs_wf s \<Longrightarrow> npcs_wf (NpcSet now r s)"
  "npcs_wf s \<Longrightarrow> npcs_wf (NpcMoveBy now i dx dy h s)"
  "npcs_wf s \<Longrightarrow> npcs_wf (NpcMove now i x y h s)"
  "npcs_wf s \<Longrightarrow> npcs_wf (NpcSetHits now i d c m s)"
  "npcs_wf s \<Longrightarrow> npcs_wf (SetIncomingAttack now i f p s)"
  using distinct_removeOrder [of "npcOrder s"]
  by (auto simp: npcs_wf_def NewNpcsState_def NpcRemove_def NpcSet_def NpcMoveBy_def NpcMove_def
      NpcSetHits_def SetIncomingAttack_def Let_def appendOrderLocked_def setOrderToEndLocked_def
      split: option.splits if_splits)

lemma npcs_wf_nearby [wf_intros]: "npcs_wf s \<Longrightarrow> npcs_wf (apply_npc_nearby now e s)"
  by (simp add: apply_npc_nearby_def npcs_wf_ops)

section \<open>The players\<close>

lemma players_wf_store:
  "players_wf s \<Longrightarrow> pIndex r = i \<Longrightarrow> length (pEquipBySlot r) = NumEquipSlots \<Longrightarrow>
   players_wf (store_player i r s)"
  by (simp add: players_wf_def store_player_def)

lemma equip_length: "players_wf s \<Longrightarrow> length (pEquipBySlot (player_or_zero i s)) = NumEquipSlots"
  by (auto simp: players_wf_def player_or_zero_def zero_player_def split: option.splits)

lemma touch_player_fields [simp]:
  "pIndex (touch_player now r) = pIndex r" "pEquipBySlot (touch_player now r) = pEquipBySlot r"
  by (simp_all add: touch_player_def)

lemma players_wf_New: "players_wf NewPlayersState"
  by (simp add: players_wf_def NewPlayersState_def)

lemma players_wf_selfIndex: "players_wf (s\<lparr>selfIndex := j\<rparr>) = players_wf s"
  by (simp add: players_wf_def)

lemma players_wf_SetName: "players_wf s \<Longrightarrow> players_wf (SetName now i name s)"
  by (simp add: SetName_def Let_def players_wf_selfIndex players_wf_store equip_length)

lemma players_wf_Remove: "players_wf s \<Longrightarrow> players_wf (PlayerRemove i s)"
  by (simp add: players_wf_def PlayerRemove_def)

lemma players_wf_ops [wf_intros]:
  "players_wf NewPlayersState"
  "players_wf s \<Longrightarrow> players_wf (SetPlayerPosition now i x y h s)"
  "players_wf s \<Longrightarrow> players_wf (SetName now i name s)"
  "players_wf s \<Longrightarrow> players_wf (SetAppearanceCombat now i c k s)"
  "players_wf s \<Longrightarrow> length worn = NumEquipSlots \<Longrightarrow> players_wf (SetWornEquipment now i worn s)"
  "players_wf s \<Longrightarrow> players_wf (SetAppearanceColours now i a1 a2 a3 a4 s)"
  "players_wf s \<Longrightarrow> players_wf (PlayerSetHits now i d c m s)"
  "players_wf s \<Longrightarrow> players_wf (SetEngagement now i p n q s)"
  "players_wf s \<Longrightarrow> players_wf (PlayerRemove i s)"
  by (simp_all add: players_wf_New players_wf_SetName players_wf_Remove SetPlayerPosition_def
      SetAppearanceCombat_def SetWornEquipment_def SetAppearanceColours_def PlayerSetHits_def
      SetEngagement_def players_wf_store equip_length)

section \<open>Tiles and messages\<close>

lemma ground_wf_ops [wf_intros]:
  "ground_wf NewGroundItemsState"
  "ground_wf s \<Longrightarrow> ground_wf (GroundAdd now x y i s)"
  "ground_wf s \<Longrightarrow> ground_wf (GroundRemove x y s)"
  "ground_wf s \<Longrightarrow> ground_wf (GroundRemoveRegion rx ry s)"
  by (auto simp: ground_wf_def NewGroundItemsState_def GroundAdd_def GroundRemove_def
      GroundRemoveRegion_def)

lemma scenery_keys_ops [wf_intros]:
  "scenery_keys_wf NewDynamicScenery"
  "scenery_keys_wf s \<Longrightarrow> scenery_keys_wf (SceneryAdd now x y i s)"
  "scenery_keys_wf s \<Longrightarrow> scenery_keys_wf (SceneryRemove x y s)"
  "scenery_keys_wf s \<Longrightarrow> scenery_keys_wf (SceneryRemoveRegion rx ry s)"
  by (auto simp: scenery_keys_wf_def NewDynamicScenery_def SceneryAdd_def SceneryRemove_def
      SceneryRemoveRegion_def)

lemma fold_inv: "(\<And>x s. P s \<Longrightarrow> P (f x s)) \<Longrightarrow> P s \<Longrightarrow> P (fold f xs s)"
  by (induction xs arbitrary: s) auto

lemma ground_wf_fold [wf_intros]: "ground_wf g \<Longrightarrow> ground_wf (fold (apply_ground now pos) us g)"
  by (rule fold_inv) (auto simp: apply_ground_def Let_def ground_wf_ops)

lemma scenery_wf_fold [wf_intros]:
  "scenery_wf s \<Longrightarrow> scenery_wf (fold (apply_scenery now pos) us s)"
  "scenery_keys_wf s \<Longrightarrow> scenery_keys_wf (fold (apply_scenery now pos) us s)"
  by (rule fold_inv; auto simp: apply_scenery_def Let_def scenery_wf_ops scenery_keys_ops)+

lemma recent_wf_ops [wf_intros]:
  "recent_wf NewRecentEvents"
  "recent_wf r \<Longrightarrow> recent_wf (SetChat now a b r)"
  "recent_wf r \<Longrightarrow> recent_wf (SetPM now a b r)"
  "recent_wf r \<Longrightarrow> recent_wf (SetDamage now d a r)"
  "recent_wf r \<Longrightarrow> recent_wf (SetDialogText now a r)"
  "recent_wf r \<Longrightarrow> recent_wf (SetDialogOptions now os r)"
  by (simp_all add: recent_wf_def NewRecentEvents_def)

lemma recent_wf_SetMessage [wf_intros]: "recent_wf (SetMessage now k m r)"
  by (auto simp: recent_wf_def SetMessage_def Let_def ServerMsgRingCap_def last_drop)

section \<open>Apply keeps the invariant and never panics on a well-formed event\<close>

lemma world_wf_NewWorld [wf_intros]: "world_wf NewWorld"
  by (simp add: world_wf_def NewWorld_def wf_intros)

lemma snapshotSkills_length [simp]: "length (snapshotSkills xs) = NumSkills"
  by (simp add: snapshotSkills_def)

lemma world_wf_appearance:
  "world_wf w \<Longrightarrow> length (oaWornSprites e) = NumEquipSlots \<Longrightarrow> world_wf (apply_appearance now e w)"
  by (simp add: world_wf_def apply_appearance_def Let_def players_wf_ops self_wf_ops)

lemma world_wf_projectile: "world_wf w \<Longrightarrow> world_wf (apply_projectile now e w)"
  by (simp add: world_wf_def apply_projectile_def Let_def players_wf_ops npcs_wf_ops)

lemma world_wf_clears: "world_wf w \<Longrightarrow> world_wf (fold (apply_clear pos) ps w)"
  by (rule fold_inv)
     (simp_all add: world_wf_def apply_clear_def Let_def scenery_wf_ops scenery_keys_ops ground_wf_ops)

lemmas apply_wf = world_wf_appearance world_wf_projectile world_wf_clears

lemma grow_set_total: "0 \<le> i \<Longrightarrow> \<exists>ys. grow_set z i v xs = Some ys"
  by (simp add: grow_set_def)

lemma Apply_wf:
  assumes "world_wf w" "event_wf ev"
  shows "case Apply now ev w of None \<Rightarrow> False | Some (w', _) \<Rightarrow> world_wf w'"
proof (cases ev)
  case (InventorySlotUpdate slot item)
  then show ?thesis
    using assms grow_set_total [of slot empty_slot "case map_option inv_slot item of None \<Rightarrow> empty_slot | Some it \<Rightarrow> it" "invSlots (wInventory w)"]
    by (auto simp: Apply_def Let_def InvSet_def event_wf_def world_wf_def)
next
  case (BankSlotUpdate slot iid amount)
  then show ?thesis
    using assms
    by (auto simp: Apply_def Let_def BankUpdateSlot_def grow_set_def event_wf_def world_wf_def
        split: option.splits)
qed (use assms in \<open>simp_all add: Apply_def Let_def event_wf_def apply_wf\<close>,
     (simp_all add: world_wf_def self_wf_ops npcs_wf_ops npcs_wf_nearby players_wf_ops ground_wf_fold
        scenery_wf_fold recent_wf_ops recent_wf_SetMessage SetServerMessage_def apply_ground_def
        Let_def ground_wf_ops))

section \<open>Every decoder yields well-formed events\<close>

lemma read_items_all:
  assumes "\<And>b x b'. rd b = (Inr x, b') \<Longrightarrow> P x"
  shows "list_all P (fst (read_items rd n b))"
proof (induction n arbitrary: b)
  case 0
  then show ?case by simp
next
  case (Suc n)
  obtain r b1 where r: "rd b = (r, b1)" by (cases "rd b")
  then show ?case
    using Suc.IH [of b1] assms by (cases r) (auto simp: case_prod_beta)
qed

lemma list_all_concat: "list_all (list_all P) xss \<Longrightarrow> list_all P (concat xss)"
  by (induction xss) auto

lemma worn_sprites_length [simp]: "length (worn_sprites xs) = NumEquipSlots"
  by (simp add: worn_sprites_def Let_def)

lemma read_appearance_wf: "read_appearance i b = (Inr evs, b') \<Longrightarrow> list_all event_wf evs"
  by (auto simp: read_appearance_def Let_def event_wf_def no_appearance_def
      split: sum.splits prod.splits if_splits)

lemma read_player_update_wf: "read_player_update b = (Inr evs, b') \<Longrightarrow> list_all event_wf evs"
  by (auto simp: read_player_update_def Let_def read_appearance_wf
      split: sum.splits prod.splits if_splits) (simp_all add: event_wf_def)

lemma read_npc_update_wf: "read_npc_update b = (Inr evs, b') \<Longrightarrow> list_all event_wf evs"
  by (auto simp: read_npc_update_def Let_def split: sum.splits prod.splits if_splits)
     (simp_all add: event_wf_def)

lemma DecodeUpdatePlayers_wf: "DecodeUpdatePlayers p = Inr evs \<Longrightarrow> list_all event_wf evs"
  using read_items_all [of read_player_update "list_all event_wf", OF read_player_update_wf]
  by (auto simp: DecodeUpdatePlayers_def list_all_concat split: sum.splits prod.splits)

lemma DecodeUpdateNpcs_wf: "DecodeUpdateNpcs p = Inr evs \<Longrightarrow> list_all event_wf evs"
  using read_items_all [of read_npc_update "list_all event_wf", OF read_npc_update_wf]
  by (auto simp: DecodeUpdateNpcs_def list_all_concat split: sum.splits prod.splits)

lemma read_local_npcs_wf: "list_all event_wf (fst (read_local_npcs order i n b))"
  by (induction n arbitrary: i b)
     (auto simp: Let_def event_wf_def case_prod_beta split: sum.splits prod.splits)

lemma read_new_npcs_wf:
  "list_all event_wf evs \<Longrightarrow> list_all event_wf (fst (read_new_npcs x y evs b))"
proof (induction "251 - length evs" arbitrary: evs b rule: less_induct)
  case less
  show ?case
    by (subst read_new_npcs.simps)
       (auto simp: Let_def less.prems event_wf_def split: sum.splits prod.splits intro!: less.hyps)
qed

lemma DecodeNpcCoords_wf:
  assumes "DecodeNpcCoords p x y order = Inr (evs, n)"
  shows "list_all event_wf evs"
proof -
  obtain m b where m: "ReadBits 8 (StartBitAccess (WrapBuffer p)) = (Inr m, b)"
    using assms by (auto simp: DecodeNpcCoords_def Let_def split: sum.splits prod.splits)
  obtain es r where es: "read_local_npcs order 0 (unat m) b = (es, r)" by fastforce
  have wf: "list_all event_wf es"
    using read_local_npcs_wf [of order 0 "unat m" b] es by simp
  show ?thesis
    using assms wf read_new_npcs_wf [OF wf]
    by (cases r) (auto simp: DecodeNpcCoords_def m es dropChurnedRemovals_def list_all_iff)
qed

lemma first_event_wf:
  "(\<And>evs. r = Inr evs \<Longrightarrow> list_all event_wf evs) \<Longrightarrow> event_wf (first_event op p r)"
  by (auto simp: first_event_def event_wf_def split: sum.splits list.splits)

lemma decoded_text_wf:
  "decodeServerMessage p = Inr ev \<Longrightarrow> event_wf ev" "decodePrivateMessage p = Inr ev \<Longrightarrow> event_wf ev"
  "decodeNpcDialogText p = Inr ev \<Longrightarrow> event_wf ev" "decodeNpcDialogOptions p = Inr ev \<Longrightarrow> event_wf ev"
  "decodeWelcomeInfo p = Inr ev \<Longrightarrow> event_wf ev"
  by (auto simp: decodeServerMessage_def decodePrivateMessage_def decodeNpcDialogText_def
      decodeNpcDialogOptions_def decodeWelcomeInfo_def classify_message_def event_wf_def Let_def
      case_prod_beta split: if_splits sum.splits prod.splits)

lemma decoded_stats_wf:
  "decodeStat p = Inr ev \<Longrightarrow> event_wf ev" "decodeStats p = Inr ev \<Longrightarrow> event_wf ev"
  "decodeExperience p = Inr ev \<Longrightarrow> event_wf ev" "decodeFatigue p = Inr ev \<Longrightarrow> event_wf ev"
  "decodeSleepFatigue p = Inr ev \<Longrightarrow> event_wf ev"
  by (auto simp: decodeStat_def decodeStats_def decodeExperience_def decodeFatigue_def
      decodeSleepFatigue_def event_wf_def Let_def case_prod_beta split: if_splits sum.splits prod.splits)

lemma decoded_items_wf:
  "decodeInventory st p = Inr ev \<Longrightarrow> event_wf ev" "decodeInventorySlotUpdate st p = Inr ev \<Longrightarrow> event_wf ev"
  "decodeBankOpen p = Inr ev \<Longrightarrow> event_wf ev" "decodeBankUpdate p = Inr ev \<Longrightarrow> event_wf ev"
  "decodeShopOpen p = Inr ev \<Longrightarrow> event_wf ev"
  by (auto simp: decodeInventory_def decodeInventorySlotUpdate_def decodeBankOpen_def
      decodeBankUpdate_def decodeShopOpen_def event_wf_def Let_def case_prod_beta
      split: if_splits sum.splits prod.splits)

lemma decoded_deals_wf:
  "decodeTradeConfirmShown p = Inr ev \<Longrightarrow> event_wf ev" "decodeTradeOtherItems p = Inr ev \<Longrightarrow> event_wf ev"
  "decodeDuelOtherItems p = Inr ev \<Longrightarrow> event_wf ev" "decodeDuelSettings p = Inr ev \<Longrightarrow> event_wf ev"
  "decodeDuelConfirmWindow p = Inr ev \<Longrightarrow> event_wf ev" "event_wf (decodeTradeWindow op p)"
  by (auto simp: decodeTradeConfirmShown_def decodeTradeOtherItems_def decodeDuelOtherItems_def
      decodeDuelSettings_def decodeDuelConfirmWindow_def decodeTradeWindow_def event_wf_def Let_def
      case_prod_beta split: if_splits sum.splits prod.splits)

lemma decoded_tiles_wf:
  "decodeGroundItem p = Inr ev \<Longrightarrow> event_wf ev" "decodeRemoveWorldEntity p = Inr ev \<Longrightarrow> event_wf ev"
  "decodeBoundaryUpdates p = Inr ev \<Longrightarrow> event_wf ev" "decodeSceneryUpdates p = Inr ev \<Longrightarrow> event_wf ev"
  by (auto simp: decodeGroundItem_def decodeRemoveWorldEntity_def decodeBoundaryUpdates_def
      decodeSceneryUpdates_def event_wf_def Let_def case_prod_beta
      split: if_splits sum.splits prod.splits)

lemmas decoded_wf = decoded_text_wf decoded_stats_wf decoded_items_wf decoded_deals_wf decoded_tiles_wf

lemma plain_event_wf:
  "event_wf (InventoryRemoveSlot i)" "event_wf (PrayersActive bs)" "event_wf (DuelOpened i)"
  "event_wf SleepwordIncorrect" "event_wf LogoutConfirm" "event_wf Death" "event_wf (SleepScreenAppeared n)"
  "event_wf SleepEnded" "event_wf (TradeClosed c)" "event_wf TradeOtherAccepted" "event_wf (UnknownPacket op n)"
  "event_wf DuelOtherAccepted" "event_wf BankClosed" "event_wf ShopClosed" "event_wf (DuelClosed c)"
  "event_wf (EvOwnPosition own)" "event_wf (EvNearbyPlayer np)"
  by (simp_all add: event_wf_def)

lemma if_valueE: "(if c then x else y) = r \<Longrightarrow> (x = r \<Longrightarrow> P) \<Longrightarrow> (y = r \<Longrightarrow> P) \<Longrightarrow> P"
  by (cases c) auto

lemma player_coords_wf:
  "(case DecodePlayerCoords p of Inl _ \<Rightarrow> Inr (UnknownPacket op n) | Inr (own, _) \<Rightarrow> Inr (EvOwnPosition own)) =
     (Inr ev :: goerr + event) \<Longrightarrow> event_wf ev"
  by (auto simp: plain_event_wf split: sum.splits prod.splits)

lemma DecodeInbound_wf: "DecodeInbound f st = Inr ev \<Longrightarrow> event_wf ev"
  unfolding DecodeInbound_def Let_def
  by (elim if_valueE)
     (erule decoded_wf player_coords_wf |
      simp only: sum.inject, drule sym,
      simp only: plain_event_wf decoded_deals_wf first_event_wf DecodeUpdatePlayers_wf DecodeUpdateNpcs_wf)+

end
