(* ===== verification/HostFrame.thy ===== *)
theory HostFrame
  imports WorldInv Action
begin

text \<open>
  The host's frame pump: \<open>handleFrame\<close> of \<open>runtime/frame.go\<close>, which decodes each inbound frame, applies
  its events to the world mirror and publishes them with the synthetic edges derived from the change
  (kills, item and experience gains, level-ups, equipment), the answer flow of the sleep screen, and
  the equipment resolution of \<open>runtime/equipment.go\<close> that the equipment edges use.

  The bus is the list of published events. The item tables and the iteration order of Go maps are
  the arguments in \<open>HostEnv\<close>; timers appear as \<open>fallback_fires\<close>, which may run at any moment.
\<close>

section \<open>The host\<close>

record ItemDef =
  defID :: int
  defWearSlot :: int
  defStackable :: bool

record HostEnv =
  envItemDef :: "int \<Rightarrow> ItemDef option"
  envResolveWorn :: "int \<Rightarrow> int \<Rightarrow> int list"
  envItemOrder :: "int list \<Rightarrow> int list"
  envNameOrder :: "string list \<Rightarrow> string list"

datatype published =
    Pub event
  | PlayerLevelChanged int gostring int int
  | PlayerEquipmentChanged int gostring string
  | EquipmentChanged string
  | XPGain int int int
  | LevelUp int int
  | TargetDied int int

record Host =
  hWorld :: World
  hLastAttacked :: int
  hRoundTarget :: int
  hRounds :: int
  hOutgoingHits :: int
  hStartedAt :: gotime
  hSleepPending :: bool
  hLastSleepFatigue :: int
  hFallback :: bool
  hSent :: "outgoing list"
  hBus :: "published list"

definition new_host :: "gostring \<Rightarrow> Host" where
  "new_host username = \<lparr>hWorld = NewWorld\<lparr>wPlayers := SetSelfName username NewPlayersState\<rparr>, hLastAttacked = 0, hRoundTarget = 0, hRounds = 0, hOutgoingHits = 0,
     hStartedAt = 0, hSleepPending = False, hLastSleepFatigue = -1, hFallback = False, hSent = [],
     hBus = []\<rparr>"

definition Publish :: "published \<Rightarrow> Host \<Rightarrow> Host" where
  "Publish ev h = h\<lparr>hBus := hBus h @ [ev]\<rparr>"

definition isStackableItem :: "HostEnv \<Rightarrow> int \<Rightarrow> bool" where
  "isStackableItem env i = (case envItemDef env i of None \<Rightarrow> False | Some d \<Rightarrow> defStackable d)"

section \<open>Equipment\<close>

text \<open>The ids of the items worn in a slot; empty means nothing is worn there.\<close>

definition SelfWornItem :: "HostEnv \<Rightarrow> Inventory \<Rightarrow> int \<Rightarrow> int list" where
  "SelfWornItem env bag slot =
     List.map_filter (\<lambda>s. if invWielded s then
        (case envItemDef env (invItemID s) of
           Some d \<Rightarrow> if defWearSlot d = slot then Some (defID d) else None
         | None \<Rightarrow> None) else None) (Slots bag)"

definition canonicalEquipSlots :: "(string \<times> int list) list" where
  "canonicalEquipSlots =
     [(''helmet'', [5, 0]), (''body'', [6, 1]), (''legs'', [2, 7]), (''shield'', [3]), (''weapon'', [4]),
      (''gloves'', [8]), (''boots'', [9]), (''amulet'', [10]), (''cape'', [11])]"

text \<open>The first layer that shows something.\<close>

definition selfWornGroup :: "HostEnv \<Rightarrow> Inventory \<Rightarrow> int list \<Rightarrow> int list" where
  "selfWornGroup env bag slots =
     (case find (\<lambda>w. w \<noteq> []) (map (SelfWornItem env bag) slots) of Some w \<Rightarrow> w | None \<Rightarrow> [])"

definition wornGroupFromAppearance :: "HostEnv \<Rightarrow> int list \<Rightarrow> int list \<Rightarrow> int list" where
  "wornGroupFromAppearance env eq slots =
     (case find (\<lambda>w. w \<noteq> []) (map (\<lambda>s. envResolveWorn env s (eq ! nat s)) slots) of Some w \<Rightarrow> w | None \<Rightarrow> [])"

definition wornDiffers :: "int list \<Rightarrow> int list \<Rightarrow> bool" where
  "wornDiffers a b =
     (if (a = []) \<noteq> (b = []) then True else if a = [] then False else a ! 0 \<noteq> b ! 0)"

definition diffEquip :: "HostEnv \<Rightarrow> int list \<Rightarrow> int list \<Rightarrow> string list" where
  "diffEquip env prev cur =
     map fst (filter (\<lambda>g. wornDiffers (wornGroupFromAppearance env prev (snd g))
                            (wornGroupFromAppearance env cur (snd g))) canonicalEquipSlots)"

definition selfEquipSnapshot :: "HostEnv \<Rightarrow> Inventory \<Rightarrow> string \<rightharpoonup> int" where
  "selfEquipSnapshot env bag =
     map_of (map (\<lambda>g. (fst g, let w = selfWornGroup env bag (snd g) in if length w = 1 then w ! 0 else 0))
              canonicalEquipSlots)"

section \<open>Edges derived from a change\<close>

definition map_bump :: "int \<Rightarrow> int \<Rightarrow> (int \<rightharpoonup> int) \<Rightarrow> (int \<rightharpoonup> int)" where
  "map_bump k d m = m(k \<mapsto> (case m k of None \<Rightarrow> 0 | Some v \<Rightarrow> v) + d)"

definition map_int :: "(int \<rightharpoonup> int) \<Rightarrow> int \<Rightarrow> int" where
  "map_int m k = (case m k of None \<Rightarrow> 0 | Some v \<Rightarrow> v)"

definition inventoryCounts :: "Inventory \<Rightarrow> int \<rightharpoonup> int" where
  "inventoryCounts bag =
     fold (\<lambda>s m. let m = map_bump (invItemID s) (invAmount s) m
                 in if invAmount s = 0 then map_bump (invItemID s) 1 m else m) (Slots bag) Map.empty"

definition emitItemGainedDeltas :: "HostEnv \<Rightarrow> (int \<rightharpoonup> int) \<Rightarrow> Host \<Rightarrow> Host" where
  "emitItemGainedDeltas env prev h =
     (let bag = wInventory (hWorld h); cur = inventoryCounts bag
      in fold (\<lambda>i h. let delta = map_int cur i - map_int prev i
                     in if delta > 0 then Publish (Pub (ItemGained i delta)) h else h)
           (envItemOrder env (remdups (map invItemID (Slots bag)))) h)"

definition skillXPSnapshot :: "Host \<Rightarrow> int \<Rightarrow> int" where
  "skillXPSnapshot h = (\<lambda>i. SkillXP i (wSelf (hWorld h)))"

definition skillMaxSnapshot :: "Host \<Rightarrow> int \<Rightarrow> int" where
  "skillMaxSnapshot h = (\<lambda>i. SkillMax i (wSelf (hWorld h)))"

definition emitXPGainDeltas :: "(int \<Rightarrow> int) \<Rightarrow> Host \<Rightarrow> Host" where
  "emitXPGainDeltas prev h =
     fold (\<lambda>i h. let t = SkillXP (int i) (wSelf (hWorld h)); delta = t - prev (int i)
                 in if delta > 0 then Publish (XPGain (int i) delta t) h else h) [0..<NumSkills] h"

definition emitLevelUpDeltas :: "(int \<Rightarrow> int) \<Rightarrow> Host \<Rightarrow> Host" where
  "emitLevelUpDeltas prev h =
     fold (\<lambda>i h. let m = SkillMax (int i) (wSelf (hWorld h))
                 in if m > prev (int i) then Publish (LevelUp (int i) m) h else h) [0..<NumSkills] h"

definition emitEquipmentChanges :: "HostEnv \<Rightarrow> (string \<rightharpoonup> int) \<Rightarrow> Host \<Rightarrow> Host" where
  "emitEquipmentChanges env prev h =
     (let cur = selfEquipSnapshot env (wInventory (hWorld h))
      in fold (\<lambda>name h. if prev name \<noteq> cur name then Publish (EquipmentChanged name) h else h)
           (envNameOrder env (map fst canonicalEquipSlots)) h)"

section \<open>Combat\<close>

definition endNpcEngagement :: "int \<Rightarrow> Host \<Rightarrow> Host" where
  "endNpcEngagement i h =
     (let h = (if hLastAttacked h = i then h\<lparr>hLastAttacked := 0\<rparr> else h)
      in if hRoundTarget h = i
         then h\<lparr>hRoundTarget := 0, hRounds := 0, hOutgoingHits := 0, hStartedAt := 0\<rparr> else h)"

definition engagedTargetAlive :: "Host \<Rightarrow> bool" where
  "engagedTargetAlive h =
     (if hLastAttacked h = 0 then False
      else case npcMap (wNpcs (hWorld h)) (hLastAttacked h) of
             None \<Rightarrow> False
           | Some r \<Rightarrow> (if \<not> nHasHits r then True else nCurHits r > 0))"

definition emitTargetDeathEdge :: "int \<Rightarrow> bool \<Rightarrow> Host \<Rightarrow> Host" where
  "emitTargetDeathEdge i wasAlive h =
     (if \<not> wasAlive then h
      else case npcMap (wNpcs (hWorld h)) i of
             None \<Rightarrow> h
           | Some r \<Rightarrow>
               (if \<not> nHasHits r \<or> nCurHits r \<noteq> 0 then h
                else Publish (TargetDied i (nTypeID r)) (endNpcEngagement i h)))"

definition engagedRemovalKillRadius :: int where
  "engagedRemovalKillRadius = 10"

definition noteEngagedTargetRemoved :: "int \<Rightarrow> Host \<Rightarrow> Host" where
  "noteEngagedTargetRemoved i h =
     (if i = 0 \<or> i \<noteq> hLastAttacked h then h
      else
        let found = npcMap (wNpcs (hWorld h)) i; h = endNpcEngagement i h
        in case found of
             None \<Rightarrow> h
           | Some r \<Rightarrow>
               (let pos = position (wSelf (hWorld h))
                in if \<bar>coX pos - nX r\<bar> > engagedRemovalKillRadius \<or> \<bar>coY pos - nY r\<bar> > engagedRemovalKillRadius
                   then h else Publish (TargetDied i (nTypeID r)) h))"

definition noteCombatRound :: "event \<Rightarrow> Host \<Rightarrow> Host" where
  "noteCombatRound ev h =
     (let idx = hRoundTarget h in
      if idx = 0 then h
      else case ev of
             EvNpcDamage e \<Rightarrow>
               (if ndNpcIndex e = idx then h\<lparr>hRounds := hRounds h + 1, hOutgoingHits := hOutgoingHits h + 1\<rparr> else h)
           | EvOtherPlayerDamage e \<Rightarrow>
               (if odPlayerIndex e = SelfIndex (wPlayers (hWorld h)) then h\<lparr>hRounds := hRounds h + 1\<rparr> else h)
           | _ \<Rightarrow> h)"

definition beginCombatRoundTracking :: "gotime \<Rightarrow> int \<Rightarrow> Host \<Rightarrow> Host" where
  "beginCombatRoundTracking now i h =
     (if hRoundTarget h = i \<and> hStartedAt h \<noteq> 0 then h
      else h\<lparr>hRoundTarget := i, hRounds := 0, hOutgoingHits := 0, hStartedAt := now\<rparr>)"

text \<open>
  The bookkeeping of the \<open>attack\<close> verb (\<open>dslAttack\<close>) on an NPC view and on a player view, before the
  walk and the packet.
\<close>

definition attack_npc :: "gotime \<Rightarrow> int \<Rightarrow> Host \<Rightarrow> Host" where
  "attack_npc now i h = beginCombatRoundTracking now i (h\<lparr>hLastAttacked := i\<rparr>)"

definition attack_player :: "gotime \<Rightarrow> int \<Rightarrow> Host \<Rightarrow> Host" where
  "attack_player now i h = beginCombatRoundTracking now i h"

definition apply_world :: "gotime \<Rightarrow> event \<Rightarrow> Host \<Rightarrow> Host option" where
  "apply_world now ev h = map_option (\<lambda>(w, _). h\<lparr>hWorld := w\<rparr>) (Apply now ev (hWorld h))"

definition applyCombatAware :: "gotime \<Rightarrow> event \<Rightarrow> Host \<Rightarrow> Host option" where
  "applyCombatAware now ev h =
     (let h = (case ev of EvNpcNearby n \<Rightarrow> (if nnRemoved n then noteEngagedTargetRemoved (nnIndex n) h else h)
               | _ \<Rightarrow> h);
          watched = (case ev of EvNpcDamage d \<Rightarrow> ndNpcIndex d = hLastAttacked h | _ \<Rightarrow> False);
          preTargetAlive = watched \<and> engagedTargetAlive h
      in map_option
           (\<lambda>h. let h = (case ev of
                           EvNpcDamage d \<Rightarrow> (if watched then emitTargetDeathEdge (ndNpcIndex d) preTargetAlive h else h)
                         | _ \<Rightarrow> h)
                in noteCombatRound ev h)
           (apply_world now ev h))"

section \<open>The sleep screen\<close>

definition sleepWord :: gostring where
  "sleepWord = lit ''asleep''"

text \<open>The pending flag is consumed before the packet is sent.\<close>

definition answerSleepWord :: "Host \<Rightarrow> Host" where
  "answerSleepWord h =
     (if \<not> hSleepPending h then h
      else
        let h = h\<lparr>hSleepPending := False, hFallback := False\<rparr>
        in case SendSleepWord sleepWord of
             Inl _ \<Rightarrow> h
           | Inr packets \<Rightarrow> h\<lparr>hSent := hSent h @ packets\<rparr>)"

definition onSleepScreen :: "Host \<Rightarrow> Host" where
  "onSleepScreen h =
     (let drained = (hLastSleepFatigue h = 0);
          h = h\<lparr>hSleepPending := True, hFallback := \<not> drained\<rparr>
      in if drained then answerSleepWord h else h)"

definition onSleepFatigue :: "int \<Rightarrow> Host \<Rightarrow> Host" where
  "onSleepFatigue v h =
     (let h = h\<lparr>hLastSleepFatigue := v\<rparr> in if v = 0 then answerSleepWord h else h)"

definition onStopSleep :: "Host \<Rightarrow> Host" where
  "onStopSleep h = h\<lparr>hSleepPending := False, hLastSleepFatigue := -1, hFallback := False\<rparr>"

text \<open>
  The callback of the fallback timer. \<open>Stop\<close> does not wait for a callback that already started, so
  it may run whether or not the timer is armed.
\<close>

definition fallback_fires :: "Host \<Rightarrow> Host" where
  "fallback_fires h = answerSleepWord h"

section \<open>The frame pump\<close>

text \<open>A loop over events whose body may panic.\<close>

fun each :: "('e \<Rightarrow> 'h \<Rightarrow> 'h option) \<Rightarrow> 'e list \<Rightarrow> 'h \<Rightarrow> 'h option" where
  "each f [] h = Some h"
| "each f (e # es) h = (case f e h of None \<Rightarrow> None | Some h' \<Rightarrow> each f es h')"

definition apply_publish :: "gotime \<Rightarrow> event \<Rightarrow> Host \<Rightarrow> Host option" where
  "apply_publish now ev h = map_option (Publish (Pub ev)) (apply_world now ev h)"

definition aware_publish :: "gotime \<Rightarrow> event \<Rightarrow> Host \<Rightarrow> Host option" where
  "aware_publish now ev h = map_option (Publish (Pub ev)) (applyCombatAware now ev h)"

definition player_event :: "HostEnv \<Rightarrow> gotime \<Rightarrow> event \<Rightarrow> Host \<Rightarrow> Host option" where
  "player_event env now ev h =
     (case ev of
        EvOtherPlayerAppearance ap \<Rightarrow>
          (let (prev, had) = PlayerGet (oaPlayerIndex ap) (wPlayers (hWorld h)) in
           map_option
             (\<lambda>h. let h = (if had \<and> oaHasCombat ap \<and> pHasAppearanceCombat prev \<and> pCombatLevel prev \<noteq> oaCombatLevel ap
                           then Publish (PlayerLevelChanged (oaPlayerIndex ap) (oaName ap) (pCombatLevel prev)
                                  (oaCombatLevel ap)) h
                           else h)
                  in if had \<and> oaHasWorn ap \<and> pHasEquip prev
                     then fold (\<lambda>slot. Publish (PlayerEquipmentChanged (oaPlayerIndex ap) (oaName ap) slot))
                            (diffEquip env (pEquipBySlot prev) (oaWornSprites ap)) h
                     else h)
             (apply_publish now ev h))
      | _ \<Rightarrow> aware_publish now ev h)"

definition changes_inventory :: "event \<Rightarrow> bool" where
  "changes_inventory ev \<longleftrightarrow>
     (case ev of InventorySnapshot _ \<Rightarrow> True | InventorySlotUpdate _ _ \<Rightarrow> True | _ \<Rightarrow> False)"

definition changes_xp :: "event \<Rightarrow> bool" where
  "changes_xp ev \<longleftrightarrow>
     (case ev of EvStatUpdate _ \<Rightarrow> True | EvStatsSnapshot _ \<Rightarrow> True | ExperienceGain _ _ \<Rightarrow> True | _ \<Rightarrow> False)"

definition single_event :: "HostEnv \<Rightarrow> gotime \<Rightarrow> event \<Rightarrow> Host \<Rightarrow> Host option" where
  "single_event env now ev h =
     (let preCounts = inventoryCounts (wInventory (hWorld h));
          preEquip = selfEquipSnapshot env (wInventory (hWorld h));
          preXP = skillXPSnapshot h;
          preMax = skillMaxSnapshot h
      in map_option
           (\<lambda>h. let h = (if changes_inventory ev then emitItemGainedDeltas env preCounts h else h);
                    h = (if changes_xp ev then emitXPGainDeltas preXP h else h);
                    h = (if changes_xp ev then emitLevelUpDeltas preMax h else h);
                    h = (if changes_inventory ev then emitEquipmentChanges env preEquip h else h)
                in Publish (Pub ev) h)
           (applyCombatAware now ev h))"

definition handleFrame :: "HostEnv \<Rightarrow> gotime \<Rightarrow> Frame \<Rightarrow> Host \<Rightarrow> Host option" where
  "handleFrame env now f h =
     (let op = Opcode f; p = Payload f in
      if op = 191 then
        (case DecodePlayerCoords p of
           Inl _ \<Rightarrow> Some h
         | Inr (own, nearby) \<Rightarrow>
             each (apply_publish now) (EvOwnPosition own # map EvNearbyPlayer nearby) h)
      else if op = 234 then
        (case DecodeUpdatePlayers p of
           Inl _ \<Rightarrow> Some h
         | Inr evs \<Rightarrow> each (player_event env now) evs h)
      else if op = 104 then
        (case DecodeUpdateNpcs p of
           Inl _ \<Rightarrow> Some h
         | Inr evs \<Rightarrow> each (aware_publish now) evs h)
      else if op = 79 then
        (let pos = position (wSelf (hWorld h))
         in case DecodeNpcCoords p (coX pos) (coY pos) (Order (wNpcs (hWorld h))) of
              Inl _ \<Rightarrow> Some h
            | Inr (evs, _) \<Rightarrow> each (aware_publish now) evs h)
      else if op = 117 then
        map_option onSleepScreen (apply_publish now (SleepScreenAppeared (int (length p))) h)
      else if op = 244 then
        (case DecodeInbound f None of
           Inr (SleepFatigueUpdate v) \<Rightarrow> Some (onSleepFatigue v (Publish (Pub (SleepFatigueUpdate v)) h))
         | _ \<Rightarrow> Some h)
      else if op = 84 then apply_publish now SleepEnded (onStopSleep h)
      else if op = 194 then Some (Publish (Pub SleepwordIncorrect) h)
      else
        case DecodeInbound f (Some (isStackableItem env)) of
          Inl _ \<Rightarrow> Some h
        | Inr ev \<Rightarrow> single_event env now ev h)"

section \<open>What the derived edges leave alone\<close>

text \<open>Only the bus and the combat bookkeeping may differ.\<close>

definition quiet :: "Host \<Rightarrow> Host \<Rightarrow> bool" where
  "quiet h h' \<longleftrightarrow> hWorld h' = hWorld h \<and> hSent h' = hSent h \<and> hSleepPending h' = hSleepPending h \<and>
     hLastSleepFatigue h' = hLastSleepFatigue h \<and> hFallback h' = hFallback h"

lemma quiet_refl [intro]: "quiet h h"
  by (simp add: quiet_def)

lemma quiet_trans: "quiet h h1 \<Longrightarrow> quiet h1 h2 \<Longrightarrow> quiet h h2"
  by (simp add: quiet_def)

lemma quiet_Publish: "quiet h g \<Longrightarrow> quiet h (Publish ev g)"
  by (simp add: quiet_def Publish_def)

lemma quiet_fold: "(\<And>x g. quiet h g \<Longrightarrow> quiet h (f x g)) \<Longrightarrow> quiet h g \<Longrightarrow> quiet h (fold f xs g)"
  by (rule fold_inv)

lemma quiet_end: "quiet h g \<Longrightarrow> quiet h (endNpcEngagement i g)"
  by (simp add: quiet_def endNpcEngagement_def Let_def)

lemma quiet_combat:
  "quiet h g \<Longrightarrow> quiet h (emitTargetDeathEdge i a g)"
  "quiet h g \<Longrightarrow> quiet h (noteEngagedTargetRemoved i g)"
  "quiet h g \<Longrightarrow> quiet h (noteCombatRound ev g)"
  by (auto simp: emitTargetDeathEdge_def noteEngagedTargetRemoved_def quiet_end quiet_Publish Let_def
      split: option.splits)
     (auto simp: noteCombatRound_def quiet_def Let_def split: event.splits)

lemma quiet_edges:
  "quiet h g \<Longrightarrow> quiet h (emitItemGainedDeltas env c g)"
  "quiet h g \<Longrightarrow> quiet h (emitXPGainDeltas x g)"
  "quiet h g \<Longrightarrow> quiet h (emitLevelUpDeltas x g)"
  "quiet h g \<Longrightarrow> quiet h (emitEquipmentChanges env e g)"
  unfolding emitItemGainedDeltas_def emitXPGainDeltas_def emitLevelUpDeltas_def
    emitEquipmentChanges_def Let_def
  by (rule quiet_fold; simp add: quiet_Publish)+

text \<open>Handling one event: the world is what \<open>Apply\<close> makes of it, and the sleep flow is untouched.\<close>

definition applies :: "gotime \<Rightarrow> event \<Rightarrow> Host \<Rightarrow> Host option \<Rightarrow> bool" where
  "applies now ev h r \<longleftrightarrow>
     (case Apply now ev (hWorld h) of
        None \<Rightarrow> r = None
      | Some (w, _) \<Rightarrow> (\<exists>h'. r = Some h' \<and> quiet (h\<lparr>hWorld := w\<rparr>) h'))"

lemma applies_quiet:
  "applies now ev h r \<Longrightarrow> (\<And>a b. quiet a b \<Longrightarrow> quiet a (f b)) \<Longrightarrow> applies now ev h (map_option f r)"
  by (auto simp: applies_def split: option.splits prod.splits)

lemma applies_world: "applies now ev h (apply_world now ev h)"
  by (auto simp: applies_def apply_world_def split: option.splits)

lemma applies_world_quiet:
  "quiet h g \<Longrightarrow> applies now ev h (apply_world now ev g)"
  by (auto simp: applies_def apply_world_def quiet_def split: option.splits)

lemma applies_publish: "applies now ev h (apply_publish now ev h)"
  unfolding apply_publish_def by (intro applies_quiet applies_world quiet_Publish)

lemma applies_aware: "applies now ev h (applyCombatAware now ev h)"
  unfolding applyCombatAware_def Let_def
  by (intro applies_quiet applies_world_quiet)
     (auto simp: quiet_combat quiet_refl split: event.splits)

lemma applies_aware_publish: "applies now ev h (aware_publish now ev h)"
  unfolding aware_publish_def by (intro applies_quiet applies_aware quiet_Publish)

lemma applies_player: "applies now ev h (player_event env now ev h)"
proof (cases "\<exists>ap. ev = EvOtherPlayerAppearance ap")
  case True
  then show ?thesis
    by (auto simp: player_event_def Let_def case_prod_beta quiet_Publish
        intro!: applies_quiet applies_publish quiet_fold)
next
  case False
  then show ?thesis
    by (cases ev) (simp_all add: player_event_def applies_aware_publish)
qed

lemma applies_single: "applies now ev h (single_event env now ev h)"
  unfolding single_event_def Let_def
  by (intro applies_quiet applies_aware) (simp add: quiet_edges quiet_Publish)

section \<open>No frame brings the host down\<close>

lemma each_inv:
  assumes "\<And>e h. e \<in> set es \<Longrightarrow> P h \<Longrightarrow> (case f e h of None \<Rightarrow> False | Some h' \<Rightarrow> P h')" and "P h"
  shows "case each f es h of None \<Rightarrow> False | Some h' \<Rightarrow> P h'"
  using assms
proof (induction es arbitrary: h)
  case Nil
  then show ?case by simp
next
  case (Cons e es)
  obtain h1 where h1: "f e h = Some h1" "P h1"
    using Cons.prems(1) [of e h] Cons.prems(2) by (auto split: option.splits)
  have "case each f es h1 of None \<Rightarrow> False | Some h' \<Rightarrow> P h'"
    by (rule Cons.IH) (use Cons.prems(1) h1(2) in auto)
  then show ?case
    by (simp add: h1(1))
qed

definition host_wf :: "Host \<Rightarrow> bool" where
  "host_wf h \<longleftrightarrow> world_wf (hWorld h)"

abbreviation fine :: "Host option \<Rightarrow> bool" where
  "fine r \<equiv> (case r of None \<Rightarrow> False | Some h \<Rightarrow> host_wf h)"

lemma applies_fine: "applies now ev h r \<Longrightarrow> host_wf h \<Longrightarrow> event_wf ev \<Longrightarrow> fine r"
  using Apply_wf [of "hWorld h" ev now]
  by (auto simp: applies_def host_wf_def quiet_def split: option.splits prod.splits)

lemma each_fine:
  "(\<And>ev h. applies now ev h (f ev h)) \<Longrightarrow> list_all event_wf evs \<Longrightarrow> host_wf h \<Longrightarrow> fine (each f evs h)"
  by (rule each_inv) (auto intro: applies_fine simp: list_all_iff)

lemma answer_world [simp]: "hWorld (answerSleepWord h) = hWorld h"
  by (simp add: answerSleepWord_def Let_def split: sum.splits)

lemma sleep_world [simp]:
  "hWorld (onSleepScreen h) = hWorld h" "hWorld (onSleepFatigue v h) = hWorld h"
  "hWorld (onStopSleep h) = hWorld h" "hWorld (fallback_fires h) = hWorld h"
  "hWorld (Publish ev h) = hWorld h"
  by (simp_all add: onSleepScreen_def onSleepFatigue_def onStopSleep_def fallback_fires_def
      Publish_def Let_def)

lemma player_packet_wf:
  "list_all event_wf (EvOwnPosition own # map EvNearbyPlayer nearby)"
  by (simp add: plain_event_wf list_all_iff)

lemma fine_map: "fine r \<Longrightarrow> (\<And>h. hWorld (g h) = hWorld h) \<Longrightarrow> fine (map_option g r)"
  by (cases r) (auto simp: host_wf_def)

lemma handleFrame_fine:
  assumes "host_wf h"
  shows "fine (handleFrame env now f h)"
proof -
  let ?p = "Payload f"
  have own: "fine (each (apply_publish now) (EvOwnPosition own # map EvNearbyPlayer ns) h)" for own ns
    by (rule each_fine [OF applies_publish player_packet_wf assms])
  have players: "fine (each (player_event env now) evs h)" if "DecodeUpdatePlayers ?p = Inr evs" for evs
    by (rule each_fine [OF applies_player DecodeUpdatePlayers_wf [OF that] assms])
  have npcs: "fine (each (aware_publish now) evs h)" if "DecodeUpdateNpcs ?p = Inr evs" for evs
    by (rule each_fine [OF applies_aware_publish DecodeUpdateNpcs_wf [OF that] assms])
  have coords: "fine (each (aware_publish now) evs h)" if "DecodeNpcCoords ?p x y order = Inr (evs, n)" for x y order evs n
    by (rule each_fine [OF applies_aware_publish DecodeNpcCoords_wf [OF that] assms])
  have screen: "fine (map_option onSleepScreen (apply_publish now (SleepScreenAppeared n) h))" for n
    by (rule fine_map [OF applies_fine [OF applies_publish assms]]) (simp_all add: plain_event_wf)
  have stop: "fine (apply_publish now SleepEnded (onStopSleep h))"
    by (rule applies_fine [OF applies_publish]) (use assms in \<open>simp_all add: host_wf_def plain_event_wf\<close>)
  have single: "fine (single_event env now ev h)" if "DecodeInbound f st = Inr ev" for ev st
    by (rule applies_fine [OF applies_single assms DecodeInbound_wf [OF that]])
  show ?thesis
    using assms own players npcs coords screen stop single
    unfolding handleFrame_def Let_def
    by (auto simp: host_wf_def split: sum.splits prod.splits event.splits)
qed

definition handleFrames :: "HostEnv \<Rightarrow> (gotime \<times> Frame) list \<Rightarrow> Host \<Rightarrow> Host option" where
  "handleFrames env = each (\<lambda>(now, f). handleFrame env now f)"

lemma host_wf_new [wf_intros]: "host_wf (new_host user)"
  using world_wf_NewWorld
  by (auto simp: host_wf_def new_host_def world_wf_def SetSelfName_def players_wf_def NewWorld_def)

text \<open>
  C2. No input from the server can crash the host or corrupt its mirror: whatever frames arrive, with
  whatever opcodes and bytes, \<open>handleFrame\<close> never reaches a panic, and afterwards every record is
  stored under its own key, the ordered NPC list has no duplicates and only known NPCs, the skill and
  equipment arrays have their sizes, no tile is both occupied and cleared, and the message log holds at
  most 32 entries, the last of them the latest message.
\<close>

theorem no_frame_panics:
  "case handleFrames env fs (new_host user) of None \<Rightarrow> False | Some h \<Rightarrow> world_wf (hWorld h)"
  using each_inv [of fs host_wf "\<lambda>(now, f). handleFrame env now f" "new_host user"] handleFrame_fine
    host_wf_new
  by (auto simp: handleFrames_def host_wf_def split: option.splits)

section \<open>The sleep screen's state machine\<close>

datatype sleep_input = Screen | Drain int | Wake | Timer | Other

type_synonym sleep_state = "bool \<times> int \<times> outgoing list"

text \<open>The one packet an answer consists of.\<close>

definition sleep_answer :: outgoing where
  "sleep_answer = \<lparr>opcode = 45, payload = 0 # zq_bytes (lit ''asleep'')\<rparr>"

fun sleep_step :: "sleep_input \<Rightarrow> sleep_state \<Rightarrow> sleep_state" where
  "sleep_step Screen (pending, v, ps) =
     (if v = 0 then (False, v, ps @ [sleep_answer]) else (True, v, ps))"
| "sleep_step (Drain v) (pending, _, ps) =
     (if v = 0 \<and> pending then (False, v, ps @ [sleep_answer]) else (pending, v, ps))"
| "sleep_step Wake (pending, v, ps) = (False, -1, ps)"
| "sleep_step Timer (pending, v, ps) = (False, v, if pending then ps @ [sleep_answer] else ps)"
| "sleep_step Other s = s"

definition sleep_view :: "Host \<Rightarrow> sleep_state" where
  "sleep_view h = (hSleepPending h, hLastSleepFatigue h, hSent h)"

definition frame_input :: "Frame \<Rightarrow> sleep_input" where
  "frame_input f =
     (if Opcode f = 117 then Screen
      else if Opcode f = 84 then Wake
      else if Opcode f = 244 then
        (case DecodeInbound f None of Inr (SleepFatigueUpdate v) \<Rightarrow> Drain v | _ \<Rightarrow> Other)
      else Other)"

lemma quiet_view: "quiet h h' \<Longrightarrow> sleep_view h' = sleep_view h"
  by (simp add: quiet_def sleep_view_def)

lemma applies_view: "applies now ev h r \<Longrightarrow> r = Some h' \<Longrightarrow> sleep_view h' = sleep_view h"
  by (auto simp: applies_def quiet_def sleep_view_def split: option.splits prod.splits)

lemma each_view:
  assumes "\<And>ev h. applies now ev h (f ev h)"
  shows "each f evs h = Some h' \<Longrightarrow> sleep_view h' = sleep_view h"
proof (induction evs arbitrary: h)
  case Nil
  then show ?case by simp
next
  case (Cons ev evs)
  then show ?case
    using applies_view [OF assms] by (auto split: option.splits)
qed

lemma sleep_packet: "SendSleepWord sleepWord = Inr [sleep_answer]"
  by (simp add: SendSleepWord_def send_def sleepWord_def sleep_answer_def zq_bytes_def lit_def wire_simps)

lemma answer_view:
  "sleep_view (answerSleepWord h) = sleep_step Timer (sleep_view h)"
  by (simp add: answerSleepWord_def sleep_view_def sleep_packet Let_def)

lemma handleFrame_view:
  assumes "handleFrame env now f h = Some h'"
  shows "sleep_view h' = sleep_step (frame_input f) (sleep_view h)"
proof -
  have coords: "each (apply_publish now) evs h = Some h' \<Longrightarrow> sleep_view h' = sleep_view h" for evs
    by (rule each_view [OF applies_publish])
  have players: "each (player_event env now) evs h = Some h' \<Longrightarrow> sleep_view h' = sleep_view h" for evs
    by (rule each_view [OF applies_player])
  have aware: "each (aware_publish now) evs h = Some h' \<Longrightarrow> sleep_view h' = sleep_view h" for evs
    by (rule each_view [OF applies_aware_publish])
  have single: "single_event env now ev h = Some h' \<Longrightarrow> sleep_view h' = sleep_view h" for ev
    by (rule applies_view [OF applies_single])
  have screen: "sleep_view h' = sleep_step Screen (sleep_view h)"
    if "map_option onSleepScreen (apply_publish now ev h) = Some h'" for ev
    using that applies_view [OF applies_publish [of now ev h]]
    by (auto simp: onSleepScreen_def Let_def answer_view) (auto simp: sleep_view_def)
  have drain: "sleep_view (onSleepFatigue v (Publish ev h)) = sleep_step (Drain v) (sleep_view h)" for v ev
    by (auto simp: onSleepFatigue_def Let_def answer_view) (auto simp: sleep_view_def Publish_def)
  have wake: "sleep_view h' = sleep_step Wake (sleep_view h)"
    if "apply_publish now ev (onStopSleep h) = Some h'" for ev
    using applies_view [OF applies_publish that] by (simp add: sleep_view_def onStopSleep_def)
  have other: "sleep_view (Publish ev h) = sleep_view h" for ev
    by (simp add: sleep_view_def Publish_def)
  show ?thesis
    using assms coords players aware single screen drain wake other
    unfolding handleFrame_def frame_input_def Let_def
    by (auto simp del: each.simps split: if_splits sum.splits prod.splits event.splits)
qed

text \<open>
  No more answers than screens, an unanswered screen counted: the pending flag is a licence to send
  that every screen issues once.
\<close>

lemma sleep_answers_le:
  "fold sleep_step ins (p, v, ps) = (p', v', ps') \<Longrightarrow>
     length ps' + of_bool p' \<le> length ps + of_bool p + length (filter (\<lambda>i. i = Screen) ins) \<and>
     set ps' \<subseteq> insert sleep_answer (set ps)"
proof (induction ins arbitrary: p v ps)
  case Nil
  then show ?case by auto
next
  case (Cons i ins)
  obtain q w qs where q: "sleep_step i (p, v, ps) = (q, w, qs)"
    using prod_cases3 by blast
  have "length qs + of_bool q \<le> length ps + of_bool p + of_bool (i = Screen) \<and>
      set qs \<subseteq> insert sleep_answer (set ps)"
    using q by (cases i) (auto split: if_splits)
  then show ?case
    using Cons.IH [of q w qs] Cons.prems q by auto
qed

section \<open>Runs of the host\<close>

text \<open>Frames, timer callbacks and attack commands, in any order.\<close>

datatype host_step =
    Arrives gotime Frame
  | TimerFires
  | AttacksNpc gotime int
  | AttacksPlayer gotime int

fun run_step :: "HostEnv \<Rightarrow> host_step \<Rightarrow> Host \<Rightarrow> Host option" where
  "run_step env (Arrives now f) h = handleFrame env now f h"
| "run_step env TimerFires h = Some (fallback_fires h)"
| "run_step env (AttacksNpc now i) h = Some (attack_npc now i h)"
| "run_step env (AttacksPlayer now i) h = Some (attack_player now i h)"

fun step_input :: "host_step \<Rightarrow> sleep_input" where
  "step_input (Arrives _ f) = frame_input f"
| "step_input TimerFires = Timer"
| "step_input _ = Other"

lemma attack_view:
  "sleep_view (attack_npc now i h) = sleep_view h" "sleep_view (attack_player now i h) = sleep_view h"
  by (simp_all add: attack_npc_def attack_player_def beginCombatRoundTracking_def sleep_view_def)

lemma run_step_view:
  "run_step env st h = Some h' \<Longrightarrow> sleep_view h' = sleep_step (step_input st) (sleep_view h)"
  by (cases st)
     (auto simp: handleFrame_view fallback_fires_def answer_view attack_view)

lemma run_view:
  "each (run_step env) sts h = Some h' \<Longrightarrow>
   sleep_view h' = fold sleep_step (map step_input sts) (sleep_view h)"
  by (induction sts arbitrary: h) (auto simp: run_step_view split: option.splits)

text \<open>
  C10. The sleep screen is answered exactly as intended: over any interleaving of frames, timer
  callbacks and attacks, the pending flag, the last fatigue report and the packets sent follow the
  state machine \<open>sleep_step\<close>, which answers a screen when the drain reports 0, at once if it already
  had, or when the fallback timer fires; so there are never more answers than screens, and every
  packet sent is the word "asleep".
\<close>

theorem sleep_answered_once:
  assumes "each (run_step env) sts (new_host user) = Some h"
  shows "sleep_view h = fold sleep_step (map step_input sts) (False, -1, []) \<and>
    length (hSent h) \<le> length (filter (\<lambda>st. step_input st = Screen) sts) \<and>
    set (hSent h) \<subseteq> {sleep_answer}"
proof -
  have v: "sleep_view h = fold sleep_step (map step_input sts) (False, -1, [])"
    using run_view [OF assms] by (simp add: sleep_view_def new_host_def)
  have "length (hSent h) + of_bool (hSleepPending h) \<le>
      length (filter (\<lambda>i. i = Screen) (map step_input sts)) \<and> set (hSent h) \<subseteq> {sleep_answer}"
    using sleep_answers_le [OF v [symmetric, unfolded sleep_view_def]] by simp
  then show ?thesis
    using v by (auto simp: filter_map comp_def)
qed

definition bare_env :: HostEnv where
  "bare_env = \<lparr>envItemDef = \<lambda>_. None, envResolveWorn = \<lambda>_ _. [], envItemOrder = \<lambda>xs. xs,
     envNameOrder = \<lambda>xs. xs\<rparr>"

theorem sleep_answered_once_witness:
  "\<exists>h. each (run_step bare_env) [Arrives 1 \<lparr>Opcode = 117, Payload = [7]\<rparr>, TimerFires, TimerFires]
         (new_host (lit ''me'')) = Some h \<and> hSent h = [sleep_answer] \<and> set (hSent h) \<subseteq> {sleep_answer}"
proof -
  let ?sts = "[Arrives 1 \<lparr>Opcode = 117, Payload = [7]\<rparr>, TimerFires, TimerFires]"
  obtain h where h: "each (run_step bare_env) ?sts (new_host (lit ''me'')) = Some h"
    by (simp add: handleFrame_def apply_publish_def apply_world_def Apply_def)
  from sleep_answered_once [OF h]
  have "sleep_view h = fold sleep_step (map step_input ?sts) (False, -1, [])"
    and s: "set (hSent h) \<subseteq> {sleep_answer}" by blast+
  then have "hSent h = [sleep_answer]"
    by (simp add: sleep_view_def frame_input_def)
  with h s show ?thesis by blast
qed

end
