(* ===== verification/HostCombat.thy ===== *)
theory HostCombat
  imports HostFrame
begin

text \<open>
  What the frame pump publishes: kills (\<open>TargetDied\<close>) at most once per attack, and the exact
  experience, level, item and equipment edges of an event.
\<close>

section \<open>Kills\<close>

fun is_kill :: "published \<Rightarrow> bool" where
  "is_kill (TargetDied _ _) = True"
| "is_kill _ = False"

definition kills :: "Host \<Rightarrow> nat" where
  "kills h = length (filter is_kill (hBus h))"

text \<open>An open engagement is a kill not yet counted.\<close>

definition kill_budget :: "Host \<Rightarrow> nat" where
  "kill_budget h = kills h + of_bool (hLastAttacked h \<noteq> 0)"

text \<open>Operations that publish no kill and leave the engaged target alone.\<close>

definition calm :: "Host \<Rightarrow> Host \<Rightarrow> bool" where
  "calm h h' \<longleftrightarrow> kills h' = kills h \<and> hLastAttacked h' = hLastAttacked h"

lemma calm_refl [intro]: "calm h h"
  by (simp add: calm_def)

lemma calm_Publish: "calm h g \<Longrightarrow> \<not> is_kill ev \<Longrightarrow> calm h (Publish ev g)"
  by (simp add: calm_def kills_def Publish_def)

lemma calm_fold: "(\<And>x g. calm h g \<Longrightarrow> calm h (f x g)) \<Longrightarrow> calm h g \<Longrightarrow> calm h (fold f xs g)"
  by (rule fold_inv)

lemma calm_world: "calm h g \<Longrightarrow> calm h (g\<lparr>hWorld := w\<rparr>)"
  by (simp add: calm_def kills_def)

lemma calm_round: "calm h g \<Longrightarrow> calm h (noteCombatRound ev g)"
  by (auto simp: noteCombatRound_def calm_def kills_def Let_def split: event.splits)

lemma calm_edges:
  "calm h g \<Longrightarrow> calm h (emitItemGainedDeltas env c g)"
  "calm h g \<Longrightarrow> calm h (emitXPGainDeltas x g)"
  "calm h g \<Longrightarrow> calm h (emitLevelUpDeltas x g)"
  "calm h g \<Longrightarrow> calm h (emitEquipmentChanges env e g)"
  unfolding emitItemGainedDeltas_def emitXPGainDeltas_def emitLevelUpDeltas_def
    emitEquipmentChanges_def Let_def
  by (rule calm_fold; simp add: calm_Publish)+

lemma calm_sleep:
  "calm h g \<Longrightarrow> calm h (answerSleepWord g)"
  "calm h g \<Longrightarrow> calm h (onSleepScreen g)"
  "calm h g \<Longrightarrow> calm h (onSleepFatigue v g)"
  "calm h g \<Longrightarrow> calm h (onStopSleep g)"
  by (simp_all add: calm_def kills_def answerSleepWord_def onSleepScreen_def onSleepFatigue_def
      onStopSleep_def Let_def split: sum.splits)

lemma calm_budget: "calm h g \<Longrightarrow> kill_budget g = kill_budget h"
  by (simp add: calm_def kill_budget_def)

text \<open>Ending an engagement and reporting its kill use up the budget.\<close>

lemma end_engagement [simp]:
  "hBus (endNpcEngagement i h) = hBus h"
  "hLastAttacked (endNpcEngagement i h) = (if hLastAttacked h = i then 0 else hLastAttacked h)"
  "hWorld (endNpcEngagement i h) = hWorld h"
  by (simp_all add: endNpcEngagement_def Let_def)

lemma kills_simps [simp]:
  "kills (Publish ev h) = kills h + of_bool (is_kill ev)"
  "hLastAttacked (Publish ev h) = hLastAttacked h"
  "kills (endNpcEngagement i h) = kills h"
  by (simp_all add: kills_def Publish_def)

lemma removed_budget: "kill_budget (noteEngagedTargetRemoved i h) \<le> kill_budget h"
  by (auto simp: noteEngagedTargetRemoved_def kill_budget_def Let_def split: option.splits)

lemma death_edge_budget:
  "i = hLastAttacked h \<Longrightarrow> (a \<Longrightarrow> i \<noteq> 0) \<Longrightarrow> kill_budget (emitTargetDeathEdge i a h) \<le> kill_budget h"
  by (auto simp: emitTargetDeathEdge_def kill_budget_def split: option.splits)

definition spends :: "Host \<Rightarrow> Host option \<Rightarrow> bool" where
  "spends h r \<longleftrightarrow> (case r of None \<Rightarrow> True | Some h' \<Rightarrow> kill_budget h' \<le> kill_budget h)"

lemma spends_map:
  assumes "spends h r" "\<And>g. calm g (f g)"
  shows "spends h (map_option f r)"
  using assms(1) calm_budget [OF assms(2)] by (cases r) (simp_all add: spends_def)

lemma spends_world: "spends h (apply_world now ev h)"
  using calm_budget [OF calm_world [OF calm_refl]]
  by (auto simp: spends_def apply_world_def split: option.splits)

lemma spends_publish: "spends h (apply_publish now ev h)"
  unfolding apply_publish_def by (intro spends_map spends_world calm_Publish calm_refl) simp

lemma apply_world_combat:
  "apply_world now ev h = Some h' \<Longrightarrow> hLastAttacked h' = hLastAttacked h \<and> kill_budget h' = kill_budget h"
  by (auto simp: apply_world_def kill_budget_def kills_def)

lemma spends_aware: "spends h (applyCombatAware now ev h)"
proof -
  let ?g = "case ev of EvNpcNearby n \<Rightarrow> (if nnRemoved n then noteEngagedTargetRemoved (nnIndex n) h else h)
              | _ \<Rightarrow> h"
  let ?watched = "case ev of EvNpcDamage d \<Rightarrow> ndNpcIndex d = hLastAttacked ?g | _ \<Rightarrow> False"
  have g: "kill_budget ?g \<le> kill_budget h"
    by (cases ev) (simp_all add: removed_budget)
  have alive: "engagedTargetAlive ?g \<Longrightarrow> hLastAttacked ?g \<noteq> 0"
    by (auto simp: engagedTargetAlive_def)
  have edge: "kill_budget (case ev of
          EvNpcDamage d \<Rightarrow> (if ?watched then emitTargetDeathEdge (ndNpcIndex d) (?watched \<and> engagedTargetAlive ?g) k else k)
        | _ \<Rightarrow> k) \<le> kill_budget k" if "hLastAttacked k = hLastAttacked ?g" for k
    using that alive by (cases ev) (auto intro: death_edge_budget)
  have round: "kill_budget (noteCombatRound ev k) = kill_budget k" for k
    by (rule calm_budget [OF calm_round [OF calm_refl]])
  show ?thesis
  proof (cases "apply_world now ev ?g")
    case None
    then show ?thesis by (simp add: applyCombatAware_def spends_def)
  next
    case (Some k)
    then show ?thesis
      using g edge [of k] round apply_world_combat [OF Some]
      by (simp add: applyCombatAware_def spends_def Let_def)
  qed
qed

lemma spends_aware_publish: "spends h (aware_publish now ev h)"
  unfolding aware_publish_def by (intro spends_map spends_aware calm_Publish calm_refl) simp

lemma spends_player: "spends h (player_event env now ev h)"
proof (cases "\<exists>ap. ev = EvOtherPlayerAppearance ap")
  case True
  then show ?thesis
    by (auto simp: player_event_def Let_def case_prod_beta
        intro!: spends_map spends_publish calm_fold calm_Publish calm_refl)
next
  case False
  then show ?thesis
    by (cases ev) (simp_all add: player_event_def spends_aware_publish)
qed

lemma spends_single: "spends h (single_event env now ev h)"
  unfolding single_event_def Let_def
  by (intro spends_map spends_aware) (simp add: calm_edges calm_Publish calm_refl)

lemma spends_each:
  assumes "\<And>ev h. spends h (f ev h)"
  shows "spends h (each f evs h)"
proof (induction evs arbitrary: h)
  case Nil
  then show ?case by (simp add: spends_def)
next
  case (Cons ev evs)
  show ?case
  proof (cases "f ev h")
    case None
    then show ?thesis by (simp add: spends_def)
  next
    case (Some g)
    then show ?thesis
      using Cons.IH [of g] assms [of h ev] by (auto simp: spends_def split: option.splits)
  qed
qed

lemma spends_Some: "calm h g \<Longrightarrow> spends h (Some g)"
  by (simp add: spends_def calm_budget)

lemma spends_handleFrame: "spends h (handleFrame env now f h)"
proof -
  have coords: "spends h (each (apply_publish now) evs h)" for evs
    by (rule spends_each [OF spends_publish])
  have players: "spends h (each (player_event env now) evs h)" for evs
    by (rule spends_each [OF spends_player])
  have aware: "spends h (each (aware_publish now) evs h)" for evs
    by (rule spends_each [OF spends_aware_publish])
  have screen: "spends h (map_option onSleepScreen (apply_publish now ev h))" for ev
    by (intro spends_map spends_publish calm_sleep calm_refl)
  have drain: "spends h (Some (onSleepFatigue v (Publish (Pub ev) h)))" for v ev
    by (intro spends_Some calm_sleep calm_Publish calm_refl) simp
  have wake: "spends h (apply_publish now ev (onStopSleep h))" for ev
    using spends_publish [of "onStopSleep h" now ev] calm_budget [OF calm_sleep(4) [OF calm_refl]]
    by (simp add: spends_def split: option.splits)
  have other: "spends h (Some h)" "spends h (Some (Publish (Pub ev) h))" for ev
    by (intro spends_Some calm_Publish calm_refl; simp)+
  show ?thesis
    unfolding handleFrame_def Let_def
    by (auto simp del: each.simps simp: coords players aware screen drain wake other spends_single
        split: sum.splits prod.splits event.splits)
qed

fun is_attack :: "host_step \<Rightarrow> bool" where
  "is_attack (AttacksNpc _ _) = True"
| "is_attack _ = False"

lemma tracking_budget [simp]: "kill_budget (beginCombatRoundTracking now i h) = kill_budget h"
  by (simp add: beginCombatRoundTracking_def kill_budget_def kills_def)

lemma attack_npc_budget: "kill_budget (attack_npc now i h) \<le> kill_budget h + 1"
  by (auto simp: attack_npc_def kill_budget_def kills_def beginCombatRoundTracking_def)

lemma run_step_budget:
  "run_step env st h = Some h' \<Longrightarrow> kill_budget h' \<le> kill_budget h + of_bool (is_attack st)"
proof (cases st)
  case (Arrives now f)
  then show "run_step env st h = Some h' \<Longrightarrow> kill_budget h' \<le> kill_budget h + of_bool (is_attack st)"
    using spends_handleFrame [of h env now f] by (auto simp: spends_def)
next
  case TimerFires
  then show "run_step env st h = Some h' \<Longrightarrow> kill_budget h' \<le> kill_budget h + of_bool (is_attack st)"
    using calm_budget [OF calm_sleep(1) [OF calm_refl]] by (auto simp: fallback_fires_def)
qed (auto simp: attack_player_def intro: order_trans [OF attack_npc_budget])

lemma run_budget:
  "each (run_step env) sts h = Some h' \<Longrightarrow>
   kill_budget h' \<le> kill_budget h + length (filter is_attack sts)"
proof (induction sts arbitrary: h)
  case Nil
  then show ?case by simp
next
  case (Cons st sts)
  then obtain g where g: "run_step env st h = Some g" "each (run_step env) sts g = Some h'"
    by (auto split: option.splits)
  show ?case
    using Cons.IH [OF g(2)] run_step_budget [OF g(1)] by auto
qed

text \<open>
  C6. No kill is counted twice: over any interleaving of frames, timer callbacks and attacks, the
  number of \<open>TargetDied\<close> events published, plus one while a target is engaged, is at most the number
  of attacks on NPCs; the damage-to-zero edge and the removal edge of the same NPC never both fire.
\<close>

theorem kills_at_most_attacks:
  assumes "each (run_step env) sts (new_host user) = Some h"
  shows "length (filter is_kill (hBus h)) + of_bool (hLastAttacked h \<noteq> 0) \<le> length (filter is_attack sts)"
  using run_budget [OF assms] by (simp add: kill_budget_def kills_def new_host_def)


lemma npc_damage_frame:
  "DecodeUpdateNpcs (0 # 1 # 0 # i # 2 # d # c # m # []) =
     Inr [EvNpcDamage \<lparr>ndNpcIndex = uint i, ndDamage = uint d, ndCurHits = uint c, ndMaxHits = uint m\<rparr>]"
  by (simp add: DecodeUpdateNpcs_def wire_simps read_npc_update_def read_hits_def be16_def
      uint_up_ucast is_up)

lemma npc_damage_event:
  "aware_publish now (EvNpcDamage d) h =
     (let k = h\<lparr>hWorld := (hWorld h)\<lparr>wNpcs := NpcSetHits now (ndNpcIndex d) (ndDamage d) (ndCurHits d) (ndMaxHits d)
                 (wNpcs (hWorld h)), wRecent := SetDamage now (ndDamage d) [] (wRecent (hWorld h))\<rparr>\<rparr>
      in Some (Publish (Pub (EvNpcDamage d)) (noteCombatRound (EvNpcDamage d)
        (if ndNpcIndex d = hLastAttacked h
         then emitTargetDeathEdge (ndNpcIndex d) (engagedTargetAlive h) k else k))))"
  by (simp add: aware_publish_def applyCombatAware_def apply_world_def Apply_def Let_def)

theorem kills_at_most_attacks_witness:
  "\<exists>h. each (run_step bare_env) [AttacksNpc 1 5, Arrives 2 \<lparr>Opcode = 104, Payload = [0, 1, 0, 5, 2, 1, 3, 9]\<rparr>,
       Arrives 3 \<lparr>Opcode = 104, Payload = [0, 1, 0, 5, 2, 3, 0, 9]\<rparr>] (new_host (lit ''me'')) = Some h \<and>
     kills h = 1 \<and> length (filter is_kill (hBus h)) \<le> 1"
proof -
  let ?sts = "[AttacksNpc 1 5, Arrives 2 \<lparr>Opcode = 104, Payload = [0, 1, 0, 5, 2, 1, 3, 9]\<rparr>,
       Arrives 3 \<lparr>Opcode = 104, Payload = [0, 1, 0, 5, 2, 3, 0, 9]\<rparr>]"
  obtain h where h: "each (run_step bare_env) ?sts (new_host (lit ''me'')) = Some h" "kills h = 1"
    by (simp add: handleFrame_def npc_damage_frame npc_damage_event Let_def new_host_def NewWorld_def
        attack_npc_def beginCombatRoundTracking_def engagedTargetAlive_def emitTargetDeathEdge_def
        NpcSetHits_def npc_or_zero_def noteCombatRound_def Publish_def kills_def endNpcEngagement_def
        NewNpcsState_def zero_npc_def SetDamage_def)
  with kills_at_most_attacks [OF h(1)] show ?thesis by auto
qed

end
