(* ===== verification/HostEdges.thy ===== *)
theory HostEdges
  imports HostFrame
begin

text \<open>
  The derived events of the frame pump (\<open>runtime/frame.go\<close>): which experience and level events one
  frame publishes, compared with the skills before and after it, and what a subscriber that only
  adds up the reported gains knows after a whole run.
\<close>

section \<open>Events that leave the skills alone\<close>

definition skills_of :: "World \<Rightarrow> int list \<times> int list" where
  "skills_of w = (skillXP (wSelf w), skillMax (wSelf w))"

lemma skills_of_updates [simp]:
  "skills_of (w\<lparr>wInventory := i\<rparr>) = skills_of w" "skills_of (w\<lparr>wNpcs := n\<rparr>) = skills_of w"
  "skills_of (w\<lparr>wPlayers := p\<rparr>) = skills_of w" "skills_of (w\<lparr>wGroundItems := g\<rparr>) = skills_of w"
  "skills_of (w\<lparr>wRecent := r\<rparr>) = skills_of w" "skills_of (w\<lparr>wTrade := t\<rparr>) = skills_of w"
  "skills_of (w\<lparr>wDuel := d\<rparr>) = skills_of w" "skills_of (w\<lparr>wBank := b\<rparr>) = skills_of w"
  "skills_of (w\<lparr>wShop := s\<rparr>) = skills_of w" "skills_of (w\<lparr>wBoundaries := bs\<rparr>) = skills_of w"
  "skills_of (w\<lparr>wScenery := sc\<rparr>) = skills_of w"
  by (simp_all add: skills_of_def)

lemma skills_of_self [simp]:
  "skills_of (w\<lparr>wSelf := SelfSetPosition c (wSelf w)\<rparr>) = skills_of w"
  "skills_of (w\<lparr>wSelf := SetHeading h (SelfSetPosition c (wSelf w))\<rparr>) = skills_of w"
  "skills_of (w\<lparr>wSelf := SetFatigue v (wSelf w)\<rparr>) = skills_of w"
  "skills_of (w\<lparr>wSelf := SetSleeping b (wSelf w)\<rparr>) = skills_of w"
  "skills_of (w\<lparr>wSelf := RecordDeath (wSelf w)\<rparr>) = skills_of w"
  "skills_of (w\<lparr>wSelf := SetActivePrayers ps (wSelf w)\<rparr>) = skills_of w"
  by (simp_all add: skills_of_def SelfSetPosition_def SetHeading_def SetFatigue_def SetSleeping_def
      RecordDeath_def SetActivePrayers_def)

lemma skills_of_steps [simp]:
  "skills_of (apply_appearance now e w) = skills_of w"
  "skills_of (apply_projectile now p w) = skills_of w"
  by (simp_all add: apply_appearance_def apply_projectile_def Let_def)
     (simp_all add: skills_of_def SelfSetWornEquipment_def SelfSetAppearanceColours_def)

lemma skills_of_clears [simp]: "skills_of (fold (apply_clear pos) ps w) = skills_of w"
  by (induction ps arbitrary: w) (simp_all add: apply_clear_def Let_def)

definition keeps_xp :: "event \<Rightarrow> bool" where
  "keeps_xp ev \<longleftrightarrow> \<not> changes_xp ev"

lemma Apply_skills:
  assumes "Apply now ev w = Some (w', b)" "keeps_xp ev"
  shows "skills_of w' = skills_of w"
  using assms by (cases ev) (auto simp: Apply_def Let_def keeps_xp_def changes_xp_def)

section \<open>Packets about other mobs\<close>

text \<open>Events that neither move experience nor items.\<close>

definition bystander :: "event \<Rightarrow> bool" where
  "bystander ev \<longleftrightarrow>
     (case ev of
        EvStatUpdate _ \<Rightarrow> False | EvStatsSnapshot _ \<Rightarrow> False | ExperienceGain _ _ \<Rightarrow> False
      | InventorySnapshot _ \<Rightarrow> False | InventorySlotUpdate _ _ \<Rightarrow> False | InventoryRemoveSlot _ \<Rightarrow> False
      | _ \<Rightarrow> True)"

lemma bystander_keeps_xp: "bystander ev \<Longrightarrow> keeps_xp ev"
  by (auto simp: bystander_def keeps_xp_def changes_xp_def split: event.splits)

lemma read_appearance_other: "read_appearance i b = (Inr evs, b') \<Longrightarrow> list_all bystander evs"
  by (auto simp: read_appearance_def Let_def bystander_def split: sum.splits prod.splits if_splits)

lemma read_player_update_other: "read_player_update b = (Inr evs, b') \<Longrightarrow> list_all bystander evs"
  by (auto simp: read_player_update_def Let_def read_appearance_other
      split: sum.splits prod.splits if_splits) (simp_all add: bystander_def)

lemma read_npc_update_other: "read_npc_update b = (Inr evs, b') \<Longrightarrow> list_all bystander evs"
  by (auto simp: read_npc_update_def Let_def split: sum.splits prod.splits if_splits)
     (simp_all add: bystander_def)

lemma mob_updates_other:
  "DecodeUpdatePlayers p = Inr evs \<Longrightarrow> list_all bystander evs"
  "DecodeUpdateNpcs p = Inr evs \<Longrightarrow> list_all bystander evs"
  using read_items_all [of read_player_update "list_all bystander", OF read_player_update_other]
    read_items_all [of read_npc_update "list_all bystander", OF read_npc_update_other]
  by (auto simp: DecodeUpdatePlayers_def DecodeUpdateNpcs_def list_all_concat split: sum.splits prod.splits)

lemma read_local_npcs_other: "list_all bystander (fst (read_local_npcs order i n b))"
  by (induction n arbitrary: i b)
     (auto simp: Let_def bystander_def case_prod_beta split: sum.splits prod.splits)

lemma read_new_npcs_other:
  "list_all bystander evs \<Longrightarrow> list_all bystander (fst (read_new_npcs x y evs b))"
proof (induction "251 - length evs" arbitrary: evs b rule: less_induct)
  case less
  show ?case
    by (subst read_new_npcs.simps)
       (auto simp: Let_def less.prems bystander_def split: sum.splits prod.splits intro!: less.hyps)
qed

lemma npc_coords_other:
  assumes "DecodeNpcCoords p x y order = Inr (evs, n)"
  shows "list_all bystander evs"
proof -
  obtain m b where m: "ReadBits 8 (StartBitAccess (WrapBuffer p)) = (Inr m, b)"
    using assms by (auto simp: DecodeNpcCoords_def Let_def split: sum.splits prod.splits)
  obtain es r where es: "read_local_npcs order 0 (unat m) b = (es, r)" by fastforce
  have wf: "list_all bystander es"
    using read_local_npcs_other [of order 0 "unat m" b] es by simp
  show ?thesis
    using assms wf read_new_npcs_other [OF wf]
    by (cases r) (auto simp: DecodeNpcCoords_def m es dropChurnedRemovals_def list_all_iff)
qed

section \<open>The skill events of the bus\<close>

fun skill_edge :: "nat \<Rightarrow> published \<Rightarrow> bool" where
  "skill_edge s (XPGain i _ _) = (i = int s)"
| "skill_edge s (LevelUp i _) = (i = int s)"
| "skill_edge s _ = False"

definition edges :: "nat \<Rightarrow> Host \<Rightarrow> published list" where
  "edges s h = filter (skill_edge s) (hBus h)"

lemma edges_Publish [simp]:
  "edges s (Publish ev h) = edges s h @ (if skill_edge s ev then [ev] else [])"
  by (simp add: edges_def Publish_def)

lemma edges_fold:
  assumes "\<And>x g. edges s (f x g) = edges s g"
  shows "edges s (fold f xs h) = edges s h"
  by (induction xs arbitrary: h) (simp_all add: assms)

lemma edges_update [simp]:
  "edges s (h\<lparr>hWorld := w\<rparr>) = edges s h" "edges s (endNpcEngagement i h) = edges s h"
  by (simp_all add: edges_def endNpcEngagement_def Let_def)

lemma edges_combat [simp]:
  "edges s (emitTargetDeathEdge i a h) = edges s h"
  "edges s (noteEngagedTargetRemoved i h) = edges s h"
  "edges s (noteCombatRound ev h) = edges s h"
  by (simp_all add: emitTargetDeathEdge_def noteEngagedTargetRemoved_def Let_def split: option.splits)
     (simp add: edges_def noteCombatRound_def Let_def split: event.splits)

lemma edges_other [simp]:
  "edges s (emitItemGainedDeltas env c h) = edges s h"
  "edges s (emitEquipmentChanges env e h) = edges s h"
  by (simp_all add: emitItemGainedDeltas_def emitEquipmentChanges_def Let_def edges_fold)

lemma edges_sleep [simp]:
  "edges s (answerSleepWord h) = edges s h" "edges s (onSleepScreen h) = edges s h"
  "edges s (onSleepFatigue v h) = edges s h" "edges s (onStopSleep h) = edges s h"
  by (simp_all add: edges_def answerSleepWord_def onSleepScreen_def onSleepFatigue_def
      onStopSleep_def Let_def split: sum.splits)

text \<open>What a subscriber should see of skill \<open>s\<close> when the world goes from \<open>w\<close> to \<open>w'\<close>.\<close>

definition skill_edges :: "nat \<Rightarrow> World \<Rightarrow> World \<Rightarrow> published list" where
  "skill_edges s w w' =
     (let old = SkillXP (int s) (wSelf w); new = SkillXP (int s) (wSelf w');
          oldm = SkillMax (int s) (wSelf w); newm = SkillMax (int s) (wSelf w')
      in (if new > old then [XPGain (int s) (new - old) new] else []) @
         (if newm > oldm then [LevelUp (int s) newm] else []))"

lemma skill_edges_none: "skills_of w' = skills_of w \<Longrightarrow> skill_edges s w w' = []"
  by (simp add: skill_edges_def skills_of_def SkillXP_def SkillMax_def)

lemma edges_world [simp]:
  "hWorld (emitItemGainedDeltas env c h) = hWorld h" "hWorld (emitXPGainDeltas x h) = hWorld h"
  "hWorld (emitLevelUpDeltas x h) = hWorld h" "hWorld (emitEquipmentChanges env e h) = hWorld h"
  using quiet_edges [OF quiet_refl, of h] by (simp_all add: quiet_def)

lemma edges_loop:
  assumes "\<And>i g. skill_edge s (mk i g) = (i = s)"
    and "\<And>i g ev. gain i (Publish ev g) = gain i g" "\<And>i g ev. mk i (Publish ev g) = mk i g"
  shows "edges s (fold (\<lambda>i h. if gain i h then Publish (mk i h) h else h) [0..<n] h) =
    edges s h @ (if s < n \<and> gain s h then [mk s h] else [])"
proof (induction n)
  case 0
  then show ?case by simp
next
  case (Suc n)
  let ?f = "\<lambda>i h. if gain i h then Publish (mk i h) h else h"
  have "gain i (fold ?f xs g) = gain i g \<and> mk i (fold ?f xs g) = mk i g" for i xs g
    by (induction xs arbitrary: g) (simp_all add: assms(2,3))
  then show ?case
    using Suc by (auto simp: less_Suc_eq assms(1))
qed

lemma edges_gain:
  assumes "s < NumSkills"
  shows "edges s (emitXPGainDeltas prev h) =
    edges s h @ (let t = SkillXP (int s) (wSelf (hWorld h)) in
      if t > prev (int s) then [XPGain (int s) (t - prev (int s)) t] else [])"
    and "edges s (emitLevelUpDeltas prev h) =
    edges s h @ (let m = SkillMax (int s) (wSelf (hWorld h)) in
      if m > prev (int s) then [LevelUp (int s) m] else [])"
  using assms
    edges_loop [of s "\<lambda>i h. XPGain (int i) (SkillXP (int i) (wSelf (hWorld h)) - prev (int i)) (SkillXP (int i) (wSelf (hWorld h)))"
      "\<lambda>i h. SkillXP (int i) (wSelf (hWorld h)) - prev (int i) > 0" NumSkills h]
    edges_loop [of s "\<lambda>i h. LevelUp (int i) (SkillMax (int i) (wSelf (hWorld h)))"
      "\<lambda>i h. SkillMax (int i) (wSelf (hWorld h)) > prev (int i)" NumSkills h]
  by (simp_all add: emitXPGainDeltas_def emitLevelUpDeltas_def Let_def)

text \<open>One event: the edges are those of the world's change.\<close>

definition reports :: "nat \<Rightarrow> Host \<Rightarrow> Host option \<Rightarrow> bool" where
  "reports s h r \<longleftrightarrow>
     (case r of None \<Rightarrow> True
      | Some h' \<Rightarrow> edges s h' = edges s h @ skill_edges s (hWorld h) (hWorld h'))"

definition unchanged :: "nat \<Rightarrow> Host \<Rightarrow> Host option \<Rightarrow> bool" where
  "unchanged s h r \<longleftrightarrow>
     (case r of None \<Rightarrow> True
      | Some h' \<Rightarrow> edges s h' = edges s h \<and> skills_of (hWorld h') = skills_of (hWorld h))"

lemma unchanged_reports: "unchanged s h r \<Longrightarrow> reports s h r"
  by (simp add: unchanged_def reports_def skill_edges_none split: option.splits)

lemma applies_skills:
  "applies now ev h (Some h') \<Longrightarrow> keeps_xp ev \<Longrightarrow> skills_of (hWorld h') = skills_of (hWorld h)"
  using Apply_skills by (fastforce simp: applies_def quiet_def split: option.splits)

lemma aware_edges: "applyCombatAware now ev h = Some h' \<Longrightarrow> edges s h' = edges s h"
  by (auto simp: applyCombatAware_def apply_world_def Let_def split: event.splits if_splits)

lemma publish_edges: "apply_publish now ev h = Some h' \<Longrightarrow> edges s h' = edges s h"
  by (auto simp: apply_publish_def apply_world_def)

lemma aware_publish_edges: "aware_publish now ev h = Some h' \<Longrightarrow> edges s h' = edges s h"
  using aware_edges by (fastforce simp: aware_publish_def)

lemma player_edges: "player_event env now ev h = Some h' \<Longrightarrow> edges s h' = edges s h"
  using aware_publish_edges
  by (cases ev) (auto simp: player_event_def Let_def case_prod_beta publish_edges edges_fold
      split: if_splits)

lemma single_edges:
  assumes "s < NumSkills" "single_event env now ev h = Some h'"
  shows "edges s h' = edges s h @ skill_edges s (hWorld h) (hWorld h')"
proof -
  obtain g where g: "applyCombatAware now ev h = Some g"
    using assms(2) by (auto simp: single_event_def)
  have w: "hWorld h' = hWorld g"
    using assms(2) g by (auto simp: single_event_def Let_def)
  show ?thesis
  proof (cases "keeps_xp ev")
    case True
    have "skills_of (hWorld g) = skills_of (hWorld h)"
      using applies_skills [of now ev h g] applies_aware [of now ev h] g True by simp
    then show ?thesis
      using assms(2) g aware_edges [OF g] True w
      by (auto simp: single_event_def Let_def keeps_xp_def skill_edges_none)
  next
    case False
    then show ?thesis
      using assms g aware_edges [OF g] w
      by (auto simp: single_event_def Let_def keeps_xp_def skill_edges_def edges_gain
          skillXPSnapshot_def skillMaxSnapshot_def)
  qed
qed

lemma each_unchanged:
  assumes "\<And>ev h h'. f ev h = Some h' \<Longrightarrow> edges s h' = edges s h" "\<And>ev h. applies now ev h (f ev h)"
  shows "list_all bystander evs \<Longrightarrow> unchanged s h (each f evs h)"
proof (induction evs arbitrary: h)
  case Nil
  then show ?case by (simp add: unchanged_def)
next
  case (Cons ev evs)
  show ?case
  proof (cases "f ev h")
    case None
    then show ?thesis by (simp add: unchanged_def)
  next
    case (Some g)
    then show ?thesis
      using Cons.prems Cons.IH [of g] Some assms(1) [OF Some] applies_skills [of now ev h g] assms(2) [of ev h] bystander_keeps_xp [of ev]
      by (auto simp: unchanged_def split: option.splits)
  qed
qed

lemma handleFrame_edges:
  assumes "s < NumSkills"
  shows "reports s h (handleFrame env now f h)"
proof -
  let ?p = "Payload f"
  have own: "reports s h (each (apply_publish now) (EvOwnPosition own # map EvNearbyPlayer ns) h)" for own ns
    by (intro unchanged_reports each_unchanged [OF publish_edges applies_publish])
       (simp_all add: bystander_def list_all_iff)
  have players: "reports s h (each (player_event env now) evs h)" if "DecodeUpdatePlayers ?p = Inr evs" for evs
    by (intro unchanged_reports each_unchanged [OF player_edges applies_player mob_updates_other(1) [OF that]])
  have npcs: "reports s h (each (aware_publish now) evs h)" if "DecodeUpdateNpcs ?p = Inr evs" for evs
    by (intro unchanged_reports each_unchanged [OF aware_publish_edges applies_aware_publish mob_updates_other(2) [OF that]])
  have coords: "reports s h (each (aware_publish now) evs h)" if "DecodeNpcCoords ?p x y order = Inr (evs, n)" for x y order evs n
    by (intro unchanged_reports each_unchanged [OF aware_publish_edges applies_aware_publish npc_coords_other [OF that]])
  have screen: "reports s h (map_option onSleepScreen (apply_publish now (SleepScreenAppeared n) h))" for n
    using applies_skills [of now "SleepScreenAppeared n" h] applies_publish [of now "SleepScreenAppeared n" h]
    by (cases "apply_publish now (SleepScreenAppeared n) h")
       (auto simp: reports_def publish_edges keeps_xp_def changes_xp_def skill_edges_none)
  have stop: "reports s h (apply_publish now SleepEnded (onStopSleep h))"
    using applies_skills [of now SleepEnded "onStopSleep h"] applies_publish [of now SleepEnded "onStopSleep h"]
    by (cases "apply_publish now SleepEnded (onStopSleep h)")
       (auto simp: reports_def publish_edges keeps_xp_def changes_xp_def skill_edges_none)
  have single: "reports s h (single_event env now ev h)" for ev
    using single_edges [OF assms] by (auto simp: reports_def split: option.splits)
  have idle: "reports s h (Some h)" "reports s h (Some (Publish (Pub ev) h))"
    "reports s h (Some (onSleepFatigue v (Publish (Pub ev) h)))" for ev v
    by (simp_all add: reports_def skill_edges_none)
  show ?thesis
    using own players npcs coords screen stop single idle
    unfolding handleFrame_def Let_def
    by (auto simp del: each.simps split: sum.splits prod.splits event.splits)
qed

text \<open>
  C7. One frame, one report per skill: for every frame that can arrive and every skill, the experience
  and level events the frame publishes are exactly those of the skill's change, in this order: one
  gain with the difference and the new total if the experience rose, one level-up with the new
  level if the maximum rose, and nothing otherwise. A level-up packet is not counted as a gain twice,
  and no packet about other mobs can make one up.
\<close>

theorem skill_events_exact:
  assumes "handleFrame env now f h = Some h'" and "s < NumSkills"
  shows "filter (skill_edge s) (hBus h') =
    filter (skill_edge s) (hBus h) @ skill_edges s (hWorld h) (hWorld h')"
  using handleFrame_edges [OF assms(2), of h env now f] assms(1) by (simp add: reports_def edges_def)

theorem skill_events_exact_witness:
  "\<exists>h'. handleFrame bare_env 7 \<lparr>Opcode = 33, Payload = [14, 0, 0, 1, 44]\<rparr> (new_host (lit ''me'')) = Some h' \<and>
     filter (skill_edge 14) (hBus h') = [XPGain 14 300 300]"
proof -
  let ?f = "\<lparr>Opcode = 33, Payload = [14, 0, 0, 1, 44 :: byte]\<rparr>"
  have dec: "DecodeInbound ?f st = Inr (ExperienceGain 14 300)" for st
    by (simp add: DecodeInbound_def decodeExperience_def wire_simps be32_def)
  obtain h' where h': "handleFrame bare_env 7 ?f (new_host (lit ''me'')) = Some h'"
      "SkillXP 14 (wSelf (hWorld h')) = 300" "SkillMax 14 (wSelf (hWorld h')) = 0"
    by (simp add: handleFrame_def dec single_event_def applyCombatAware_def apply_world_def
        Apply_def new_host_def NewWorld_def NewSelf_def SkillXP_def SkillMax_def skill_at_def SetSkill_def NumSkills_def Let_def
        changes_inventory_def changes_xp_def noteCombatRound_def)
  with skill_events_exact [OF h'(1), of 14] show ?thesis
    by (simp add: NumSkills_def skill_edges_def new_host_def NewWorld_def NewSelf_def SkillXP_def SkillMax_def
        skill_at_def)
qed

end
