(* ===== verification/HostBag.thy ===== *)
theory HostBag
  imports HostEdges
begin

text \<open>
  The inventory mirror against the server's own list: frames of opcode 53 (the whole list), 90 (one
  slot) and 123 (a slot removed), between any other traffic, keep the two equal.
\<close>

section \<open>Everything else leaves the inventory alone\<close>

lemma bag_updates [simp]:
  "wInventory (apply_appearance now e w) = wInventory w"
  "wInventory (apply_projectile now p w) = wInventory w"
  by (simp_all add: apply_appearance_def apply_projectile_def Let_def)

lemma bag_clears [simp]: "wInventory (fold (apply_clear pos) ps w) = wInventory w"
  by (induction ps arbitrary: w) (simp_all add: apply_clear_def Let_def)

definition keeps_bag :: "event \<Rightarrow> bool" where
  "keeps_bag ev \<longleftrightarrow>
     (case ev of InventorySnapshot _ \<Rightarrow> False | InventorySlotUpdate _ _ \<Rightarrow> False
      | InventoryRemoveSlot _ \<Rightarrow> False | _ \<Rightarrow> True)"

lemma Apply_bag:
  assumes "Apply now ev w = Some (w', b)" "keeps_bag ev"
  shows "wInventory w' = wInventory w"
  using assms by (cases ev) (auto simp: Apply_def Let_def keeps_bag_def)

lemma bystander_keeps_bag: "bystander ev \<Longrightarrow> keeps_bag ev"
  by (auto simp: bystander_def keeps_bag_def split: event.splits)

lemma decoded_text_bag:
  "decodeServerMessage p = Inr ev \<Longrightarrow> keeps_bag ev" "decodePrivateMessage p = Inr ev \<Longrightarrow> keeps_bag ev"
  "decodeNpcDialogText p = Inr ev \<Longrightarrow> keeps_bag ev" "decodeNpcDialogOptions p = Inr ev \<Longrightarrow> keeps_bag ev"
  "decodeWelcomeInfo p = Inr ev \<Longrightarrow> keeps_bag ev"
  by (auto simp: decodeServerMessage_def decodePrivateMessage_def decodeNpcDialogText_def
      decodeNpcDialogOptions_def decodeWelcomeInfo_def classify_message_def keeps_bag_def Let_def
      case_prod_beta split: if_splits sum.splits prod.splits)

lemma decoded_stats_bag:
  "decodeStat p = Inr ev \<Longrightarrow> keeps_bag ev" "decodeStats p = Inr ev \<Longrightarrow> keeps_bag ev"
  "decodeExperience p = Inr ev \<Longrightarrow> keeps_bag ev" "decodeFatigue p = Inr ev \<Longrightarrow> keeps_bag ev"
  "decodeSleepFatigue p = Inr ev \<Longrightarrow> keeps_bag ev"
  "decodeBankOpen p = Inr ev \<Longrightarrow> keeps_bag ev" "decodeBankUpdate p = Inr ev \<Longrightarrow> keeps_bag ev"
  "decodeShopOpen p = Inr ev \<Longrightarrow> keeps_bag ev"
  by (auto simp: decodeStat_def decodeStats_def decodeExperience_def decodeFatigue_def
      decodeSleepFatigue_def decodeBankOpen_def decodeBankUpdate_def decodeShopOpen_def
      keeps_bag_def Let_def case_prod_beta split: if_splits sum.splits prod.splits)

lemma decoded_deals_bag:
  "decodeTradeConfirmShown p = Inr ev \<Longrightarrow> keeps_bag ev" "decodeTradeOtherItems p = Inr ev \<Longrightarrow> keeps_bag ev"
  "decodeDuelOtherItems p = Inr ev \<Longrightarrow> keeps_bag ev" "decodeDuelSettings p = Inr ev \<Longrightarrow> keeps_bag ev"
  "decodeDuelConfirmWindow p = Inr ev \<Longrightarrow> keeps_bag ev" "keeps_bag (decodeTradeWindow op p)"
  by (auto simp: decodeTradeConfirmShown_def decodeTradeOtherItems_def decodeDuelOtherItems_def
      decodeDuelSettings_def decodeDuelConfirmWindow_def decodeTradeWindow_def keeps_bag_def Let_def
      case_prod_beta split: if_splits sum.splits prod.splits)

lemma decoded_tiles_bag:
  "decodeGroundItem p = Inr ev \<Longrightarrow> keeps_bag ev" "decodeRemoveWorldEntity p = Inr ev \<Longrightarrow> keeps_bag ev"
  "decodeBoundaryUpdates p = Inr ev \<Longrightarrow> keeps_bag ev" "decodeSceneryUpdates p = Inr ev \<Longrightarrow> keeps_bag ev"
  by (auto simp: decodeGroundItem_def decodeRemoveWorldEntity_def decodeBoundaryUpdates_def
      decodeSceneryUpdates_def keeps_bag_def Let_def case_prod_beta
      split: if_splits sum.splits prod.splits)

lemmas decoded_bag = decoded_text_bag decoded_stats_bag decoded_deals_bag decoded_tiles_bag

lemma plain_event_bag:
  "keeps_bag (PrayersActive bs)" "keeps_bag (DuelOpened i)"
  "keeps_bag SleepwordIncorrect" "keeps_bag LogoutConfirm" "keeps_bag Death" "keeps_bag (SleepScreenAppeared n)"
  "keeps_bag SleepEnded" "keeps_bag (TradeClosed c)" "keeps_bag TradeOtherAccepted" "keeps_bag (UnknownPacket op n)"
  "keeps_bag DuelOtherAccepted" "keeps_bag BankClosed" "keeps_bag ShopClosed" "keeps_bag (DuelClosed c)"
  "keeps_bag (EvOwnPosition own)" "keeps_bag (EvNearbyPlayer np)"
  by (simp_all add: keeps_bag_def)

lemma player_coords_bag:
  "(case DecodePlayerCoords p of Inl _ \<Rightarrow> Inr (UnknownPacket op n) | Inr (own, _) \<Rightarrow> Inr (EvOwnPosition own)) =
     (Inr ev :: goerr + event) \<Longrightarrow> keeps_bag ev"
  by (auto simp: plain_event_bag split: sum.splits prod.splits)

lemma first_event_bag:
  "(\<And>evs. r = Inr evs \<Longrightarrow> list_all bystander evs) \<Longrightarrow> keeps_bag (first_event op p r)"
  by (auto simp: first_event_def plain_event_bag bystander_keeps_bag split: sum.splits list.splits)

lemma if_casesE:
  "(if c then x else y) = r \<Longrightarrow> (c \<Longrightarrow> x = r \<Longrightarrow> P) \<Longrightarrow> (\<not> c \<Longrightarrow> y = r \<Longrightarrow> P) \<Longrightarrow> P"
  by (cases c) auto

lemma DecodeInbound_bag:
  "DecodeInbound f st = Inr ev \<Longrightarrow> Opcode f \<noteq> 53 \<Longrightarrow> Opcode f \<noteq> 90 \<Longrightarrow> Opcode f \<noteq> 123 \<Longrightarrow> keeps_bag ev"
  unfolding DecodeInbound_def Let_def
  by (elim if_casesE)
     (erule decoded_bag player_coords_bag |
      erule (1) notE |
      simp only: sum.inject, drule sym,
      simp only: plain_event_bag decoded_deals_bag first_event_bag mob_updates_other)+

section \<open>The server's list and the mirror\<close>

definition holds :: "InventoryItem list \<Rightarrow> Host \<Rightarrow> bool" where
  "holds its h \<longleftrightarrow> invSlots (wInventory (hWorld h)) = map inv_slot its"

lemma applies_bag:
  "applies now ev h (Some h') \<Longrightarrow> keeps_bag ev \<Longrightarrow> wInventory (hWorld h') = wInventory (hWorld h)"
  using Apply_bag by (fastforce simp: applies_def quiet_def split: option.splits)

lemma each_bag:
  assumes "\<And>ev h. applies now ev h (f ev h)"
  shows "list_all bystander evs \<Longrightarrow> each f evs h = Some h' \<Longrightarrow> wInventory (hWorld h') = wInventory (hWorld h)"
proof (induction evs arbitrary: h)
  case Nil
  then show ?case by simp
next
  case (Cons ev evs)
  then obtain g where g: "f ev h = Some g" "each f evs g = Some h'"
    by (auto split: option.splits)
  then show ?case
    using Cons.IH [of g] Cons.prems(1) applies_bag [of now ev h g] assms [of ev h]
      bystander_keeps_bag [of ev] by simp
qed

lemma handleFrame_bag:
  assumes "handleFrame env now f h = Some h'" "Opcode f \<notin> {53, 90, 123}"
  shows "wInventory (hWorld h') = wInventory (hWorld h)"
proof -
  let ?p = "Payload f" and ?same = "wInventory (hWorld h') = wInventory (hWorld h)"
  have own: "?same" if "each (apply_publish now) (EvOwnPosition own # map EvNearbyPlayer ns) h = Some h'" for own ns
    by (rule each_bag [OF applies_publish _ that]) (simp add: bystander_def list_all_iff)
  have players: "?same" if "DecodeUpdatePlayers ?p = Inr evs" "each (player_event env now) evs h = Some h'" for evs
    by (rule each_bag [OF applies_player mob_updates_other(1) [OF that(1)] that(2)])
  have npcs: "?same" if "DecodeUpdateNpcs ?p = Inr evs" "each (aware_publish now) evs h = Some h'" for evs
    by (rule each_bag [OF applies_aware_publish mob_updates_other(2) [OF that(1)] that(2)])
  have coords: "?same" if "DecodeNpcCoords ?p x y order = Inr (evs, n)" "each (aware_publish now) evs h = Some h'" for x y order evs n
    by (rule each_bag [OF applies_aware_publish npc_coords_other [OF that(1)] that(2)])
  have one: "wInventory (hWorld g) = wInventory (hWorld k)" if "apply_publish now ev k = Some g" "keeps_bag ev" for ev g k
    using applies_bag [of now ev k g] applies_publish [of now ev k] that by simp
  have single: "?same" if "single_event env now ev h = Some h'" "keeps_bag ev" for ev
    using applies_bag [of now ev h h'] applies_single [of now ev h env] that by simp
  show ?thesis
    using assms own players npcs coords single DecodeInbound_bag [of f]
      one [of "SleepScreenAppeared (int (length ?p))" h] one [of SleepEnded "onStopSleep h"]
    unfolding handleFrame_def Let_def
    by (auto simp del: each.simps simp: plain_event_bag split: if_splits sum.splits prod.splits event.splits)
qed

abbreviation host_stack :: "HostEnv \<Rightarrow> (int \<Rightarrow> bool) option" where
  "host_stack env \<equiv> Some (isStackableItem env)"

definition full_frame :: "HostEnv \<Rightarrow> InventoryItem list \<Rightarrow> byte list \<Rightarrow> Frame" where
  "full_frame env its junk = \<lparr>Opcode = 53,
     Payload = of_nat (length its) # concat (map (item_bytes (host_stack env)) its) @ junk\<rparr>"

definition slot_frame :: "HostEnv \<Rightarrow> nat \<Rightarrow> InventoryItem \<Rightarrow> byte list \<Rightarrow> Frame" where
  "slot_frame env i it junk = \<lparr>Opcode = 90, Payload = of_nat i # item_bytes (host_stack env) it @ junk\<rparr>"

definition remove_frame :: "nat \<Rightarrow> byte list \<Rightarrow> Frame" where
  "remove_frame i junk = \<lparr>Opcode = 123, Payload = of_nat i # junk\<rparr>"

lemma slot_decoded:
  assumes "item_ok (host_stack env) it" "raw_item it \<noteq> 0" "i < 256"
  shows "DecodeInbound (slot_frame env i it junk) (host_stack env) = Inr (InventorySlotUpdate (int i) (Some it))"
proof -
  have i: "uint (of_nat i :: byte) = int i" using assms(3) by (simp add: uint_nat unat_of_nat)
  show ?thesis
    using item_of_raw_reading [OF assms(1), of "of_nat i # put16 (raw_item it)" junk] assms(2) i
    by (simp add: slot_frame_def DecodeInbound_def decodeInventorySlotUpdate_def item_bytes_def wire_simps)
qed

lemma remove_decoded:
  assumes "i < 256"
  shows "DecodeInbound (remove_frame i junk) st = Inr (InventoryRemoveSlot (int i))"
proof -
  have "uint (of_nat i :: byte) = int i" using assms by (simp add: uint_nat unat_of_nat)
  then show ?thesis
    by (simp add: remove_frame_def DecodeInbound_def wire_simps)
qed

lemma handleFrame_single:
  assumes "Opcode f \<in> {53, 90, 123}"
  shows "handleFrame env now f h =
    (case DecodeInbound f (host_stack env) of Inl _ \<Rightarrow> Some h | Inr ev \<Rightarrow> single_event env now ev h)"
proof -
  have "Opcode f \<noteq> 191 \<and> Opcode f \<noteq> 234 \<and> Opcode f \<noteq> 104 \<and> Opcode f \<noteq> 79 \<and> Opcode f \<noteq> 117 \<and>
      Opcode f \<noteq> 244 \<and> Opcode f \<noteq> 84 \<and> Opcode f \<noteq> 194"
    using assms by (elim insertE emptyE) simp_all
  then show ?thesis
    by (simp add: handleFrame_def Let_def)
qed

lemma single_world:
  assumes "handleFrame env now f h = Some h'" "DecodeInbound f (host_stack env) = Inr ev"
    "Opcode f \<in> {53, 90, 123}" "Apply now ev (hWorld h) = Some (w, b)"
  shows "hWorld h' = w"
  using assms applies_single [of now ev h env] unfolding handleFrame_single [OF assms(3)]
  by (simp add: applies_def quiet_def)

lemma full_holds:
  assumes "handleFrame env now (full_frame env its junk) h = Some h'"
    "\<forall>it \<in> set its. item_ok (host_stack env) it" "length its < 256"
  shows "holds its h'"
proof -
  have "Apply now (InventorySnapshot its) (hWorld h) =
      Some ((hWorld h)\<lparr>wInventory := InvReplace (map inv_slot its) (wInventory (hWorld h))\<rparr>, True)"
    by (simp add: Apply_def)
  from single_world [OF assms(1) _ _ this] show ?thesis
    using inventory_frame [OF assms(2,3)] by (simp add: full_frame_def holds_def InvReplace_def)
qed

lemma slot_holds:
  assumes "handleFrame env now (slot_frame env i it junk) h = Some h'"
    "item_ok (host_stack env) it" "raw_item it \<noteq> 0" "i < 256" "i \<le> length its" "holds its h"
  shows "holds (if i < length its then its[i := it] else its @ [it]) h'"
proof -
  let ?its = "if i < length its then its[i := it] else its @ [it]"
  have "grow_set empty_slot (int i) (inv_slot it) (map inv_slot its) = Some (map inv_slot ?its)"
    using assms(5) grow_set_in [of "int i" "map inv_slot its"] grow_set_end [of "int i" "map inv_slot its"]
    by (auto simp: map_update)
  then have "Apply now (InventorySlotUpdate (int i) (Some it)) (hWorld h) =
      Some ((hWorld h)\<lparr>wInventory := (wInventory (hWorld h))\<lparr>invSlots := map inv_slot ?its\<rparr>\<rparr>, True)"
    using assms(6) by (simp add: Apply_def InvSet_def holds_def)
  from single_world [OF assms(1) slot_decoded [OF assms(2-4)] _ this] show ?thesis
    by (simp add: slot_frame_def holds_def)
qed

lemma remove_holds:
  assumes "handleFrame env now (remove_frame i junk) h = Some h'" "i < 256" "i < length its" "holds its h"
  shows "holds (drop_slot i its) h'"
proof -
  have "Apply now (InventoryRemoveSlot (int i)) (hWorld h) =
      Some ((hWorld h)\<lparr>wInventory := (wInventory (hWorld h))\<lparr>invSlots := map inv_slot (drop_slot i its)\<rparr>\<rparr>, True)"
    using assms(3,4) by (simp add: Apply_def RemoveSlot_def holds_def drop_slot_def take_map drop_map)
  from single_world [OF assms(1) remove_decoded [OF assms(2)] _ this] show ?thesis
    by (simp add: remove_frame_def holds_def)
qed

text \<open>
  A session, as the pairs of the server's list and the host it leads to: the server replaces the list,
  writes a slot (an existing one or the next), removes one, or anything else happens on the host,
  including every other frame, timers and attacks.
\<close>

definition other_step :: "host_step \<Rightarrow> bool" where
  "other_step st \<longleftrightarrow> (case st of Arrives _ f \<Rightarrow> Opcode f \<notin> {53, 90, 123} | _ \<Rightarrow> True)"

inductive bag_session :: "HostEnv \<Rightarrow> InventoryItem list \<Rightarrow> Host \<Rightarrow> bool" for env where
  start: "bag_session env [] (new_host user)"
| full: "bag_session env its h \<Longrightarrow> \<forall>it \<in> set new. item_ok (host_stack env) it \<Longrightarrow> length new < 256 \<Longrightarrow>
    run_step env (Arrives now (full_frame env new junk)) h = Some h' \<Longrightarrow> bag_session env new h'"
| slot: "bag_session env its h \<Longrightarrow> item_ok (host_stack env) it \<Longrightarrow> raw_item it \<noteq> 0 \<Longrightarrow> i \<le> length its \<Longrightarrow> i < 256 \<Longrightarrow>
    run_step env (Arrives now (slot_frame env i it junk)) h = Some h' \<Longrightarrow>
    bag_session env (if i < length its then its[i := it] else its @ [it]) h'"
| remove: "bag_session env its h \<Longrightarrow> i < length its \<Longrightarrow> i < 256 \<Longrightarrow>
    run_step env (Arrives now (remove_frame i junk)) h = Some h' \<Longrightarrow> bag_session env (drop_slot i its) h'"
| other: "bag_session env its h \<Longrightarrow> other_step st \<Longrightarrow> run_step env st h = Some h' \<Longrightarrow> bag_session env its h'"

lemma other_bag:
  "other_step st \<Longrightarrow> run_step env st h = Some h' \<Longrightarrow> wInventory (hWorld h') = wInventory (hWorld h)"
  by (cases st)
     (auto simp: other_step_def handleFrame_bag attack_npc_def attack_player_def beginCombatRoundTracking_def)

lemma bag_session_holds: "bag_session env its h \<Longrightarrow> holds its h"
proof (induction rule: bag_session.induct)
  case (start user)
  then show ?case by (simp add: holds_def new_host_def NewWorld_def NewInventory_def)
next
  case (full its h new now junk h')
  then show ?case using full_holds by simp
next
  case (slot its h it i now junk h')
  then show ?case using slot_holds [of env now i it junk h h' its] by simp
next
  case (remove its h i now junk h')
  then show ?case using remove_holds [of env now i junk h h' its] by simp
next
  case (other its h st h')
  then show ?case using other_bag by (simp add: holds_def)
qed

text \<open>
  C5. The inventory mirror is never out of step: through any session in which the server replaces,
  writes and removes slots in its own layout, with any other frames, timers and attacks in between,
  the mirror lists exactly the server's items in the server's order, so a count of an item
  (\<open>Count\<close>) is the number the server would give. An unworn item with catalogue id 0 cannot be written
  to a slot: it is the encoding of an empty slot.
\<close>

theorem inventory_mirror_in_sync:
  assumes "bag_session env its h"
  shows "Slots (wInventory (hWorld h)) = map inv_slot its \<and>
    InvCount i (wInventory (hWorld h)) = sum_list (map itemAmount (filter (\<lambda>it. itemID it = i) its))"
  using bag_session_holds [OF assms]
  by (simp add: holds_def Slots_def InvCount_sum filter_map comp_def inv_slot_def)

theorem inventory_mirror_in_sync_witness:
  "\<exists>h. bag_session bare_env [\<lparr>itemID = 87, itemAmount = 1, itemWielded = True\<rparr>] h \<and>
     Slots (wInventory (hWorld h)) = [\<lparr>invItemID = 87, invAmount = 1, invWielded = True\<rparr>] \<and>
     InvCount 87 (wInventory (hWorld h)) = 1"
proof -
  let ?it = "\<lparr>itemID = 87, itemAmount = 1, itemWielded = True\<rparr>"
  have ok: "item_ok (host_stack bare_env) ?it" "raw_item ?it \<noteq> 0"
    by (simp_all add: item_ok_def stackable_def bare_env_def isStackableItem_def raw_item_def)
  obtain h where "run_step bare_env (Arrives 1 (slot_frame bare_env 0 ?it [])) (new_host []) = Some h"
    using handleFrame_fine [OF host_wf_new, of bare_env 1 "slot_frame bare_env 0 ?it []" "[]"]
    by (auto split: option.splits)
  from bag_session.slot [OF bag_session.start ok _ _ this] have "bag_session bare_env [?it] h"
    by simp
  with inventory_mirror_in_sync [OF this, of 87] show ?thesis
    by (auto simp: inv_slot_def)
qed

text \<open>
  The exception of the property above, as the code behaves: a slot update that gives us an unworn item
  with catalogue id 0 (an Iron Mace in \<open>facts\<close>) is read as an empty slot.
\<close>

lemma item_zero_slot_lost:
  assumes "handleFrame env now (slot_frame env i \<lparr>itemID = 0, itemAmount = 1, itemWielded = False\<rparr> []) h = Some h'"
    and "\<not> isStackableItem env 0" "i < 256" "i < length (invSlots (wInventory (hWorld h)))"
  shows "invSlots (wInventory (hWorld h')) ! i = empty_slot"
proof -
  have i: "uint (of_nat i :: byte) = int i" using assms(3) by (simp add: uint_nat unat_of_nat)
  have "DecodeInbound (slot_frame env i \<lparr>itemID = 0, itemAmount = 1, itemWielded = False\<rparr> []) (host_stack env) =
      Inr (InventorySlotUpdate (int i) None)"
    using i assms(2) by (simp add: slot_frame_def DecodeInbound_def decodeInventorySlotUpdate_def item_bytes_def
        stackable_def raw_item_def put16_def wire_simps be16_def)
  moreover have "Apply now (InventorySlotUpdate (int i) None) (hWorld h) =
      Some ((hWorld h)\<lparr>wInventory := (wInventory (hWorld h))\<lparr>invSlots :=
        (invSlots (wInventory (hWorld h)))[i := empty_slot]\<rparr>\<rparr>, True)"
    using assms(4) by (simp add: Apply_def InvSet_def grow_set_in)
  ultimately show ?thesis
    using single_world [OF assms(1)] assms(4) by (simp add: slot_frame_def)
qed

end
