(* ===== verification/HostDeals.thy ===== *)
theory HostDeals
  imports HostFrame
begin

text \<open>
  The trade and duel verbs of a host (\<open>runtime/trade.go\<close>, \<open>runtime/duel.go\<close>): how they combine the
  packets of the action layer with the deal windows of the world mirror, and what a whole handshake
  leads to. \<open>conn\<close> is the error of the connection, if it refuses the packet. The verbs that first
  walk to the other player (\<open>InitTradeRequest\<close>, \<open>InitDuelRequest\<close>) are not modelled here.
\<close>

section \<open>The verbs\<close>

definition dispatch :: "goerr option \<Rightarrow> action \<Rightarrow> Host \<Rightarrow> Host \<times> goerr option" where
  "dispatch conn act h =
     (case act of
        Inl e \<Rightarrow> (h, Some e)
      | Inr packets \<Rightarrow>
          (case conn of
             Some e \<Rightarrow> (h, Some e)
           | None \<Rightarrow> (h\<lparr>hSent := hSent h @ packets\<rparr>, None)))"

definition on_trade :: "(TradeState \<Rightarrow> TradeState) \<Rightarrow> Host \<Rightarrow> Host" where
  "on_trade f h = h\<lparr>hWorld := (hWorld h)\<lparr>wTrade := f (wTrade (hWorld h))\<rparr>\<rparr>"

definition on_duel :: "(DuelState \<Rightarrow> DuelState) \<Rightarrow> Host \<Rightarrow> Host" where
  "on_duel f h = h\<lparr>hWorld := (hWorld h)\<lparr>wDuel := f (wDuel (hWorld h))\<rparr>\<rparr>"

definition AcceptIncomingTrade :: "gotime \<Rightarrow> goerr option \<Rightarrow> int \<Rightarrow> Host \<Rightarrow> Host \<times> goerr option" where
  "AcceptIncomingTrade now conn i h =
     dispatch conn (InitTradeRequest i)
       (on_trade (TradeBeginRequest now i (name_of i (wPlayers (hWorld h)))) h)"

definition HostDeclineTrade :: "gotime \<Rightarrow> goerr option \<Rightarrow> Host \<Rightarrow> Host \<times> goerr option" where
  "HostDeclineTrade now conn h = dispatch conn DeclineTrade (on_trade (TradeMarkClosed now False) h)"

definition action_items :: "WorldDeals.TradeItem list \<Rightarrow> Action.TradeItem list" where
  "action_items = map (\<lambda>it. \<lparr>CatalogID = tiItemID it, Amount = tiAmount it\<rparr>)"

definition HostOfferTradeItems ::
    "gotime \<Rightarrow> goerr option \<Rightarrow> WorldDeals.TradeItem list \<Rightarrow> Host \<Rightarrow> Host \<times> goerr option" where
  "HostOfferTradeItems now conn items h =
     (case dispatch conn (OfferTradeItems (action_items items)) h of
        (h, Some e) \<Rightarrow> (h, Some e)
      | (h, None) \<Rightarrow> (on_trade (TradeSetMyOffer now items) h, None))"

definition ConfirmTrade :: "gotime \<Rightarrow> goerr option \<Rightarrow> Host \<Rightarrow> Host \<times> goerr option" where
  "ConfirmTrade now conn h =
     (case wTrade (hWorld h) of
        None \<Rightarrow> (h, Some (ErrMsg ''ConfirmTrade: no active trade'' []))
      | Some t \<Rightarrow>
          (if \<not> tMyFirst t then dispatch conn AcceptTradeOffer (on_trade (TradeMarkMyFirstAccepted now) h)
           else (h, None)))"

definition FinalizeTrade :: "gotime \<Rightarrow> goerr option \<Rightarrow> Host \<Rightarrow> Host \<times> goerr option" where
  "FinalizeTrade now conn h =
     (case wTrade (hWorld h) of
        None \<Rightarrow> (h, Some (ErrMsg ''FinalizeTrade: no active trade'' []))
      | Some t \<Rightarrow>
          (if \<not> tMyFirst t then
             (h, Some (ErrMsg ''FinalizeTrade: accept the offer screen first (call confirm_trade)'' []))
           else if \<not> tMySecond t then dispatch conn AcceptTradeConfirm (on_trade (TradeMarkMySecondAccepted now) h)
           else (h, None)))"

definition AcceptIncomingDuel :: "gotime \<Rightarrow> goerr option \<Rightarrow> int \<Rightarrow> Host \<Rightarrow> Host \<times> goerr option" where
  "AcceptIncomingDuel now conn i h =
     dispatch conn (InitDuelRequest i)
       (on_duel (DuelBeginRequest now i (name_of i (wPlayers (hWorld h)))) h)"

definition HostDeclineDuel :: "gotime \<Rightarrow> goerr option \<Rightarrow> Host \<Rightarrow> Host \<times> goerr option" where
  "HostDeclineDuel now conn h = dispatch conn DeclineDuel (on_duel (DuelMarkClosed now False) h)"

definition HostOfferDuelItems ::
    "gotime \<Rightarrow> goerr option \<Rightarrow> WorldDeals.TradeItem list \<Rightarrow> Host \<Rightarrow> Host \<times> goerr option" where
  "HostOfferDuelItems now conn items h =
     (case dispatch conn (OfferDuelItems (action_items items)) h of
        (h, Some e) \<Rightarrow> (h, Some e)
      | (h, None) \<Rightarrow> (on_duel (DuelSetMyOffer now items) h, None))"

definition action_rules :: "WorldDeals.DuelRules \<Rightarrow> Action.DuelRules" where
  "action_rules r = \<lparr>DisallowRetreat = drRetreat r, DisallowMagic = drMagic r,
     DisallowPrayer = drPrayer r, DisallowWeapons = drWeapons r\<rparr>"

definition HostSetDuelRules ::
    "gotime \<Rightarrow> goerr option \<Rightarrow> WorldDeals.DuelRules \<Rightarrow> Host \<Rightarrow> Host \<times> goerr option" where
  "HostSetDuelRules now conn r h =
     (case dispatch conn (SetDuelRules (action_rules r)) h of
        (h, Some e) \<Rightarrow> (h, Some e)
      | (h, None) \<Rightarrow> (on_duel (SetRules now r) h, None))"

definition AcceptDuelOffer :: "gotime \<Rightarrow> goerr option \<Rightarrow> Host \<Rightarrow> Host \<times> goerr option" where
  "AcceptDuelOffer now conn h =
     (case wDuel (hWorld h) of
        None \<Rightarrow> (h, Some (ErrMsg ''AcceptDuelOffer: no active duel'' []))
      | Some d \<Rightarrow>
          (case dispatch conn AcceptDuelFirst h of
             (h, Some e) \<Rightarrow> (h, Some e)
           | (h, None) \<Rightarrow> (on_duel (DuelMarkMyFirstAccepted now) h, None)))"

definition AcceptDuelConfirm :: "gotime \<Rightarrow> goerr option \<Rightarrow> Host \<Rightarrow> Host \<times> goerr option" where
  "AcceptDuelConfirm now conn h =
     (case wDuel (hWorld h) of
        None \<Rightarrow> (h, Some (ErrMsg ''AcceptDuelConfirm: no active duel'' []))
      | Some d \<Rightarrow>
          (case dispatch conn AcceptDuelSecond h of
             (h, Some e) \<Rightarrow> (h, Some e)
           | (h, None) \<Rightarrow> (on_duel (DuelMarkMySecondAccepted now) h, None)))"

section \<open>A handshake as a sequence of moves\<close>

datatype deal_move =
    Hears event
  | OffersTrade "WorldDeals.TradeItem list"
  | Confirms
  | Finalizes
  | OffersStake "WorldDeals.TradeItem list"
  | SetsRules "WorldDeals.DuelRules"
  | AcceptsStake
  | AcceptsDuel

fun make_move :: "HostEnv \<Rightarrow> gotime \<Rightarrow> goerr option \<Rightarrow> deal_move \<Rightarrow> Host \<Rightarrow> (Host \<times> goerr option) option" where
  "make_move env now conn (Hears ev) h = map_option (\<lambda>h. (h, None)) (single_event env now ev h)"
| "make_move env now conn (OffersTrade items) h = Some (HostOfferTradeItems now conn items h)"
| "make_move env now conn Confirms h = Some (ConfirmTrade now conn h)"
| "make_move env now conn Finalizes h = Some (FinalizeTrade now conn h)"
| "make_move env now conn (OffersStake items) h = Some (HostOfferDuelItems now conn items h)"
| "make_move env now conn (SetsRules r) h = Some (HostSetDuelRules now conn r h)"
| "make_move env now conn AcceptsStake h = Some (AcceptDuelOffer now conn h)"
| "make_move env now conn AcceptsDuel h = Some (AcceptDuelConfirm now conn h)"

fun deal_run :: "HostEnv \<Rightarrow> gotime \<Rightarrow> deal_move list \<Rightarrow> Host \<Rightarrow> (Host \<times> goerr option list) option" where
  "deal_run env now [] h = Some (h, [])"
| "deal_run env now (m # ms) h =
     (case make_move env now None m h of
        None \<Rightarrow> None
      | Some (h, e) \<Rightarrow>
          (case deal_run env now ms h of None \<Rightarrow> None | Some (h, es) \<Rightarrow> Some (h, e # es)))"

text \<open>Two moves of independent parties, in either order.\<close>

definition either_order :: "bool \<Rightarrow> 'm \<Rightarrow> 'm \<Rightarrow> 'm list" where
  "either_order swapped a b = (if swapped then [b, a] else [a, b])"

lemma deal_events:
  "single_event env now TradeOtherAccepted h =
     Some (Publish (Pub TradeOtherAccepted) (on_trade (TradeMarkOtherFirstAccepted now) h))"
  "single_event env now (EvTradeConfirmShown tc) h =
     Some (Publish (Pub (EvTradeConfirmShown tc)) (on_trade (apply_trade_confirm now tc) h))"
  "single_event env now DuelOtherAccepted h =
     Some (Publish (Pub DuelOtherAccepted) (on_duel (apply_duel_accepted now) h))"
  "single_event env now (EvDuelConfirmShown dc) h =
     Some (Publish (Pub (EvDuelConfirmShown dc)) (on_duel (apply_duel_confirm now dc) h))"
  "single_event env now (DuelClosed c) h =
     Some (Publish (Pub (DuelClosed c)) (on_duel (apply_duel_closed now c) h))"
  by (simp_all add: single_event_def applyCombatAware_def changes_inventory_def changes_xp_def
      noteCombatRound_def Let_def apply_world_def Apply_def on_trade_def on_duel_def)

lemma opened_trade:
  obtains r where "TradeMarkOpened now i name None = Some r" "\<not> tMyFirst r" "\<not> tTheirFirst r"
    "\<not> tMySecond r" "tPhase r = ''open''"
  by (simp add: TradeMarkOpened_def zero_trade_def Let_def)

lemma opened_duel:
  obtains r where "DuelMarkOpened now i name None = Some r" "\<not> dMyFirst r" "\<not> dTheirFirst r"
    "\<not> dMySecond r" "dPhase r = ''open''"
  by (simp add: DuelMarkOpened_def zero_duel_def Let_def)

lemma deal_views [simp]:
  "wTrade (hWorld (on_trade f h)) = f (wTrade (hWorld h))" "hSent (on_trade f h) = hSent h"
  "wDuel (hWorld (on_duel g h)) = g (wDuel (hWorld h))" "hSent (on_duel g h) = hSent h"
  "hWorld (Publish ev h) = hWorld h" "hSent (Publish ev h) = hSent h"
  by (simp_all add: on_trade_def on_duel_def Publish_def)

lemma dispatch_sent [simp]:
  "dispatch None (send op p) h = (h\<lparr>hSent := hSent h @ [\<lparr>opcode = op, payload = p\<rparr>]\<rparr>, None)"
  by (simp add: dispatch_def send_def)

definition not_accepted :: goerr where
  "not_accepted = ErrMsg ''FinalizeTrade: accept the offer screen first (call confirm_trade)'' []"

text \<open>
  C17. The second accept of a trade depends on who accepted first. The trade window is open, both
  players accept the offer screen (\<open>ConfirmTrade\<close>, and the server's notice of the other player's
  accept), the server shows the confirm screen and the routine calls \<open>FinalizeTrade\<close>. If we accepted
  first, packet 104 goes out. If the other player accepted first, our accept already moved the
  mirror to the confirm phase, so handling the confirm screen erases our acceptance and does not
  restore it: \<open>FinalizeTrade\<close> reports that the offer screen was never accepted and sends nothing.
\<close>

theorem finalize_depends_on_order:
  "\<exists>h'. deal_run env now (either_order they_first Confirms (Hears TradeOtherAccepted) @
        [Hears (EvTradeConfirmShown e), Finalizes]) (on_trade (\<lambda>_. TradeMarkOpened now i name None) h) =
      Some (h', [None, None, None, if they_first then Some not_accepted else None]) \<and>
    hSent h' = hSent h @ [\<lparr>opcode = 55, payload = []\<rparr>] @
      (if they_first then [] else [\<lparr>opcode = 104, payload = []\<rparr>])"
proof -
  obtain r where "TradeMarkOpened now i name None = Some r" "\<not> tMyFirst r" "\<not> tTheirFirst r"
    "\<not> tMySecond r" "tPhase r = ''open''"
    by (rule opened_trade)
  then show ?thesis
    by (cases they_first)
       (simp_all add: either_order_def deal_events ConfirmTrade_def FinalizeTrade_def not_accepted_def
         AcceptTradeOffer_def AcceptTradeConfirm_def apply_trade_confirm_def TradeSetTheirOffer_def
         TradeMarkOtherFirstAccepted_def TradeMarkMyFirstAccepted_def TradeMarkMySecondAccepted_def)
qed


end
