(* ===== verification/PathGrid.thy ===== *)
theory PathGrid
  imports Prelude "HOL-Library.Signed_Division"
begin

text \<open>
  The collision grid of the pathfinder: \<open>pathfind/flags.go\<close>, \<open>pathfind/landscape.go\<close>,
  \<open>pathfind/grid.go\<close>, and the parts of \<open>facts/defs.go\<close> and \<open>facts/facts.go\<close> they read. The mask of
  the 96 x 96 grid is a function of the two indices, read and written at indices in range only.
  The landscape archive is a parameter: what reading an entry gives, if the entry exists. The cache
  of decoded sectors is left out, since the archive does not change.
\<close>

unbundle bit_operations_syntax

section \<open>Flags\<close>

abbreviation (input) WallNorth :: int where "WallNorth \<equiv> 1"
abbreviation (input) WallEast :: int where "WallEast \<equiv> 2"
abbreviation (input) WallSouth :: int where "WallSouth \<equiv> 4"
abbreviation (input) WallWest :: int where "WallWest \<equiv> 8"
abbreviation (input) FullBlockA :: int where "FullBlockA \<equiv> 16"
abbreviation (input) FullBlockB :: int where "FullBlockB \<equiv> 32"
abbreviation (input) FullBlockC :: int where "FullBlockC \<equiv> 64"
abbreviation (input) ObjectFlag :: int where "ObjectFlag \<equiv> 128"

definition fullBlock :: int where
  "fullBlock = FullBlockA OR FullBlockB OR FullBlockC"

definition WestBlocked :: int where "WestBlocked = fullBlock OR WallWest"
definition SouthBlocked :: int where "SouthBlocked = fullBlock OR WallSouth"
definition NorthBlocked :: int where "NorthBlocked = fullBlock OR WallNorth"
definition EastBlocked :: int where "EastBlocked = fullBlock OR WallEast"
definition SouthEastBlocked :: int where "SouthEastBlocked = fullBlock OR (WallSouth OR WallEast)"
definition SouthWestBlocked :: int where "SouthWestBlocked = fullBlock OR (WallSouth OR WallWest)"
definition NorthEastBlocked :: int where "NorthEastBlocked = fullBlock OR (WallNorth OR WallEast)"
definition NorthWestBlocked :: int where "NorthWestBlocked = fullBlock OR (WallNorth OR WallWest)"

section \<open>Static data\<close>

record SceneryDef =
  sdefID :: int
  sdefType :: int
  sdefWidth :: int
  sdefHeight :: int

record BoundaryDef =
  bdefDoorType :: int
  bdefUnknown :: int

record SceneryLoc =
  slDefID :: int
  slX :: int
  slY :: int
  slDirection :: int

record BoundaryLoc =
  blDefID :: int
  blX :: int
  blY :: int
  blDirection :: int

record Facts =
  SceneryDefs :: "int \<rightharpoonup> SceneryDef"
  BoundaryDefs :: "int \<rightharpoonup> BoundaryDef"
  SceneryLocs :: "SceneryLoc list"
  BoundaryLocs :: "BoundaryLoc list"
  TileObjectTypes :: "int list"

definition BlocksMovement :: "BoundaryDef option \<Rightarrow> bool" where
  "BlocksMovement d = (case d of None \<Rightarrow> False | Some d \<Rightarrow> bdefDoorType d \<noteq> 0 \<and> bdefUnknown d = 0)"

definition BlocksWhenClosed :: "BoundaryDef option \<Rightarrow> bool" where
  "BlocksWhenClosed d = (case d of None \<Rightarrow> False | Some d \<Rightarrow> bdefDoorType d = 1)"

definition OverlayBlocks :: "Facts \<Rightarrow> int \<Rightarrow> bool" where
  "OverlayBlocks f overlay =
     (let overlay = (if overlay = 250 then 2 else overlay) in
      if overlay \<le> 0 then False
      else if length (TileObjectTypes f) = 0 then overlay = 2 \<or> overlay = 11
      else if overlay - 1 \<ge> int (length (TileObjectTypes f)) then False
      else TileObjectTypes f ! nat (overlay - 1) \<noteq> 0)"

text \<open>The index of the scenery by tile, as the lookup it gives: the locs whose packed key is the same.\<close>

definition tk :: "int \<Rightarrow> int \<Rightarrow> 64 word" where
  "tk x y = push_bit 32 (ucast (word_of_int x :: 32 word)) OR ucast (word_of_int y :: 32 word)"

definition scenery_placements :: "Facts \<Rightarrow> int \<Rightarrow> int \<Rightarrow> SceneryLoc list" where
  "scenery_placements f x y = filter (\<lambda>s. tk (slX s) (slY s) = tk x y) (SceneryLocs f)"

section \<open>The landscape\<close>

definition SectorSize :: int where "SectorSize = 48"

record Tile =
  GroundElevation :: byte
  GroundTexture :: byte
  GroundOverlay :: byte
  RoofTexture :: byte
  HorizontalWall :: byte
  VerticalWall :: byte
  DiagonalWalls :: int

type_synonym Sector = "Tile list"

definition zero_tile :: Tile where
  "zero_tile = \<lparr>GroundElevation = 0, GroundTexture = 0, GroundOverlay = 0, RoofTexture = 0,
     HorizontalWall = 0, VerticalWall = 0, DiagonalWalls = 0\<rparr>"

definition At :: "Sector \<Rightarrow> int \<Rightarrow> int \<Rightarrow> Tile" where
  "At s x y = s ! nat (x * SectorSize + y)"

definition archiveOffsetX :: int where "archiveOffsetX = 48"
definition archiveOffsetY :: int where "archiveOffsetY = 37"

record SectorKey =
  keyPlane :: int
  keySX :: int
  keySY :: int

definition SectorForWorld :: "int \<Rightarrow> int \<Rightarrow> int \<Rightarrow> SectorKey" where
  "SectorForWorld worldX worldY plane =
     \<lparr>keyPlane = plane, keySX = worldX sdiv SectorSize + archiveOffsetX,
      keySY = worldY sdiv SectorSize + archiveOffsetY\<rparr>"

definition TileLocalInSector :: "int \<Rightarrow> int \<Rightarrow> int \<times> int" where
  "TileLocalInSector worldX worldY =
     (let lx = worldX smod SectorSize; lx = (if lx < 0 then lx + SectorSize else lx);
          ly = worldY smod SectorSize; ly = (if ly < 0 then ly + SectorSize else ly)
      in (lx, ly))"

type_synonym archive = "SectorKey \<Rightarrow> (goerr + byte list) option"

definition decodeTile :: "byte list \<Rightarrow> nat \<Rightarrow> Tile" where
  "decodeTile buf i =
     (let off = i * 10 in
      \<lparr>GroundElevation = buf ! off, GroundTexture = buf ! (off + 1), GroundOverlay = buf ! (off + 2),
       RoofTexture = buf ! (off + 3), HorizontalWall = buf ! (off + 4), VerticalWall = buf ! (off + 5),
       DiagonalWalls = sint (be32 (buf ! (off + 6)) (buf ! (off + 7)) (buf ! (off + 8)) (buf ! (off + 9)))\<rparr>)"

definition decodeSector :: "byte list \<Rightarrow> Sector" where
  "decodeSector buf = map (decodeTile buf) [0..<2304]"

definition ReadSector :: "archive \<Rightarrow> SectorKey \<Rightarrow> goerr + Sector option" where
  "ReadSector arch key =
     (case arch key of
        None \<Rightarrow> Inr None
      | Some (Inl e) \<Rightarrow> Inl (ErrWrap ''pathfind: read sector'' e)
      | Some (Inr buf) \<Rightarrow>
          (if length buf \<noteq> 23040
           then Inl (ErrMsg ''pathfind: sector wrong size: got %d bytes, want %d'' [int (length buf), 23040])
           else Inr (Some (decodeSector buf))))"

definition LandscapeTile :: "archive \<Rightarrow> int \<Rightarrow> int \<Rightarrow> int \<Rightarrow> Tile" where
  "LandscapeTile arch worldX worldY plane =
     (case ReadSector arch (SectorForWorld worldX worldY plane) of
        Inr (Some s) \<Rightarrow> (let (lx, ly) = TileLocalInSector worldX worldY in At s lx ly)
      | _ \<Rightarrow> zero_tile)"

section \<open>The grid\<close>

definition GridSize :: int where "GridSize = 96"
definition planeHeight :: int where "planeHeight = 944"

record Grid =
  gMask :: "int \<Rightarrow> int \<Rightarrow> int"
  BaseX :: int
  BaseY :: int
  PlayerX :: int
  PlayerY :: int

definition inside :: "int \<Rightarrow> int \<Rightarrow> bool" where
  "inside x y \<longleftrightarrow> 0 \<le> x \<and> x < GridSize \<and> 0 \<le> y \<and> y < GridSize"

definition World2Local :: "Grid \<Rightarrow> int \<Rightarrow> int \<Rightarrow> int \<times> int \<times> bool" where
  "World2Local g worldX worldY =
     (let lx = worldX - BaseX g; ly = worldY - BaseY g
      in (lx, ly, lx \<ge> 0 \<and> lx < GridSize \<and> ly \<ge> 0 \<and> ly < GridSize))"

definition Local2World :: "Grid \<Rightarrow> int \<Rightarrow> int \<Rightarrow> int \<times> int" where
  "Local2World g localX localY = (BaseX g + localX, BaseY g + localY)"

definition TileStandable :: "Grid \<Rightarrow> int \<Rightarrow> int \<Rightarrow> bool" where
  "TileStandable g worldX worldY =
     (let (lx, ly, ok) = World2Local g worldX worldY in
      if \<not> ok then False
      else let m = gMask g lx ly in
        if m AND fullBlock \<noteq> 0 then False
        else if m AND ObjectFlag \<noteq> 0 then False
        else True)"

text \<open>\<open>g.Mask[x][y] |= v\<close> and \<open>g.Mask[x][y] &^= v\<close>, and the bounds-checked closure over both.\<close>

definition or_mask :: "int \<Rightarrow> int \<Rightarrow> int \<Rightarrow> Grid \<Rightarrow> Grid" where
  "or_mask x y v g = g\<lparr>gMask := (\<lambda>a b. if a = x \<and> b = y then gMask g a b OR v else gMask g a b)\<rparr>"

definition clear_mask :: "int \<Rightarrow> int \<Rightarrow> int \<Rightarrow> Grid \<Rightarrow> Grid" where
  "clear_mask x y v g = g\<lparr>gMask := (\<lambda>a b. if a = x \<and> b = y then gMask g a b AND NOT v else gMask g a b)\<rparr>"

definition set_bits :: "bool \<Rightarrow> int \<Rightarrow> int \<Rightarrow> int \<Rightarrow> Grid \<Rightarrow> Grid" where
  "set_bits block x y v g =
     (if x < 0 \<or> x \<ge> GridSize \<or> y < 0 \<or> y \<ge> GridSize then g
      else if block then or_mask x y v g else clear_mask x y v g)"

definition apply_tile :: "Facts \<Rightarrow> Tile \<Rightarrow> int \<Rightarrow> int \<Rightarrow> Grid \<Rightarrow> Grid" where
  "apply_tile f tile gx gy g =
     (let vw = uint (VerticalWall tile); hw = uint (HorizontalWall tile); dw = DiagonalWalls tile;
          g = (if vw > 0 \<and> BlocksMovement (BoundaryDefs f (vw - 1)) then
                 (let g = or_mask gx gy WallNorth g in if gy > 0 then or_mask gx (gy - 1) WallSouth g else g)
               else g);
          g = (if hw > 0 \<and> BlocksMovement (BoundaryDefs f (hw - 1)) then
                 (let g = or_mask gx gy WallEast g in if gx > 0 then or_mask (gx - 1) gy WallWest g else g)
               else g);
          g = (if dw > 0 then
                 (let idx = (if dw > 12000 \<and> dw < 24000 then dw - 12001 else dw - 1) in
                  if BlocksMovement (BoundaryDefs f idx) then
                    (if dw > 0 \<and> dw < 12000 then or_mask gx gy FullBlockB g
                     else if dw > 12000 \<and> dw < 24000 then or_mask gx gy FullBlockA g
                     else g)
                  else g)
               else g)
      in if OverlayBlocks f (uint (GroundOverlay tile)) then or_mask gx gy FullBlockC g else g)"

definition applySectorToGrid :: "Facts \<Rightarrow> Sector \<Rightarrow> int \<Rightarrow> int \<Rightarrow> Grid \<Rightarrow> Grid" where
  "applySectorToGrid f s offX offY g =
     fold (\<lambda>sx. fold (\<lambda>sy g.
       (let gx = offX + sx; gy = offY + sy in
        if gx < 0 \<or> gx \<ge> GridSize \<or> gy < 0 \<or> gy \<ge> GridSize then g
        else apply_tile f (At s sx sy) gx gy g)) [0..SectorSize - 1]) [0..SectorSize - 1] g"

definition sceneryCollisionSkipID :: int where "sceneryCollisionSkipID = 1147"

definition stamp_tile :: "bool \<Rightarrow> int \<Rightarrow> int \<Rightarrow> int \<Rightarrow> int \<Rightarrow> Grid \<Rightarrow> Grid" where
  "stamp_tile block dir typ gx gy g =
     (if typ = 1 then set_bits block gx gy (FullBlockC OR ObjectFlag) g
      else if typ = 2 then
        (if dir = 0 then set_bits block (gx - 1) gy WallWest (set_bits block gx gy WallEast g)
         else if dir = 2 then set_bits block gx (gy + 1) WallNorth (set_bits block gx gy WallSouth g)
         else if dir = 4 then set_bits block (gx + 1) gy WallEast (set_bits block gx gy WallWest g)
         else if dir = 6 then set_bits block gx (gy - 1) WallSouth (set_bits block gx gy WallNorth g)
         else g)
      else g)"

definition stampSceneryFootprint :: "int \<Rightarrow> int \<Rightarrow> int \<Rightarrow> SceneryDef option \<Rightarrow> bool \<Rightarrow> Grid \<Rightarrow> Grid" where
  "stampSceneryFootprint worldX worldY dir sdef block g =
     (case sdef of
        None \<Rightarrow> g
      | Some d \<Rightarrow>
          if sdefID d = sceneryCollisionSkipID then g
          else if sdefType d \<noteq> 1 \<and> sdefType d \<noteq> 2 then g
          else
            let (w, h) = (if dir \<noteq> 0 \<and> dir \<noteq> 4 then (sdefHeight d, sdefWidth d) else (sdefWidth d, sdefHeight d));
                w = (if w < 1 then 1 else w);
                h = (if h < 1 then 1 else h)
            in fold (\<lambda>dy. fold (\<lambda>dx g.
                 stamp_tile block dir (sdefType d) (worldX + dx - BaseX g) (worldY + dy - BaseY g) g)
                 [0..w - 1]) [0..h - 1] g)"

definition applyScenery :: "Facts \<Rightarrow> Grid \<Rightarrow> Grid" where
  "applyScenery f =
     fold (\<lambda>loc. stampSceneryFootprint (slX loc) (slY loc) (slDirection loc) (SceneryDefs f (slDefID loc)) True)
       (SceneryLocs f)"

definition boundary_edge :: "int \<Rightarrow> int \<Rightarrow> int \<Rightarrow> Grid \<Rightarrow> Grid" where
  "boundary_edge dir gx gy g =
     (if dir = 0 then
        (let g = or_mask gx gy WallNorth g in if gy > 0 then or_mask gx (gy - 1) WallSouth g else g)
      else if dir = 1 then
        (let g = or_mask gx gy WallEast g in if gx > 0 then or_mask (gx - 1) gy WallWest g else g)
      else if dir = 2 then or_mask gx gy FullBlockA g
      else if dir = 3 then or_mask gx gy FullBlockB g
      else g)"

definition apply_boundary_loc :: "Facts \<Rightarrow> BoundaryLoc \<Rightarrow> Grid \<Rightarrow> Grid" where
  "apply_boundary_loc f loc g =
     (if \<not> BlocksMovement (BoundaryDefs f (blDefID loc)) then g
      else
        let (gx, gy, inn) = World2Local g (blX loc) (blY loc) in
        if \<not> inn then g else boundary_edge (blDirection loc) gx gy g)"

definition applyBoundaries :: "Facts \<Rightarrow> Grid \<Rightarrow> Grid" where
  "applyBoundaries f = fold (apply_boundary_loc f) (BoundaryLocs f)"

section \<open>The live overlay\<close>

record LiveBoundary =
  lbX :: int
  lbY :: int
  lbDir :: int
  lbID :: int
  lbRemoved :: bool

record LiveScenery =
  lsX :: int
  lsY :: int
  lsID :: int
  lsRemoved :: bool

record LiveState =
  liveBoundaries :: "LiveBoundary list"
  liveScenery :: "LiveScenery list"

definition setOrClearEdge :: "int \<Rightarrow> int \<Rightarrow> int \<Rightarrow> bool \<Rightarrow> Grid \<Rightarrow> Grid" where
  "setOrClearEdge gx gy dir block g =
     (if dir = 0 then set_bits block gx (gy - 1) WallSouth (set_bits block gx gy WallNorth g)
      else if dir = 1 then set_bits block (gx - 1) gy WallWest (set_bits block gx gy WallEast g)
      else if dir = 2 then set_bits block gx gy FullBlockA g
      else if dir = 3 then set_bits block gx gy FullBlockB g
      else g)"

definition live_boundary_blocks :: "Facts \<Rightarrow> LiveBoundary \<Rightarrow> bool" where
  "live_boundary_blocks f b =
     (if \<not> lbRemoved b \<and> lbID b \<ge> 0
      then BlocksMovement (BoundaryDefs f (lbID b)) \<or> BlocksWhenClosed (BoundaryDefs f (lbID b))
      else False)"

definition apply_live_boundary :: "Facts \<Rightarrow> LiveBoundary \<Rightarrow> Grid \<Rightarrow> Grid" where
  "apply_live_boundary f b g =
     (let (gx, gy, inn) = World2Local g (lbX b) (lbY b) in
      if \<not> inn then g else setOrClearEdge gx gy (lbDir b) (live_boundary_blocks f b) g)"

definition apply_live_scenery :: "Facts \<Rightarrow> LiveScenery \<Rightarrow> Grid \<Rightarrow> Grid" where
  "apply_live_scenery f s g =
     (let (gx, gy, inn) = World2Local g (lsX s) (lsY s) in
      if \<not> inn then g
      else
        let (dir, static_def) = (case scenery_placements f (lsX s) (lsY s) of
                            [] \<Rightarrow> (0, None)
                          | p # _ \<Rightarrow> (slDirection p, SceneryDefs f (slDefID p)));
            g = (case static_def of
                   Some d \<Rightarrow> stampSceneryFootprint (lsX s) (lsY s) dir (Some d) False g
                 | None \<Rightarrow> (if lsRemoved s then clear_mask gx gy (FullBlockC OR ObjectFlag) g else g))
        in if \<not> lsRemoved s then stampSceneryFootprint (lsX s) (lsY s) dir (SceneryDefs f (lsID s)) True g else g)"

definition applyLiveOverlay :: "Facts \<Rightarrow> LiveState option \<Rightarrow> Grid \<Rightarrow> Grid" where
  "applyLiveOverlay f live g =
     (case live of
        None \<Rightarrow> g
      | Some l \<Rightarrow> fold (apply_live_scenery f) (liveScenery l) (fold (apply_live_boundary f) (liveBoundaries l) g))"

section \<open>Building the grid\<close>

fun load_sectors :: "archive \<Rightarrow> Facts \<Rightarrow> int \<Rightarrow> int \<Rightarrow> int \<Rightarrow> (int \<times> int) list \<Rightarrow> Grid \<Rightarrow> goerr + Grid" where
  "load_sectors arch f plane midX midLY [] g = Inr g"
| "load_sectors arch f plane midX midLY ((dsx, dsy) # ds) g =
     (case ReadSector arch \<lparr>keyPlane = plane, keySX = midX - 1 + dsx + archiveOffsetX,
             keySY = midLY - 1 + dsy + archiveOffsetY\<rparr> of
        Inl e \<Rightarrow> Inl e
      | Inr None \<Rightarrow> load_sectors arch f plane midX midLY ds g
      | Inr (Some s) \<Rightarrow>
          load_sectors arch f plane midX midLY ds
            (applySectorToGrid f s (dsx * SectorSize) (dsy * SectorSize) g))"

definition BuildGrid :: "archive \<Rightarrow> Facts \<Rightarrow> int \<Rightarrow> int \<Rightarrow> int \<Rightarrow> LiveState option \<Rightarrow> goerr + Grid" where
  "BuildGrid arch f worldX worldY plane live =
     (let plane = (if plane \<le> 0 then worldY sdiv planeHeight else plane);
          localY = worldY - plane * planeHeight;
          midRegionX = (worldX + 24) sdiv SectorSize;
          midRegionLY = (localY + 24) sdiv SectorSize;
          baseX = midRegionX * SectorSize - SectorSize;
          baseLocalY = midRegionLY * SectorSize - SectorSize;
          baseY = baseLocalY + plane * planeHeight;
          g = \<lparr>gMask = \<lambda>_ _. 0, BaseX = baseX, BaseY = baseY, PlayerX = worldX - baseX, PlayerY = worldY - baseY\<rparr>
      in case load_sectors arch f plane midRegionX midRegionLY [(0, 0), (0, 1), (1, 0), (1, 1)] g of
           Inl e \<Rightarrow> Inl e
         | Inr g \<Rightarrow> Inr (applyLiveOverlay f live (applyBoundaries f (applyScenery f g))))"

end
