(* ===== verification/PathWalls.thy ===== *)
theory PathWalls
  imports PathGrid
begin

text \<open>
  The walls of a built grid: every wall is recorded on both tiles it separates, and a live door
  override decides its edge.
\<close>

section \<open>Bits of the mask\<close>

lemma set_bits_bit:
  "bit (gMask (set_bits block x y v g) a b) n =
     (if inside x y \<and> a = x \<and> b = y \<and> bit v n then block else bit (gMask g a b) n)"
  by (auto simp: set_bits_def or_mask_def clear_mask_def inside_def bit_or_iff bit_and_iff bit_not_iff)

lemma set_bits_base [simp]:
  "BaseX (set_bits block x y v g) = BaseX g" "BaseY (set_bits block x y v g) = BaseY g"
  by (simp_all add: set_bits_def or_mask_def clear_mask_def)

lemma or_mask_set: "inside x y \<Longrightarrow> or_mask x y v g = set_bits True x y v g"
  by (simp add: set_bits_def inside_def)

lemma clear_mask_set: "inside x y \<Longrightarrow> clear_mask x y v g = set_bits False x y v g"
  by (simp add: set_bits_def inside_def)

lemma mirror_set:
  assumes "inside x y"
  shows "(if y > 0 then or_mask x (y - 1) v g else g) = set_bits True x (y - 1) v g"
    and "(if x > 0 then or_mask (x - 1) y v g else g) = set_bits True (x - 1) y v g"
  using assms by (auto simp: set_bits_def inside_def)

lemma flag_bits [simp]:
  "bit (4 :: int) n \<longleftrightarrow> n = 2" "bit (8 :: int) n \<longleftrightarrow> n = 3"
  "bit (2 :: int) n \<longleftrightarrow> n = 1" "bit (16 :: int) n \<longleftrightarrow> n = 4"
  "bit (32 :: int) n \<longleftrightarrow> n = 5" "bit (64 :: int) n \<longleftrightarrow> n = 6" "bit (128 :: int) n \<longleftrightarrow> n = 7"
  using bit_exp_iff [where 'a = int, of 1 n] bit_exp_iff [where 'a = int, of 2 n]
    bit_exp_iff [where 'a = int, of 3 n] bit_exp_iff [where 'a = int, of 4 n]
    bit_exp_iff [where 'a = int, of 5 n] bit_exp_iff [where 'a = int, of 6 n]
    bit_exp_iff [where 'a = int, of 7 n]
  by (auto simp: possible_bit_def)

lemma object_bits [simp]: "bit (192 :: int) n \<longleftrightarrow> n = 6 \<or> n = 7"
proof -
  have "(192 :: int) = 64 OR 128" by simp
  then show ?thesis by (simp only: bit_or_iff flag_bits)
qed

section \<open>Two-sided walls\<close>

definition two_sided :: "Grid \<Rightarrow> bool" where
  "two_sided g \<longleftrightarrow>
     (\<forall>x y. inside x y \<longrightarrow>
        (y > 0 \<longrightarrow> bit (gMask g x y) 0 = bit (gMask g x (y - 1)) 2) \<and>
        (x > 0 \<longrightarrow> bit (gMask g x y) 1 = bit (gMask g (x - 1) y) 3))"

lemma two_sided_pairs:
  assumes "two_sided g"
  shows "two_sided (set_bits b x (y - 1) WallSouth (set_bits b x y WallNorth g))"
    and "two_sided (set_bits b (x - 1) y WallWest (set_bits b x y WallEast g))"
    and "two_sided (set_bits b x (y + 1) WallNorth (set_bits b x y WallSouth g))"
    and "two_sided (set_bits b (x + 1) y WallEast (set_bits b x y WallWest g))"
  using assms by (auto simp: two_sided_def set_bits_bit bit_1_iff inside_def)

lemma two_sided_block:
  assumes "two_sided g" "\<And>n. n < 4 \<Longrightarrow> \<not> bit v n"
  shows "two_sided (set_bits b x y v g)"
  using assms(1) assms(2) [of 0] assms(2) [of 1] assms(2) [of 2] assms(2) [of 3]
  by (auto simp: two_sided_def set_bits_bit)

lemma two_sided_blocks:
  assumes "two_sided g"
  shows "two_sided (set_bits b x y FullBlockA g)" "two_sided (set_bits b x y FullBlockB g)"
    "two_sided (set_bits b x y FullBlockC g)" "two_sided (set_bits b x y 192 g)"
  by (rule two_sided_block [OF assms]; simp)+

lemmas two_sided_writes = two_sided_pairs two_sided_blocks

lemma fold_keeps:
  "(\<And>x g. two_sided g \<Longrightarrow> two_sided (f x g)) \<Longrightarrow> two_sided g \<Longrightarrow> two_sided (fold f xs g)"
  by (induction xs arbitrary: g) auto

lemma two_sided_tile:
  assumes "inside gx gy" "two_sided g"
  shows "two_sided (apply_tile f tile gx gy g)"
  using assms(2)
  by (simp add: apply_tile_def Let_def mirror_set [OF assms(1)] or_mask_set [OF assms(1)] two_sided_writes)

lemma two_sided_sector: "two_sided g \<Longrightarrow> two_sided (applySectorToGrid f s offX offY g)"
  unfolding applySectorToGrid_def
  by (rule fold_keeps, rule fold_keeps) (simp_all add: Let_def two_sided_tile inside_def)

lemma two_sided_stamp: "two_sided g \<Longrightarrow> two_sided (stampSceneryFootprint x y dir d block g)"
proof -
  assume g: "two_sided g"
  have "two_sided (stamp_tile block dir kind gx gy k)" if "two_sided k" for kind gx gy k
    using that by (simp add: stamp_tile_def two_sided_writes)
  then have "two_sided (fold (\<lambda>dy. fold (\<lambda>dx g. stamp_tile block dir kind (x + dx - BaseX g) (y + dy - BaseY g) g) xs) ys g)"
    for kind xs ys
    by (intro fold_keeps g)
  then show ?thesis
    using g by (simp add: stampSceneryFootprint_def Let_def split: option.splits prod.splits)
qed

lemma two_sided_edge: "inside gx gy \<Longrightarrow> two_sided g \<Longrightarrow> two_sided (boundary_edge dir gx gy g)"
  by (simp add: boundary_edge_def Let_def mirror_set or_mask_set two_sided_writes)

lemma two_sided_boundary: "two_sided g \<Longrightarrow> two_sided (apply_boundary_loc f loc g)"
  by (auto simp: apply_boundary_loc_def World2Local_def Let_def two_sided_edge inside_def)

lemma two_sided_boundaries: "two_sided g \<Longrightarrow> two_sided (applyBoundaries f g)"
  unfolding applyBoundaries_def by (simp add: fold_keeps two_sided_boundary)

lemma two_sided_live:
  "two_sided g \<Longrightarrow> two_sided (apply_live_boundary f b g)"
  "two_sided g \<Longrightarrow> two_sided (apply_live_scenery f s g)"
proof -
  assume g: "two_sided g"
  show "two_sided (apply_live_boundary f b g)"
    using g by (simp add: apply_live_boundary_def setOrClearEdge_def Let_def two_sided_writes split: prod.splits)
  show "two_sided (apply_live_scenery f s g)"
  proof (cases "inside (lsX s - BaseX g) (lsY s - BaseY g)")
    case True
    then show ?thesis
      using g by (simp add: apply_live_scenery_def World2Local_def Let_def clear_mask_set two_sided_writes
          two_sided_stamp split: list.splits option.splits prod.splits)
  next
    case False
    then show ?thesis
      using g by (auto simp: apply_live_scenery_def World2Local_def Let_def inside_def)
  qed
qed

lemma two_sided_overlay: "two_sided g \<Longrightarrow> two_sided (applyLiveOverlay f live g)"
  by (cases live) (simp_all add: applyLiveOverlay_def fold_keeps two_sided_live)

lemma two_sided_load:
  "two_sided g \<Longrightarrow> load_sectors arch f plane mx my ds g = Inr g' \<Longrightarrow> two_sided g'"
  by (induction arch f plane mx my ds g rule: load_sectors.induct)
     (auto simp: two_sided_sector split: sum.splits option.splits)

lemma BuildGrid_two_sided: "BuildGrid arch f worldX worldY plane live = Inr g \<Longrightarrow> two_sided g"
proof -
  assume b: "BuildGrid arch f worldX worldY plane live = Inr g"
  have "two_sided \<lparr>gMask = \<lambda>_ _. 0, BaseX = bx, BaseY = by, PlayerX = px, PlayerY = py\<rparr>" for bx "by" px py
    by (simp add: two_sided_def)
  note two_sided_load [OF this]
  with b show ?thesis
    by (auto simp del: load_sectors.simps simp: BuildGrid_def Let_def applyScenery_def two_sided_overlay
        two_sided_boundaries fold_keeps two_sided_stamp split: sum.splits)
qed

section \<open>Live doors\<close>

text \<open>The bit a boundary direction sets on its own tile.\<close>

definition edge_bit :: "int \<Rightarrow> nat" where
  "edge_bit dir = (if dir = 0 then 0 else if dir = 1 then 1 else if dir = 2 then 4 else 5)"

definition overrides :: "Grid \<Rightarrow> int \<Rightarrow> int \<Rightarrow> int \<Rightarrow> LiveBoundary \<Rightarrow> bool" where
  "overrides g dir x y b \<longleftrightarrow> lbDir b = dir \<and> lbX b - BaseX g = x \<and> lbY b - BaseY g = y"

lemma live_boundary_base [simp]:
  "BaseX (apply_live_boundary f b g) = BaseX g" "BaseY (apply_live_boundary f b g) = BaseY g"
  by (simp_all add: apply_live_boundary_def setOrClearEdge_def Let_def split: prod.splits)

lemma live_boundary_bit:
  assumes "inside x y" "dir \<in> {0, 1, 2, 3}"
  shows "bit (gMask (apply_live_boundary f b g) x y) (edge_bit dir) =
    (if overrides g dir x y b then live_boundary_blocks f b else bit (gMask g x y) (edge_bit dir))"
  using assms
  by (auto simp: apply_live_boundary_def World2Local_def setOrClearEdge_def Let_def set_bits_bit
      edge_bit_def overrides_def inside_def bit_1_iff)

lemma live_boundaries_bit:
  assumes "inside x y" "dir \<in> {0, 1, 2, 3}"
  shows "bit (gMask (fold (apply_live_boundary f) bs g) x y) (edge_bit dir) =
    (case find (overrides g dir x y) (rev bs) of
       None \<Rightarrow> bit (gMask g x y) (edge_bit dir)
     | Some b \<Rightarrow> live_boundary_blocks f b)"
proof (induction bs rule: rev_induct)
  case Nil
  then show ?case by simp
next
  case (snoc b bs)
  have "overrides (fold (apply_live_boundary f) bs g) dir x y = overrides g dir x y"
    by (rule ext, induction bs arbitrary: g) (simp_all add: overrides_def)
  then show ?case
    using snoc by (simp add: live_boundary_bit [OF assms])
qed



end
