(* ===== verification/SearchGraph.thy ===== *)
theory SearchGraph
  imports Prelude
begin

text \<open>
  Breadth-first search over a finite graph whose edges are tried in a fixed order, as a contract: what
  is known of the visited cells when \<open>r\<close> of them have been expanded (\<open>explored\<close>), and what one
  expansion, edge by edge, does to it (\<open>exploring\<close>). \<open>E\<close> lists the visited cells in the order they
  were queued, \<open>D\<close> is their distance, and \<open>via c m\<close> holds of the move \<open>m\<close> by which \<open>c\<close> was reached.
\<close>

inductive walk :: "('c \<Rightarrow> 'm \<Rightarrow> 'c option) \<Rightarrow> 'm list \<Rightarrow> 'c \<Rightarrow> nat \<Rightarrow> 'c \<Rightarrow> bool"
    for adj ms s where
  here: "walk adj ms s 0 s"
| onward: "walk adj ms s n c \<Longrightarrow> m \<in> set ms \<Longrightarrow> adj c m = Some d \<Longrightarrow> walk adj ms s (Suc n) d"

definition reached ::
    "('c \<Rightarrow> 'm \<Rightarrow> 'c option) \<Rightarrow> 'm list \<Rightarrow> 'c \<Rightarrow> ('c \<Rightarrow> 'm \<Rightarrow> bool) \<Rightarrow> 'c list \<Rightarrow> nat \<Rightarrow> ('c \<Rightarrow> nat) \<Rightarrow> bool" where
  "reached adj ms s via E r D \<longleftrightarrow>
     distinct E \<and> E \<noteq> [] \<and> E ! 0 = s \<and> D s = 0 \<and>
     (\<forall>i < length E. 0 < i \<longrightarrow> (\<exists>j < i. j < r \<and>
        (\<exists>m \<in> set ms. via (E ! i) m \<and> adj (E ! j) m = Some (E ! i) \<and> D (E ! i) = Suc (D (E ! j))))) \<and>
     (\<forall>j < length E. \<forall>i \<le> j. D (E ! i) \<le> D (E ! j))"

definition closed ::
    "('c \<Rightarrow> 'm \<Rightarrow> 'c option) \<Rightarrow> 'm list \<Rightarrow> 'c list \<Rightarrow> ('c \<Rightarrow> nat) \<Rightarrow> 'c \<Rightarrow> bool" where
  "closed adj ms E D c \<longleftrightarrow>
     (\<forall>m \<in> set ms. \<forall>d. adj c m = Some d \<longrightarrow> d \<in> set E \<and> D d \<le> Suc (D c))"

definition explored ::
    "('c \<Rightarrow> 'm \<Rightarrow> 'c option) \<Rightarrow> 'm list \<Rightarrow> 'c \<Rightarrow> ('c \<Rightarrow> 'm \<Rightarrow> bool) \<Rightarrow> 'c list \<Rightarrow> nat \<Rightarrow> ('c \<Rightarrow> nat) \<Rightarrow> bool" where
  "explored adj ms s via E r D \<longleftrightarrow>
     reached adj ms s via E r D \<and> r \<le> length E \<and>
     (r < length E \<longrightarrow> (\<forall>i < length E. D (E ! i) \<le> Suc (D (E ! r)))) \<and>
     (\<forall>j < r. closed adj ms E D (E ! j))"

definition exploring ::
    "('c \<Rightarrow> 'm \<Rightarrow> 'c option) \<Rightarrow> 'm list \<Rightarrow> 'c \<Rightarrow> ('c \<Rightarrow> 'm \<Rightarrow> bool) \<Rightarrow> 'c list \<Rightarrow> nat \<Rightarrow> ('c \<Rightarrow> nat) \<Rightarrow> 'm list \<Rightarrow> bool" where
  "exploring adj ms s via E r D tried \<longleftrightarrow>
     reached adj ms s via E (Suc r) D \<and> r < length E \<and>
     (\<forall>i < length E. D (E ! i) \<le> Suc (D (E ! r))) \<and>
     (\<forall>j < r. closed adj ms E D (E ! j)) \<and> closed adj tried E D (E ! r)"

locale search_graph =
  fixes adj :: "'c \<Rightarrow> 'm \<Rightarrow> 'c option" and ms :: "'m list" and start :: 'c and room :: "'c set"
  assumes finite_room: "finite room"
    and adj_room: "c \<in> room \<Longrightarrow> m \<in> set ms \<Longrightarrow> adj c m = Some d \<Longrightarrow> d \<in> room"
begin

lemma explored_start: "explored adj ms start via [start] 0 (\<lambda>_. 0)"
  by (simp add: explored_def reached_def)

lemma exploring_start:
  assumes "explored adj ms start via E r D" "r < length E"
  shows "exploring adj ms start via E r D []"
proof -
  have "reached adj ms start via E (Suc r) D"
    using assms(1) unfolding explored_def reached_def by (meson less_SucI)
  then show ?thesis
    using assms by (simp add: explored_def exploring_def closed_def)
qed

lemma exploring_skip:
  assumes "exploring adj ms start via E r D tried"
    and "\<And>d. adj (E ! r) m = Some d \<Longrightarrow> d \<in> set E"
  shows "exploring adj ms start via E r D (tried @ [m])"
proof -
  have "D d \<le> Suc (D (E ! r))" if "d \<in> set E" for d
    using assms(1) that by (auto simp: exploring_def in_set_conv_nth)
  then show ?thesis
    using assms by (auto simp: exploring_def closed_def)
qed

lemma exploring_finish:
  assumes "exploring adj ms start via E r D ms"
  shows "explored adj ms start via E (Suc r) D"
proof -
  have "D (E ! i) \<le> Suc (D (E ! Suc r))" if "Suc r < length E" "i < length E" for i
  proof -
    have "D (E ! i) \<le> Suc (D (E ! r))" using assms that by (simp add: exploring_def)
    also have "D (E ! r) \<le> D (E ! Suc r)" using assms that by (simp add: exploring_def reached_def)
    finally show ?thesis by simp
  qed
  then show ?thesis
    using assms by (auto simp: explored_def exploring_def less_Suc_eq)
qed

lemma exploring_push:
  assumes e: "exploring adj ms start via E r D tried"
    and m: "adj (E ! r) m = Some d" "m \<in> set ms" "d \<notin> set E"
    and via: "\<And>c k. c \<in> set E \<Longrightarrow> via c k \<Longrightarrow> via' c k" "via' d m"
  shows "exploring adj ms start via' (E @ [d]) r (D(d := Suc (D (E ! r)))) (tried @ [m])"
proof -
  let ?E = "E @ [d]" and ?D = "D(d := Suc (D (E ! r)))"
  have R: "reached adj ms start via E (Suc r) D" and r: "r < length E"
    and near: "\<And>i. i < length E \<Longrightarrow> D (E ! i) \<le> Suc (D (E ! r))"
    and cl: "\<And>j. j < r \<Longrightarrow> closed adj ms E D (E ! j)" "closed adj tried E D (E ! r)"
    using e by (auto simp: exploring_def)
  have old: "?D c = D c" if "c \<in> set E" for c using that m(3) by auto
  have nth: "?E ! i = E ! i" "?D (E ! i) = D (E ! i)" if "i < length E" for i
    using that m(3) by (auto simp: nth_append)
  have par: "\<exists>j < i. j < Suc r \<and> (\<exists>k \<in> set ms. via' (?E ! i) k \<and> adj (?E ! j) k = Some (?E ! i) \<and>
      ?D (?E ! i) = Suc (?D (?E ! j)))" if i: "i < length ?E" "0 < i" for i
  proof (cases "i < length E")
    case True
    then obtain j k where jk: "j < i" "j < Suc r" "k \<in> set ms" "via (E ! i) k" "adj (E ! j) k = Some (E ! i)"
        "D (E ! i) = Suc (D (E ! j))"
      using R i(2) unfolding reached_def by blast
    show ?thesis
      by (rule exI [of _ j]) (use jk True via(1) [of "E ! i" k] nth in auto)
  next
    case False
    then have "?E ! i = d" using i by (simp add: nth_append)
    then show ?thesis
      using m via(2) r nth [OF r] False by (intro exI [of _ r]) auto
  qed
  have mono: "?D (?E ! i) \<le> ?D (?E ! j)" if ij: "j < length ?E" "i \<le> j" for i j
  proof (cases "j < length E")
    case True
    then show ?thesis using R ij nth by (simp add: reached_def)
  next
    case False
    then show ?thesis
      using near [of i] ij nth [of i] by (cases "i < length E") (auto simp: nth_append less_Suc_eq)
  qed
  have dist: "distinct ?E \<and> ?E \<noteq> [] \<and> ?E ! 0 = start \<and> ?D start = 0"
  proof -
    have "E ! 0 = start" "E \<noteq> []" "D start = 0" "distinct E" using R by (auto simp: reached_def)
    moreover from this have "start \<in> set E" using nth_mem [of 0 E] by auto
    ultimately show ?thesis using m(3) nth [of 0] by auto
  qed
  have "reached adj ms start via' ?E (Suc r) ?D"
    unfolding reached_def using par mono dist by blast
  moreover have "closed adj ms ?E ?D (?E ! j)" if "j < r" for j
    using cl(1) [OF that] nth [of j] that r old unfolding closed_def by fastforce
  moreover have "closed adj (tried @ [m]) ?E ?D (?E ! r)"
    using cl(2) nth [OF r] old m(1) unfolding closed_def by fastforce
  moreover have "?D (?E ! i) \<le> Suc (?D (?E ! r))" if "i < length ?E" for i
    using near [of i] that nth [of i] nth [OF r] by (cases "i < length E") (auto simp: nth_append less_Suc_eq)
  ultimately show ?thesis
    using r by (simp add: exploring_def)
qed

text \<open>What an exploration tells: its size, its walks, and that nothing nearer was missed.\<close>

lemma reached_room:
  assumes "reached adj ms start via E r D" "start \<in> room"
  shows "i < length E \<Longrightarrow> E ! i \<in> room"
proof (induction i rule: less_induct)
  case (less i)
  show ?case
  proof (cases "i = 0")
    case True
    then show ?thesis using assms by (simp add: reached_def)
  next
    case False
    then obtain j m where "j < i" "m \<in> set ms" "adj (E ! j) m = Some (E ! i)"
      using assms less.prems unfolding reached_def by blast
    then show ?thesis using adj_room less by auto
  qed
qed

lemma reached_size:
  assumes "reached adj ms start via E r D" "start \<in> room"
  shows "length E \<le> card room"
proof -
  have "set E \<subseteq> room" using reached_room [OF assms] by (auto simp: in_set_conv_nth)
  moreover have "distinct E" using assms by (simp add: reached_def)
  ultimately show ?thesis
    using card_mono [OF finite_room] distinct_card by metis
qed

lemma reached_walk:
  assumes "reached adj ms start via E r D"
  shows "i < length E \<Longrightarrow> walk adj ms start (D (E ! i)) (E ! i)"
proof (induction i rule: less_induct)
  case (less i)
  show ?case
  proof (cases "i = 0")
    case True
    then show ?thesis using assms walk.here by (simp add: reached_def)
  next
    case False
    then obtain j m where "j < i" "m \<in> set ms" "adj (E ! j) m = Some (E ! i)" "D (E ! i) = Suc (D (E ! j))"
      using assms less.prems unfolding reached_def by blast
    then show ?thesis
      using less walk.onward [of adj ms start "D (E ! j)" "E ! j" m "E ! i"] by simp
  qed
qed

lemma explored_complete:
  assumes "explored adj ms start via E r D" "walk adj ms start n c"
  shows "(c \<in> set (take r E) \<and> D c \<le> n) \<or> (r < length E \<and> D (E ! r) \<le> n)"
  using assms(2)
proof (induction rule: walk.induct)
  case here
  have "E ! 0 = start" "E \<noteq> []" "D start = 0" using assms(1) by (auto simp: explored_def reached_def)
  then show ?case
    by (cases r) (auto simp: in_set_conv_nth)
next
  case (onward n c m d)
  show ?case
  proof (cases "c \<in> set (take r E) \<and> D c \<le> n")
    case True
    then obtain j where j: "j < r" "c = E ! j" using assms(1) by (auto simp: in_set_conv_nth)
    then have "closed adj ms E D c" using assms(1) by (simp add: explored_def)
    then have d: "d \<in> set E" "D d \<le> Suc n" using onward.hyps True by (auto simp: closed_def)
    then obtain k where k: "k < length E" "d = E ! k" by (auto simp: in_set_conv_nth)
    have "D (E ! r) \<le> D (E ! k)" if "r \<le> k"
      using that k assms(1) by (simp add: explored_def reached_def)
    then show ?thesis
      using d k by (cases "k < r") (auto simp: in_set_conv_nth)
  next
    case False
    then show ?thesis using onward.IH by auto
  qed
qed

end

end
