(* ===== verification/PathFind.thy ===== *)
theory PathFind
  imports PathWalls SearchGraph "HOL-Library.While_Combinator"
begin

text \<open>
  The breadth-first search of \<open>pathfind/bfs.go\<close>: \<open>FindPath\<close> with its ring buffer, its matrix of source
  directions and the reconstruction of the corners. The search loop is a \<open>while_option\<close>, so that
  not returning is a value of its own; the reconstruction is bounded by the code itself.
\<close>

section \<open>The code\<close>

abbreviation (input) sourceSouth :: int where "sourceSouth \<equiv> 1"
abbreviation (input) sourceWest :: int where "sourceWest \<equiv> 2"
abbreviation (input) sourceNorth :: int where "sourceNorth \<equiv> 4"
abbreviation (input) sourceEast :: int where "sourceEast \<equiv> 8"
abbreviation (input) visitedStart :: int where "visitedStart \<equiv> 99"

definition ring :: nat where "ring = 9216"

text \<open>
  The eight blocks of the expansion, in their order: the offset of the neighbour and the direction
  recorded for it. \<open>open_move\<close> is the condition of a block without the test that the neighbour is new.
\<close>

type_synonym move = "(int \<times> int) \<times> int"

definition moves :: "move list" where
  "moves = [((-1, 0), sourceWest), ((1, 0), sourceEast), ((0, -1), sourceSouth), ((0, 1), sourceNorth),
     ((-1, -1), sourceSouth OR sourceWest), ((1, -1), sourceSouth OR sourceEast),
     ((-1, 1), sourceNorth OR sourceWest), ((1, 1), sourceNorth OR sourceEast)]"

definition open_move :: "Grid \<Rightarrow> int \<times> int \<Rightarrow> int \<times> int \<Rightarrow> bool" where
  "open_move g cur off =
     (let (x, y) = cur; m = gMask g in
      if off = (-1, 0) then x > 0 \<and> m (x - 1) y AND WestBlocked = 0
      else if off = (1, 0) then x < GridSize - 1 \<and> m (x + 1) y AND EastBlocked = 0
      else if off = (0, -1) then y > 0 \<and> m x (y - 1) AND SouthBlocked = 0
      else if off = (0, 1) then y < GridSize - 1 \<and> m x (y + 1) AND NorthBlocked = 0
      else if off = (-1, -1) then
        x > 0 \<and> y > 0 \<and> m x (y - 1) AND SouthBlocked = 0 \<and> m (x - 1) y AND WestBlocked = 0 \<and>
        m (x - 1) (y - 1) AND SouthWestBlocked = 0
      else if off = (1, -1) then
        x < GridSize - 1 \<and> y > 0 \<and> m x (y - 1) AND SouthBlocked = 0 \<and> m (x + 1) y AND EastBlocked = 0 \<and>
        m (x + 1) (y - 1) AND SouthEastBlocked = 0
      else if off = (-1, 1) then
        x > 0 \<and> y < GridSize - 1 \<and> m x (y + 1) AND NorthBlocked = 0 \<and> m (x - 1) y AND WestBlocked = 0 \<and>
        m (x - 1) (y + 1) AND NorthWestBlocked = 0
      else if off = (1, 1) then
        x < GridSize - 1 \<and> y < GridSize - 1 \<and> m x (y + 1) AND NorthBlocked = 0 \<and>
        m (x + 1) y AND EastBlocked = 0 \<and> m (x + 1) (y + 1) AND NorthEastBlocked = 0
      else False)"

record Search =
  sSrc :: "int \<times> int \<Rightarrow> int"
  sQueue :: "nat \<Rightarrow> int \<times> int"
  sRead :: nat
  sWrite :: nat
  sCur :: "int \<times> int"
  sFound :: bool

definition shift :: "int \<times> int \<Rightarrow> int \<times> int \<Rightarrow> int \<times> int" where
  "shift c off = (fst c + fst off, snd c + snd off)"

definition try_move :: "Grid \<Rightarrow> int \<times> int \<Rightarrow> move \<Rightarrow> Search \<Rightarrow> Search" where
  "try_move g cur mv s =
     (let d = shift cur (fst mv) in
      if open_move g cur (fst mv) \<and> sSrc s d = 0
      then s\<lparr>sQueue := (sQueue s)(sWrite s := d), sSrc := (sSrc s)(d := snd mv),
             sWrite := (sWrite s + 1) mod ring\<rparr>
      else s)"

record Goal =
  xLow :: int
  xHigh :: int
  yLow :: int
  yHigh :: int
  reachBorder :: bool

definition at_goal :: "Grid \<Rightarrow> Goal \<Rightarrow> int \<times> int \<Rightarrow> bool" where
  "at_goal g goal cur =
     (let (x, y) = cur in
      if x \<ge> xLow goal \<and> x \<le> xHigh goal \<and> y \<ge> yLow goal \<and> y \<le> yHigh goal then True
      else if reachBorder goal then
        (if x > 0 \<and> x - 1 \<ge> xLow goal \<and> x - 1 \<le> xHigh goal \<and> y \<ge> yLow goal \<and> y \<le> yHigh goal \<and>
            gMask g (x - 1) y AND WallWest = 0 then True
         else if x < GridSize - 1 \<and> x + 1 \<ge> xLow goal \<and> x + 1 \<le> xHigh goal \<and> y \<ge> yLow goal \<and> y \<le> yHigh goal \<and>
            gMask g (x + 1) y AND WallEast = 0 then True
         else if y > 0 \<and> y - 1 \<ge> yLow goal \<and> y - 1 \<le> yHigh goal \<and> x \<ge> xLow goal \<and> x \<le> xHigh goal \<and>
            gMask g x (y - 1) AND WallSouth = 0 then True
         else y < GridSize - 1 \<and> y + 1 \<ge> yLow goal \<and> y + 1 \<le> yHigh goal \<and> x \<ge> xLow goal \<and> x \<le> xHigh goal \<and>
            gMask g x (y + 1) AND WallNorth = 0)
      else False)"

definition search_step :: "Grid \<Rightarrow> Goal \<Rightarrow> Search \<Rightarrow> Search" where
  "search_step g goal s =
     (let cur = sQueue s (sRead s);
          s = s\<lparr>sCur := cur, sRead := (sRead s + 1) mod ring\<rparr>
      in if at_goal g goal cur then s\<lparr>sFound := True\<rparr> else fold (try_move g cur) moves s)"

definition search_start :: "int \<times> int \<Rightarrow> Search" where
  "search_start start = \<lparr>sSrc = (\<lambda>_. 0)(start := visitedStart), sQueue = (\<lambda>_. (0, 0))(0 := start), sRead = 0,
     sWrite = 1, sCur = start, sFound = False\<rparr>"

definition search_loop :: "Grid \<Rightarrow> Goal \<Rightarrow> int \<times> int \<Rightarrow> Search option" where
  "search_loop g goal start =
     while_option (\<lambda>s. sRead s \<noteq> sWrite s \<and> \<not> sFound s) (search_step g goal) (search_start start)"

text \<open>One step of the reconstruction, towards the tile we came from.\<close>

definition unwind_off :: "int \<Rightarrow> int \<times> int" where
  "unwind_off source =
     (if source AND sourceWest \<noteq> 0 then 1 else if source AND sourceEast \<noteq> 0 then -1 else 0,
      if source AND sourceSouth \<noteq> 0 then 1 else if source AND sourceNorth \<noteq> 0 then -1 else 0)"

fun unwind :: "(int \<times> int \<Rightarrow> int) \<Rightarrow> int \<times> int \<Rightarrow> nat \<Rightarrow> int \<times> int \<Rightarrow> int \<Rightarrow> int \<Rightarrow> (int \<times> int) list
    \<Rightarrow> (int \<times> int) list option" where
  "unwind src start 0 c prevSrc source acc = (if c \<noteq> start then None else Some acc)"
| "unwind src start (Suc n) c prevSrc source acc =
     (if c \<noteq> start then
        (let (prevSrc, acc) = (if prevSrc \<noteq> source then (source, acc @ [c]) else (prevSrc, acc));
             c = shift c (unwind_off source)
         in if \<not> inside (fst c) (snd c) then None
            else unwind src start n c prevSrc (src c) acc)
      else Some acc)"

text \<open>
  \<open>FindPath\<close>: no value if the loop does not end, \<open>Some None\<close> for nil, else the corners in world
  coordinates.
\<close>

definition FindPath :: "Grid \<Rightarrow> int \<Rightarrow> int \<Rightarrow> int \<Rightarrow> int \<Rightarrow> int \<Rightarrow> int \<Rightarrow> bool \<Rightarrow> (int \<times> int) list option option" where
  "FindPath g startX startY xLowW xHighW yLowW yHighW border =
     (let (sx, sy, ok) = World2Local g startX startY in
      if \<not> ok then Some None
      else
        let goal = \<lparr>xLow = xLowW - BaseX g, xHigh = xHighW - BaseX g, yLow = yLowW - BaseY g,
                    yHigh = yHighW - BaseY g, reachBorder = border\<rparr>
        in case search_loop g goal (sx, sy) of
             None \<Rightarrow> None
           | Some s \<Rightarrow>
               (if \<not> sFound s then Some None
                else
                  let c = sCur s; prevSrc = sSrc s c in
                  Some (map_option (\<lambda>corners. rev (map (\<lambda>(x, y). (BaseX g + x, BaseY g + y)) corners))
                    (unwind (sSrc s) (sx, sy) (nat (2 * GridSize)) c prevSrc prevSrc [c]))))"

definition FindPathToTile :: "Grid \<Rightarrow> int \<Rightarrow> int \<Rightarrow> int \<Rightarrow> int \<Rightarrow> bool \<Rightarrow> (int \<times> int) list option option" where
  "FindPathToTile g startX startY goalX goalY border = FindPath g startX startY goalX goalX goalY goalY border"

section \<open>The grid as a graph\<close>

definition step_to :: "Grid \<Rightarrow> int \<times> int \<Rightarrow> move \<Rightarrow> (int \<times> int) option" where
  "step_to g c mv = (if open_move g c (fst mv) then Some (shift c (fst mv)) else None)"

definition room :: "(int \<times> int) set" where
  "room = {c. inside (fst c) (snd c)}"

lemma room_box: "room = {0..<96} \<times> {0..<96}"
  by (auto simp: room_def inside_def GridSize_def)

lemma finite_room: "finite room" and card_room: "card room = ring"
  by (simp_all add: room_box ring_def)

lemma open_move_room: "c \<in> room \<Longrightarrow> open_move g c off \<Longrightarrow> shift c off \<in> room"
  by (cases c) (auto simp: open_move_def room_box shift_def GridSize_def Let_def split: if_splits)

interpretation gs: search_graph "step_to g" moves start room for g start
proof unfold_locales
  show "finite room" by (rule finite_room)
  show "d \<in> room" if "c \<in> room" "step_to g c m = Some d" for c m d
    using that open_move_room [of c g "fst m"] by (auto simp only: step_to_def option.inject option.distinct split: if_splits)
qed

lemma move_facts:
  assumes "mv \<in> set moves"
  shows "snd mv \<noteq> 0" "shift (shift c (fst mv)) (unwind_off (snd mv)) = c"
  using assms by (auto simp: moves_def shift_def unwind_off_def)

lemma move_unique: "mv \<in> set moves \<Longrightarrow> mv' \<in> set moves \<Longrightarrow> snd mv = snd mv' \<Longrightarrow> mv = mv'"
  by (auto simp: moves_def)

section \<open>The loop explores\<close>

abbreviation via_src :: "Search \<Rightarrow> int \<times> int \<Rightarrow> move \<Rightarrow> bool" where
  "via_src s \<equiv> \<lambda>c m. sSrc s c = snd m"

definition tracks :: "Search \<Rightarrow> (int \<times> int) list \<Rightarrow> nat \<Rightarrow> bool" where
  "tracks s E r \<longleftrightarrow> (\<forall>i < length E. sQueue s i = E ! i) \<and> sRead s = r mod ring \<and>
     sWrite s = length E mod ring \<and> (\<forall>c. sSrc s c \<noteq> 0 \<longleftrightarrow> c \<in> set E)"

lemma try_move_tracks:
  assumes e: "exploring (step_to g) moves start (via_src s) E r D tried" and t: "tracks s E (Suc r)"
    and mv: "mv \<in> set moves" and start: "start \<in> room"
  shows "\<exists>E' D'. exploring (step_to g) moves start (via_src (try_move g (E ! r) mv s)) E' r D' (tried @ [mv]) \<and>
    tracks (try_move g (E ! r) mv s) E' (Suc r) \<and> E' ! r = E ! r \<and> (\<exists>xs. E' = E @ xs)"
proof (cases "open_move g (E ! r) (fst mv) \<and> sSrc s (shift (E ! r) (fst mv)) = 0")
  case False
  have "exploring (step_to g) moves start (via_src s) E r D (tried @ [mv])"
    by (rule gs.exploring_skip [OF e]) (use False t in \<open>auto simp: tracks_def step_to_def split: if_splits\<close>)
  then show ?thesis
    using False t by (intro exI [of _ E] exI [of _ D]) (auto simp: try_move_def Let_def)
next
  case True
  let ?d = "shift (E ! r) (fst mv)" and ?s = "try_move g (E ! r) mv s"
  have s: "?s = s\<lparr>sQueue := (sQueue s)(sWrite s := ?d), sSrc := (sSrc s)(?d := snd mv),
      sWrite := (sWrite s + 1) mod ring\<rparr>"
    using True by (simp add: try_move_def Let_def)
  have new: "?d \<notin> set E" using True t unfolding tracks_def by blast
  have e': "exploring (step_to g) moves start (via_src ?s) (E @ [?d]) r (D(?d := Suc (D (E ! r)))) (tried @ [mv])"
    by (rule gs.exploring_push [OF e]) (use True new mv in \<open>auto simp: step_to_def s\<close>)
  then have "length (E @ [?d]) \<le> ring"
    using gs.reached_size [OF _ start] card_room by (fastforce simp: exploring_def)
  then have w: "sWrite s = length E" using t by (simp add: tracks_def)
  have "tracks ?s (E @ [?d]) (Suc r)"
    using t w new move_facts(1) [OF mv]
    by (auto simp: tracks_def s nth_append less_Suc_eq)
  moreover have "(E @ [?d]) ! r = E ! r" using e by (simp add: exploring_def nth_append)
  ultimately show ?thesis using e' by blast
qed

lemma try_moves_track:
  assumes "exploring (step_to g) moves start (via_src s) E r D tried" "tracks s E (Suc r)"
    "set rest \<subseteq> set moves" "start \<in> room"
  shows "\<exists>E' D'. exploring (step_to g) moves start (via_src (fold (try_move g (E ! r)) rest s)) E' r D' (tried @ rest) \<and>
    tracks (fold (try_move g (E ! r)) rest s) E' (Suc r) \<and> (\<exists>xs. E' = E @ xs)"
  using assms(1-3)
proof (induction rest arbitrary: s E D tried)
  case Nil
  then show ?case by auto
next
  case (Cons mv rest)
  obtain E1 D1 xs where 1: "exploring (step_to g) moves start (via_src (try_move g (E ! r) mv s)) E1 r D1 (tried @ [mv])"
      "tracks (try_move g (E ! r) mv s) E1 (Suc r)" "E1 ! r = E ! r" "E1 = E @ xs"
    using try_move_tracks [OF Cons.prems(1,2) _ assms(4), of mv] Cons.prems(3) by auto
  show ?case
    using Cons.IH [OF 1(1,2)] Cons.prems(3) 1(3,4) by auto
qed

text \<open>The ring buffer is empty exactly if every queued cell was taken out.\<close>

lemma ring_empty:
  assumes "explored (step_to g) moves start via E r D" "start \<in> room"
  shows "r mod ring = length E mod ring \<longleftrightarrow> r = length E"
proof
  have size: "length E \<le> ring" "r \<le> length E"
    using gs.reached_size [OF _ assms(2), of g via E r D] assms(1) card_room by (auto simp: explored_def)
  assume eq: "r mod ring = length E mod ring"
  show "r = length E"
  proof (cases "length E = ring")
    case True
    then have "r = 0 \<or> r = ring" using eq size by (cases "r = ring") auto
    moreover have "\<exists>j < 1. j < r" if "1 < length E"
      using assms(1) that unfolding explored_def reached_def by (metis zero_less_one)
    ultimately show ?thesis using True by (auto simp: ring_def)
  next
    case False
    then show ?thesis using eq size by simp
  qed
qed simp

text \<open>What the loop ends with: a goal cell next in the queue, or everything reachable expanded.\<close>

definition search_result :: "Grid \<Rightarrow> Goal \<Rightarrow> int \<times> int \<Rightarrow> Search \<Rightarrow> (int \<times> int) list \<Rightarrow> nat \<Rightarrow> (int \<times> int \<Rightarrow> nat) \<Rightarrow> bool" where
  "search_result g goal start s E r D \<longleftrightarrow>
     explored (step_to g) moves start (via_src s) E r D \<and> (\<forall>j < r. \<not> at_goal g goal (E ! j)) \<and>
     (if sFound s then r < length E \<and> sCur s = E ! r \<and> at_goal g goal (E ! r) else r = length E)"

lemma search_loop_result:
  assumes "start \<in> room" "explored (step_to g) moves start (via_src s) E r D" "tracks s E r"
    "\<forall>j < r. \<not> at_goal g goal (E ! j)" "\<not> sFound s"
  shows "\<exists>t E' r' D'. while_option (\<lambda>s. sRead s \<noteq> sWrite s \<and> \<not> sFound s) (search_step g goal) s = Some t \<and>
    search_result g goal start t E' r' D'"
  using assms(2-5)
proof (induction "ring - r" arbitrary: s E r D rule: less_induct)
  case less
  let ?loop = "while_option (\<lambda>s. sRead s \<noteq> sWrite s \<and> \<not> sFound s) (search_step g goal)"
  have empty: "sRead s = sWrite s \<longleftrightarrow> r = length E"
    using ring_empty [OF less.prems(1) assms(1)] less.prems(2) by (simp add: tracks_def)
  show ?case
  proof (cases "r = length E")
    case True
    then have "?loop s = Some s" using empty by (subst while_option_unfold) simp
    then show ?thesis
      using less.prems True by (auto simp: search_result_def)
  next
    case False
    then have r: "r < length E" using less.prems(1) by (simp add: explored_def)
    have go: "?loop s = ?loop (search_step g goal s)"
      using empty False less.prems(4) by (subst while_option_unfold) simp
    let ?s = "s\<lparr>sCur := E ! r, sRead := (sRead s + 1) mod ring\<rparr>"
    have cur: "sQueue s (sRead s) = E ! r" and rr: "(sRead s + 1) mod ring = Suc r mod ring"
    proof -
      have "length E \<le> ring"
        using gs.reached_size [OF _ assms(1), of g "via_src s" E r D] less.prems(1) card_room
        by (auto simp: explored_def)
      then have "sRead s = r" using less.prems(2) r by (simp add: tracks_def)
      then show "sQueue s (sRead s) = E ! r" "(sRead s + 1) mod ring = Suc r mod ring"
        using less.prems(2) r by (simp_all add: tracks_def)
    qed
    show ?thesis
    proof (cases "at_goal g goal (E ! r)")
      case True
      then have st: "search_step g goal s = ?s\<lparr>sFound := True\<rparr>"
        by (simp add: search_step_def cur Let_def)
      have "?loop (search_step g goal s) = Some (search_step g goal s)"
        by (subst while_option_unfold) (simp add: st)
      moreover have "search_result g goal start (search_step g goal s) E r D"
        using less.prems True r by (simp add: st search_result_def)
      ultimately show ?thesis unfolding go by blast
    next
      case False
      then have st: "search_step g goal s = fold (try_move g (E ! r)) moves ?s"
        by (simp add: search_step_def cur Let_def)
      have "exploring (step_to g) moves start (via_src ?s) E r D []"
        using gs.exploring_start [OF less.prems(1) r] by simp
      moreover have "tracks ?s E (Suc r)"
        using less.prems(2) rr by (simp add: tracks_def)
      ultimately obtain E' D' xs where 1: "exploring (step_to g) moves start (via_src (search_step g goal s)) E' r D' moves"
          "tracks (search_step g goal s) E' (Suc r)" "E' = E @ xs"
        using try_moves_track [of g start ?s E r D "[]" moves] assms(1) unfolding st by auto
      have "sFound (fold (try_move g c) mvs k) = sFound k" for c mvs k
        by (induction mvs arbitrary: k) (simp_all add: try_move_def Let_def)
      then have nf: "\<not> sFound (search_step g goal s)" using less.prems(4) by (simp add: st)
      have ng: "\<forall>j < Suc r. \<not> at_goal g goal (E' ! j)"
        using less.prems(3) False r 1(3) by (auto simp: less_Suc_eq nth_append)
      have "ring - Suc r < ring - r"
        using gs.reached_size [OF _ assms(1), of g "via_src s" E r D] less.prems(1) card_room r
        by (auto simp: explored_def)
      from less.hyps [OF this gs.exploring_finish [OF 1(1)] 1(2) ng nf] show ?thesis
        unfolding go .
    qed
  qed
qed

lemma search_loop_ends:
  assumes "start \<in> room"
  obtains s E r D where "search_loop g goal start = Some s" "search_result g goal start s E r D"
proof -
  have "tracks (search_start start) [start] 0"
    by (auto simp: tracks_def search_start_def ring_def)
  from search_loop_result [OF assms gs.explored_start this, where g = g and goal = goal]
  have "\<exists>t E r D. search_loop g goal start = Some t \<and> search_result g goal start t E r D"
    by (simp add: search_loop_def search_start_def)
  then show ?thesis using that by blast
qed

text \<open>Both answers of the loop, in terms of the walks of the grid.\<close>

lemma found_nearest:
  assumes "search_result g goal start s E r D" "sFound s"
    "walk (step_to g) moves start n c" "at_goal g goal c"
  shows "D (sCur s) \<le> n"
  using gs.explored_complete [of g start "via_src s" E r D n c] assms
  by (auto simp: search_result_def in_set_conv_nth)

lemma exhausted:
  assumes "search_result g goal start s E r D" "\<not> sFound s"
    "walk (step_to g) moves start n c"
  shows "\<not> at_goal g goal c"
  using gs.explored_complete [of g start "via_src s" E r D n c] assms
  by (auto simp: search_result_def in_set_conv_nth)

lemma found_walk:
  assumes "search_result g goal start s E r D" "sFound s"
  shows "walk (step_to g) moves start (D (sCur s)) (sCur s) \<and> at_goal g goal (sCur s)"
  using gs.reached_walk [of g start "via_src s" E r D r] assms
  by (auto simp: search_result_def explored_def)

section \<open>The reconstruction\<close>

definition along :: "int \<times> int \<Rightarrow> int \<times> int \<Rightarrow> nat \<Rightarrow> int \<times> int" where
  "along c off k = (fst c + int k * fst off, snd c + int k * snd off)"

definition leg :: "Grid \<Rightarrow> int \<times> int \<Rightarrow> int \<times> int \<Rightarrow> nat \<Rightarrow> int \<times> int \<Rightarrow> bool" where
  "leg g c off k b \<longleftrightarrow>
     off \<in> set (map fst moves) \<and> b = along c off k \<and> (\<forall>j < k. open_move g (along c off j) off)"

text \<open>Walking straight from \<open>c\<close> to each corner in turn takes \<open>n\<close> legal steps.\<close>

inductive route :: "Grid \<Rightarrow> nat \<Rightarrow> int \<times> int \<Rightarrow> (int \<times> int) list \<Rightarrow> bool" for g where
  stop: "route g 0 c []"
| turn: "leg g c off k b \<Longrightarrow> route g n b cs \<Longrightarrow> route g (k + n) c (b # cs)"

inductive_cases route_ConsE: "route g n c (b # cs)"
inductive_simps route_Nil [simp]: "route g n c []"

lemma along_simps [simp]: "along c off 0 = c" "along (shift c off) off k = along c off (Suc k)" "along c off 1 = shift c off"
  by (simp_all add: along_def shift_def algebra_simps)

lemma leg_back:
  assumes "leg g (shift p off) off k b" "open_move g p off"
  shows "leg g p off (Suc k) b"
  using assms by (auto simp: leg_def less_Suc_eq_0_disj)

lemma leg_zero: "off \<in> set (map fst moves) \<Longrightarrow> leg g c off 0 c"
  by (simp add: leg_def)

text \<open>
  The list under construction while the reconstruction stands at \<open>c\<close>: in walk order, a straight leg
  in the direction being unwound and then the corners found before.
\<close>

definition heading_to :: "Grid \<Rightarrow> int \<times> int \<Rightarrow> int \<Rightarrow> (int \<times> int) list \<Rightarrow> nat \<Rightarrow> bool" where
  "heading_to g c prevSrc acc t \<longleftrightarrow>
     (\<exists>b cs k n mv. rev acc = b # cs \<and> route g n b cs \<and> t = k + n \<and> mv \<in> set moves \<and>
        leg g c (fst mv) k b \<and> (k = 0 \<or> snd mv = prevSrc))"

lemma heading_route: "heading_to g c prevSrc acc t \<Longrightarrow> route g t c (rev acc)"
  using route.turn unfolding heading_to_def by metis

lemma heading_back:
  assumes h: "heading_to g c prevSrc acc t" and mv: "mv \<in> set moves" "open_move g p (fst mv)" "c = shift p (fst mv)"
  shows "heading_to g p (snd mv) (if prevSrc \<noteq> snd mv then acc @ [c] else acc) (Suc t)"
proof -
  have off: "fst mv \<in> set (map fst moves)" using mv(1) by auto
  obtain b cs k n mv' where a: "rev acc = b # cs" "route g n b cs" "t = k + n" "mv' \<in> set moves"
      "leg g c (fst mv') k b" "k = 0 \<or> snd mv' = prevSrc"
    using h unfolding heading_to_def by blast
  show ?thesis
  proof (cases "prevSrc = snd mv")
    case True
    have "leg g c (fst mv) k b"
      using a(5,6) move_unique [OF a(4) mv(1)] True off by (auto simp: leg_def)
    then have "leg g p (fst mv) (Suc k) b" using leg_back mv by simp
    then show ?thesis
      unfolding heading_to_def
      by (intro exI [of _ b] exI [of _ cs] exI [of _ "Suc k"] exI [of _ n] exI [of _ mv])
         (simp add: a(1-3) mv(1) True)
  next
    case False
    have "leg g p (fst mv) (Suc 0) c" using leg_back [OF leg_zero [OF off]] mv by simp
    moreover have "route g t c (rev acc)" using heading_route [OF h] .
    ultimately show ?thesis
      unfolding heading_to_def
      by (intro exI [of _ c] exI [of _ "rev acc"] exI [of _ "Suc 0"] exI [of _ t] exI [of _ mv])
         (simp add: mv(1) False)
  qed
qed

lemma heading_nonempty: "heading_to g c prevSrc acc t \<Longrightarrow> acc \<noteq> []"
  by (auto simp: heading_to_def)

lemma last_rev_append: "acc \<noteq> [] \<Longrightarrow> hd (acc @ xs) = hd acc"
  by (cases acc) auto

lemma unwind_route:
  assumes R: "reached (step_to g) moves start (via_src s) E r D" and room: "start \<in> room"
  shows "i < length E \<Longrightarrow> D (E ! i) \<le> n \<Longrightarrow> heading_to g (E ! i) prevSrc acc t \<Longrightarrow>
    \<exists>acc'. unwind (sSrc s) start n (E ! i) prevSrc (sSrc s (E ! i)) acc = Some acc' \<and>
      route g (D (E ! i) + t) start (rev acc') \<and> acc' \<noteq> [] \<and> hd acc' = hd acc"
proof (induction n arbitrary: i prevSrc acc t)
  case 0
  have "\<not> 0 < i"
    using R 0 unfolding reached_def by fastforce
  then have "E ! i = start" using R by (simp add: reached_def)
  then show ?case
    using 0 heading_route [OF 0(3)] heading_nonempty [OF 0(3)] by simp
next
  case (Suc n)
  show ?case
  proof (cases "E ! i = start")
    case True
    then have "D (E ! i) = 0" using R by (simp add: reached_def)
    then show ?thesis
      using True heading_route [OF Suc.prems(3)] heading_nonempty [OF Suc.prems(3)] by simp
  next
    case False
    then have "0 < i" using R by (cases i) (auto simp: reached_def)
    then obtain j mv where j: "j < i" "mv \<in> set moves" "sSrc s (E ! i) = snd mv"
        "step_to g (E ! j) mv = Some (E ! i)" "D (E ! i) = Suc (D (E ! j))"
      using R Suc.prems(1) unfolding reached_def by blast
    then have p: "open_move g (E ! j) (fst mv)" "E ! i = shift (E ! j) (fst mv)"
      by (auto simp only: step_to_def option.inject option.distinct split: if_splits)
    have prev: "shift (E ! i) (unwind_off (snd mv)) = E ! j"
      using p(2) move_facts(2) [OF j(2)] by simp
    have "inside (fst (E ! j)) (snd (E ! j))"
      using gs.reached_room [OF R room, of j] j(1) Suc.prems(1) by (simp add: room_def)
    moreover have "acc \<noteq> []" using Suc.prems(3) by (auto simp: heading_to_def)
    ultimately show ?thesis
      using Suc.IH [of j "snd mv" "if prevSrc \<noteq> snd mv then acc @ [E ! i] else acc" "Suc t"]
        heading_back [OF Suc.prems(3) j(2) p] j Suc.prems(1,2) False prev
      by (cases "prevSrc = snd mv") (auto simp: last_rev_append)
  qed
qed

lemma unwind_too_long:
  assumes R: "reached (step_to g) moves start (via_src s) E r D" and room: "start \<in> room"
  shows "i < length E \<Longrightarrow> n < D (E ! i) \<Longrightarrow>
    unwind (sSrc s) start n (E ! i) prevSrc (sSrc s (E ! i)) acc = None"
proof (induction n arbitrary: i prevSrc acc)
  case 0
  then have "E ! i \<noteq> start" using R by (auto simp: reached_def)
  then show ?case by simp
next
  case (Suc n)
  then have ns: "E ! i \<noteq> start" using R by (auto simp: reached_def)
  then have "0 < i" using R by (cases i) (auto simp: reached_def)
  then obtain j mv where j: "j < i" "mv \<in> set moves" "sSrc s (E ! i) = snd mv"
      "step_to g (E ! j) mv = Some (E ! i)" "D (E ! i) = Suc (D (E ! j))"
    using R Suc.prems(1) unfolding reached_def by blast
  then have "E ! i = shift (E ! j) (fst mv)"
    by (auto simp only: step_to_def option.inject option.distinct split: if_splits)
  then have prev: "shift (E ! i) (unwind_off (snd mv)) = E ! j"
    using move_facts(2) [OF j(2)] by simp
  have "unwind (sSrc s) start n (E ! j) (snd mv) (sSrc s (E ! j)) a = None" for a
    using Suc.IH [of j] j Suc.prems by auto
  then show ?case using ns prev j(3) by (auto simp: Let_def)
qed

section \<open>What FindPath promises\<close>

definition local_tile :: "Grid \<Rightarrow> int \<times> int \<Rightarrow> int \<times> int" where
  "local_tile g c = (fst c - BaseX g, snd c - BaseY g)"

definition local_goal :: "Grid \<Rightarrow> int \<Rightarrow> int \<Rightarrow> int \<Rightarrow> int \<Rightarrow> bool \<Rightarrow> Goal" where
  "local_goal g xl xh yl yh border = \<lparr>xLow = xl - BaseX g, xHigh = xh - BaseX g, yLow = yl - BaseY g,
     yHigh = yh - BaseY g, reachBorder = border\<rparr>"

lemma local_world [simp]: "local_tile g (case c of (x, y) \<Rightarrow> (BaseX g + x, BaseY g + y)) = c"
  by (cases c) (simp add: local_tile_def)

lemma FindPath_search:
  assumes "local_tile g (sx, sy) \<in> room" "search_loop g (local_goal g xl xh yl yh border) (local_tile g (sx, sy)) = Some s"
  shows "FindPath g sx sy xl xh yl yh border =
    (if \<not> sFound s then Some None
     else Some (map_option (\<lambda>cs. rev (map (\<lambda>(x, y). (BaseX g + x, BaseY g + y)) cs))
       (unwind (sSrc s) (local_tile g (sx, sy)) 192 (sCur s) (sSrc s (sCur s)) (sSrc s (sCur s)) [sCur s])))"
  using assms
  by (simp add: FindPath_def World2Local_def local_tile_def local_goal_def room_def inside_def GridSize_def Let_def)

lemma FindPath_outside:
  "local_tile g (sx, sy) \<notin> room \<Longrightarrow> FindPath g sx sy xl xh yl yh border = Some None"
  by (auto simp: FindPath_def World2Local_def local_tile_def room_def inside_def Let_def)

lemma FindPath_spec:
  fixes g sx sy xl xh yl yh border
  defines "start \<equiv> local_tile g (sx, sy)" and "goal \<equiv> local_goal g xl xh yl yh border"
  assumes room: "start \<in> room"
  shows "(\<exists>cs n. FindPath g sx sy xl xh yl yh border = Some (Some cs) \<and> n \<le> 192 \<and> cs \<noteq> [] \<and>
      route g n start (map (local_tile g) cs) \<and> at_goal g goal (local_tile g (last cs)) \<and>
      walk (step_to g) moves start n (local_tile g (last cs)) \<and>
      (\<forall>m c. walk (step_to g) moves start m c \<longrightarrow> at_goal g goal c \<longrightarrow> n \<le> m)) \<or>
    (FindPath g sx sy xl xh yl yh border = Some None \<and>
      (\<forall>m c. walk (step_to g) moves start m c \<longrightarrow> at_goal g goal c \<longrightarrow> 192 < m))"
proof -
  obtain s E r D where s: "search_loop g goal start = Some s" "search_result g goal start s E r D"
    using search_loop_ends [OF room] by blast
  note f = FindPath_search [OF room [unfolded start_def] s(1) [unfolded start_def goal_def]]
  show ?thesis
  proof (cases "sFound s")
    case False
    then show ?thesis using exhausted [OF s(2)] f by simp
  next
    case True
    then have r: "r < length E" "sCur s = E ! r" "reached (step_to g) moves start (via_src s) E r D"
      using s(2) by (auto simp: search_result_def explored_def)
    note near = found_nearest [OF s(2) True] and goal = found_walk [OF s(2) True]
    show ?thesis
    proof (cases "D (sCur s) \<le> 192")
      case True
      have "heading_to g (E ! r) (sSrc s (E ! r)) [E ! r] 0"
        unfolding heading_to_def
        by (intro exI [of _ "E ! r"] exI [of _ "[]"] exI [of _ 0] exI [of _ 0] exI [of _ "((-1, 0), 2)"])
           (simp add: leg_zero moves_def)
      from unwind_route [OF r(3) room r(1) _ this, of 192] True r(2)
      obtain acc where acc: "unwind (sSrc s) start 192 (sCur s) (sSrc s (sCur s)) (sSrc s (sCur s)) [sCur s] = Some acc"
          "route g (D (sCur s)) start (rev acc)" "acc \<noteq> []" "hd acc = sCur s"
        by auto
      let ?cs = "rev (map (\<lambda>(x, y). (BaseX g + x, BaseY g + y)) acc)"
      have cs: "FindPath g sx sy xl xh yl yh border = Some (Some ?cs)" "map (local_tile g) ?cs = rev acc"
        using f \<open>sFound s\<close> acc(1) unfolding start_def by (simp_all add: rev_map comp_def)
      have ne: "?cs \<noteq> []" using acc(3) by simp
      have "local_tile g (last ?cs) = sCur s"
        using acc(3,4) by (simp add: last_rev hd_map)
      then show ?thesis
        using cs ne True acc(2) goal near by (intro disjI1 exI [of _ ?cs] exI [of _ "D (sCur s)"]) auto
    next
      case False
      then have "unwind (sSrc s) start 192 (sCur s) (sSrc s (sCur s)) (sSrc s (sCur s)) [sCur s] = None"
        using unwind_too_long [OF r(3) room r(1)] r(2) by simp
      then show ?thesis
        using f \<open>sFound s\<close> near False unfolding start_def [symmetric] by fastforce
    qed
  qed
qed

end
