(* ===== verification/PathProps.thy ===== *)
theory PathProps
  imports PathFind
begin

text \<open>
  What the pathfinder promises: it always returns, its paths can be walked and are the shortest there
  are, it finds one exactly if one of at most 192 steps exists, and on a built grid every step can
  be taken back.
\<close>

section \<open>The search\<close>


text \<open>
  C3. The path that \<open>FindPath\<close> returns can be walked as it stands and is the shortest: going straight
  from the start to each corner in turn takes \<open>n\<close> steps, each of them open in the grid (no wall, no
  blocked tile, no cut corner); the last corner is a goal; and no sequence of open steps reaches any goal in
  fewer than \<open>n\<close>.
\<close>

theorem find_path_shortest:
  assumes "FindPath g sx sy xl xh yl yh border = Some (Some cs)"
  shows "\<exists>n. cs \<noteq> [] \<and> route g n (local_tile g (sx, sy)) (map (local_tile g) cs) \<and>
    at_goal g (local_goal g xl xh yl yh border) (local_tile g (last cs)) \<and>
    (\<forall>m c. walk (step_to g) moves (local_tile g (sx, sy)) m c \<longrightarrow>
       at_goal g (local_goal g xl xh yl yh border) c \<longrightarrow> n \<le> m)"
  using FindPath_spec [of g sx sy xl xh yl yh border] FindPath_outside [of g sx sy xl xh yl yh border] assms
  by (cases "local_tile g (sx, sy) \<in> room") auto

text \<open>
  C9. \<open>FindPath\<close> answers nil exactly if no goal can be reached in 192 steps: for a start inside the
  grid, nil means that every sequence of open steps that reaches a goal is longer than that.
\<close>

theorem find_path_complete:
  assumes "inside (sx - BaseX g) (sy - BaseY g)"
  shows "FindPath g sx sy xl xh yl yh border = Some None \<longleftrightarrow>
    (\<forall>m c. walk (step_to g) moves (local_tile g (sx, sy)) m c \<longrightarrow>
       at_goal g (local_goal g xl xh yl yh border) c \<longrightarrow> 192 < m)"
proof -
  have "local_tile g (sx, sy) \<in> room" using assms by (simp add: local_tile_def room_def)
  from FindPath_spec [OF this, of xl xh yl yh border] show ?thesis
  proof (elim disjE exE conjE)
    fix cs n
    assume "FindPath g sx sy xl xh yl yh border = Some (Some cs)" "n \<le> 192"
      "walk (step_to g) moves (local_tile g (sx, sy)) n (local_tile g (last cs))"
      "at_goal g (local_goal g xl xh yl yh border) (local_tile g (last cs))"
    then show ?thesis by (metis linorder_not_less option.distinct(1) option.inject)
  qed simp
qed

section \<open>Examples\<close>

definition empty_facts :: Facts where
  "empty_facts = \<lparr>SceneryDefs = \<lambda>_. None, BoundaryDefs = \<lambda>_. None, SceneryLocs = [], BoundaryLocs = [],
     TileObjectTypes = []\<rparr>"

definition open_grid :: Grid where
  "open_grid = \<lparr>gMask = \<lambda>_ _. 0, BaseX = 48, BaseY = 48, PlayerX = 50, PlayerY = 50\<rparr>"

lemma open_grid_built: "BuildGrid (\<lambda>_. None) empty_facts 98 98 0 None = Inr open_grid"
  by (simp add: BuildGrid_def ReadSector_def applyScenery_def applyBoundaries_def applyLiveOverlay_def
      empty_facts_def open_grid_def SectorSize_def planeHeight_def Let_def)

lemma walk_east: "k \<le> 10 \<Longrightarrow> walk (step_to open_grid) moves (50, 50) k (50 + int k, 50)"
proof (induction k)
  case 0
  then show ?case using walk.here by fastforce
next
  case (Suc k)
  have "step_to open_grid (50 + int k, 50) ((1, 0), 8) = Some (50 + int (Suc k), 50)"
    using Suc.prems by (simp add: step_to_def open_move_def open_grid_def GridSize_def shift_def)
  then show ?case
    using Suc walk.onward [of "step_to open_grid" moves "(50, 50)" k _ "((1, 0), 8)"] by (simp add: moves_def)
qed

lemma open_path:
  obtains cs where "FindPath open_grid 98 98 103 103 98 98 False = Some (Some cs)"
proof -
  have l: "local_tile open_grid (98, 98) = (50, 50)" by (simp add: local_tile_def open_grid_def)
  have r: "local_tile open_grid (98, 98) \<in> room" by (simp add: l room_def inside_def GridSize_def)
  have "walk (step_to open_grid) moves (local_tile open_grid (98, 98)) 5 (55, 50)"
    using walk_east [of 5] by (simp add: l)
  moreover have "at_goal open_grid (local_goal open_grid 103 103 98 98 False) (55, 50)"
    by (simp add: at_goal_def local_goal_def open_grid_def)
  ultimately show ?thesis
    using FindPath_spec [OF r, of 103 103 98 98 False] that by fastforce
qed

theorem find_path_shortest_witness:
  "\<exists>cs n. FindPath open_grid 98 98 103 103 98 98 False = Some (Some cs) \<and> cs \<noteq> [] \<and> n \<le> 5 \<and>
     route open_grid n (50, 50) (map (local_tile open_grid) cs)"
proof -
  obtain cs where cs: "FindPath open_grid 98 98 103 103 98 98 False = Some (Some cs)"
    by (rule open_path)
  have l: "local_tile open_grid (98, 98) = (50, 50)" by (simp add: local_tile_def open_grid_def)
  have g: "at_goal open_grid (local_goal open_grid 103 103 98 98 False) (55, 50)"
    by (simp add: at_goal_def local_goal_def open_grid_def)
  have w: "walk (step_to open_grid) moves (50, 50) 5 (55, 50)"
    using walk_east [of 5] by simp
  obtain n where "cs \<noteq> []" "route open_grid n (50, 50) (map (local_tile open_grid) cs)"
      "\<forall>m c. walk (step_to open_grid) moves (50, 50) m c \<longrightarrow>
         at_goal open_grid (local_goal open_grid 103 103 98 98 False) c \<longrightarrow> n \<le> m"
    using find_path_shortest [OF cs] unfolding l by blast
  with cs g w show ?thesis by blast
qed

theorem find_path_complete_witness:
  "FindPath open_grid 98 98 103 103 98 98 False \<noteq> Some None"
proof -
  have "inside (98 - BaseX open_grid) (98 - BaseY open_grid)"
    by (simp add: open_grid_def inside_def GridSize_def)
  moreover have "local_tile open_grid (98, 98) = (50, 50)" by (simp add: local_tile_def open_grid_def)
  moreover have "walk (step_to open_grid) moves (50, 50) 5 (55, 50)"
    using walk_east [of 5] by simp
  moreover have "at_goal open_grid (local_goal open_grid 103 103 98 98 False) (55, 50)"
    by (simp add: at_goal_def local_goal_def open_grid_def)
  ultimately show ?thesis
    using find_path_complete [of 98 open_grid 98 103 103 98 98 False] by fastforce
qed

section \<open>A path that is missed\<close>

text \<open>
  A corridor down one column, across, up another and across again: 193 steps without a shortcut. The
  code holds that a correct reconstruction needs at most \<open>2*GridSize\<close> steps.
\<close>

definition corridor :: "int \<times> int \<Rightarrow> bool" where
  "corridor c = (let (x, y) = c in x = 0 \<or> x = 1 \<and> y = 95 \<or> x = 2 \<or> x = 3 \<and> y = 0)"

definition maze :: Grid where
  "maze = \<lparr>gMask = \<lambda>x y. if corridor (x, y) then 0 else FullBlockC, BaseX = 0, BaseY = 0, PlayerX = 0, PlayerY = 0\<rparr>"

definition progress :: "int \<times> int \<Rightarrow> int" where
  "progress c = (let (x, y) = c in if x = 0 then y else if x = 1 then 96 else if x = 2 then 192 - y else 193)"

lemma maze_mask:
  "gMask maze x y AND WestBlocked = 0 \<longleftrightarrow> corridor (x, y)" "gMask maze x y AND EastBlocked = 0 \<longleftrightarrow> corridor (x, y)"
  "gMask maze x y AND SouthBlocked = 0 \<longleftrightarrow> corridor (x, y)" "gMask maze x y AND NorthBlocked = 0 \<longleftrightarrow> corridor (x, y)"
  "gMask maze x y AND SouthWestBlocked = 0 \<longleftrightarrow> corridor (x, y)" "gMask maze x y AND SouthEastBlocked = 0 \<longleftrightarrow> corridor (x, y)"
  "gMask maze x y AND NorthWestBlocked = 0 \<longleftrightarrow> corridor (x, y)" "gMask maze x y AND NorthEastBlocked = 0 \<longleftrightarrow> corridor (x, y)"
  by (simp_all add: maze_def WestBlocked_def EastBlocked_def SouthBlocked_def NorthBlocked_def
      SouthWestBlocked_def SouthEastBlocked_def NorthWestBlocked_def NorthEastBlocked_def fullBlock_def)

lemma maze_open:
  assumes "open_move maze (x, y) (dx, dy)"
  shows "(dx, dy) \<in> {-1, 0, 1} \<times> {-1, 0, 1} \<and> (dx, dy) \<noteq> (0, 0) \<and> corridor (x + dx, y + dy) \<and>
    corridor (x + dx, y) \<and> corridor (x, y + dy) \<or>
    (dx, dy) \<in> {(-1, 0), (1, 0), (0, -1), (0, 1)} \<and> corridor (x + dx, y + dy)"
  using assms by (simp add: open_move_def maze_mask Let_def split: if_splits)

lemma maze_step:
  assumes "corridor c" "step_to maze c mv = Some d"
  shows "corridor d \<and> progress d \<le> progress c + 1"
proof -
  obtain x y dx dy where c: "c = (x, y)" and mv: "fst mv = (dx, dy)"
    by (cases c, cases "fst mv")
  have d: "d = (x + dx, y + dy)" and o: "open_move maze (x, y) (dx, dy)"
    using assms(2) by (simp_all add: step_to_def shift_def c mv split: if_splits)
  have n: "corridor (x + dx, y + dy)" "dx \<noteq> 0 \<and> dy \<noteq> 0 \<longrightarrow> corridor (x + dx, y) \<and> corridor (x, y + dy)"
      "dx = -1 \<or> dx = 0 \<or> dx = 1" "dy = -1 \<or> dy = 0 \<or> dy = 1"
    using maze_open [OF o] by auto
  have "x = 0 \<or> x = 1 \<and> y = 95 \<or> x = 2 \<or> x = 3 \<and> y = 0"
    using assms(1) by (simp add: c corridor_def)
  then have "progress (x + dx, y + dy) \<le> progress (x, y) + 1"
    using n by (elim disjE conjE; simp add: corridor_def progress_def)
  then show ?thesis using n(1) by (simp add: c d)
qed

lemma maze_walk: "walk (step_to maze) moves (0, 0) n c \<Longrightarrow> corridor c \<and> progress c \<le> int n"
proof (induction rule: walk.induct)
  case here
  then show ?case by (simp add: corridor_def progress_def)
next
  case (onward n c m d)
  then show ?case using maze_step [of c m d] by force
qed

lemma maze_move:
  assumes "walk (step_to maze) moves (0, 0) n (x, y)" "((dx, dy), f) \<in> set moves"
    "open_move maze (x, y) (dx, dy)"
  shows "walk (step_to maze) moves (0, 0) (Suc n) (x + dx, y + dy)"
  using walk.onward [OF assms(1,2)] assms(3) by (simp add: step_to_def shift_def)

lemma maze_moves:
  "0 \<le> y \<Longrightarrow> y < 95 \<Longrightarrow> open_move maze (0, y) (0, 1)" "0 < y \<Longrightarrow> y \<le> 95 \<Longrightarrow> open_move maze (2, y) (0, -1)"
  "open_move maze (0, 95) (1, 0)" "open_move maze (1, 95) (1, 0)" "open_move maze (2, 0) (1, 0)"
  by (simp_all add: open_move_def maze_mask corridor_def GridSize_def Let_def)

lemma maze_down: "k \<le> 95 \<Longrightarrow> walk (step_to maze) moves (0, 0) k (0, int k)"
proof (induction k)
  case 0
  then show ?case using walk.here by fastforce
next
  case (Suc k)
  then show ?case
    using maze_move [of k 0 "int k" 0 1 4] maze_moves(1) [of "int k"] by (simp add: moves_def add.commute)
qed

lemma maze_up: "k \<le> 95 \<Longrightarrow> walk (step_to maze) moves (0, 0) (97 + k) (2, 95 - int k)"
proof (induction k)
  case 0
  have "walk (step_to maze) moves (0, 0) 96 (1, 95)"
    using maze_move [OF maze_down [of 95], of 1 0 8] maze_moves(3) by (simp add: moves_def)
  from maze_move [OF this, of 1 0 8] show ?case
    using maze_moves(4) by (simp add: moves_def)
next
  case (Suc k)
  then show ?case
    using maze_move [of "97 + k" 2 "95 - int k" 0 "-1" 1] maze_moves(2) [of "95 - int k"]
    by (simp add: moves_def algebra_simps)
qed

text \<open>
  A reachable tile can be missed: in the winding corridor \<open>maze\<close>, 193 open steps lead from the
  first tile to the last, and \<open>FindPathToTile\<close> answers nil.
\<close>

theorem winding_path_missed:
  "walk (step_to maze) moves (0, 0) 193 (3, 0) \<and> FindPathToTile maze 0 0 3 0 False = Some None"
proof
  show "walk (step_to maze) moves (0, 0) 193 (3, 0)"
    using maze_move [OF maze_up [of 95], of 1 0 8] maze_moves(5) by (simp add: moves_def)
  have l: "local_tile maze (0, 0) = (0, 0)" "local_tile maze (0, 0) \<in> room"
    by (simp_all add: local_tile_def maze_def room_def inside_def GridSize_def)
  have "192 < m" if "walk (step_to maze) moves (0, 0) m c" "at_goal maze (local_goal maze 3 3 0 0 False) c" for m c
    using maze_walk [OF that(1)] that(2)
    by (cases c) (auto simp: at_goal_def local_goal_def maze_def progress_def Let_def split: if_splits)
  then show "FindPathToTile maze 0 0 3 0 False = Some None"
    using FindPath_spec [OF l(2), of 3 3 0 0 False] unfolding l(1) FindPathToTile_def
    by (metis linorder_not_less)
qed

section \<open>Steps can be taken back\<close>

definition blocked_tile :: "int \<Rightarrow> bool" where
  "blocked_tile m \<longleftrightarrow> bit m 4 \<or> bit m 5 \<or> bit m 6"

lemma and_zero_bits: "(m :: int) AND v = 0 \<longleftrightarrow> (\<forall>n. \<not> (bit m n \<and> bit v n))"
  by (metis bit_0_eq bit_and_iff bit_eqI bot_apply bot_bool_def)

lemma blocked_bits:
  "bit WestBlocked n \<longleftrightarrow> n = 4 \<or> n = 5 \<or> n = 6 \<or> n = 3" "bit EastBlocked n \<longleftrightarrow> n = 4 \<or> n = 5 \<or> n = 6 \<or> n = 1"
  "bit SouthBlocked n \<longleftrightarrow> n = 4 \<or> n = 5 \<or> n = 6 \<or> n = 2" "bit NorthBlocked n \<longleftrightarrow> n = 4 \<or> n = 5 \<or> n = 6 \<or> n = 0"
  "bit SouthWestBlocked n \<longleftrightarrow> n = 4 \<or> n = 5 \<or> n = 6 \<or> n = 2 \<or> n = 3"
  "bit SouthEastBlocked n \<longleftrightarrow> n = 4 \<or> n = 5 \<or> n = 6 \<or> n = 2 \<or> n = 1"
  "bit NorthWestBlocked n \<longleftrightarrow> n = 4 \<or> n = 5 \<or> n = 6 \<or> n = 0 \<or> n = 3"
  "bit NorthEastBlocked n \<longleftrightarrow> n = 4 \<or> n = 5 \<or> n = 6 \<or> n = 0 \<or> n = 1"
  by (simp_all only: WestBlocked_def EastBlocked_def SouthBlocked_def NorthBlocked_def SouthWestBlocked_def
      SouthEastBlocked_def NorthWestBlocked_def NorthEastBlocked_def fullBlock_def bit_or_iff flag_bits bit_1_iff
      disj_assoc)

lemma mask_blocks:
  "m AND WestBlocked = 0 \<longleftrightarrow> \<not> blocked_tile m \<and> \<not> bit m 3"
  "m AND EastBlocked = 0 \<longleftrightarrow> \<not> blocked_tile m \<and> \<not> bit m 1"
  "m AND SouthBlocked = 0 \<longleftrightarrow> \<not> blocked_tile m \<and> \<not> bit m 2"
  "m AND NorthBlocked = 0 \<longleftrightarrow> \<not> blocked_tile m \<and> \<not> bit m 0"
  "m AND SouthWestBlocked = 0 \<longleftrightarrow> \<not> blocked_tile m \<and> \<not> bit m 2 \<and> \<not> bit m 3"
  "m AND SouthEastBlocked = 0 \<longleftrightarrow> \<not> blocked_tile m \<and> \<not> bit m 2 \<and> \<not> bit m 1"
  "m AND NorthWestBlocked = 0 \<longleftrightarrow> \<not> blocked_tile m \<and> \<not> bit m 0 \<and> \<not> bit m 3"
  "m AND NorthEastBlocked = 0 \<longleftrightarrow> \<not> blocked_tile m \<and> \<not> bit m 0 \<and> \<not> bit m 1"
  by (auto simp: and_zero_bits blocked_tile_def blocked_bits simp del: bit_0)
     (metis gr0I)+

lemma move_back:
  assumes t: "two_sided g" and p: "(x, y) \<in> room" "\<not> blocked_tile (gMask g x y)"
    and o: "open_move g (x, y) (dx, dy)"
  shows "open_move g (x + dx, y + dy) (- dx, - dy)"
proof -
  have NS: "bit (gMask g a b) 0 = bit (gMask g a (b - 1)) 2" if "inside a b" "b > 0" for a b
    using t that by (simp add: two_sided_def)
  have EW: "bit (gMask g a b) 1 = bit (gMask g (a - 1) b) 3" if "inside a b" "a > 0" for a b
    using t that by (simp add: two_sided_def)
  have d: "(dx, dy) \<in> {(-1, 0), (1, 0), (0, -1), (0, 1), (-1, -1), (1, -1), (-1, 1), (1, 1)}"
    using o by (auto simp: open_move_def Let_def split: if_splits)
  have i: "0 \<le> x" "x < 96" "0 \<le> y" "y < 96" using p(1) by (simp_all add: room_box)
  show ?thesis
    using d o i p(2) NS [of x y] NS [of x "y + 1"] NS [of "x - 1" y] NS [of "x + 1" y] NS [of "x - 1" "y + 1"] NS [of "x + 1" "y + 1"]
      EW [of x y] EW [of "x + 1" y] EW [of x "y - 1"] EW [of x "y + 1"] EW [of "x + 1" "y - 1"] EW [of "x + 1" "y + 1"]
    by (elim insertE emptyE)
       (simp_all add: open_move_def mask_blocks inside_def GridSize_def Let_def)
qed

text \<open>
  C11. No one-way walls: on a grid built from any landscape, any static data and any live overrides, a
  step from a tile that is not itself blocked can be taken back.
\<close>

theorem steps_reversible:
  assumes "BuildGrid arch f worldX worldY plane live = Inr g" and "inside x y"
    and "\<not> blocked_tile (gMask g x y)" and "open_move g (x, y) (dx, dy)"
  shows "open_move g (x + dx, y + dy) (- dx, - dy)"
  using move_back [OF BuildGrid_two_sided [OF assms(1)] _ assms(3,4)] assms(2) by (simp add: room_def)

theorem steps_reversible_witness:
  "open_move open_grid (51, 49) (-1, 1)"
  using steps_reversible [OF open_grid_built, of 50 50 1 "-1"]
  by (simp add: inside_def GridSize_def blocked_tile_def open_grid_def open_move_def)

end
