(* ===== verification/DslToken.thy ===== *)
theory DslToken
  imports GoString
begin

text \<open>
  The lexical units of the routine language (dsl/token/token.go): token kinds, their printed names,
  the table of reserved words, source positions and tokens. A constructor \<open>K_X\<close> is the Go constant
  \<open>token.X\<close>. The file name of a position is the same in every token of a stream and is left out.
\<close>

datatype kind =
    K_ILLEGAL | K_EOF | K_NEWLINE | K_IDENT | K_INT | K_FLOAT
  | K_STRING | K_FSTRING_OPEN | K_FSTRING_PART | K_FSTRING_CLOSE | K_OR | K_AND
  | K_NOT | K_EQ | K_NEQ | K_LT | K_LTE | K_GT
  | K_GTE | K_ADD | K_SUB | K_MUL | K_QUO | K_REM
  | K_ASSIGN | K_LPAREN | K_RPAREN | K_LBRACE | K_RBRACE | K_LBRACK
  | K_RBRACK | K_COMMA | K_DOT | K_DOTDOT | K_COLON | K_SEMICOL
  | K_ARROW | K_FATARROW | K_ROUTINE | K_PROC | K_ON | K_IF
  | K_ELIF | K_ELSE | K_WHILE | K_FOR | K_IN | K_BREAK
  | K_CONTINUE | K_RETURN | K_ABORT | K_REQUIRE | K_WAIT | K_DEFER
  | K_TRY | K_RECOVER | K_WHEN | K_SELECT | K_TIMEOUT | K_BECOMES
  | K_CHANGES | K_TRUE | K_FALSE | K_NULL | K_BOUNDS | K_EXTENDS
  | K_RUNTIME | K_REPEAT | K_UNTIL

text \<open>\<open>Kind.String\<close>.\<close>

fun kind_string :: "kind \<Rightarrow> gostring" where
  "kind_string K_ILLEGAL = lit ''ILLEGAL''"
| "kind_string K_EOF = lit ''EOF''"
| "kind_string K_NEWLINE = lit ''NEWLINE''"
| "kind_string K_IDENT = lit ''IDENT''"
| "kind_string K_INT = lit ''INT''"
| "kind_string K_FLOAT = lit ''FLOAT''"
| "kind_string K_STRING = lit ''STRING''"
| "kind_string K_FSTRING_OPEN = lit ''FSTRING_OPEN''"
| "kind_string K_FSTRING_PART = lit ''FSTRING_PART''"
| "kind_string K_FSTRING_CLOSE = lit ''FSTRING_CLOSE''"
| "kind_string K_OR = lit ''or''"
| "kind_string K_AND = lit ''and''"
| "kind_string K_NOT = lit ''not''"
| "kind_string K_EQ = lit ''==''"
| "kind_string K_NEQ = lit ''!=''"
| "kind_string K_LT = lit ''<''"
| "kind_string K_LTE = lit ''<=''"
| "kind_string K_GT = lit ''>''"
| "kind_string K_GTE = lit ''>=''"
| "kind_string K_ADD = lit ''+''"
| "kind_string K_SUB = lit ''-''"
| "kind_string K_MUL = lit ''*''"
| "kind_string K_QUO = lit ''/''"
| "kind_string K_REM = lit ''%''"
| "kind_string K_ASSIGN = lit ''=''"
| "kind_string K_LPAREN = lit ''(''"
| "kind_string K_RPAREN = lit '')''"
| "kind_string K_LBRACE = lit ''{''"
| "kind_string K_RBRACE = lit ''}''"
| "kind_string K_LBRACK = lit ''[''"
| "kind_string K_RBRACK = lit '']''"
| "kind_string K_COMMA = lit '',''"
| "kind_string K_DOT = lit ''.''"
| "kind_string K_DOTDOT = lit ''..''"
| "kind_string K_COLON = lit '':''"
| "kind_string K_SEMICOL = lit '';''"
| "kind_string K_ARROW = lit ''->''"
| "kind_string K_FATARROW = lit ''=>''"
| "kind_string K_ROUTINE = lit ''routine''"
| "kind_string K_PROC = lit ''proc''"
| "kind_string K_ON = lit ''on''"
| "kind_string K_IF = lit ''if''"
| "kind_string K_ELIF = lit ''elif''"
| "kind_string K_ELSE = lit ''else''"
| "kind_string K_WHILE = lit ''while''"
| "kind_string K_FOR = lit ''for''"
| "kind_string K_IN = lit ''in''"
| "kind_string K_BREAK = lit ''break''"
| "kind_string K_CONTINUE = lit ''continue''"
| "kind_string K_RETURN = lit ''return''"
| "kind_string K_ABORT = lit ''abort''"
| "kind_string K_REQUIRE = lit ''require''"
| "kind_string K_WAIT = lit ''wait''"
| "kind_string K_DEFER = lit ''defer''"
| "kind_string K_TRY = lit ''try''"
| "kind_string K_RECOVER = lit ''recover''"
| "kind_string K_WHEN = lit ''when''"
| "kind_string K_SELECT = lit ''select''"
| "kind_string K_TIMEOUT = lit ''timeout''"
| "kind_string K_BECOMES = lit ''becomes''"
| "kind_string K_CHANGES = lit ''changes''"
| "kind_string K_TRUE = lit ''true''"
| "kind_string K_FALSE = lit ''false''"
| "kind_string K_NULL = lit ''null''"
| "kind_string K_BOUNDS = lit ''bounds''"
| "kind_string K_EXTENDS = lit ''extends''"
| "kind_string K_RUNTIME = lit ''runtime''"
| "kind_string K_REPEAT = lit ''repeat''"
| "kind_string K_UNTIL = lit ''until''"

text \<open>The reserved words, in the order of the map literal.\<close>

definition Keywords :: "(gostring \<times> kind) list" where
  "Keywords = [(lit ''routine'', K_ROUTINE), (lit ''proc'', K_PROC), (lit ''on'', K_ON),
     (lit ''if'', K_IF), (lit ''elif'', K_ELIF), (lit ''else'', K_ELSE),
     (lit ''while'', K_WHILE), (lit ''for'', K_FOR), (lit ''in'', K_IN),
     (lit ''break'', K_BREAK), (lit ''continue'', K_CONTINUE), (lit ''return'', K_RETURN),
     (lit ''abort'', K_ABORT), (lit ''require'', K_REQUIRE), (lit ''wait'', K_WAIT),
     (lit ''defer'', K_DEFER), (lit ''try'', K_TRY), (lit ''recover'', K_RECOVER),
     (lit ''when'', K_WHEN), (lit ''select'', K_SELECT), (lit ''timeout'', K_TIMEOUT),
     (lit ''becomes'', K_BECOMES), (lit ''changes'', K_CHANGES), (lit ''true'', K_TRUE),
     (lit ''false'', K_FALSE), (lit ''null'', K_NULL), (lit ''bounds'', K_BOUNDS),
     (lit ''extends'', K_EXTENDS), (lit ''runtime'', K_RUNTIME), (lit ''repeat'', K_REPEAT),
     (lit ''until'', K_UNTIL), (lit ''and'', K_AND), (lit ''or'', K_OR),
     (lit ''not'', K_NOT)]"

definition keyword :: "gostring \<Rightarrow> kind option" where
  "keyword s = map_of Keywords s"

definition keywordKinds :: "kind \<Rightarrow> bool" where
  "keywordKinds k \<longleftrightarrow> k \<in> snd ` set Keywords"

record position =
  p_line :: int
  p_column :: int
  p_offset :: nat

record token =
  t_kind :: kind
  t_lexeme :: gostring
  t_pos :: position

definition token_at :: "kind \<Rightarrow> gostring \<Rightarrow> position \<Rightarrow> token" where
  "token_at k s p = \<lparr>t_kind = k, t_lexeme = s, t_pos = p\<rparr>"

lemma token_at_sel [simp]:
  "t_kind (token_at k s p) = k" "t_lexeme (token_at k s p) = s" "t_pos (token_at k s p) = p"
  by (simp_all add: token_at_def)

text \<open>A token without its position.\<close>

type_synonym tok = "kind \<times> gostring"

definition tok_of :: "token \<Rightarrow> tok" where
  "tok_of t = (t_kind t, t_lexeme t)"

lemma lit_inject [simp]: "lit a = lit b \<longleftrightarrow> a = b"
proof -
  have "inj (\<lambda>c :: char. of_nat (of_char c) :: byte)"
  proof (rule injI)
    fix c d :: char
    assume "(of_nat (of_char c) :: byte) = of_nat (of_char d)"
    then have "unat (of_nat (of_char c) :: byte) = unat (of_nat (of_char d) :: byte)" by simp
    then have "(of_char c :: nat) = of_char d" by (simp add: unat_of_nat)
    then show "c = d" by simp
  qed
  then show ?thesis by (simp add: lit_def inj_map_eq_map)
qed

end
