(* ===== verification/DslLex.thy ===== *)
theory DslLex
  imports DslToken
begin

text \<open>
  The lexer of the routine language (dsl/lex/lex.go). A lexer holds the source as bytes and a byte
  offset; \<open>peek\<close> and \<open>advance\<close> decode one UTF-8 rune. Every scanner returns the token and the lexer
  after it. The loops of the code consume a rune per turn and end at the end of the source; \<open>All\<close>
  (here \<open>lex_all\<close>) stops at EOF or at a token that consumed nothing.

  The letter, digit and printable tables of package unicode above U+00FF are a parameter of type
  \<open>unicode\<close>; Latin-1 is written out.
\<close>

record unicode =
  uni_letter :: "nat \<Rightarrow> bool"
  uni_digit :: "nat \<Rightarrow> bool"
  uni_print :: "nat \<Rightarrow> bool"

definition IsLetter :: "unicode \<Rightarrow> nat \<Rightarrow> bool" where
  "IsLetter u r \<longleftrightarrow>
     (if r < 0x100 then
        (65 \<le> r \<and> r \<le> 90) \<or> (97 \<le> r \<and> r \<le> 122) \<or> r = 0xAA \<or> r = 0xB5 \<or> r = 0xBA
        \<or> (0xC0 \<le> r \<and> r \<noteq> 0xD7 \<and> r \<noteq> 0xF7)
      else uni_letter u r)"

definition IsDigit :: "unicode \<Rightarrow> nat \<Rightarrow> bool" where
  "IsDigit u r \<longleftrightarrow> (if r < 0x100 then 48 \<le> r \<and> r \<le> 57 else uni_digit u r)"

definition IsSpace :: "nat \<Rightarrow> bool" where
  "IsSpace r \<longleftrightarrow>
     (9 \<le> r \<and> r \<le> 13) \<or> r = 32 \<or> r = 0x85 \<or> r = 0xA0 \<or> r = 0x1680
     \<or> (0x2000 \<le> r \<and> r \<le> 0x200A) \<or> r = 0x2028 \<or> r = 0x2029 \<or> r = 0x202F
     \<or> r = 0x205F \<or> r = 0x3000"

definition IsPrint :: "unicode \<Rightarrow> nat \<Rightarrow> bool" where
  "IsPrint u r \<longleftrightarrow>
     (if r < 0x100 then (0x20 \<le> r \<and> r < 0x7F) \<or> (0xA1 \<le> r \<and> r \<noteq> 0xAD) else uni_print u r)"

text \<open>\<open>strconv.QuoteRune\<close>, the \<open>%q\<close> of a rune.\<close>

definition hex_digit :: "nat \<Rightarrow> byte" where
  "hex_digit d = (if d < 10 then of_nat (48 + d) else of_nat (87 + d))"

fun hex_digits :: "nat \<Rightarrow> nat \<Rightarrow> gostring" where
  "hex_digits 0 v = []"
| "hex_digits (Suc n) v = hex_digits n (v div 16) @ [hex_digit (v mod 16)]"

definition quote_rune :: "unicode \<Rightarrow> nat \<Rightarrow> gostring" where
  "quote_rune u r =
     [39] @
     (if r = 39 \<or> r = 92 then [92, of_nat r]
      else if IsPrint u r then encode_rune r
      else if r = 7 then [92, 97] else if r = 8 then [92, 98] else if r = 12 then [92, 102]
      else if r = 10 then [92, 110] else if r = 13 then [92, 114] else if r = 9 then [92, 116]
      else if r = 11 then [92, 118]
      else if r < 32 \<or> r = 0x7F then [92, 120] @ hex_digits 2 r
      else if r < 0x10000 then [92, 117] @ hex_digits 4 r
      else [92, 85] @ hex_digits 8 r) @
     [39]"

section \<open>State\<close>

datatype lexerr =
    LexErr position gostring
  | NoProgress position gostring

record lexer =
  l_src :: gostring
  l_offset :: nat
  l_line :: int
  l_col :: int
  l_errs :: "lexerr list"
  l_prevKind :: kind
  l_sawGap :: bool
  l_inFString :: bool
  l_inPlaceholder :: bool
  l_fstringQuote :: nat

definition New :: "gostring \<Rightarrow> lexer" where
  "New s = \<lparr>l_src = s, l_offset = 0, l_line = 1, l_col = 1, l_errs = [], l_prevKind = K_ILLEGAL,
            l_sawGap = False, l_inFString = False, l_inPlaceholder = False, l_fstringQuote = 0\<rparr>"

definition atEOF :: "lexer \<Rightarrow> bool" where
  "atEOF l \<longleftrightarrow> length (l_src l) \<le> l_offset l"

abbreviation rest :: "lexer \<Rightarrow> gostring" where
  "rest l \<equiv> drop (l_offset l) (l_src l)"

definition peek :: "lexer \<Rightarrow> nat" where
  "peek l = (if atEOF l then 0 else fst (decode_rune (rest l)))"

text \<open>\<open>peekAt 1\<close>, the only use of \<open>peekAt\<close>.\<close>

definition peekAt1 :: "lexer \<Rightarrow> nat" where
  "peekAt1 l =
     (if atEOF l then 0
      else (let off = l_offset l + snd (decode_rune (rest l)) in
            if length (l_src l) \<le> off then 0 else fst (decode_rune (drop off (l_src l)))))"

definition advance :: "lexer \<Rightarrow> lexer" where
  "advance l =
     (if atEOF l then l
      else (let (r, sz) = decode_rune (rest l);
                l' = l\<lparr>l_offset := l_offset l + sz\<rparr> in
            if r = 10 then l'\<lparr>l_line := l_line l + 1, l_col := 1\<rparr>
            else l'\<lparr>l_col := l_col l + 1\<rparr>))"

definition curPos :: "lexer \<Rightarrow> position" where
  "curPos l = \<lparr>p_line = l_line l, p_column = l_col l, p_offset = l_offset l\<rparr>"

definition errorf :: "lexer \<Rightarrow> position \<Rightarrow> gostring \<Rightarrow> token \<times> lexer" where
  "errorf l p msg = (token_at K_ILLEGAL msg p, l\<lparr>l_errs := l_errs l @ [LexErr p msg]\<rparr>)"

text \<open>A word between apostrophes.\<close>

definition quoted :: "string \<Rightarrow> gostring" where
  "quoted s = [39] @ lit s @ [39]"

section \<open>Where a scanner may leave the lexer\<close>

text \<open>\<open>later l l'\<close>: the same source, the offset not moved back and not past the end.\<close>

definition later :: "lexer \<Rightarrow> lexer \<Rightarrow> bool" where
  "later l l' \<longleftrightarrow> l_src l' = l_src l \<and> l_offset l \<le> l_offset l'
     \<and> l_offset l' \<le> max (l_offset l) (length (l_src l))"

named_theorems later_intros \<open>scanners only move forward\<close>

lemma later_refl [simp, later_intros]: "later l l"
  by (simp add: later_def)

lemma later_trans: "later a b \<Longrightarrow> later b c \<Longrightarrow> later a c"
  by (auto simp: later_def)

lemma later_fields [simp]:
  "later l (l'\<lparr>l_errs := x\<rparr>) = later l l'" "later l (l'\<lparr>l_inFString := b\<rparr>) = later l l'"
  "later l (l'\<lparr>l_inPlaceholder := b\<rparr>) = later l l'" "later l (l'\<lparr>l_fstringQuote := n\<rparr>) = later l l'"
  "later l (l'\<lparr>l_prevKind := k\<rparr>) = later l l'" "later l (l'\<lparr>l_sawGap := b\<rparr>) = later l l'"
  by (simp_all add: later_def)

lemma later_fields_left [simp]:
  "later (l\<lparr>l_errs := x\<rparr>) l' = later l l'" "later (l\<lparr>l_inFString := b\<rparr>) l' = later l l'"
  "later (l\<lparr>l_inPlaceholder := b\<rparr>) l' = later l l'" "later (l\<lparr>l_fstringQuote := n\<rparr>) l' = later l l'"
  "later (l\<lparr>l_prevKind := k\<rparr>) l' = later l l'" "later (l\<lparr>l_sawGap := b\<rparr>) l' = later l l'"
  by (simp_all add: later_def)

lemma decode_rune_le: "snd (decode_rune s) \<le> length s"
  by (cases s) (auto simp: Let_def split: list.splits)

lemma rest_nonempty: "\<not> atEOF l \<Longrightarrow> rest l \<noteq> []"
  by (simp add: atEOF_def)

lemma advance_frame [simp]:
  "l_src (advance l) = l_src l" "l_errs (advance l) = l_errs l"
  "l_prevKind (advance l) = l_prevKind l" "l_sawGap (advance l) = l_sawGap l"
  "l_inFString (advance l) = l_inFString l" "l_inPlaceholder (advance l) = l_inPlaceholder l"
  "l_fstringQuote (advance l) = l_fstringQuote l"
  by (simp_all add: advance_def Let_def split: prod.split)

lemma advance_offset:
  "l_offset (advance l) = (if atEOF l then l_offset l else l_offset l + snd (decode_rune (rest l)))"
  by (simp add: advance_def Let_def split: prod.split)

lemma advance_strict: "\<not> atEOF l \<Longrightarrow> l_offset l < l_offset (advance l)"
  using decode_rune_width [OF rest_nonempty] by (simp add: advance_offset) (metis less_eq_Suc_le One_nat_def)

lemma later_advance [later_intros]: "later l (advance l)"
  using decode_rune_le [of "rest l"] by (auto simp: later_def advance_offset atEOF_def)

lemma later_advance_step: "later l l' \<Longrightarrow> later l (advance l')"
  by (blast intro: later_trans later_advance)

definition togo :: "lexer \<Rightarrow> nat" where
  "togo l = length (l_src l) - l_offset l"

lemma togo_advance [simp, termination_simp]: "\<not> atEOF l \<Longrightarrow> togo (advance l) < togo l"
  using advance_strict [of l] by (simp add: togo_def atEOF_def)

lemma togo_later: "later l l' \<Longrightarrow> togo l' \<le> togo l"
  by (auto simp: togo_def later_def)

section \<open>Scanners\<close>

text \<open>The loop \<open>for !l.atEOF() \<and> p(l.peek()) { l.advance() }\<close>.\<close>

function advance_while :: "(nat \<Rightarrow> bool) \<Rightarrow> lexer \<Rightarrow> lexer" where
  "advance_while P l = (if \<not> atEOF l \<and> P (peek l) then advance_while P (advance l) else l)"
  by pat_completeness auto
termination by (relation "measure (\<lambda>(P, l). togo l)") simp_all

declare advance_while.simps [simp del]

lemma later_advance_while [later_intros]: "later l (advance_while P l)"
  by (induction P l rule: advance_while.induct)
     (subst advance_while.simps, auto intro: later_trans later_advance)

lemma advance_while_frame [simp]:
  "l_src (advance_while P l) = l_src l" "l_errs (advance_while P l) = l_errs l"
  "l_prevKind (advance_while P l) = l_prevKind l" "l_sawGap (advance_while P l) = l_sawGap l"
  "l_inFString (advance_while P l) = l_inFString l"
  "l_inPlaceholder (advance_while P l) = l_inPlaceholder l"
  "l_fstringQuote (advance_while P l) = l_fstringQuote l"
  by (induction P l rule: advance_while.induct; subst advance_while.simps; simp)+

lemma advance_while_strict:
  "\<not> atEOF l \<Longrightarrow> P (peek l) \<Longrightarrow> l_offset l < l_offset (advance_while P l)"
  using advance_strict [of l] later_advance_while [of "advance l" P]
  by (subst advance_while.simps) (auto simp: later_def)

text \<open>\<open>l.src[begin:l.offset]\<close>.\<close>

definition slice :: "lexer \<Rightarrow> nat \<Rightarrow> gostring" where
  "slice l start_off = drop start_off (take (l_offset l) (l_src l))"

function skipWhitespaceAndComments :: "lexer \<Rightarrow> lexer" where
  "skipWhitespaceAndComments l =
     (if atEOF l then l
      else if peek l = 35 then
        skipWhitespaceAndComments (advance_while (\<lambda>r. r \<noteq> 10) l)
      else if IsSpace (peek l) then skipWhitespaceAndComments (advance l)
      else l)"
  by pat_completeness auto
termination
proof (relation "measure togo", goal_cases)
  case (2 l)
  then show ?case
    using advance_while_strict [of l "\<lambda>r. r \<noteq> 10"]
    by (simp add: togo_def atEOF_def)
qed simp_all

declare skipWhitespaceAndComments.simps [simp del]

lemma later_skip [later_intros]: "later l (skipWhitespaceAndComments l)"
  by (induction l rule: skipWhitespaceAndComments.induct)
     (subst skipWhitespaceAndComments.simps, auto intro: later_trans later_intros)

lemma skip_frame [simp]:
  "l_errs (skipWhitespaceAndComments l) = l_errs l"
  "l_prevKind (skipWhitespaceAndComments l) = l_prevKind l"
  "l_inFString (skipWhitespaceAndComments l) = l_inFString l"
  "l_inPlaceholder (skipWhitespaceAndComments l) = l_inPlaceholder l"
  "l_fstringQuote (skipWhitespaceAndComments l) = l_fstringQuote l"
  by (induction l rule: skipWhitespaceAndComments.induct; subst skipWhitespaceAndComments.simps; simp)+

definition ident_rune :: "unicode \<Rightarrow> nat \<Rightarrow> bool" where
  "ident_rune u r \<longleftrightarrow> IsLetter u r \<or> IsDigit u r \<or> r = 95"

definition lexIdentOrKeyword :: "unicode \<Rightarrow> lexer \<Rightarrow> position \<Rightarrow> token \<times> lexer" where
  "lexIdentOrKeyword u l start =
     (let start_off = l_offset l;
          l1 = advance_while (ident_rune u) l;
          lex = slice l1 start_off in
      case keyword lex of
        Some kw \<Rightarrow> (token_at kw lex start, l1)
      | None \<Rightarrow>
          (if \<not> atEOF l1 \<and> peek l1 = 33 \<and> peekAt1 l1 \<noteq> 61
           then (let l2 = advance l1 in (token_at K_IDENT (slice l2 start_off) start, l2))
           else (token_at K_IDENT lex start, l1)))"

definition lexNumber :: "unicode \<Rightarrow> lexer \<Rightarrow> position \<Rightarrow> token \<times> lexer" where
  "lexNumber u l start =
     (let start_off = l_offset l;
          l1 = advance_while (IsDigit u) l in
      if \<not> atEOF l1 \<and> peek l1 = 46 \<and> peekAt1 l1 \<noteq> 46 \<and> IsDigit u (peekAt1 l1)
      then (let l2 = advance_while (IsDigit u) (advance l1) in
            (token_at K_FLOAT (slice l2 start_off) start, l2))
      else (token_at K_INT (slice l1 start_off) start, l1))"

definition string_escape :: "nat \<Rightarrow> byte option" where
  "string_escape esc =
     (if esc = 110 then Some 10 else if esc = 116 then Some 9 else if esc = 114 then Some 13
      else if esc = 92 then Some 92 else if esc = 34 then Some 34 else if esc = 39 then Some 39
      else if esc = 48 then Some 0 else None)"

function string_loop :: "position \<Rightarrow> gostring \<Rightarrow> lexer \<Rightarrow> token \<times> lexer" where
  "string_loop start sb l =
     (if atEOF l then errorf l start (lit ''unterminated string literal (reached EOF)'')
      else let r = peek l in
        if r = 34 then (token_at K_STRING sb start, advance l)
        else if r = 92 then
          (let l1 = advance l in
           if atEOF l1 then errorf l1 start (lit ''unterminated escape sequence'')
           else let esc = peek l1; l2 = advance l1 in
             case string_escape esc of
               Some b \<Rightarrow> string_loop start (sb @ [b]) l2
             | None \<Rightarrow> errorf l2 start (lit ''unknown escape sequence '' @ [92] @ encode_rune esc))
        else if r = 10 then
          errorf l start (lit ''unterminated string literal (newline before closing quote)'')
        else string_loop start (sb @ encode_rune r) (advance l))"
  by pat_completeness auto
termination
  by (relation "measure (\<lambda>(p, sb, l). togo l)") (auto intro: less_trans [OF togo_advance togo_advance])

declare string_loop.simps [simp del]

definition lexString :: "lexer \<Rightarrow> position \<Rightarrow> token \<times> lexer" where
  "lexString l start = string_loop start [] (advance l)"

definition fstring_escape :: "nat \<Rightarrow> byte option" where
  "fstring_escape esc =
     (if esc = 110 then Some 10 else if esc = 116 then Some 9
      else if esc = 92 then Some 92 else if esc = 34 then Some 34 else None)"

definition fstring_escape_eof :: gostring where
  "fstring_escape_eof = lit ''unterminated f-string escape''"

definition fstring_escape_bad :: "nat \<Rightarrow> gostring" where
  "fstring_escape_bad esc = lit ''unknown f-string escape '' @ [92] @ encode_rune esc"

definition leave_fstring :: "lexer \<Rightarrow> lexer" where
  "leave_fstring l = l\<lparr>l_inFString := False, l_inPlaceholder := False\<rparr>"

function fragment_loop :: "position \<Rightarrow> kind \<Rightarrow> gostring \<Rightarrow> lexer \<Rightarrow> token \<times> lexer" where
  "fragment_loop start k sb l =
     (if atEOF l then
        errorf (leave_fstring l) start (lit ''unterminated f-string (reached EOF)'')
      else let r = peek l in
        if r = 123 then
          (if peekAt1 l = 123 then fragment_loop start k (sb @ [123]) (advance (advance l))
           else (token_at k sb start, (advance l)\<lparr>l_inPlaceholder := True\<rparr>))
        else if r = l_fstringQuote l then
          (token_at K_FSTRING_CLOSE sb start, (advance l)\<lparr>l_inFString := False\<rparr>)
        else if r = 92 then
          (let l1 = advance l in
           if atEOF l1 then errorf l1 start fstring_escape_eof
           else let esc = peek l1; l2 = advance l1 in
             case fstring_escape esc of
               Some b \<Rightarrow> fragment_loop start k (sb @ [b]) l2
             | None \<Rightarrow> errorf l2 start (fstring_escape_bad esc))
        else if r = 10 then
          errorf (leave_fstring l) start (lit ''unterminated f-string (newline before closing quote)'')
        else fragment_loop start k (sb @ encode_rune r) (advance l))"
  by pat_completeness auto
termination
proof (relation "measure (\<lambda>(p, k, sb, l). togo l)", goal_cases)
  case (2 start k sb l r)
  then show ?case
    using le_less_trans [OF togo_later [OF later_advance] togo_advance, of l] by simp
next
  case (3 start k sb l r l1 esc l2 b)
  then show ?case by (auto intro: less_trans [OF togo_advance togo_advance])
qed simp_all

declare fragment_loop.simps [simp del]

definition lexFStringLiteralFragment :: "lexer \<Rightarrow> position \<Rightarrow> kind \<Rightarrow> token \<times> lexer" where
  "lexFStringLiteralFragment l start k = fragment_loop start k [] l"

definition lexFStringOpen :: "lexer \<Rightarrow> position \<Rightarrow> token \<times> lexer" where
  "lexFStringOpen l start =
     (let l1 = advance l;
          q = peek l1;
          l2 = (advance l1)\<lparr>l_inFString := True, l_fstringQuote := q\<rparr> in
      lexFStringLiteralFragment l2 start K_FSTRING_OPEN)"

definition lexFStringPart :: "lexer \<Rightarrow> token \<times> lexer" where
  "lexFStringPart l = lexFStringLiteralFragment l (curPos l) K_FSTRING_PART"

text \<open>One punctuation token: an optional second rune decides between two kinds.\<close>

definition lexPunct :: "unicode \<Rightarrow> lexer \<Rightarrow> position \<Rightarrow> token \<times> lexer" where
  "lexPunct u l start =
     (let r = peek l;
          l1 = advance l;
          one = (\<lambda>k s. (token_at k (lit s) start, l1));
          two = (\<lambda>k s. (token_at k (lit s) start, advance l1)) in
      if r = 40 then one K_LPAREN ''(''
      else if r = 41 then one K_RPAREN '')''
      else if r = 123 then one K_LBRACE ''{''
      else if r = 125 then one K_RBRACE ''}''
      else if r = 91 then one K_LBRACK ''[''
      else if r = 93 then one K_RBRACK '']''
      else if r = 44 then one K_COMMA '',''
      else if r = 59 then one K_SEMICOL '';''
      else if r = 58 then one K_COLON '':''
      else if r = 46 then (if peek l1 = 46 then two K_DOTDOT ''..'' else one K_DOT ''.'')
      else if r = 43 then one K_ADD ''+''
      else if r = 45 then (if peek l1 = 62 then two K_ARROW ''->'' else one K_SUB ''-'')
      else if r = 42 then one K_MUL ''*''
      else if r = 47 then one K_QUO ''/''
      else if r = 37 then one K_REM ''%''
      else if r = 61 then
        (if peek l1 = 61 then two K_EQ ''==''
         else if peek l1 = 62 then two K_FATARROW ''=>'' else one K_ASSIGN ''='')
      else if r = 33 then
        (if peek l1 = 61 then two K_NEQ ''!=''
         else if \<not> l_sawGap l1 \<and> keywordKinds (l_prevKind l1) then
           errorf l1 start (lit ''keywords don'' @ [39] @ lit ''t take bang variants (saw '' @ [34] @
             kind_string (l_prevKind l1) @ [34] @ lit '' followed by '' @ [39, 33, 39] @ lit '')'')
         else one K_NOT ''!'')
      else if r = 38 then
        (if peek l1 = 38 then two K_AND ''&&''
         else errorf l1 start (lit ''unexpected character '' @ quote_rune u r @
                lit '' (did you mean '' @ quoted ''&&'' @ lit '' / '' @ quoted ''and'' @ lit ''?)''))
      else if r = 124 then
        (if peek l1 = 124 then two K_OR ''||''
         else errorf l1 start (lit ''unexpected character '' @ quote_rune u r @
                lit '' (did you mean '' @ quoted ''||'' @ lit '' / '' @ quoted ''or'' @ lit ''?)''))
      else if r = 60 then (if peek l1 = 61 then two K_LTE ''<='' else one K_LT ''<'')
      else if r = 62 then (if peek l1 = 61 then two K_GTE ''>='' else one K_GT ''>'')
      else errorf l1 start (lit ''unexpected character '' @ quote_rune u r))"

section \<open>Next and All\<close>

text \<open>\<open>next\<close>: the gap before a token, then the scanner its first rune selects.\<close>

definition skip_gap :: "lexer \<Rightarrow> lexer" where
  "skip_gap l =
     (let l1 = skipWhitespaceAndComments (l\<lparr>l_sawGap := False\<rparr>) in
      l1\<lparr>l_sawGap := (l_offset l1 \<noteq> l_offset l)\<rparr>)"

definition scan_at :: "unicode \<Rightarrow> lexer \<Rightarrow> token \<times> lexer" where
  "scan_at u l =
     (if l_inFString l \<and> l_inPlaceholder l \<and> peek l = 125 then
        lexFStringPart ((advance l)\<lparr>l_inPlaceholder := False\<rparr>)
      else if atEOF l then (token_at K_EOF [] (curPos l), l)
      else
        let r = peek l; start = curPos l in
        if r = 102 \<and> peekAt1 l = 34 then lexFStringOpen l start
        else if IsLetter u r \<or> r = 95 then lexIdentOrKeyword u l start
        else if IsDigit u r then lexNumber u l start
        else if r = 34 then lexString l start
        else lexPunct u l start)"

definition next_token :: "unicode \<Rightarrow> lexer \<Rightarrow> token \<times> lexer" where
  "next_token u l =
     (if l_inFString l \<and> \<not> l_inPlaceholder l then lexFStringPart l else scan_at u (skip_gap l))"

definition Next :: "unicode \<Rightarrow> lexer \<Rightarrow> token \<times> lexer" where
  "Next u l = (let (t, l') = next_token u l in (t, l'\<lparr>l_prevKind := t_kind t\<rparr>))"

section \<open>Every scanner moves forward\<close>

lemma later_errorf: "later l l' \<Longrightarrow> later l (snd (errorf l' p m))"
  by (simp add: errorf_def)

lemma later_string_loop: "later l (snd (string_loop start sb l))"
proof (induction start sb l rule: string_loop.induct)
  case (1 start sb l)
  show ?case
    by (subst string_loop.simps)
       (auto simp: Let_def later_errorf later_advance_step split: option.split
         intro: later_trans [OF _ "1.IH"(1)] later_trans [OF _ "1.IH"(2)] later_advance_step)
qed

lemma later_fragment_loop: "later l (snd (fragment_loop start k sb l))"
proof (induction start k sb l rule: fragment_loop.induct)
  case (1 start k sb l)
  show ?case
    by (subst fragment_loop.simps)
       (auto simp: Let_def later_errorf later_advance_step leave_fstring_def split: option.split
         intro: later_trans [OF _ "1.IH"(1)] later_trans [OF _ "1.IH"(2)]
                later_trans [OF _ "1.IH"(3)] later_advance_step)
qed

lemma later_fragment [later_intros]: "later l (snd (lexFStringLiteralFragment l start k))"
  by (simp add: lexFStringLiteralFragment_def later_fragment_loop)

lemma later_ident: "later l (snd (lexIdentOrKeyword u l start))"
  by (auto simp: lexIdentOrKeyword_def Let_def later_advance_while later_advance_step split: option.split)

lemma later_number: "later l (snd (lexNumber u l start))"
  by (auto simp: lexNumber_def Let_def later_advance_while later_advance_step
      intro: later_trans [OF _ later_advance_while])

lemma later_punct: "later (advance l) (snd (lexPunct u l start))"
  unfolding lexPunct_def Let_def
  by (auto simp: errorf_def later_advance)

lemma ident_strict:
  "\<not> atEOF l \<Longrightarrow> ident_rune u (peek l) \<Longrightarrow> l_offset l < l_offset (snd (lexIdentOrKeyword u l start))"
  using advance_while_strict [of l "ident_rune u"] later_advance [of "advance_while (ident_rune u) l"]
  by (auto simp: lexIdentOrKeyword_def Let_def later_def split: option.split)

lemma number_strict:
  "\<not> atEOF l \<Longrightarrow> IsDigit u (peek l) \<Longrightarrow> l_offset l < l_offset (snd (lexNumber u l start))"
  using advance_while_strict [of l "IsDigit u"]
    later_trans [OF later_advance later_advance_while, of "advance_while (IsDigit u) l" "IsDigit u"]
  by (auto simp: lexNumber_def Let_def later_def)

lemma later_strict: "\<not> atEOF l \<Longrightarrow> later (advance l) l' \<Longrightarrow> l_offset l < l_offset l'"
  using advance_strict [of l] by (simp add: later_def)

lemma string_strict: "\<not> atEOF l \<Longrightarrow> l_offset l < l_offset (snd (lexString l start))"
  by (simp add: lexString_def later_strict later_string_loop)

lemma punct_strict: "\<not> atEOF l \<Longrightarrow> l_offset l < l_offset (snd (lexPunct u l start))"
  by (simp add: later_strict later_punct)

lemma later_open: "later (advance l) (snd (lexFStringOpen l start))"
  unfolding lexFStringOpen_def Let_def
  by (rule later_trans [OF _ later_fragment]) (simp add: later_advance)

lemma open_strict: "\<not> atEOF l \<Longrightarrow> l_offset l < l_offset (snd (lexFStringOpen l start))"
  by (simp add: later_strict later_open)

lemma later_part [later_intros]: "later l (snd (lexFStringPart l))"
  by (simp add: lexFStringPart_def later_fragment)

lemma peek_atEOF: "peek l \<noteq> 0 \<Longrightarrow> \<not> atEOF l"
  by (auto simp: peek_def)

lemma later_gap: "later l (skip_gap l)"
  using later_skip [of "l\<lparr>l_sawGap := False\<rparr>"] by (simp add: skip_gap_def Let_def)

lemma gap_frame [simp]:
  "l_errs (skip_gap l) = l_errs l" "l_prevKind (skip_gap l) = l_prevKind l"
  "l_inFString (skip_gap l) = l_inFString l" "l_inPlaceholder (skip_gap l) = l_inPlaceholder l"
  "l_fstringQuote (skip_gap l) = l_fstringQuote l"
  by (simp_all add: skip_gap_def Let_def)

lemma scan_strict:
  assumes "t_kind (fst (scan_at u l)) \<noteq> K_EOF"
  shows "l_offset l < l_offset (snd (scan_at u l))"
proof -
  have part: "\<not> atEOF l \<Longrightarrow> l_offset l < l_offset (snd (lexFStringPart ((advance l)\<lparr>l_inPlaceholder := b\<rparr>)))" for b
    by (rule later_strict) (use later_part [of "(advance l)\<lparr>l_inPlaceholder := b\<rparr>"] in simp_all)
  show ?thesis
    using assms unfolding scan_at_def Let_def
    by (auto simp: peek_atEOF part open_strict string_strict punct_strict ident_strict number_strict
        ident_rune_def split: if_splits)
qed

lemma later_scan: "later l (snd (scan_at u l))"
proof -
  have part: "later l (snd (lexFStringPart ((advance l)\<lparr>l_inPlaceholder := b\<rparr>)))" for b
    using later_trans [OF later_advance, of l] later_part [of "(advance l)\<lparr>l_inPlaceholder := b\<rparr>"]
    by simp
  show ?thesis
    unfolding scan_at_def Let_def
    by (simp add: part later_ident later_number lexString_def later_trans [OF later_advance later_open]
        later_trans [OF later_advance later_string_loop] later_trans [OF later_advance later_punct])
qed

lemma later_next_token: "later l (snd (next_token u l))"
  by (simp add: next_token_def later_part later_trans [OF later_gap later_scan])

lemma later_Next: "later l (snd (Next u l))"
  using later_next_token [of l u] by (simp add: Next_def split_beta)

lemma next_token_strict:
  assumes "\<not> (l_inFString l \<and> \<not> l_inPlaceholder l)" "t_kind (fst (next_token u l)) \<noteq> K_EOF"
  shows "l_offset l < l_offset (snd (next_token u l))"
  using assms scan_strict [of u "skip_gap l"] later_gap [of l]
  by (auto simp: next_token_def later_def)

text \<open>
  \<open>All\<close>: every token up to EOF. A token that consumed nothing ends the stream: the rest of the source is
  not read.
\<close>

function lex_all :: "unicode \<Rightarrow> lexer \<Rightarrow> token list \<times> lexer" where
  "lex_all u l =
     (let (t, l') = Next u l in
      if t_kind t = K_EOF then ([t], l')
      else if l_offset l' = l_offset l then
        ([t, token_at K_EOF [] (t_pos t)],
         l'\<lparr>l_errs := l_errs l' @ [NoProgress (t_pos t) (t_lexeme t)]\<rparr>)
      else (let (ts, l'') = lex_all u l' in (t # ts, l'')))"
  by pat_completeness auto
termination
proof (relation "measure (\<lambda>(u, l). togo l)", goal_cases)
  case (2 u l p t l')
  then have "later l l'" "l_offset l' \<noteq> l_offset l" using later_Next [of l u] by (simp_all add: prod_eq_iff)
  then show ?case by (auto simp: togo_def later_def)
qed simp

declare lex_all.simps [simp del]

end
