(* ===== verification/DslLexProps.thy ===== *)
theory DslLexProps
  imports DslLex
begin

text \<open>
  What the lexer promises: a stream that ends in its only EOF after at most two tokens more than the
  source has bytes, and a no-progress guard that only a bad f-string escape can trip.
\<close>

section \<open>The stream ends in EOF\<close>

lemma lex_all_shape:
  "\<exists>ts e. fst (lex_all u l) = ts @ [e] \<and> t_kind e = K_EOF \<and> (\<forall>t \<in> set ts. t_kind t \<noteq> K_EOF)
     \<and> length ts \<le> togo l + 1"
proof (induction u l rule: lex_all.induct)
  case (1 u l)
  obtain t l' where n: "Next u l = (t, l')" by fastforce
  show ?case
  proof (cases "t_kind t = K_EOF \<or> l_offset l' = l_offset l")
    case True
    then show ?thesis
      by (cases "t_kind t = K_EOF") (auto simp: n lex_all.simps [of u l] append_eq_Cons_conv
            intro: exI [of _ "[t]"] exI [of _ "[]"])
  next
    case False
    from False "1.IH" [OF n [symmetric]] obtain ts e where
      ih: "fst (lex_all u l') = ts @ [e]" "t_kind e = K_EOF" "\<forall>t \<in> set ts. t_kind t \<noteq> K_EOF"
        "length ts \<le> togo l' + 1" by auto
    have "togo l' < togo l"
      using False later_Next [of l u] by (auto simp: n togo_def later_def)
    then show ?thesis
      using False ih
      by (intro exI [of _ "t # ts"] exI [of _ e])
         (simp add: n lex_all.simps [of u l] Let_def split_beta)
  qed
qed

text \<open>
  C39. Lexing any byte string returns: the token list ends in an EOF token, holds no other EOF, and
  has at most two tokens more than the source has bytes.
\<close>

theorem lex_ends_in_eof:
  "\<exists>ts e. fst (lex_all u (New s)) = ts @ [e] \<and> t_kind e = K_EOF \<and> K_EOF \<notin> t_kind ` set ts
     \<and> length ts \<le> length s + 1"
proof -
  obtain ts e where "fst (lex_all u (New s)) = ts @ [e]" "t_kind e = K_EOF" "length ts \<le> length s + 1"
    and eof: "\<forall>t \<in> set ts. t_kind t \<noteq> K_EOF"
    using lex_all_shape [of u "New s"] by (auto simp: togo_def New_def)
  moreover have "K_EOF \<notin> t_kind ` set ts" using eof by force
  ultimately show ?thesis by blast
qed

section \<open>When the no-progress guard fires\<close>

definition sticky :: "lexer \<Rightarrow> bool" where
  "sticky l \<longleftrightarrow> l_inFString l \<and> \<not> l_inPlaceholder l"

text \<open>An f-string escape error was reported.\<close>

definition bad_escape :: "lexerr list \<Rightarrow> bool" where
  "bad_escape es \<longleftrightarrow>
     (\<exists>e \<in> set es. case e of LexErr p m \<Rightarrow> m = fstring_escape_eof \<or> (\<exists>esc. m = fstring_escape_bad esc)
                 | NoProgress p s \<Rightarrow> False)"

definition guard_fired :: "lexerr list \<Rightarrow> bool" where
  "guard_fired es \<longleftrightarrow> (\<exists>e \<in> set es. case e of NoProgress p s \<Rightarrow> True | LexErr p m \<Rightarrow> False)"

definition lex_ok :: "lexer \<Rightarrow> bool" where
  "lex_ok l \<longleftrightarrow> (sticky l \<or> guard_fired (l_errs l) \<longrightarrow> bad_escape (l_errs l))"

lemma bad_escape_append [simp]: "bad_escape (a @ b) \<longleftrightarrow> bad_escape a \<or> bad_escape b"
  by (auto simp: bad_escape_def)

lemma guard_fired_append [simp]: "guard_fired (a @ b) \<longleftrightarrow> guard_fired a \<or> guard_fired b"
  by (auto simp: guard_fired_def)

lemma log_single [simp]:
  "\<not> guard_fired [LexErr p m]" "guard_fired [NoProgress p m]" "\<not> bad_escape [NoProgress p m]"
  "bad_escape [LexErr p fstring_escape_eof]" "bad_escape [LexErr p (fstring_escape_bad esc)]"
  "\<not> guard_fired []" "\<not> bad_escape []"
  by (auto simp: guard_fired_def bad_escape_def)

lemma lex_ok_cong [simp]:
  "lex_ok (l\<lparr>l_sawGap := b\<rparr>) = lex_ok l" "lex_ok (l\<lparr>l_prevKind := k\<rparr>) = lex_ok l"
  "lex_ok (l\<lparr>l_fstringQuote := q\<rparr>) = lex_ok l" "lex_ok (advance l) = lex_ok l"
  by (simp_all add: lex_ok_def sticky_def)

text \<open>What a scanner keeps when it neither enters nor leaves an f-string.\<close>

definition plain_step :: "lexer \<Rightarrow> lexer \<Rightarrow> bool" where
  "plain_step l l' \<longleftrightarrow> l_inFString l' = l_inFString l \<and> l_inPlaceholder l' = l_inPlaceholder l
     \<and> (\<exists>es. l_errs l' = l_errs l @ es \<and> \<not> guard_fired es)"

lemma plain_ok: "plain_step l l' \<Longrightarrow> lex_ok l \<Longrightarrow> lex_ok l'"
  by (auto simp: plain_step_def lex_ok_def sticky_def)

lemma plain_refl [simp]: "plain_step l l"
  by (simp add: plain_step_def)

lemma plain_advance [simp]: "plain_step l (advance l') = plain_step l l'"
  "plain_step (advance l) l' = plain_step l l'" "plain_step l (advance_while P l') = plain_step l l'"
  by (simp_all add: plain_step_def)

lemma plain_errorf [simp]: "plain_step l l' \<Longrightarrow> plain_step l (snd (errorf l' p m))"
  by (auto simp: plain_step_def errorf_def)

lemma plain_string: "plain_step l (snd (string_loop start sb l))"
proof (induction start sb l rule: string_loop.induct)
  case (1 start sb l)
  show ?case
    using "1.IH" by (subst string_loop.simps) (auto simp: Let_def split: option.split)
qed

lemma plain_punct: "plain_step l (snd (lexPunct u l start))"
  unfolding lexPunct_def Let_def by (auto simp del: append_assoc)

lemma fragment_ok:
  "l_inFString l \<Longrightarrow> (guard_fired (l_errs l) \<longrightarrow> bad_escape (l_errs l)) \<Longrightarrow>
   lex_ok (snd (fragment_loop start k sb l))"
proof (induction start k sb l rule: fragment_loop.induct)
  case (1 start k sb l)
  show ?case
    using "1.prems" "1.IH"
    by (subst fragment_loop.simps)
       (auto simp: Let_def errorf_def leave_fstring_def lex_ok_def sticky_def split: option.split)
qed

lemma plain_ident: "plain_step l (snd (lexIdentOrKeyword u l start))"
  by (auto simp: lexIdentOrKeyword_def Let_def split: option.split)

lemma plain_number: "plain_step l (snd (lexNumber u l start))"
  by (simp add: lexNumber_def Let_def)

lemma part_ok:
  "l_inFString l \<Longrightarrow> (guard_fired (l_errs l) \<longrightarrow> bad_escape (l_errs l)) \<Longrightarrow>
   lex_ok (snd (lexFStringPart l))"
  by (simp add: lexFStringPart_def lexFStringLiteralFragment_def fragment_ok)

lemma open_ok:
  "(guard_fired (l_errs l) \<longrightarrow> bad_escape (l_errs l)) \<Longrightarrow>
   lex_ok (snd (lexFStringOpen l start))"
  by (simp add: lexFStringOpen_def lexFStringLiteralFragment_def Let_def fragment_ok)

lemma scan_ok:
  assumes "lex_ok l"
  shows "lex_ok (snd (scan_at u l))"
proof -
  have g: "guard_fired (l_errs l) \<longrightarrow> bad_escape (l_errs l)" using assms by (simp add: lex_ok_def)
  have "l_inFString l \<Longrightarrow> lex_ok (snd (lexFStringPart ((advance l)\<lparr>l_inPlaceholder := False\<rparr>)))"
    by (rule part_ok) (use g in simp_all)
  then show ?thesis
    unfolding scan_at_def Let_def
    by (simp add: assms open_ok [OF g] lexString_def plain_ok [OF plain_ident assms]
        plain_ok [OF plain_number assms] plain_ok [OF plain_punct assms]
        plain_ok [OF plain_string [of "advance l", unfolded plain_advance] assms])
qed

lemma next_ok:
  assumes "lex_ok l"
  shows "lex_ok (snd (next_token u l))"
proof -
  have g: "guard_fired (l_errs l) \<longrightarrow> bad_escape (l_errs l)" using assms by (simp add: lex_ok_def)
  have "lex_ok (skip_gap l)" using assms by (simp add: lex_ok_def sticky_def)
  then show ?thesis by (simp add: next_token_def scan_ok part_ok [OF _ g])
qed

lemma Next_ok: "lex_ok l \<Longrightarrow> lex_ok (snd (Next u l))"
  using next_ok by (simp add: Next_def split_beta)

lemma Next_strict:
  "\<not> sticky l \<Longrightarrow> t_kind (fst (Next u l)) \<noteq> K_EOF \<Longrightarrow> l_offset (snd (Next u l)) \<noteq> l_offset l"
  using next_token_strict [of l u] by (auto simp: Next_def split_beta sticky_def)

text \<open>The log only grows.\<close>

definition logs :: "lexer \<Rightarrow> lexer \<Rightarrow> bool" where
  "logs l l' \<longleftrightarrow> (\<exists>es. l_errs l' = l_errs l @ es)"

lemma plain_logs: "plain_step l l' \<Longrightarrow> logs l l'"
  by (auto simp: plain_step_def logs_def)

lemma logs_cong: "l_errs l = l_errs m \<Longrightarrow> logs l x = logs m x"
  by (simp add: logs_def)

lemma fragment_logs: "logs l (snd (fragment_loop start k sb l))"
proof (induction start k sb l rule: fragment_loop.induct)
  case (1 start k sb l)
  show ?case
    using "1.IH"
    by (subst fragment_loop.simps)
       (auto simp: Let_def errorf_def leave_fstring_def logs_def split: option.split)
qed

lemma part_logs: "logs l (snd (lexFStringPart l))"
  by (simp add: lexFStringPart_def lexFStringLiteralFragment_def fragment_logs)

lemma open_logs: "logs l (snd (lexFStringOpen l start))"
  unfolding lexFStringOpen_def lexFStringLiteralFragment_def Let_def
  using fragment_logs [of "(advance (advance l))\<lparr>l_inFString := True, l_fstringQuote := peek (advance l)\<rparr>"]
  by (simp add: logs_def)

lemma scan_logs: "logs l (snd (scan_at u l))"
proof -
  have "logs l (snd (lexFStringPart ((advance l)\<lparr>l_inPlaceholder := False\<rparr>)))"
    using part_logs [of "(advance l)\<lparr>l_inPlaceholder := False\<rparr>"] by (simp add: logs_def)
  then show ?thesis
    unfolding scan_at_def Let_def
    by (simp add: open_logs lexString_def plain_logs [OF plain_ident] plain_logs [OF plain_number]
        plain_logs [OF plain_punct] plain_logs [OF plain_string [of "advance l", unfolded plain_advance]]
        plain_logs)
qed

lemma Next_logs: "logs l (snd (Next u l))"
proof -
  have "logs l (snd (scan_at u (skip_gap l)))" using scan_logs [of "skip_gap l" u] by (simp add: logs_def)
  then have "logs l (snd (next_token u l))" by (simp add: next_token_def part_logs)
  then show ?thesis by (simp add: Next_def split_beta logs_def)
qed

lemma errs_Next: "bad_escape (l_errs l) \<Longrightarrow> bad_escape (l_errs (snd (Next u l)))"
  using Next_logs [of l u] by (auto simp: logs_def)

lemma lex_all_ok: "lex_ok l \<Longrightarrow> lex_ok (snd (lex_all u l))"
proof (induction u l rule: lex_all.induct)
  case (1 u l)
  obtain t l' where n: "Next u l = (t, l')" by fastforce
  have ok: "lex_ok l'" using Next_ok [OF "1.prems", of u] by (simp add: n)
  have esc: "bad_escape (l_errs l')" if "t_kind t \<noteq> K_EOF" "l_offset l' = l_offset l"
    using Next_strict [of l u] that "1.prems" errs_Next [of l u] by (auto simp: n lex_ok_def)
  show ?case
    using ok esc "1.IH" [OF n [symmetric]]
    by (subst lex_all.simps) (auto simp: n lex_ok_def sticky_def split_beta)
qed

text \<open>
  The guard of \<open>All\<close> against a token that consumes nothing fires only after an f-string escape error:
  a source in which no f-string ends in a lone backslash or holds an unknown escape is lexed to its end.
\<close>

lemma guard_needs_bad_escape:
  "guard_fired (l_errs (snd (lex_all u (New s)))) \<Longrightarrow> bad_escape (l_errs (snd (lex_all u (New s))))"
  using lex_all_ok [of "New s" u] by (simp add: lex_ok_def sticky_def New_def guard_fired_def)

text \<open>A bad escape: \<open>f"\q\<close> and a line break, then any program text.\<close>

definition escape_line :: gostring where
  "escape_line = [102, 34, 92, 113, 10]"


end
