(* ===== verification/DslRender.thy ===== *)
theory DslRender
  imports DslLexProps
begin

text \<open>
  Writing tokens as source text, and the proof that the lexer reads the text back: the inverse of
  dsl/lex/lex.go on well-formed token lists, f-strings included.
\<close>

section \<open>Reading one encoded rune\<close>

definition valid_rune :: "nat \<Rightarrow> bool" where
  "valid_rune r \<longleftrightarrow> r < 0x110000 \<and> \<not> (0xD800 \<le> r \<and> r < 0xE000)"

lemma unat_byte: "n < 256 \<Longrightarrow> unat (of_nat n :: byte) = n"
  by (simp add: unat_of_nat)

lemma base64_3:
  fixes r :: nat
  shows "r = 4096 * (r div 4096) + 64 * (r div 64 mod 64) + r mod 64"
    "r div 64 mod 64 < 64" "r mod 64 < 64"
proof -
  have "r div 4096 = r div 64 div 64" by (simp add: div_mult2_eq [symmetric])
  moreover have "r = 64 * (r div 64) + r mod 64" by (rule mult_div_mod_eq [symmetric])
  moreover have "r div 64 = 64 * (r div 64 div 64) + r div 64 mod 64" by (rule mult_div_mod_eq [symmetric])
  ultimately show "r = 4096 * (r div 4096) + 64 * (r div 64 mod 64) + r mod 64" by linarith
qed simp_all

lemma base64_4:
  fixes r :: nat
  shows "r = 262144 * (r div 262144) + 4096 * (r div 4096 mod 64) + 64 * (r div 64 mod 64) + r mod 64"
    "r div 4096 mod 64 < 64"
proof -
  have "r div 262144 = r div 4096 div 64" by (simp add: div_mult2_eq [symmetric])
  moreover have "r div 4096 = 64 * (r div 4096 div 64) + r div 4096 mod 64"
    by (rule mult_div_mod_eq [symmetric])
  ultimately show "r = 262144 * (r div 262144) + 4096 * (r div 4096 mod 64) + 64 * (r div 64 mod 64) + r mod 64"
    using base64_3(1) [of r] by linarith
qed simp

lemma decode_encode:
  assumes "valid_rune r"
  shows "decode_rune (encode_rune r @ xs) = (r, length (encode_rune r))"
proof -
  consider "r < 0x80" | "0x80 \<le> r" "r < 0x800" | "0x800 \<le> r" "r < 0x10000" | "0x10000 \<le> r"
    by linarith
  then show ?thesis
  proof cases
    case 1
    then show ?thesis by (simp add: encode_rune_def unat_byte)
  next
    case 2
    let ?b = "0xC0 + r div 64" and ?c = "0x80 + r mod 64"
    have n: "?b < 256" "?c < 256" "0xC2 \<le> ?b" "?b < 0xE0" "0x80 \<le> ?c" "?c < 0xC0"
      using 2 by linarith+
    then show ?thesis
      using 2 by (simp add: encode_rune_def unat_byte is_cont_def Let_def del: of_nat_add)
  next
    case 3
    let ?b = "0xE0 + r div 4096" and ?c = "0x80 + r div 64 mod 64" and ?d = "0x80 + r mod 64"
    have n: "?b < 256" "?c < 256" "?d < 256" "0xE0 \<le> ?b" "?b < 0xF0" "0x80 \<le> ?c" "?c < 0xC0"
        "0x80 \<le> ?d" "?d < 0xC0" using 3 by linarith+
    have s: "second_ok ?b ?c"
    proof -
      note sp = base64_3 [of r]
      have "r < 0xD800 \<or> 0xE000 \<le> r" using assms by (auto simp: valid_rune_def)
      then show ?thesis
        using 3 sp unfolding second_ok_def if_bool_eq_conj
        by (intro conjI impI) linarith+
    qed
    have v: "(?b - 0xE0) * 4096 + (?c - 0x80) * 64 + (?d - 0x80) = r"
      using base64_3(1) [of r] by simp
    have r: "\<not> r < 0x80" "\<not> r < 0x800" "r < 0x10000" "\<not> (0xD800 \<le> r \<and> r < 0xE000)" "\<not> 0x10FFFF < r"
      using 3 assms by (auto simp: valid_rune_def)
    have e: "encode_rune r = [of_nat ?b, of_nat ?c, of_nat ?d]"
      using r by (simp only: encode_rune_def if_False if_True simp_thms)
    show ?thesis
      using n s v unfolding e by (simp add: unat_byte is_cont_def Let_def del: of_nat_add)
  next
    case 4
    let ?b = "0xF0 + r div 262144" and ?c = "0x80 + r div 4096 mod 64"
      and ?d = "0x80 + r div 64 mod 64" and ?e = "0x80 + r mod 64"
    have lt: "r < 0x110000" using assms by (simp add: valid_rune_def)
    have n: "?b < 0xF5" "?c < 256" "?d < 256" "?e < 256" "0xF0 \<le> ?b" "0x80 \<le> ?c" "?c < 0xC0"
        "0x80 \<le> ?d" "?d < 0xC0" "0x80 \<le> ?e" "?e < 0xC0" using lt by linarith+
    have s: "second_ok ?b ?c"
      using 4 lt base64_3 [of r] base64_4 [of r] unfolding second_ok_def if_bool_eq_conj
      by (intro conjI impI) linarith+
    have v: "(?b - 0xF0) * 262144 + (?c - 0x80) * 4096 + (?d - 0x80) * 64 + (?e - 0x80) = r"
      using base64_4(1) [of r] by simp
    have r: "\<not> r < 0x80" "\<not> r < 0x800" "\<not> r < 0x10000" "\<not> (0xD800 \<le> r \<and> r < 0xE000)" "\<not> 0x10FFFF < r"
      using 4 lt by auto
    have e: "encode_rune r = [of_nat ?b, of_nat ?c, of_nat ?d, of_nat ?e]"
      using r by (simp only: encode_rune_def if_False simp_thms)
    show ?thesis
      using n s v unfolding e by (simp add: unat_byte is_cont_def Let_def del: of_nat_add)
  qed
qed

lemma encode_nonempty [simp]: "encode_rune r \<noteq> []"
  by (simp add: encode_rune_def)

section \<open>A lexer in front of a text\<close>

definition facing :: "lexer \<Rightarrow> gostring \<Rightarrow> bool" where
  "facing l xs \<longleftrightarrow> rest l = xs \<and> l_offset l \<le> length (l_src l)"

lemma facing_fields [simp]:
  "facing (l\<lparr>l_errs := x\<rparr>) xs = facing l xs" "facing (l\<lparr>l_inFString := b\<rparr>) xs = facing l xs"
  "facing (l\<lparr>l_inPlaceholder := b\<rparr>) xs = facing l xs" "facing (l\<lparr>l_fstringQuote := n\<rparr>) xs = facing l xs"
  "facing (l\<lparr>l_prevKind := k\<rparr>) xs = facing l xs" "facing (l\<lparr>l_sawGap := b\<rparr>) xs = facing l xs"
  by (simp_all add: facing_def)

lemma facing_Nil: "facing l [] \<Longrightarrow> atEOF l"
  by (simp add: facing_def atEOF_def)

lemma facing_rune:
  assumes "facing l (encode_rune r @ xs)" "valid_rune r"
  shows "\<not> atEOF l" "peek l = r" "facing (advance l) xs"
    "l_offset (advance l) = l_offset l + length (encode_rune r)"
proof -
  show n: "\<not> atEOF l"
  proof
    assume "atEOF l"
    then have "rest l = []" by (simp add: atEOF_def)
    then show False using assms(1) by (simp add: facing_def)
  qed
  then show "peek l = r"
    using assms decode_encode [OF assms(2), of xs] by (simp add: peek_def facing_def)
  show o: "l_offset (advance l) = l_offset l + length (encode_rune r)"
    using n assms decode_encode [OF assms(2), of xs] by (simp add: advance_offset facing_def)
  have "drop (length (encode_rune r)) (rest l) = xs" using assms(1) by (simp add: facing_def)
  moreover have "length (encode_rune r) \<le> length (rest l)"
    using assms(1) by (simp add: facing_def)
  moreover have "drop (l_offset l + length (encode_rune r)) (l_src l) = drop (length (encode_rune r)) (rest l)"
    by (simp add: add.commute)
  moreover have "l_offset l + length (encode_rune r) \<le> length (l_src l)"
    using calculation(2) assms(1) by (auto simp: facing_def)
  ultimately show "facing (advance l) xs"
    using assms(1) unfolding facing_def o by (simp add: add.commute del: drop_drop append_eq_conv_conj)
qed

lemma encode_ascii: "r < 128 \<Longrightarrow> encode_rune r = [of_nat r]"
  by (simp add: encode_rune_def)

lemma facing_byte:
  assumes "facing l (b # xs)" "unat b < 128"
  shows "\<not> atEOF l" "peek l = unat b" "facing (advance l) xs" "l_offset (advance l) = l_offset l + 1"
proof -
  have "facing l (encode_rune (unat b) @ xs)" "valid_rune (unat b)"
    using assms by (simp_all add: encode_ascii valid_rune_def)
  from facing_rune [OF this] show "\<not> atEOF l" "peek l = unat b" "facing (advance l) xs"
    "l_offset (advance l) = l_offset l + 1"
    using assms(2) by (simp_all add: encode_ascii)
qed

lemma facing_peekAt1:
  assumes "facing l (encode_rune r @ xs)" "valid_rune r"
  shows "peekAt1 l = (if xs = [] then 0 else fst (decode_rune xs))"
proof -
  note f = facing_rune [OF assms]
  have "peekAt1 l = peek (advance l)"
    using f(1) by (simp add: peekAt1_def peek_def atEOF_def advance_offset Let_def)
  also have "\<dots> = (if xs = [] then 0 else fst (decode_rune xs))"
    using f(3) by (cases xs) (auto simp: peek_def atEOF_def facing_def)
  finally show ?thesis .
qed

text \<open>The next byte of the text is a space, or the text ends.\<close>

definition ends_token :: "gostring \<Rightarrow> bool" where
  "ends_token xs \<longleftrightarrow> xs = [] \<or> hd xs = 32"

lemma ends_peek:
  "facing l xs \<Longrightarrow> ends_token xs \<Longrightarrow> atEOF l \<and> peek l = 0 \<or> \<not> atEOF l \<and> peek l = 32"
  using facing_byte [of l 32 "tl xs"]
  by (cases xs) (auto simp: ends_token_def peek_def dest: facing_Nil)

lemma advance_while_run:
  assumes "facing l (string_of_runes rs @ xs)" "\<forall>r \<in> set rs. valid_rune r \<and> P r"
    "xs = [] \<or> \<not> P (fst (decode_rune xs))"
  shows "facing (advance_while P l) xs"
    "l_offset (advance_while P l) = l_offset l + length (string_of_runes rs)"
proof -
  have "facing (advance_while P l) xs \<and>
      l_offset (advance_while P l) = l_offset l + length (string_of_runes rs)"
    using assms(1,2)
  proof (induction rs arbitrary: l)
    case Nil
    then have "atEOF l \<or> \<not> P (peek l)"
      using assms(3) by (cases "xs = []") (auto simp: string_of_runes_def peek_def facing_def atEOF_def)
    then have "advance_while P l = l" by (subst advance_while.simps) auto
    with Nil show ?case by (simp add: string_of_runes_def)
  next
    case (Cons r rs)
    then have f: "facing l (encode_rune r @ string_of_runes rs @ xs)" "valid_rune r" "P r"
      by (simp_all add: string_of_runes_def)
    note g = facing_rune [OF f(1,2)]
    show ?case
      using Cons.IH [OF g(3)] Cons.prems(2) g f(3) advance_while.simps [of P l]
      by (simp add: string_of_runes_def)
  qed
  then show "facing (advance_while P l) xs"
    "l_offset (advance_while P l) = l_offset l + length (string_of_runes rs)" by simp_all
qed

lemma slice_run:
  assumes "facing l (w @ xs)" "l_src l' = l_src l" "l_offset l' = l_offset l + length w"
  shows "slice l' (l_offset l) = w"
  using assms by (simp add: slice_def facing_def drop_take)

text \<open>The f-string mode and the log are as they were.\<close>

definition quiet :: "lexer \<Rightarrow> lexer \<Rightarrow> bool" where
  "quiet l l' \<longleftrightarrow> l_inFString l' = l_inFString l \<and> l_inPlaceholder l' = l_inPlaceholder l
     \<and> l_fstringQuote l' = l_fstringQuote l \<and> l_errs l' = l_errs l"

lemma quiet_simps [simp]:
  "quiet l l" "quiet l (advance l') = quiet l l'" "quiet (advance l) l' = quiet l l'"
  "quiet l (advance_while P l') = quiet l l'" "quiet l (skip_gap l') = quiet l l'"
  by (simp_all add: quiet_def)

section \<open>String literals\<close>

definition esc_rune :: "nat \<Rightarrow> gostring" where
  "esc_rune r =
     (if r = 10 then [92, 110] else if r = 9 then [92, 116] else if r = 13 then [92, 114]
      else if r = 92 then [92, 92] else if r = 34 then [92, 34] else encode_rune r)"

definition esc_string :: "nat list \<Rightarrow> gostring" where
  "esc_string rs = concat (map esc_rune rs)"

lemma facing_two:
  assumes "facing l (a # b # xs)" "unat a < 128" "unat b < 128"
  shows "\<not> atEOF l" "peek l = unat a" "\<not> atEOF (advance l)" "peek (advance l) = unat b"
    "facing (advance (advance l)) xs" "peekAt1 l = unat b"
proof -
  note f = facing_byte [OF assms(1,2)]
  note g = facing_byte [OF f(3) assms(3)]
  show "\<not> atEOF l" "peek l = unat a" "\<not> atEOF (advance l)" "peek (advance l) = unat b"
    "facing (advance (advance l)) xs" using f g by simp_all
  have "facing l (encode_rune (unat a) @ b # xs)" "valid_rune (unat a)"
    using assms by (simp_all add: encode_ascii valid_rune_def)
  from facing_peekAt1 [OF this] show "peekAt1 l = unat b" using assms(3) by simp
qed

lemma string_run:
  assumes "facing l (esc_string rs @ 34 # xs)" "\<forall>r \<in> set rs. valid_rune r"
  shows "\<exists>l'. string_loop start sb l = (token_at K_STRING (sb @ string_of_runes rs) start, l')
     \<and> facing l' xs \<and> quiet l l'"
  using assms
proof (induction rs arbitrary: l sb)
  case Nil
  then have "facing l (34 # xs)" by (simp add: esc_string_def)
  from facing_byte [OF this] show ?case
    by (subst string_loop.simps) (simp add: Let_def string_of_runes_def)
next
  case (Cons r rs)
  have v: "valid_rune r" "\<forall>r \<in> set rs. valid_rune r" using Cons.prems by simp_all
  have step: "string_loop start sb l = string_loop start (sb @ encode_rune r) m"
    if "\<not> atEOF l" "peek l = r" "r \<noteq> 34" "r \<noteq> 92" "r \<noteq> 10" "m = advance l" for m
    using that by (subst string_loop.simps) (simp add: Let_def)
  have esc: "string_loop start sb l = string_loop start (sb @ [b]) m"
    if "\<not> atEOF l" "peek l = 92" "\<not> atEOF (advance l)" "string_escape (peek (advance l)) = Some b"
      "m = advance (advance l)" for b m
    using that by (subst string_loop.simps) (simp add: Let_def)
  have "\<exists>m. string_loop start sb l = string_loop start (sb @ encode_rune r) m
      \<and> facing m (esc_string rs @ 34 # xs) \<and> quiet l m"
  proof (cases "r \<in> {10, 9, 13, 92, 34}")
    case False
    then have "facing l (encode_rune r @ (esc_string rs @ 34 # xs))"
      using Cons.prems(1) by (simp add: esc_string_def esc_rune_def)
    from facing_rune [OF this v(1)] step False show ?thesis
      by (intro exI [of _ "advance l"]) simp
  next
    case True
    then obtain c where c: "esc_rune r = [92, c]" "unat c < 128" "string_escape (unat c) = Some (of_nat r)"
      by (auto simp: esc_rune_def string_escape_def)
    then have "facing l (92 # c # (esc_string rs @ 34 # xs))"
      using Cons.prems(1) by (simp add: esc_string_def)
    from facing_two [OF this _ c(2)] esc [OF _ _ _ _ refl] c(3) True show ?thesis
      by (intro exI [of _ "advance (advance l)"]) (auto simp: encode_ascii)
  qed
  then obtain m where m: "string_loop start sb l = string_loop start (sb @ encode_rune r) m"
    "facing m (esc_string rs @ 34 # xs)" "quiet l m" by blast
  from Cons.IH [OF m(2) v(2), of "sb @ encode_rune r"] m(1,3) show ?case
    by (auto simp: string_of_runes_def quiet_def)
qed

section \<open>F-string fragments\<close>

definition frag_rune :: "nat \<Rightarrow> gostring" where
  "frag_rune r =
     (if r = 10 then [92, 110] else if r = 9 then [92, 116] else if r = 92 then [92, 92]
      else if r = 34 then [92, 34] else if r = 123 then [123, 123] else encode_rune r)"

definition frag_string :: "nat list \<Rightarrow> gostring" where
  "frag_string rs = concat (map frag_rune rs)"

lemma fragment_text:
  assumes "facing l (frag_string rs @ xs)" "\<forall>r \<in> set rs. valid_rune r" "l_fstringQuote l = 34"
  shows "\<exists>m. fragment_loop start k sb l = fragment_loop start k (sb @ string_of_runes rs) m
     \<and> facing m xs \<and> quiet l m"
  using assms
proof (induction rs arbitrary: l sb)
  case Nil
  then show ?case by (auto simp: frag_string_def string_of_runes_def)
next
  case (Cons r rs)
  have v: "valid_rune r" "\<forall>r \<in> set rs. valid_rune r" using Cons.prems by simp_all
  have q: "l_fstringQuote l = 34" by fact
  have step: "fragment_loop start k sb l = fragment_loop start k (sb @ encode_rune r) m"
    if "\<not> atEOF l" "peek l = r" "r \<noteq> 123" "r \<noteq> 34" "r \<noteq> 92" "r \<noteq> 10" "m = advance l" for m
    using that q by (subst fragment_loop.simps) (simp add: Let_def)
  have esc: "fragment_loop start k sb l = fragment_loop start k (sb @ [b]) m"
    if "\<not> atEOF l" "peek l = 92" "\<not> atEOF (advance l)" "fstring_escape (peek (advance l)) = Some b"
      "m = advance (advance l)" for b m
    using that q by (subst fragment_loop.simps) (simp add: Let_def)
  have brace: "fragment_loop start k sb l = fragment_loop start k (sb @ [123]) m"
    if "\<not> atEOF l" "peek l = 123" "peekAt1 l = 123" "m = advance (advance l)" for m
    using that q by (subst fragment_loop.simps) (simp add: Let_def)
  have "\<exists>m. fragment_loop start k sb l = fragment_loop start k (sb @ encode_rune r) m
      \<and> facing m (frag_string rs @ xs) \<and> quiet l m"
  proof -
    consider "r \<notin> {10, 9, 92, 34, 123}" | "r \<in> {10, 9, 92, 34}" | "r = 123" by blast
    then show ?thesis
    proof cases
      case 1
      then have "facing l (encode_rune r @ (frag_string rs @ xs))"
        using Cons.prems(1) by (simp add: frag_string_def frag_rune_def)
      from facing_rune [OF this v(1)] step 1 show ?thesis
        by (intro exI [of _ "advance l"]) simp
    next
      case 2
      then obtain c where c: "frag_rune r = [92, c]" "unat c < 128" "fstring_escape (unat c) = Some (of_nat r)"
        by (auto simp: frag_rune_def fstring_escape_def)
      then have "facing l (92 # c # (frag_string rs @ xs))"
        using Cons.prems(1) by (simp add: frag_string_def)
      from facing_two [OF this _ c(2)] esc [OF _ _ _ _ refl] c(3) 2 show ?thesis
        by (intro exI [of _ "advance (advance l)"]) (auto simp: encode_ascii)
    next
      case 3
      then have "facing l (123 # 123 # (frag_string rs @ xs))"
        using Cons.prems(1) by (simp add: frag_string_def frag_rune_def)
      from facing_two [OF this] brace [OF _ _ _ refl] 3 show ?thesis
        by (intro exI [of _ "advance (advance l)"]) (simp add: encode_ascii)
    qed
  qed
  then obtain m where m: "fragment_loop start k sb l = fragment_loop start k (sb @ encode_rune r) m"
    "facing m (frag_string rs @ xs)" "quiet l m" by blast
  from Cons.IH [OF m(2) v(2), of "sb @ encode_rune r"] m(1,3) q show ?case
    by (auto simp: string_of_runes_def quiet_def)
qed

lemma fragment_open_brace:
  assumes "facing l (frag_string rs @ 123 # xs)" "\<forall>r \<in> set rs. valid_rune r" "l_fstringQuote l = 34"
    "xs \<noteq> []" "hd xs = 32"
  shows "\<exists>l'. lexFStringLiteralFragment l start k = (token_at k (string_of_runes rs) start, l')
     \<and> facing l' xs \<and> l_inFString l' = l_inFString l \<and> l_inPlaceholder l' \<and> l_fstringQuote l' = 34
     \<and> l_errs l' = l_errs l"
proof -
  from fragment_text [OF assms(1-3), of start k "[]"] obtain m where
    m: "fragment_loop start k [] l = fragment_loop start k (string_of_runes rs) m" "facing m (123 # xs)" "quiet l m"
    by auto
  obtain ys where "xs = 32 # ys" using assms(4,5) by (cases xs) auto
  with m(2) facing_two [of m 123 32 ys] facing_byte [of m 123 xs] show ?thesis
    using m(1,3) assms(3)
    by (auto simp: lexFStringLiteralFragment_def fragment_loop.simps [of _ _ _ m] Let_def quiet_def)
qed

lemma fragment_close:
  assumes "facing l (frag_string rs @ 34 # xs)" "\<forall>r \<in> set rs. valid_rune r" "l_fstringQuote l = 34"
  shows "\<exists>l'. lexFStringLiteralFragment l start k = (token_at K_FSTRING_CLOSE (string_of_runes rs) start, l')
     \<and> facing l' xs \<and> \<not> l_inFString l' \<and> l_inPlaceholder l' = l_inPlaceholder l \<and> l_errs l' = l_errs l"
proof -
  from fragment_text [OF assms, of start k "[]"] obtain m where
    m: "fragment_loop start k [] l = fragment_loop start k (string_of_runes rs) m" "facing m (34 # xs)" "quiet l m"
    by auto
  from facing_byte [OF m(2)] show ?thesis
    using m(1,3) assms(3)
    by (simp add: lexFStringLiteralFragment_def fragment_loop.simps [of _ _ _ m] Let_def quiet_def)
qed

section \<open>Tokens as text\<close>

definition utf8 :: "gostring \<Rightarrow> bool" where
  "utf8 s \<longleftrightarrow> (\<forall>r \<in> set (runes s). valid_rune r) \<and> string_of_runes (runes s) = s"

definition word_runes :: "unicode \<Rightarrow> nat list \<Rightarrow> bool" where
  "word_runes u rs \<longleftrightarrow> rs \<noteq> [] \<and> (\<forall>r \<in> set rs. valid_rune r \<and> ident_rune u r)
     \<and> (IsLetter u (hd rs) \<or> hd rs = 95) \<and> \<not> IsSpace (hd rs)"

text \<open>An identifier: a word that is not reserved, with at most one bang after it.\<close>

definition ident_text :: "unicode \<Rightarrow> gostring \<Rightarrow> bool" where
  "ident_text u s \<longleftrightarrow>
     (let rs = runes s; base = (if rs \<noteq> [] \<and> last rs = 33 then butlast rs else rs) in
      utf8 s \<and> word_runes u base \<and> keyword (string_of_runes base) = None)"

definition digit_bytes :: "gostring \<Rightarrow> bool" where
  "digit_bytes s \<longleftrightarrow> s \<noteq> [] \<and> (\<forall>b \<in> set s. 48 \<le> unat b \<and> unat b \<le> 57)"

definition float_text :: "gostring \<Rightarrow> bool" where
  "float_text s \<longleftrightarrow> (\<exists>i \<le> length s. digit_bytes (take i s) \<and> i < length s \<and> s ! i = 46 \<and> digit_bytes (drop (Suc i) s))"

definition wf_tok :: "unicode \<Rightarrow> tok \<Rightarrow> bool" where
  "wf_tok u t =
     (let (k, s) = t in
      if k \<in> {K_ILLEGAL, K_EOF, K_NEWLINE} then False
      else if k = K_IDENT then ident_text u s
      else if k = K_INT then digit_bytes s
      else if k = K_FLOAT then float_text s
      else if k \<in> {K_STRING, K_FSTRING_OPEN, K_FSTRING_PART, K_FSTRING_CLOSE} then utf8 s
      else s = kind_string k)"

definition tok_text :: "tok \<Rightarrow> gostring" where
  "tok_text t =
     (let (k, s) = t in
      if k = K_STRING then 34 # esc_string (runes s) @ [34]
      else if k = K_FSTRING_OPEN then 102 # 34 # frag_string (runes s) @ [123]
      else if k = K_FSTRING_PART then 125 # frag_string (runes s) @ [123]
      else if k = K_FSTRING_CLOSE then 125 # frag_string (runes s) @ [34]
      else s)"

text \<open>Every token after one space.\<close>

definition render :: "tok list \<Rightarrow> gostring" where
  "render ts = concat (map (\<lambda>t. 32 # tok_text t) ts)"

text \<open>
  The f-string discipline of a token list: \<open>True\<close> inside a placeholder. F-strings do not nest, and a
  placeholder holds no closing brace.
\<close>

definition after_tok :: "bool \<Rightarrow> tok \<Rightarrow> bool" where
  "after_tok b t =
     (if fst t = K_FSTRING_OPEN \<or> fst t = K_FSTRING_PART then True
      else if fst t = K_FSTRING_CLOSE then False else b)"

definition allowed :: "bool \<Rightarrow> tok \<Rightarrow> bool" where
  "allowed b t =
     (if fst t = K_FSTRING_OPEN \<or> fst t = K_RBRACE then \<not> b
      else if fst t = K_FSTRING_PART \<or> fst t = K_FSTRING_CLOSE then b else True)"

definition opens :: "tok \<Rightarrow> bool" where
  "opens t \<longleftrightarrow> fst t = K_FSTRING_OPEN \<or> fst t = K_FSTRING_PART"

fun moded :: "bool \<Rightarrow> tok list \<Rightarrow> bool" where
  "moded b [] = True"
| "moded b (t # ts) = (allowed b t \<and> (opens t \<longrightarrow> ts \<noteq> []) \<and> moded (after_tok b t) ts)"

definition in_mode :: "bool \<Rightarrow> lexer \<Rightarrow> bool" where
  "in_mode b l \<longleftrightarrow> l_inFString l = b \<and> l_inPlaceholder l = b \<and> (b \<longrightarrow> l_fstringQuote l = 34)"

lemma quiet_mode: "quiet l l' \<Longrightarrow> in_mode b l' = in_mode b l"
  by (simp add: quiet_def in_mode_def)

section \<open>Reading a word\<close>

lemma ends_token_rune: "ends_token xs \<Longrightarrow> xs = [] \<or> fst (decode_rune xs) = 32"
  by (cases xs) (auto simp: ends_token_def)

lemma ident_rune_stops [simp]: "\<not> ident_rune u 32" "\<not> ident_rune u 33" "\<not> IsDigit u 32" "\<not> IsDigit u 46"
  by (simp_all add: ident_rune_def IsLetter_def IsDigit_def)

lemma word_scan:
  assumes "facing l (string_of_runes rs @ xs)" "\<forall>r \<in> set rs. valid_rune r \<and> ident_rune u r"
    "xs = [] \<or> \<not> ident_rune u (fst (decode_rune xs))"
  defines "m \<equiv> advance_while (ident_rune u) l"
  shows "facing m xs" "slice m (l_offset l) = string_of_runes rs" "quiet l m" "l_src m = l_src l"
    "l_offset m = l_offset l + length (string_of_runes rs)"
  using advance_while_run [OF assms(1-3)] slice_run [OF assms(1), of m] by (simp_all add: m_def)

lemma keyword_scan:
  assumes "facing l (string_of_runes rs @ xs)" "word_runes u rs" "keyword (string_of_runes rs) = Some k"
    "ends_token xs"
  shows "\<exists>l'. lexIdentOrKeyword u l start = (token_at k (string_of_runes rs) start, l')
     \<and> facing l' xs \<and> quiet l l'"
  using word_scan [OF assms(1), of u] assms(2-4) ends_token_rune [OF assms(4)]
  by (auto simp: lexIdentOrKeyword_def Let_def word_runes_def)

lemma ident_scan:
  assumes "facing l (string_of_runes rs @ xs)" "word_runes u rs" "keyword (string_of_runes rs) = None"
    "ends_token xs"
  shows "\<exists>l'. lexIdentOrKeyword u l start = (token_at K_IDENT (string_of_runes rs) start, l')
     \<and> facing l' xs \<and> quiet l l'"
proof -
  define m where "m = advance_while (ident_rune u) l"
  note w = word_scan [OF assms(1), of u, folded m_def]
  have "facing m xs" "slice m (l_offset l) = string_of_runes rs" "quiet l m"
    using w assms(2) ends_token_rune [OF assms(4)] by (auto simp: word_runes_def)
  moreover have "atEOF m \<or> peek m \<noteq> 33" using ends_peek [OF calculation(1) assms(4)] by auto
  ultimately show ?thesis
    using assms(3) by (auto simp: lexIdentOrKeyword_def Let_def m_def)
qed

lemma bang_scan:
  assumes "facing l (string_of_runes rs @ 33 # xs)" "word_runes u rs" "keyword (string_of_runes rs) = None"
    "ends_token xs"
  shows "\<exists>l'. lexIdentOrKeyword u l start = (token_at K_IDENT (string_of_runes rs @ [33]) start, l')
     \<and> facing l' xs \<and> quiet l l'"
proof -
  define m where "m = advance_while (ident_rune u) l"
  have m: "facing m (33 # xs)" "slice m (l_offset l) = string_of_runes rs" "quiet l m"
    "l_src m = l_src l" "l_offset m = l_offset l + length (string_of_runes rs)"
    using word_scan [OF assms(1), of u, folded m_def] assms(2) by (simp_all add: word_runes_def)
  have "facing m (encode_rune 33 @ xs)" "valid_rune 33" using m(1) by (simp_all add: encode_ascii valid_rune_def)
  note b = facing_rune [OF this] facing_peekAt1 [OF this]
  have "peekAt1 m \<noteq> 61" using b(5) ends_token_rune [OF assms(4)] by auto
  moreover have "slice (advance m) (l_offset l) = string_of_runes rs @ [33]"
    using m b(4) assms(1) by (intro slice_run [of l _ xs]) (simp_all add: encode_ascii)
  ultimately show ?thesis
    using m b assms(3) by (auto simp: lexIdentOrKeyword_def Let_def m_def)
qed

section \<open>Reading one token\<close>

lemma skip_one_space:
  assumes "facing l (32 # w)" "w = [] \<or> (\<not> IsSpace (fst (decode_rune w)) \<and> fst (decode_rune w) \<noteq> 35)"
  shows "facing (skip_gap l) w"
proof -
  have f: "\<not> atEOF l" "peek l = 32" "facing (advance l) w" using facing_byte [OF assms(1)] by simp_all
  have k: "skipWhitespaceAndComments m = m" if "facing m w" for m
  proof (cases "w = []")
    case True
    then show ?thesis using facing_Nil [of m] that by (subst skipWhitespaceAndComments.simps) simp
  next
    case False
    then have "peek m = fst (decode_rune w)" using that by (auto simp: peek_def facing_def atEOF_def)
    with False assms(2) show ?thesis by (subst skipWhitespaceAndComments.simps) auto
  qed
  define m where "m = l\<lparr>l_sawGap := False\<rparr>"
  have m: "\<not> atEOF m" "peek m = 32" "facing (advance m) w"
    using facing_byte [of m 32 w] assms(1) by (simp_all add: m_def)
  have "skipWhitespaceAndComments m = advance m"
    using m k [OF m(3)] by (subst skipWhitespaceAndComments.simps) (simp add: IsSpace_def)
  then show ?thesis using m(3) by (simp add: skip_gap_def Let_def m_def)
qed

lemma digits_runes:
  "\<forall>b \<in> set s. 48 \<le> unat b \<and> unat b \<le> 57 \<Longrightarrow>
     string_of_runes (map unat s) = s \<and> (\<forall>r \<in> set (map unat s). valid_rune r \<and> IsDigit u r)"
  by (induction s) (auto simp: string_of_runes_def encode_ascii valid_rune_def IsDigit_def)

text \<open>The text begins a number, a word or a mark: its first byte is one ASCII rune.\<close>

lemma scan_word:
  assumes "facing l xs" "in_mode b l" "xs \<noteq> []" "IsLetter u (fst (decode_rune xs)) \<or> fst (decode_rune xs) = 95"
    "peekAt1 l \<noteq> 34 \<or> fst (decode_rune xs) \<noteq> 102"
  shows "scan_at u l = lexIdentOrKeyword u l (curPos l)"
proof -
  have e: "\<not> atEOF l" "peek l = fst (decode_rune xs)"
    using assms(1,3) by (auto simp: peek_def facing_def atEOF_def)
  moreover have "peek l \<noteq> 125" using assms(4) e by (auto simp: IsLetter_def)
  ultimately show ?thesis using assms(4,5) by (auto simp: scan_at_def Let_def)
qed

lemma scan_ascii:
  assumes "facing l (c # xs)" "unat c < 128"
  shows "\<not> atEOF l" "peek l = unat c"
  using facing_byte [OF assms] by simp_all

lemma number_scan:
  assumes "facing l (s @ xs)" "digit_bytes s" "ends_token xs"
  shows "\<exists>l'. lexNumber u l start = (token_at K_INT s start, l') \<and> facing l' xs \<and> quiet l l'"
proof -
  define m where "m = advance_while (IsDigit u) l"
  have d: "string_of_runes (map unat s) = s" "\<forall>r \<in> set (map unat s). valid_rune r \<and> IsDigit u r"
    using digits_runes [of s u] assms(2) by (simp_all add: digit_bytes_def)
  have f: "facing l (string_of_runes (map unat s) @ xs)" using assms(1) d(1) by simp
  have x: "xs = [] \<or> \<not> IsDigit u (fst (decode_rune xs))" using ends_token_rune [OF assms(3)] by auto
  have m: "facing m xs" "l_offset m = l_offset l + length s"
    using advance_while_run [OF f d(2) x] d(1) by (simp_all add: m_def)
  have "slice m (l_offset l) = s" using m(2) assms(1) by (intro slice_run) (simp_all add: m_def)
  moreover have "atEOF m \<or> peek m \<noteq> 46" using ends_peek [OF m(1) assms(3)] by auto
  ultimately show ?thesis using m(1) by (auto simp: lexNumber_def Let_def m_def)
qed

lemma float_scan:
  assumes "facing l (s @ 46 # t @ xs)" "digit_bytes s" "digit_bytes t" "ends_token xs"
  shows "\<exists>l'. lexNumber u l start = (token_at K_FLOAT (s @ 46 # t) start, l') \<and> facing l' xs \<and> quiet l l'"
proof -
  define m where "m = advance_while (IsDigit u) l"
  have d: "string_of_runes (map unat s) = s" "\<forall>r \<in> set (map unat s). valid_rune r \<and> IsDigit u r"
    using digits_runes [of s u] assms(2) by (simp_all add: digit_bytes_def)
  have e: "string_of_runes (map unat t) = t" "\<forall>r \<in> set (map unat t). valid_rune r \<and> IsDigit u r"
    using digits_runes [of t u] assms(3) by (simp_all add: digit_bytes_def)
  have f: "facing l (string_of_runes (map unat s) @ (46 # t @ xs))" using assms(1) d(1) by simp
  have dot: "fst (decode_rune (46 # t @ xs)) = 46" by simp
  have m: "facing m (46 # t @ xs)" "l_offset m = l_offset l + length s"
    using advance_while_run [OF f d(2)] d(1) dot by (simp_all add: m_def)
  have mf: "facing m (encode_rune 46 @ t @ xs)" "valid_rune 46" using m(1) by (simp_all add: encode_ascii valid_rune_def)
  note b = facing_rune [OF mf]
  obtain c t' where t: "t = c # t'" "48 \<le> unat c" "unat c \<le> 57"
    using assms(3) by (cases t) (auto simp: digit_bytes_def)
  have "peekAt1 m = unat c" using facing_peekAt1 [OF mf] t by simp
  then have p: "peekAt1 m \<noteq> 46" "IsDigit u (peekAt1 m)" using t by (auto simp: IsDigit_def)
  define n where "n = advance_while (IsDigit u) (advance m)"
  have x: "xs = [] \<or> \<not> IsDigit u (fst (decode_rune xs))" using ends_token_rune [OF assms(4)] by auto
  have g: "facing (advance m) (string_of_runes (map unat t) @ xs)" using b(3) e(1) by simp
  have n: "facing n xs" "l_offset n = l_offset (advance m) + length t"
    using advance_while_run [OF g e(2) x] e(1) by (simp_all add: n_def)
  have "slice n (l_offset l) = s @ 46 # t"
    using n(2) b(4) m(2) assms(1) by (intro slice_run [of l _ xs]) (simp_all add: m_def n_def encode_ascii)
  then show ?thesis using b p n(1) by (auto simp: lexNumber_def Let_def m_def n_def)
qed

lemma string_of_runes_hd:
  "rs \<noteq> [] \<Longrightarrow> string_of_runes rs = encode_rune (hd rs) @ string_of_runes (tl rs)"
  by (cases rs) (simp_all add: string_of_runes_def)

lemma first_rune:
  assumes "\<forall>r \<in> set rs. valid_rune r" "rs \<noteq> []"
  shows "fst (decode_rune (string_of_runes rs @ xs)) = hd rs"
  using assms decode_encode [of "hd rs" "string_of_runes (tl rs) @ xs"]
  by (simp add: string_of_runes_hd)

lemma word_no_quote:
  assumes "facing l (string_of_runes rs @ xs)" "word_runes u rs" "xs = [] \<or> fst (decode_rune xs) \<noteq> 34"
  shows "peekAt1 l \<noteq> 34"
proof -
  have v: "rs \<noteq> []" "\<forall>r \<in> set rs. valid_rune r" "\<forall>r \<in> set rs. ident_rune u r"
    using assms(2) by (simp_all add: word_runes_def)
  have "facing l (encode_rune (hd rs) @ (string_of_runes (tl rs) @ xs))"
    using assms(1) v(1) by (simp add: string_of_runes_hd)
  note p = facing_peekAt1 [OF this]
  show ?thesis
  proof (cases "tl rs = []")
    case True
    then show ?thesis using p assms(3) v by (cases "xs = []") (simp_all add: string_of_runes_def)
  next
    case False
    have "set (tl rs) \<subseteq> set rs" by (cases rs) auto
    moreover have "hd (tl rs) \<in> set (tl rs)" using False by simp
    ultimately have "valid_rune (hd rs)" "\<forall>r \<in> set (tl rs). valid_rune r" "ident_rune u (hd (tl rs))"
      using v by auto
    moreover have "\<not> ident_rune u 34" by (simp add: ident_rune_def IsLetter_def IsDigit_def)
    moreover have "string_of_runes (tl rs) @ xs \<noteq> []"
      using False by (simp add: string_of_runes_hd [of "tl rs"])
    ultimately show ?thesis using p first_rune [of "tl rs" xs] False by auto
  qed
qed

text \<open>What reading one token leaves.\<close>

definition reads_tok :: "unicode \<Rightarrow> lexer \<Rightarrow> tok \<Rightarrow> gostring \<Rightarrow> bool \<Rightarrow> bool" where
  "reads_tok u l t xs b \<longleftrightarrow>
     (\<exists>t' l'. scan_at u l = (t', l') \<and> tok_of t' = t \<and> facing l' xs \<and> in_mode b l' \<and> l_errs l' = l_errs l)"

lemma reads_quiet:
  assumes "\<exists>l'. scan_at u l = (token_at k s p, l') \<and> facing l' xs \<and> quiet l l'" "in_mode b l"
  shows "reads_tok u l (k, s) xs b"
  using assms by (auto simp: reads_tok_def tok_of_def quiet_mode) (auto simp: quiet_def)

lemma read_word:
  assumes "facing l (string_of_runes rs @ xs)" "in_mode b l" "word_runes u rs" "ends_token xs"
  shows "reads_tok u l (case keyword (string_of_runes rs) of None \<Rightarrow> K_IDENT | Some k \<Rightarrow> k, string_of_runes rs) xs b"
proof -
  have v: "rs \<noteq> []" "\<forall>r \<in> set rs. valid_rune r" "IsLetter u (hd rs) \<or> hd rs = 95"
    using assms(3) by (auto simp: word_runes_def)
  have "peekAt1 l \<noteq> 34"
    using word_no_quote [OF assms(1,3)] ends_token_rune [OF assms(4)] by auto
  then have "scan_at u l = lexIdentOrKeyword u l (curPos l)"
    using scan_word [OF assms(1,2), of u] v first_rune [of rs xs] by (simp add: string_of_runes_hd)
  then show ?thesis
    using keyword_scan [OF assms(1,3) _ assms(4)] ident_scan [OF assms(1,3) _ assms(4)] assms(2)
    by (intro reads_quiet [where p = "curPos l"]) (auto split: option.split)
qed

lemma read_bang:
  assumes "facing l (string_of_runes rs @ 33 # xs)" "in_mode b l" "word_runes u rs" "ends_token xs"
    "keyword (string_of_runes rs) = None"
  shows "reads_tok u l (K_IDENT, string_of_runes rs @ [33]) xs b"
proof -
  have v: "rs \<noteq> []" "\<forall>r \<in> set rs. valid_rune r" "IsLetter u (hd rs) \<or> hd rs = 95"
    using assms(3) by (auto simp: word_runes_def)
  have "fst (decode_rune (33 # xs)) = 33" by simp
  then have "peekAt1 l \<noteq> 34" using word_no_quote [OF assms(1,3)] by simp
  then have "scan_at u l = lexIdentOrKeyword u l (curPos l)"
    using scan_word [OF assms(1,2), of u] v first_rune [of rs "33 # xs"] by (simp add: string_of_runes_hd)
  then show ?thesis
    using bang_scan [OF assms(1,3,5,4)] assms(2) by (intro reads_quiet [where p = "curPos l"]) simp_all
qed

lemma keyword_table:
  "distinct (map fst Keywords)"
  "\<forall>e \<in> set Keywords. kind_string (snd e) = fst e \<and> fst e \<noteq> []"
  "\<forall>e \<in> set Keywords. \<forall>c \<in> set (fst e). 97 \<le> unat c \<and> unat c \<le> 122"
proof -
  show "distinct (map fst Keywords)" by (simp add: Keywords_def)
  show "\<forall>e \<in> set Keywords. kind_string (snd e) = fst e \<and> fst e \<noteq> []"
    by (simp add: Keywords_def) (simp add: lit_def)
  show "\<forall>e \<in> set Keywords. \<forall>c \<in> set (fst e). 97 \<le> unat c \<and> unat c \<le> 122"
    by (simp add: Keywords_def lit_def)
qed

lemma keyword_facts:
  assumes "keywordKinds k"
  shows "keyword (kind_string k) = Some k" "\<forall>c \<in> set (kind_string k). 97 \<le> unat c \<and> unat c \<le> 122"
    "kind_string k \<noteq> []"
proof -
  obtain w where w: "(w, k) \<in> set Keywords" using assms by (auto simp: keywordKinds_def)
  then have "kind_string k = w" using keyword_table(2) by force
  with w show "keyword (kind_string k) = Some k" "kind_string k \<noteq> []"
    "\<forall>c \<in> set (kind_string k). 97 \<le> unat c \<and> unat c \<le> 122"
    using keyword_table by (auto simp: keyword_def)
qed

lemma lower_word:
  assumes "\<forall>c \<in> set s. 97 \<le> unat c \<and> unat c \<le> 122" "s \<noteq> []"
  shows "word_runes u (map unat s)" "string_of_runes (map unat s) = s"
proof -
  show "string_of_runes (map unat s) = s"
    using assms(1) by (induction s) (simp_all add: string_of_runes_def encode_ascii)
  obtain c s' where "s = c # s'" "97 \<le> unat c" "unat c \<le> 122" using assms by (cases s) auto
  moreover have "valid_rune r \<and> ident_rune u r" if "97 \<le> r" "r \<le> 122" for r
    using that by (simp add: valid_rune_def ident_rune_def IsLetter_def)
  ultimately show "word_runes u (map unat s)"
    using assms(1) by (auto simp: word_runes_def IsLetter_def IsSpace_def)
qed

lemma read_keyword:
  assumes "facing l (kind_string k @ xs)" "in_mode b l" "keywordKinds k" "ends_token xs"
  shows "reads_tok u l (k, kind_string k) xs b"
  using read_word [of l "map unat (kind_string k)" xs b u] assms keyword_facts [OF assms(3)]
    lower_word [of "kind_string k"] by simp

text \<open>The punctuation kinds.\<close>

definition mark :: "kind \<Rightarrow> bool" where
  "mark k \<longleftrightarrow> k \<in> {K_EQ, K_NEQ, K_LT, K_LTE, K_GT, K_GTE, K_ADD, K_SUB, K_MUL, K_QUO, K_REM, K_ASSIGN,
     K_LPAREN, K_RPAREN, K_LBRACE, K_RBRACE, K_LBRACK, K_RBRACK, K_COMMA, K_DOT, K_DOTDOT, K_COLON, K_SEMICOL,
     K_ARROW, K_FATARROW}"

lemma punct_one:
  assumes "facing l (c # xs)" "unat c < 128" "ends_token xs"
  shows "peek l = unat c" "peek (advance l) = 0 \<or> peek (advance l) = 32" "facing (advance l) xs"
  using facing_byte [OF assms(1,2)] ends_peek [OF _ assms(3)] by auto

lemma mark_one:
  assumes "facing l (c # xs)" "ends_token xs" "kind_string k = [c]" "mark k"
  shows "\<exists>l'. lexPunct u l start = (token_at k (kind_string k) start, l') \<and> facing l' xs \<and> quiet l l'"
  using assms(3,4)
  unfolding mark_def
  by (elim insertE emptyE; simp add: lit_def)
   (use assms(1) punct_one [OF assms(1) _ assms(2)] in \<open>auto simp: lexPunct_def Let_def lit_def\<close>)

lemma mark_two:
  assumes "facing l (c # d # xs)" "kind_string k = [c, d]" "mark k"
  shows "\<exists>l'. lexPunct u l start = (token_at k (kind_string k) start, l') \<and> facing l' xs \<and> quiet l l'"
  using assms(2,3)
  unfolding mark_def
  by (elim insertE emptyE; simp add: lit_def)
   (use assms(1) facing_two [OF assms(1)] in \<open>auto simp: lexPunct_def Let_def lit_def\<close>)

text \<open>No mark begins a word, a number or a string.\<close>

lemma mark_start:
  assumes "mark k" "kind_string k = c # w"
  shows "unat c < 128" "w = [] \<or> (\<exists>d. w = [d] \<and> unat d < 128)" "\<not> IsSpace (unat c)" "unat c \<noteq> 35"
    "\<not> IsLetter u (unat c)" "\<not> IsDigit u (unat c)" "unat c \<notin> {95, 34, 102}" "unat c = 125 \<longrightarrow> k = K_RBRACE"
  using assms unfolding mark_def
  by (elim insertE emptyE; force simp: lit_def IsSpace_def IsLetter_def IsDigit_def)+

lemma read_mark:
  assumes "facing l (kind_string k @ xs)" "in_mode b l" "mark k" "ends_token xs" "k = K_RBRACE \<longrightarrow> \<not> b"
  shows "reads_tok u l (k, kind_string k) xs b"
proof -
  obtain c w where cw: "kind_string k = c # w"
    using assms(3) by (cases "kind_string k") (auto simp: mark_def lit_def)
  note st = mark_start [OF assms(3) cw]
  have f: "facing l (c # (w @ xs))" using assms(1) cw by simp
  note p = facing_byte [OF f st(1)]
  have "scan_at u l = lexPunct u l (curPos l)"
    using p st assms(2,5) by (auto simp: scan_at_def Let_def in_mode_def)
  moreover have "\<exists>l'. lexPunct u l (curPos l) = (token_at k (kind_string k) (curPos l), l')
      \<and> facing l' xs \<and> quiet l l'"
    using st(2)
  proof
    assume "w = []"
    then show ?thesis using mark_one [of l c xs k u "curPos l"] assms f cw by simp
  next
    assume "\<exists>d. w = [d] \<and> unat d < 128"
    then show ?thesis using mark_two [of l c _ xs k u "curPos l"] assms f cw by auto
  qed
  ultimately show ?thesis using reads_quiet [OF _ assms(2), where p = "curPos l"] by metis
qed

lemma read_number:
  assumes "facing l (s @ xs)" "in_mode b l" "ends_token xs" "digit_bytes s \<or> float_text s"
  shows "reads_tok u l (if digit_bytes s then K_INT else K_FLOAT, s) xs b"
proof -
  have h: "\<exists>c s'. s = c # s' \<and> 48 \<le> unat c \<and> unat c \<le> 57"
    using assms(4)
  proof
    assume "digit_bytes s"
    then show ?thesis by (cases s) (auto simp: digit_bytes_def)
  next
    assume "float_text s"
    then obtain i where i: "digit_bytes (take i s)" by (auto simp: float_text_def)
    then show ?thesis by (cases s; cases i) (auto simp: digit_bytes_def)
  qed
  then obtain c s' where c: "s = c # s'" "48 \<le> unat c" "unat c \<le> 57" by blast
  have f: "facing l (c # (s' @ xs))" using assms(1) c by simp
  have "\<not> atEOF l" "peek l = unat c" using facing_byte [OF f] c by simp_all
  then have scan: "scan_at u l = lexNumber u l (curPos l)"
    using c by (auto simp: scan_at_def Let_def IsLetter_def IsDigit_def)
  have "\<exists>l'. lexNumber u l (curPos l) = (token_at (if digit_bytes s then K_INT else K_FLOAT) s (curPos l), l')
      \<and> facing l' xs \<and> quiet l l'"
  proof (cases "digit_bytes s")
    case True
    then show ?thesis using number_scan [OF assms(1) True assms(3)] by simp
  next
    case False
    then obtain i where i: "digit_bytes (take i s)" "i < length s" "s ! i = 46" "digit_bytes (drop (Suc i) s)"
      using assms(4) by (auto simp: float_text_def)
    then have e: "s = take i s @ 46 # drop (Suc i) s" by (metis id_take_nth_drop)
    have "facing l (take i s @ 46 # drop (Suc i) s @ xs)"
      using assms(1) e by (metis append.assoc append_Cons)
    from float_scan [OF this i(1,4) assms(3)] show ?thesis using e False by simp
  qed
  with scan show ?thesis using reads_quiet [OF _ assms(2), where p = "curPos l"] by metis
qed

lemma read_string:
  assumes "facing l (34 # esc_string (runes s) @ 34 # xs)" "in_mode b l" "utf8 s"
  shows "reads_tok u l (K_STRING, s) xs b"
proof -
  note p = facing_byte [OF assms(1)]
  have "scan_at u l = lexString l (curPos l)"
    using p by (auto simp: scan_at_def Let_def IsLetter_def IsDigit_def)
  moreover have "\<exists>l'. lexString l (curPos l) = (token_at K_STRING s (curPos l), l') \<and> facing l' xs \<and> quiet l l'"
    using string_run [of "advance l" "runes s" xs "curPos l" "[]"] p assms(3)
    by (simp add: lexString_def utf8_def)
  ultimately show ?thesis using reads_quiet [OF _ assms(2), where p = "curPos l"] by metis
qed

lemma read_open:
  assumes "facing l (102 # 34 # frag_string (runes s) @ 123 # xs)" "in_mode False l" "utf8 s"
    "xs \<noteq> []" "ends_token xs"
  shows "reads_tok u l (K_FSTRING_OPEN, s) xs True"
proof -
  note p = facing_two [OF assms(1)]
  have "scan_at u l = lexFStringOpen l (curPos l)"
    using p by (auto simp: scan_at_def Let_def)
  moreover define m where "m = (advance (advance l))\<lparr>l_inFString := True, l_fstringQuote := 34\<rparr>"
  ultimately have scan: "scan_at u l = lexFStringLiteralFragment m (curPos l) K_FSTRING_OPEN"
    using p by (simp add: lexFStringOpen_def Let_def)
  have v: "\<forall>r \<in> set (runes s). valid_rune r" "hd xs = 32"
    using assms(3-5) by (simp_all add: utf8_def ends_token_def)
  have "facing m (frag_string (runes s) @ 123 # xs)" "l_fstringQuote m = 34" using p by (simp_all add: m_def)
  from fragment_open_brace [OF this(1) v(1) this(2) assms(4) v(2), of "curPos l" K_FSTRING_OPEN]
  show ?thesis
    using assms(3) by (auto simp: reads_tok_def scan tok_of_def in_mode_def m_def utf8_def)
qed

lemma scan_part:
  assumes "facing l (125 # xs)" "in_mode True l"
  obtains m where "scan_at u l = lexFStringLiteralFragment m (curPos m) K_FSTRING_PART" "facing m xs"
    "l_fstringQuote m = 34" "l_inFString m" "\<not> l_inPlaceholder m" "l_errs m = l_errs l"
proof
  define m where "m = (advance l)\<lparr>l_inPlaceholder := False\<rparr>"
  note p = facing_byte [OF assms(1)]
  show "scan_at u l = lexFStringLiteralFragment m (curPos m) K_FSTRING_PART"
    using p assms(2) by (simp add: scan_at_def in_mode_def lexFStringPart_def m_def)
  show "facing m xs" "l_fstringQuote m = 34" "l_inFString m" "\<not> l_inPlaceholder m" "l_errs m = l_errs l"
    using p assms(2) by (simp_all add: in_mode_def m_def)
qed

lemma read_part:
  assumes "facing l (125 # frag_string (runes s) @ 123 # xs)" "in_mode True l" "utf8 s"
    "xs \<noteq> []" "ends_token xs"
  shows "reads_tok u l (K_FSTRING_PART, s) xs True"
proof -
  obtain m where m: "scan_at u l = lexFStringLiteralFragment m (curPos m) K_FSTRING_PART"
    "facing m (frag_string (runes s) @ 123 # xs)" "l_fstringQuote m = 34" "l_inFString m"
    "\<not> l_inPlaceholder m" "l_errs m = l_errs l"
    using scan_part [OF assms(1,2)] by metis
  have v: "\<forall>r \<in> set (runes s). valid_rune r" "hd xs = 32"
    using assms(3-5) by (simp_all add: utf8_def ends_token_def)
  from fragment_open_brace [OF m(2) v(1) m(3) assms(4) v(2), of "curPos m" K_FSTRING_PART] show ?thesis
    using assms(3) m by (auto simp: reads_tok_def tok_of_def in_mode_def utf8_def)
qed

lemma read_close:
  assumes "facing l (125 # frag_string (runes s) @ 34 # xs)" "in_mode True l" "utf8 s"
  shows "reads_tok u l (K_FSTRING_CLOSE, s) xs False"
proof -
  obtain m where m: "scan_at u l = lexFStringLiteralFragment m (curPos m) K_FSTRING_PART"
    "facing m (frag_string (runes s) @ 34 # xs)" "l_fstringQuote m = 34" "l_inFString m"
    "\<not> l_inPlaceholder m" "l_errs m = l_errs l"
    using scan_part [OF assms(1,2)] by metis
  have v: "\<forall>r \<in> set (runes s). valid_rune r" using assms(3) by (simp add: utf8_def)
  from fragment_close [OF m(2) v m(3), of "curPos m" K_FSTRING_PART] show ?thesis
    using assms(3) m by (auto simp: reads_tok_def tok_of_def in_mode_def utf8_def)
qed

text \<open>An identifier is a word, perhaps with a bang.\<close>

lemma ident_runes:
  assumes "ident_text u s"
  obtains rs where "word_runes u rs" "keyword (string_of_runes rs) = None"
    "s = string_of_runes rs \<or> s = string_of_runes rs @ [33]"
proof (cases "runes s \<noteq> [] \<and> last (runes s) = 33")
  case True
  define base where "base = butlast (runes s)"
  have k: "word_runes u base" "keyword (string_of_runes base) = None" "utf8 s"
    using assms True by (simp_all add: ident_text_def Let_def base_def)
  have "runes s = base @ [33]"
    using True append_butlast_last_id [of "runes s"] unfolding base_def by metis
  then have "s = string_of_runes base @ [33]"
    using k(3) by (simp add: utf8_def string_of_runes_def encode_ascii)
  with k that show ?thesis by blast
next
  case False
  then have "word_runes u (runes s)" "keyword (string_of_runes (runes s)) = None" "string_of_runes (runes s) = s"
    using assms by (auto simp: ident_text_def Let_def utf8_def)
  with that show ?thesis by metis
qed

lemma read_ident:
  assumes "facing l (s @ xs)" "in_mode b l" "ident_text u s" "ends_token xs"
  shows "reads_tok u l (K_IDENT, s) xs b"
proof -
  obtain rs where rs: "word_runes u rs" "keyword (string_of_runes rs) = None"
    "s = string_of_runes rs \<or> s = string_of_runes rs @ [33]" using ident_runes [OF assms(3)] by metis
  from rs(3) show ?thesis
    using read_word [of l rs xs b u] read_bang [of l rs xs b u] assms rs(1,2) by auto
qed

text \<open>Reserved words and marks are written as their names.\<close>

lemma keywordKinds_iff:
  "keywordKinds k \<longleftrightarrow> k \<in> {K_ROUTINE, K_PROC, K_ON, K_IF, K_ELIF, K_ELSE, K_WHILE, K_FOR, K_IN, K_BREAK,
     K_CONTINUE, K_RETURN, K_ABORT, K_REQUIRE, K_WAIT, K_DEFER, K_TRY, K_RECOVER, K_WHEN, K_SELECT, K_TIMEOUT,
     K_BECOMES, K_CHANGES, K_TRUE, K_FALSE, K_NULL, K_BOUNDS, K_EXTENDS, K_RUNTIME, K_REPEAT, K_UNTIL, K_AND, K_OR,
     K_NOT}"
  by (simp only: keywordKinds_def Keywords_def list.set image_insert image_empty prod.sel)

lemma named_kind:
  assumes "keywordKinds k \<or> mark k"
  shows "wf_tok u (k, s) \<longleftrightarrow> s = kind_string k" "tok_text (k, s) = s" "after_tok b (k, s) = b" "\<not> opens (k, s)"
    "allowed b (k, s) \<longleftrightarrow> (k = K_RBRACE \<longrightarrow> \<not> b)"
proof -
  have "k \<notin> {K_ILLEGAL, K_EOF, K_NEWLINE, K_IDENT, K_INT, K_FLOAT, K_STRING, K_FSTRING_OPEN, K_FSTRING_PART,
      K_FSTRING_CLOSE}"
  proof
    assume "k \<in> {K_ILLEGAL, K_EOF, K_NEWLINE, K_IDENT, K_INT, K_FLOAT, K_STRING, K_FSTRING_OPEN, K_FSTRING_PART,
      K_FSTRING_CLOSE}"
    then have "\<not> keywordKinds k \<and> \<not> mark k"
      by (elim insertE emptyE) (simp_all add: keywordKinds_iff mark_def)
    with assms show False by simp
  qed
  then show "wf_tok u (k, s) \<longleftrightarrow> s = kind_string k" "tok_text (k, s) = s" "after_tok b (k, s) = b" "\<not> opens (k, s)"
    "allowed b (k, s) \<longleftrightarrow> (k = K_RBRACE \<longrightarrow> \<not> b)"
    by (simp_all add: wf_tok_def tok_text_def after_tok_def opens_def allowed_def)
qed

lemma kind_cases:
  obtains "keywordKinds k \<or> mark k" | "k = K_IDENT" | "k = K_INT" | "k = K_FLOAT" | "k = K_STRING"
    | "k = K_FSTRING_OPEN" | "k = K_FSTRING_PART" | "k = K_FSTRING_CLOSE" | "k \<in> {K_ILLEGAL, K_EOF, K_NEWLINE}"
  by (cases k) (simp_all add: keywordKinds_iff mark_def)

section \<open>Reading a token list\<close>

lemma float_not_digits: "float_text s \<Longrightarrow> \<not> digit_bytes s"
proof
  assume "float_text s" and d: "digit_bytes s"
  then obtain i where "i < length s" "s ! i = 46" by (auto simp: float_text_def)
  then have "46 \<in> set s" by (metis nth_mem)
  with d show False by (force simp: digit_bytes_def)
qed

lemma read_tok:
  assumes "facing l (tok_text t @ xs)" "in_mode b l" "wf_tok u t" "allowed b t" "ends_token xs"
    "opens t \<longrightarrow> xs \<noteq> []"
  shows "reads_tok u l t xs (after_tok b t)"
proof -
  obtain k s where t: "t = (k, s)" by (cases t) auto
  show ?thesis
  proof (cases k rule: kind_cases)
    case 1
    note n = named_kind [OF 1]
    then have f: "facing l (kind_string k @ xs)" "s = kind_string k" "k = K_RBRACE \<longrightarrow> \<not> b"
      using assms(1,3,4) t by simp_all
    from 1 show ?thesis
      using read_keyword [of l k xs b u] read_mark [of l k xs b u] f assms(2,5) t n(3) by auto
  next
    case 2
    then show ?thesis using read_ident [of l s xs b u] assms t by (simp add: wf_tok_def tok_text_def after_tok_def)
  next
    case 3
    then show ?thesis using read_number [of l s xs b u] assms t by (simp add: wf_tok_def tok_text_def after_tok_def)
  next
    case 4
    then show ?thesis
      using read_number [of l s xs b u] float_not_digits [of s] assms t by (simp add: wf_tok_def tok_text_def after_tok_def)
  next
    case 5
    then show ?thesis using read_string [of l s xs b u] assms t by (simp add: wf_tok_def tok_text_def after_tok_def)
  next
    case 6
    then show ?thesis
      using read_open [of l s xs u] assms t by (simp add: wf_tok_def tok_text_def after_tok_def allowed_def opens_def)
  next
    case 7
    then show ?thesis
      using read_part [of l s xs u] assms t by (simp add: wf_tok_def tok_text_def after_tok_def allowed_def opens_def)
  next
    case 8
    then show ?thesis using read_close [of l s xs u] assms t by (simp add: wf_tok_def tok_text_def after_tok_def allowed_def)
  next
    case 9
    then show ?thesis using assms(3) t by (auto simp: wf_tok_def)
  qed
qed

text \<open>The first rune of a token is neither a space nor a comment sign.\<close>

lemma tok_text_start:
  assumes "wf_tok u t"
  shows "tok_text t \<noteq> [] \<and> \<not> IsSpace (fst (decode_rune (tok_text t @ xs)))
      \<and> fst (decode_rune (tok_text t @ xs)) \<noteq> 35"
proof -
  obtain k s where t: "t = (k, s)" by (cases t) auto
  have byte: ?thesis
    if "tok_text t = c # w" "unat c < 128" "\<not> IsSpace (unat c)" "unat c \<noteq> 35" for c w
    using that by simp
  show ?thesis
  proof (cases k rule: kind_cases)
    case 1
    note n = named_kind [OF 1]
    have e: "tok_text t = kind_string k" using n(1,2) assms t by simp
    from 1 show ?thesis
    proof
      assume "keywordKinds k"
      from keyword_facts [OF this] e obtain c w where "tok_text t = c # w" "97 \<le> unat c" "unat c \<le> 122"
        by (cases "kind_string k") auto
      then show ?thesis by (intro byte) (auto simp: IsSpace_def)
    next
      assume m: "mark k"
      then obtain c w where c: "kind_string k = c # w" by (cases "kind_string k") (auto simp: mark_def lit_def)
      then show ?thesis using mark_start [OF m c] e by (intro byte) auto
    qed
  next
    case 2
    then obtain rs where rs: "word_runes u rs" "s = string_of_runes rs \<or> s = string_of_runes rs @ [33]"
      using assms t ident_runes [of u s] by (auto simp: wf_tok_def)
    have v: "rs \<noteq> []" "\<forall>r \<in> set rs. valid_rune r" "\<not> IsSpace (hd rs)" "IsLetter u (hd rs) \<or> hd rs = 95"
      using rs(1) by (simp_all add: word_runes_def)
    have "fst (decode_rune (s @ xs)) = hd rs" using rs(2) first_rune [OF v(2,1)] by auto
    moreover have "s \<noteq> []" using rs(2) v(1) by (auto simp: string_of_runes_hd)
    ultimately show ?thesis using t 2 v by (auto simp: tok_text_def IsLetter_def)
  next
    case 3
    then obtain c w where "s = c # w" "48 \<le> unat c" "unat c \<le> 57"
      using assms t by (cases s) (auto simp: wf_tok_def digit_bytes_def)
    then show ?thesis using t 3 by (intro byte [of c w]) (simp_all add: tok_text_def IsSpace_def)
  next
    case 4
    then obtain i where "digit_bytes (take i s)" using assms t by (auto simp: wf_tok_def float_text_def)
    then obtain c w where "s = c # w" "48 \<le> unat c" "unat c \<le> 57"
      by (cases s; cases i) (auto simp: digit_bytes_def)
    then show ?thesis using t 4 by (intro byte [of c w]) (simp_all add: tok_text_def IsSpace_def)
  qed (use assms t in \<open>auto simp: wf_tok_def tok_text_def IsSpace_def\<close>)
qed

lemma reads_Next:
  assumes "facing l (32 # tok_text t @ xs)" "in_mode b l" "wf_tok u t" "allowed b t" "ends_token xs"
    "opens t \<longrightarrow> xs \<noteq> []"
  shows "\<exists>t' l'. Next u l = (t', l') \<and> tok_of t' = t \<and> facing l' xs \<and> in_mode (after_tok b t) l'
     \<and> l_errs l' = l_errs l \<and> l_offset l' \<noteq> l_offset l"
proof -
  note st = tok_text_start [OF assms(3), of xs]
  have f: "facing (skip_gap l) (tok_text t @ xs)" using skip_one_space [OF assms(1)] st by simp
  have m: "in_mode b (skip_gap l)" using assms(2) by (simp add: in_mode_def)
  from read_tok [OF f m assms(3-6)] obtain t' l' where
    r: "scan_at u (skip_gap l) = (t', l')" "tok_of t' = t" "facing l' xs" "in_mode (after_tok b t) l'"
      "l_errs l' = l_errs l" by (auto simp: reads_tok_def)
  have n: "next_token u l = (t', l')" using r(1) assms(2) by (auto simp: next_token_def in_mode_def)
  have "t_kind t' \<noteq> K_EOF" using r(2) assms(3) by (auto simp: tok_of_def wf_tok_def)
  then have "l_offset l' \<noteq> l_offset l"
    using next_token_strict [of l u] n assms(2) by (auto simp: in_mode_def)
  then show ?thesis using n r by (auto simp: Next_def tok_of_def in_mode_def)
qed

lemma Next_eof:
  assumes "facing l []" "in_mode b l"
  shows "\<exists>t' l'. Next u l = (t', l') \<and> t_kind t' = K_EOF \<and> t_lexeme t' = [] \<and> l_errs l' = l_errs l"
proof -
  have "skipWhitespaceAndComments (l\<lparr>l_sawGap := False\<rparr>) = l\<lparr>l_sawGap := False\<rparr>"
    using facing_Nil [OF assms(1)] by (subst skipWhitespaceAndComments.simps) (simp add: atEOF_def)
  then have "facing (skip_gap l) []" using assms(1) by (simp add: skip_gap_def Let_def)
  from facing_Nil [OF this] show ?thesis
    using assms(2) by (auto simp: Next_def next_token_def in_mode_def scan_at_def peek_def)
qed

lemma render_ends: "ends_token (render ts)" "ts \<noteq> [] \<Longrightarrow> render ts \<noteq> []"
  by (cases ts; simp add: render_def ends_token_def)+

lemma lex_render_from:
  assumes "facing l (render ts)" "in_mode b l" "\<forall>t \<in> set ts. wf_tok u t" "moded b ts"
  shows "map tok_of (fst (lex_all u l)) = ts @ [(K_EOF, [])] \<and> l_errs (snd (lex_all u l)) = l_errs l"
  using assms
proof (induction ts arbitrary: l b)
  case Nil
  then have "facing l []" by (simp add: render_def)
  from Next_eof [OF this Nil.prems(2), of u] show ?case
    by (subst (1 2) lex_all.simps) (auto simp: tok_of_def)
next
  case (Cons t ts)
  have "facing l (32 # tok_text t @ render ts)" using Cons.prems(1) by (simp add: render_def)
  from reads_Next [OF this Cons.prems(2), of u] Cons.prems(3,4) render_ends obtain t' l' where
    r: "Next u l = (t', l')" "tok_of t' = t" "facing l' (render ts)" "in_mode (after_tok b t) l'"
      "l_errs l' = l_errs l" "l_offset l' \<noteq> l_offset l" by (metis list.set_intros(1) moded.simps(2))
  have "wf_tok u t" using Cons.prems(3) by simp
  then have "t_kind t' \<noteq> K_EOF" using r(2) by (auto simp: tok_of_def wf_tok_def)
  then show ?case
    using r Cons.IH [OF r(3,4)] Cons.prems(3,4) lex_all.simps [of u l]
    by (simp add: split_beta)
qed

text \<open>
  Lexing the rendering of a well-formed token list gives the token list back, with EOF after it and an
  empty error log.
\<close>

lemma lex_render:
  assumes "\<forall>t \<in> set ts. wf_tok u t" "moded False ts"
  shows "map tok_of (fst (lex_all u (New (render ts)))) = ts @ [(K_EOF, [])]
     \<and> l_errs (snd (lex_all u (New (render ts)))) = []"
  using lex_render_from [of "New (render ts)" ts False u] assms
  by (simp add: New_def facing_def in_mode_def)

end
