(* ===== verification/DslAst.thy ===== *)
theory DslAst
  imports DslToken
begin

text \<open>
  The syntax tree of the routine language (dsl/ast/ast.go). One constructor per node type; positions,
  which only diagnostics read, are left out. A nil \<open>ast.Expr\<close> is \<open>NilExpr\<close>: the parser returns it after an
  error, and optional expressions (a missing default, a bare \<open>return\<close>, a missing timeout) are nil too. A
  nil \<open>*ast.ExprStmt\<close> that sits in a non-nil \<open>ast.Stmt\<close> is \<open>NilExprStmt\<close>. A block is its list of
  statements. A float literal is the bits of its \<open>float64\<close>.
\<close>

datatype expr =
    NilExpr
  | IntLit int
  | FloatLit u64
  | StringLit gostring
  | FStringLit "expr list"
  | BoolLit bool
  | NullLit
  | RangeLit expr expr
  | ListLit "expr list"
  | Ident gostring
  | BinaryExpr kind expr expr
  | UnaryExpr kind expr
  | CallExpr expr "arg list"
  | MemberExpr expr gostring
  | LambdaExpr gostring expr
  | IndexExpr expr expr
and arg = Arg gostring expr

text \<open>\<open>Arg.Name\<close> is empty for a positional argument.\<close>

datatype WhenQualifier = WhenBecomesTrue | WhenBecomesFalse | WhenChanges

datatype stmt =
    NilExprStmt
  | Block "stmt list"
  | AssignStmt gostring expr
  | ExprStmt expr
  | IfStmt expr "stmt list" "elif list" "stmt list option"
  | WhileStmt expr "stmt list"
  | ForStmt gostring expr "stmt list"
  | RepeatUntilStmt "stmt list" expr expr
  | BreakStmt
  | ContinueStmt
  | ReturnStmt expr
  | AbortStmt expr
  | WaitStmt expr
  | DeferStmt expr
  | TryStmt "stmt list" gostring "stmt list"
  | WhenStmt expr WhenQualifier "stmt list"
  | SelectStmt "SelectCase list"
  | RequireBlock "expr list"
and elif = ElifClause expr "stmt list"
and SelectCase =
    SelectWhenCase expr WhenQualifier "stmt list option"
  | SelectOnCase gostring "gostring list" "stmt list"
  | SelectTimeoutCase int "stmt list"

text \<open>A parameter: its name and default (\<open>NilExpr\<close> for none).\<close>

datatype Param = Param gostring expr

datatype OnHandler = OnHandler gostring "Param list" "stmt list"

datatype ProcDecl = ProcDecl gostring "Param list" "stmt list"

text \<open>
  \<open>RoutineDecl\<close> as the parser makes it: \<open>Require\<close> and \<open>Handlers\<close> are nil until the validator moves them out
  of the body.
\<close>

datatype RoutineDecl = RoutineDecl gostring "Param list" "stmt list"

datatype BoundsDecl = BoundsDecl expr "OnHandler list" "ProcDecl list" "BoundsDecl list"

record routine_file =
  f_Handlers :: "OnHandler list"
  f_Procs :: "ProcDecl list"
  f_Bounds :: "BoundsDecl list"
  f_Extends :: "gostring list"
  f_Runtime :: gostring
  f_Routine :: "RoutineDecl option"

definition empty_file :: routine_file where
  "empty_file = \<lparr>f_Handlers = [], f_Procs = [], f_Bounds = [], f_Extends = [], f_Runtime = [], f_Routine = None\<rparr>"

section \<open>Complete trees\<close>

text \<open>
  A complete tree has no nil where the evaluator reads a node, and only the operators the grammar gives
  to binary and unary expressions.
\<close>

definition binary_op :: "kind \<Rightarrow> bool" where
  "binary_op k \<longleftrightarrow> k \<in> {K_OR, K_AND, K_EQ, K_NEQ, K_LT, K_LTE, K_GT, K_GTE, K_ADD, K_SUB, K_MUL, K_QUO, K_REM}"

definition unary_op :: "kind \<Rightarrow> bool" where
  "unary_op k \<longleftrightarrow> k \<in> {K_NOT, K_SUB, K_ADD}"

fun complete :: "expr \<Rightarrow> bool" and complete_arg :: "arg \<Rightarrow> bool" where
  "complete NilExpr = False"
| "complete (IntLit v) = (- (2 ^ 63) \<le> v \<and> v < 2 ^ 63)"
| "complete (FloatLit v) = True"
| "complete (StringLit s) = True"
| "complete (FStringLit ps) = list_all complete ps"
| "complete (BoolLit b) = True"
| "complete NullLit = True"
| "complete (RangeLit a b) = (complete a \<and> complete b)"
| "complete (ListLit es) = list_all complete es"
| "complete (Ident n) = True"
| "complete (BinaryExpr k a b) = (binary_op k \<and> complete a \<and> complete b)"
| "complete (UnaryExpr k a) = (unary_op k \<and> complete a)"
| "complete (CallExpr f as) = (complete f \<and> list_all complete_arg as)"
| "complete (MemberExpr r f) = complete r"
| "complete (LambdaExpr p b) = complete b"
| "complete (IndexExpr r i) = (complete r \<and> complete i)"
| "complete_arg (Arg n e) = complete e"

abbreviation optional :: "expr \<Rightarrow> bool" where
  "optional e \<equiv> e = NilExpr \<or> complete e"

fun complete_stmt :: "stmt \<Rightarrow> bool"
  and complete_elif :: "elif \<Rightarrow> bool"
  and complete_case :: "SelectCase \<Rightarrow> bool" where
  "complete_stmt NilExprStmt = False"
| "complete_stmt (Block b) = list_all complete_stmt b"
| "complete_stmt (AssignStmt x e) = complete e"
| "complete_stmt (ExprStmt e) = complete e"
| "complete_stmt (IfStmt c b es el) = (complete c \<and> list_all complete_stmt b
     \<and> list_all complete_elif es \<and> (case el of None \<Rightarrow> True | Some b' \<Rightarrow> list_all complete_stmt b'))"
| "complete_stmt (WhileStmt c b) = (complete c \<and> list_all complete_stmt b)"
| "complete_stmt (ForStmt x e b) = (complete e \<and> list_all complete_stmt b)"
| "complete_stmt (RepeatUntilStmt b c t) = (list_all complete_stmt b \<and> complete c \<and> optional t)"
| "complete_stmt BreakStmt = True"
| "complete_stmt ContinueStmt = True"
| "complete_stmt (ReturnStmt e) = optional e"
| "complete_stmt (AbortStmt e) = complete e"
| "complete_stmt (WaitStmt e) = complete e"
| "complete_stmt (DeferStmt e) = complete e"
| "complete_stmt (TryStmt b x r) = (list_all complete_stmt b \<and> list_all complete_stmt r)"
| "complete_stmt (WhenStmt e q b) = (complete e \<and> list_all complete_stmt b)"
| "complete_stmt (SelectStmt cs) = list_all complete_case cs"
| "complete_stmt (RequireBlock es) = list_all complete es"
| "complete_elif (ElifClause c b) = (complete c \<and> list_all complete_stmt b)"
| "complete_case (SelectWhenCase e q ob) =
     (complete e \<and> (case ob of None \<Rightarrow> False | Some b \<Rightarrow> list_all complete_stmt b))"
| "complete_case (SelectOnCase n ps b) = list_all complete_stmt b"
| "complete_case (SelectTimeoutCase ms b) = list_all complete_stmt b"

fun complete_param :: "Param \<Rightarrow> bool" where
  "complete_param (Param n e) = optional e"

definition complete_decl :: "Param list \<Rightarrow> stmt list \<Rightarrow> bool" where
  "complete_decl ps b \<longleftrightarrow> list_all complete_param ps \<and> list_all complete_stmt b"

fun complete_handler :: "OnHandler \<Rightarrow> bool" where
  "complete_handler (OnHandler n ps b) = complete_decl ps b"

fun complete_proc :: "ProcDecl \<Rightarrow> bool" where
  "complete_proc (ProcDecl n ps b) = complete_decl ps b"

fun complete_routine :: "RoutineDecl \<Rightarrow> bool" where
  "complete_routine (RoutineDecl n ps b) = complete_decl ps b"

fun complete_bounds :: "BoundsDecl \<Rightarrow> bool" where
  "complete_bounds (BoundsDecl e hs ps bs) =
     (complete e \<and> list_all complete_handler hs \<and> list_all complete_proc ps
      \<and> list_all complete_bounds bs)"

definition complete_file :: "routine_file \<Rightarrow> bool" where
  "complete_file f \<longleftrightarrow> list_all complete_handler (f_Handlers f) \<and> list_all complete_proc (f_Procs f)
     \<and> list_all complete_bounds (f_Bounds f)
     \<and> (case f_Routine f of None \<Rightarrow> True | Some r \<Rightarrow> complete_routine r)"

end
