(* ===== verification/DslParser.thy ===== *)
theory DslParser
  imports DslAst "HOL-Library.Monad_Syntax"
begin

text \<open>
  The parser of the routine language (dsl/parser/parser.go). The state of a parser is the tokens from
  \<open>pos\<close> on (kinds and lexemes; positions only reach diagnostics) and the errors collected so far.
  Reading past the end gives EOF, as \<open>peek\<close> does. Each \<open>parseX\<close> is a definition over the function that
  stands for the recursive entry (\<open>parseExpr\<close>, \<open>parseStmt\<close>, \<open>parseBounds\<close>); loops are \<open>partial_function\<close>s,
  so \<open>None\<close> is a parser that does not return. The knots are tied with a bound on the nesting, which
  \<open>DslParseProps\<close> shows is never reached: a token is consumed on the way to every nested call.

  \<open>strconv.ParseFloat\<close> is the parameter \<open>pf\<close>: the bits of the \<open>float64\<close>, or \<open>None\<close> on an error.
\<close>

text \<open>A diagnostic: its format string and the kinds and lexemes printed in it.\<close>

datatype perr = PErr string "kind list" | PErrLit string gostring

type_synonym parser = "tok list \<times> perr list"

type_synonym 'a parse = "parser \<Rightarrow> ('a \<times> parser) option"

section \<open>Token plumbing\<close>

fun p_peek :: "parser \<Rightarrow> tok" where
  "p_peek ([], es) = (K_EOF, [])"
| "p_peek (t # ts, es) = t"

definition pk :: "parser \<Rightarrow> kind" where
  "pk s = fst (p_peek s)"

fun pk1 :: "parser \<Rightarrow> kind" where
  "pk1 (t # t' # ts, es) = fst t'"
| "pk1 (ts, es) = K_EOF"

definition p_advance :: "parser \<Rightarrow> parser" where
  "p_advance s = (tl (fst s), snd s)"

definition p_errorf :: "perr \<Rightarrow> parser \<Rightarrow> parser" where
  "p_errorf e s = (fst s, snd s @ [e])"

definition p_consume :: "kind \<Rightarrow> parser \<Rightarrow> bool \<times> parser" where
  "p_consume k s = (if pk s = k then (True, p_advance s) else (False, s))"

definition p_expect :: "kind \<Rightarrow> parser \<Rightarrow> tok \<times> parser" where
  "p_expect k s =
     (if pk s \<noteq> k then (p_peek s, p_errorf (PErr ''expected %s, got %s'' [k, pk s]) s)
      else (p_peek s, p_advance s))"

text \<open>\<open>for p.peek().Kind is none of ks { p.advance() }\<close>; EOF is always among \<open>ks\<close>.\<close>

definition p_skip :: "kind set \<Rightarrow> parser \<Rightarrow> parser" where
  "p_skip ks s = (dropWhile (\<lambda>t. fst t \<notin> ks) (fst s), snd s)"

text \<open>\<open>for p.consume(token.SEMICOL) {}\<close>.\<close>

definition p_semis :: "parser \<Rightarrow> parser" where
  "p_semis s = (dropWhile (\<lambda>t. fst t = K_SEMICOL) (fst s), snd s)"

section \<open>strconv.ParseInt, base 10, 64 bits\<close>

definition decimal :: "gostring \<Rightarrow> int" where
  "decimal ds = foldl (\<lambda>a b. a * 10 + (int (unat b) - 48)) 0 ds"

definition is_digit :: "byte \<Rightarrow> bool" where
  "is_digit b \<longleftrightarrow> 48 \<le> unat b \<and> unat b \<le> 57"

definition ParseInt :: "gostring \<Rightarrow> int option" where
  "ParseInt s =
     (let (neg, ds) = (case s of [] \<Rightarrow> (False, [])
                       | c # cs \<Rightarrow> if c = 43 then (False, cs) else if c = 45 then (True, cs) else (False, s)) in
      if ds = [] \<or> (\<exists>b \<in> set ds. \<not> is_digit b) then None
      else let v = (if neg then - decimal ds else decimal ds) in
        if - (2 ^ 63) \<le> v \<and> v < 2 ^ 63 then Some v else None)"

text \<open>\<open>int64\<close> arithmetic.\<close>

definition int64 :: "int \<Rightarrow> int" where
  "int64 v = (v + 2 ^ 63) mod 2 ^ 64 - 2 ^ 63"

section \<open>Expressions\<close>

text \<open>
  The loop of the five binary levels: while the next kind is one of \<open>ops\<close>, read a right operand with
  \<open>sub\<close> and fold it onto the left.
\<close>

partial_function (option) binary_loop ::
  "(kind \<Rightarrow> bool) \<Rightarrow> expr parse \<Rightarrow> expr \<Rightarrow> parser \<Rightarrow> (expr \<times> parser) option" where
  "binary_loop ops sub left s =
     (if ops (pk s) then
        do { (right, s') \<leftarrow> sub (p_advance s);
             binary_loop ops sub (BinaryExpr (pk s) left right) s' }
      else Some (left, s))"

definition parseArg :: "expr parse \<Rightarrow> arg parse" where
  "parseArg pe s =
     (if pk s = K_IDENT \<and> pk1 s = K_ASSIGN
      then do { (v, s') \<leftarrow> pe (p_advance (p_advance s)); Some (Arg (snd (p_peek s)) v, s') }
      else do { (v, s') \<leftarrow> pe s; Some (Arg [] v, s') })"

partial_function (option) args_loop :: "expr parse \<Rightarrow> arg list \<Rightarrow> parser \<Rightarrow> (arg list \<times> parser) option" where
  "args_loop pe args s =
     do { (a, s1) \<leftarrow> parseArg pe s;
          let (more, s2) = p_consume K_COMMA s1 in
          if more then args_loop pe (args @ [a]) s2 else Some (args @ [a], s2) }"

definition parseArgList :: "expr parse \<Rightarrow> arg list parse" where
  "parseArgList pe s = (if pk s = K_RPAREN then Some ([], s) else args_loop pe [] s)"

definition parseCallTail :: "expr parse \<Rightarrow> expr \<Rightarrow> expr parse" where
  "parseCallTail pe callee s =
     do { let s = snd (p_expect K_LPAREN s);
          (args, s) \<leftarrow> parseArgList pe s;
          Some (CallExpr callee args, snd (p_expect K_RPAREN s)) }"

definition parseMemberTail :: "expr \<Rightarrow> expr parse" where
  "parseMemberTail recv s =
     (let s = snd (p_expect K_DOT s);
          (ident, s) = p_expect K_IDENT s in
      Some (MemberExpr recv (snd ident), s))"

definition parseIndexTail :: "expr parse \<Rightarrow> expr \<Rightarrow> expr parse" where
  "parseIndexTail pe recv s =
     do { let s = snd (p_expect K_LBRACK s);
          (idx, s) \<leftarrow> pe s;
          Some (IndexExpr recv idx, snd (p_expect K_RBRACK s)) }"

partial_function (option) elems_loop :: "expr parse \<Rightarrow> expr list \<Rightarrow> parser \<Rightarrow> (expr list \<times> parser) option" where
  "elems_loop pe es s =
     do { (e, s1) \<leftarrow> pe s;
          let (more, s2) = p_consume K_COMMA s1 in
          if more then elems_loop pe (es @ [e]) s2 else Some (es @ [e], s2) }"

definition parseListLit :: "expr parse \<Rightarrow> expr parse" where
  "parseListLit pe s =
     do { let s = snd (p_expect K_LBRACK s);
          (es, s) \<leftarrow> (if pk s \<noteq> K_RBRACK then elems_loop pe [] s else Some ([], s));
          Some (ListLit es, snd (p_expect K_RBRACK s)) }"

definition add_fragment :: "expr list \<Rightarrow> gostring \<Rightarrow> expr list" where
  "add_fragment parts s = (if s \<noteq> [] then parts @ [StringLit s] else parts)"

definition fstring_stops :: "kind set" where
  "fstring_stops = {K_FSTRING_PART, K_FSTRING_CLOSE, K_EOF}"

text \<open>The body of one placeholder: empty, one expression, or an expression and a resync.\<close>

definition parse_placeholder :: "expr parse \<Rightarrow> expr list \<Rightarrow> expr list parse" where
  "parse_placeholder pe parts s =
     (if pk s \<noteq> K_FSTRING_PART \<and> pk s \<noteq> K_FSTRING_CLOSE then
        do { (e, s) \<leftarrow> pe s;
             let parts = (if e \<noteq> NilExpr then parts @ [e] else parts);
             if pk s \<notin> fstring_stops then
               Some (parts, p_skip fstring_stops
                 (p_errorf (PErr ''f-string placeholder holds ONE expression: got %s'' [pk s]) s))
             else Some (parts, s) }
      else Some (parts, s))"

partial_function (option) fstring_loop :: "expr parse \<Rightarrow> expr list \<Rightarrow> parser \<Rightarrow> (expr \<times> parser) option" where
  "fstring_loop pe parts s =
     do { (parts, s) \<leftarrow> parse_placeholder pe parts s;
          let t = p_peek s in
          if fst t = K_FSTRING_PART then fstring_loop pe (add_fragment parts (snd t)) (p_advance s)
          else if fst t = K_FSTRING_CLOSE then
            Some (FStringLit (add_fragment parts (snd t)), p_advance s)
          else Some (FStringLit parts, p_errorf (PErr ''unterminated f-string (got %s)'' [fst t]) s) }"

definition parseFString :: "expr parse \<Rightarrow> expr parse" where
  "parseFString pe s = fstring_loop pe (add_fragment [] (snd (p_peek s))) (p_advance s)"

definition parsePrimary :: "(gostring \<Rightarrow> u64 option) \<Rightarrow> expr parse \<Rightarrow> expr parse" where
  "parsePrimary pf pe s =
     (let t = p_peek s; k = fst t; s1 = p_advance s in
      if k = K_INT then
        (case ParseInt (snd t) of
           Some v \<Rightarrow> Some (IntLit v, s1)
         | None \<Rightarrow> Some (IntLit 0, p_errorf (PErrLit ''invalid integer literal %q'' (snd t)) s1))
      else if k = K_FLOAT then
        (case pf (snd t) of
           Some v \<Rightarrow> Some (FloatLit v, s1)
         | None \<Rightarrow> Some (FloatLit 0, p_errorf (PErrLit ''invalid float literal %q'' (snd t)) s1))
      else if k = K_STRING then Some (StringLit (snd t), s1)
      else if k = K_FSTRING_OPEN then parseFString pe s
      else if k = K_TRUE then Some (BoolLit True, s1)
      else if k = K_FALSE then Some (BoolLit False, s1)
      else if k = K_NULL then Some (NullLit, s1)
      else if k = K_IDENT then Some (Ident (snd t), s1)
      else if k = K_LPAREN then do { (inner, s) \<leftarrow> pe s1; Some (inner, snd (p_expect K_RPAREN s)) }
      else if k = K_LBRACK then parseListLit pe s
      else Some (NilExpr, p_advance (p_errorf (PErr ''expected expression, got %s'' [k]) s)))"

partial_function (option) postfix_loop :: "expr parse \<Rightarrow> expr \<Rightarrow> parser \<Rightarrow> (expr \<times> parser) option" where
  "postfix_loop pe x s =
     (if pk s = K_LPAREN then do { (x, s) \<leftarrow> parseCallTail pe x s; postfix_loop pe x s }
      else if pk s = K_DOT then do { (x, s) \<leftarrow> parseMemberTail x s; postfix_loop pe x s }
      else if pk s = K_LBRACK then do { (x, s) \<leftarrow> parseIndexTail pe x s; postfix_loop pe x s }
      else Some (x, s))"

definition parsePostfix :: "(gostring \<Rightarrow> u64 option) \<Rightarrow> expr parse \<Rightarrow> expr parse" where
  "parsePostfix pf pe s = do { (x, s) \<leftarrow> parsePrimary pf pe s; postfix_loop pe x s }"

definition parseRange :: "(gostring \<Rightarrow> u64 option) \<Rightarrow> expr parse \<Rightarrow> expr parse" where
  "parseRange pf pe s =
     do { (left, s) \<leftarrow> parsePostfix pf pe s;
          if pk s = K_DOTDOT then
            do { (right, s) \<leftarrow> parsePostfix pf pe (p_advance s); Some (RangeLit left right, s) }
          else Some (left, s) }"

partial_function (option) parseUnary ::
  "(gostring \<Rightarrow> u64 option) \<Rightarrow> expr parse \<Rightarrow> parser \<Rightarrow> (expr \<times> parser) option" where
  "parseUnary pf pe s =
     (if pk s = K_SUB \<or> pk s = K_ADD then
        do { (rhs, s') \<leftarrow> parseUnary pf pe (p_advance s); Some (UnaryExpr (pk s) rhs, s') }
      else parseRange pf pe s)"

definition mul_op :: "kind \<Rightarrow> bool" where
  "mul_op k \<longleftrightarrow> k = K_MUL \<or> k = K_QUO \<or> k = K_REM"

definition add_op :: "kind \<Rightarrow> bool" where
  "add_op k \<longleftrightarrow> k = K_ADD \<or> k = K_SUB"

definition cmp_op :: "kind \<Rightarrow> bool" where
  "cmp_op k \<longleftrightarrow> k = K_LT \<or> k = K_LTE \<or> k = K_GT \<or> k = K_GTE"

definition eq_op :: "kind \<Rightarrow> bool" where
  "eq_op k \<longleftrightarrow> k = K_EQ \<or> k = K_NEQ"

definition parseMultiplicative :: "(gostring \<Rightarrow> u64 option) \<Rightarrow> expr parse \<Rightarrow> expr parse" where
  "parseMultiplicative pf pe s =
     do { (left, s) \<leftarrow> parseUnary pf pe s; binary_loop mul_op (parseUnary pf pe) left s }"

definition parseAdditive :: "(gostring \<Rightarrow> u64 option) \<Rightarrow> expr parse \<Rightarrow> expr parse" where
  "parseAdditive pf pe s =
     do { (left, s) \<leftarrow> parseMultiplicative pf pe s; binary_loop add_op (parseMultiplicative pf pe) left s }"

definition parseComparison :: "(gostring \<Rightarrow> u64 option) \<Rightarrow> expr parse \<Rightarrow> expr parse" where
  "parseComparison pf pe s =
     do { (left, s) \<leftarrow> parseAdditive pf pe s; binary_loop cmp_op (parseAdditive pf pe) left s }"

definition parseEquality :: "(gostring \<Rightarrow> u64 option) \<Rightarrow> expr parse \<Rightarrow> expr parse" where
  "parseEquality pf pe s =
     do { (left, s) \<leftarrow> parseComparison pf pe s; binary_loop eq_op (parseComparison pf pe) left s }"

partial_function (option) parseNot ::
  "(gostring \<Rightarrow> u64 option) \<Rightarrow> expr parse \<Rightarrow> parser \<Rightarrow> (expr \<times> parser) option" where
  "parseNot pf pe s =
     (if pk s = K_NOT then
        do { (rhs, s') \<leftarrow> parseNot pf pe (p_advance s); Some (UnaryExpr K_NOT rhs, s') }
      else parseEquality pf pe s)"

definition parseAnd :: "(gostring \<Rightarrow> u64 option) \<Rightarrow> expr parse \<Rightarrow> expr parse" where
  "parseAnd pf pe s =
     do { (left, s) \<leftarrow> parseNot pf pe s; binary_loop (\<lambda>k. k = K_AND) (parseNot pf pe) left s }"

definition parseOr :: "(gostring \<Rightarrow> u64 option) \<Rightarrow> expr parse \<Rightarrow> expr parse" where
  "parseOr pf pe s =
     do { (left, s) \<leftarrow> parseAnd pf pe s; binary_loop (\<lambda>k. k = K_OR) (parseAnd pf pe) left s }"

definition parseLambda :: "expr parse \<Rightarrow> expr parse" where
  "parseLambda pe s =
     do { let (ident, s) = p_expect K_IDENT s;
          let s = snd (p_expect K_FATARROW s);
          (body, s) \<leftarrow> pe s;
          Some (LambdaExpr (snd ident) body, s) }"

text \<open>\<open>parseExpr\<close>, its recursive calls \<open>n\<close> deep at most.\<close>

primrec parseExpr_n :: "(gostring \<Rightarrow> u64 option) \<Rightarrow> nat \<Rightarrow> expr parse" where
  "parseExpr_n pf 0 = (\<lambda>s. None)"
| "parseExpr_n pf (Suc n) =
     (\<lambda>s. if pk s = K_IDENT \<and> pk1 s = K_FATARROW then parseLambda (parseExpr_n pf n) s
          else parseOr pf (parseExpr_n pf n) s)"

definition parseExpr :: "(gostring \<Rightarrow> u64 option) \<Rightarrow> expr parse" where
  "parseExpr pf s = parseExpr_n pf (Suc (length (fst s))) s"

declare binary_loop.simps [code] args_loop.simps [code] elems_loop.simps [code] fstring_loop.simps [code]
  postfix_loop.simps [code] parseUnary.simps [code] parseNot.simps [code]

end
