(* ===== verification/DslStmts.thy ===== *)
theory DslStmts
  imports DslParser DslLex
begin

text \<open>
  Statements, declarations and files (dsl/parser/parser.go), and the four entry points over source text.
  \<open>parseStmt\<close> returns \<open>None\<close> for Go's nil statement (a closing brace or the end of the input follows).
\<close>

section \<open>Blocks and statements\<close>

partial_function (option) block_loop :: "stmt option parse \<Rightarrow> stmt list \<Rightarrow> parser \<Rightarrow> (stmt list \<times> parser) option" where
  "block_loop ps acc s =
     (if pk s = K_RBRACE \<or> pk s = K_EOF then Some (acc, s)
      else do { (st, s) \<leftarrow> ps s;
                block_loop ps (case st of None \<Rightarrow> acc | Some x \<Rightarrow> acc @ [x]) s })"

definition parseBlock :: "stmt option parse \<Rightarrow> stmt list parse" where
  "parseBlock ps s =
     do { let s = snd (p_expect K_LBRACE s);
          (b, s) \<leftarrow> block_loop ps [] s;
          Some (b, snd (p_expect K_RBRACE s)) }"

partial_function (option) elif_loop ::
  "expr parse \<Rightarrow> stmt option parse \<Rightarrow> elif list \<Rightarrow> parser \<Rightarrow> (elif list \<times> parser) option" where
  "elif_loop pe ps acc s =
     (if pk s = K_ELIF then
        do { (c, s) \<leftarrow> pe (p_advance s);
             (b, s) \<leftarrow> parseBlock ps s;
             elif_loop pe ps (acc @ [ElifClause c b]) s }
      else Some (acc, s))"

definition parseIf :: "expr parse \<Rightarrow> stmt option parse \<Rightarrow> stmt parse" where
  "parseIf pe ps s =
     do { let s = snd (p_expect K_IF s);
          (cond, s) \<leftarrow> pe s;
          (body, s) \<leftarrow> parseBlock ps s;
          (elifs, s) \<leftarrow> elif_loop pe ps [] s;
          let (has_else, s) = p_consume K_ELSE s;
          if has_else then do { (b, s) \<leftarrow> parseBlock ps s; Some (IfStmt cond body elifs (Some b), s) }
          else Some (IfStmt cond body elifs None, s) }"

definition parseWhile :: "expr parse \<Rightarrow> stmt option parse \<Rightarrow> stmt parse" where
  "parseWhile pe ps s =
     do { let s = snd (p_expect K_WHILE s);
          (cond, s) \<leftarrow> pe s;
          (body, s) \<leftarrow> parseBlock ps s;
          Some (WhileStmt cond body, s) }"

definition parseFor :: "expr parse \<Rightarrow> stmt option parse \<Rightarrow> stmt parse" where
  "parseFor pe ps s =
     do { let s = snd (p_expect K_FOR s);
          let (v, s) = p_expect K_IDENT s;
          let s = snd (p_expect K_IN s);
          (iter, s) \<leftarrow> pe s;
          (body, s) \<leftarrow> parseBlock ps s;
          Some (ForStmt (snd v) iter body, s) }"

definition parseRepeatUntil :: "expr parse \<Rightarrow> stmt option parse \<Rightarrow> stmt parse" where
  "parseRepeatUntil pe ps s =
     do { let s = snd (p_expect K_REPEAT s);
          (body, s) \<leftarrow> parseBlock ps s;
          let s = snd (p_expect K_UNTIL s);
          (cond, s) \<leftarrow> pe s;
          let (has_timeout, s) = p_consume K_TIMEOUT s;
          if has_timeout then do { (t, s) \<leftarrow> pe s; Some (RepeatUntilStmt body cond t, s) }
          else Some (RepeatUntilStmt body cond NilExpr, s) }"

definition parseReturn :: "expr parse \<Rightarrow> stmt parse" where
  "parseReturn pe s =
     do { let s = snd (p_expect K_RETURN s);
          if pk s = K_RBRACE \<or> pk s = K_EOF \<or> pk s = K_SEMICOL then Some (ReturnStmt NilExpr, s)
          else do { (v, s) \<leftarrow> pe s; Some (ReturnStmt v, s) } }"

definition parseAbort :: "expr parse \<Rightarrow> stmt parse" where
  "parseAbort pe s =
     do { let s = snd (p_expect K_ABORT s);
          (e, s) \<leftarrow> pe s;
          Some (AbortStmt e, s) }"

definition parseDefer :: "expr parse \<Rightarrow> stmt parse" where
  "parseDefer pe s =
     do { let s = snd (p_expect K_DEFER s);
          (e, s) \<leftarrow> pe s;
          Some (DeferStmt e, s) }"

definition parseTry :: "stmt option parse \<Rightarrow> stmt parse" where
  "parseTry ps s =
     do { let s = snd (p_expect K_TRY s);
          (body, s) \<leftarrow> parseBlock ps s;
          let s = snd (p_expect K_RECOVER s);
          let (name, s) = p_expect K_IDENT s;
          (rb, s) \<leftarrow> parseBlock ps s;
          Some (TryStmt body (snd name) rb, s) }"

text \<open>\<open>becomes true\<close>, \<open>becomes false\<close> or \<open>changes\<close>, in \<open>parseWhen\<close> and in a select case alike.\<close>

definition parse_qualifier :: "parser \<Rightarrow> WhenQualifier \<times> parser" where
  "parse_qualifier s =
     (if pk s = K_BECOMES then
        (let s = p_advance s in
         if pk s = K_TRUE then (WhenBecomesTrue, p_advance s)
         else if pk s = K_FALSE then (WhenBecomesFalse, p_advance s)
         else (WhenBecomesTrue, p_errorf (PErr ''expected `true` or `false` after `becomes`, got %s'' [pk s]) s))
      else if pk s = K_CHANGES then (WhenChanges, p_advance s)
      else (WhenBecomesTrue, s))"

definition parseWhen :: "expr parse \<Rightarrow> stmt option parse \<Rightarrow> stmt parse" where
  "parseWhen pe ps s =
     do { let s = snd (p_expect K_WHEN s);
          (pred, s) \<leftarrow> pe s;
          let (q, s) = parse_qualifier s;
          (body, s) \<leftarrow> parseBlock ps s;
          Some (WhenStmt pred q body, s) }"

text \<open>\<open>30\<close>, \<open>30s\<close>, \<open>500ms\<close>, \<open>2m\<close>: milliseconds in an \<open>int64\<close>.\<close>

definition parseDurationToMillis :: "parser \<Rightarrow> int \<times> parser" where
  "parseDurationToMillis s =
     (let (t, s) = p_expect K_INT s;
          (val, s) = (case ParseInt (snd t) of
                        Some v \<Rightarrow> (v, s)
                      | None \<Rightarrow> (0, p_errorf (PErrLit ''invalid integer literal %q in timeout'' (snd t)) s)) in
      if pk s \<noteq> K_IDENT then (int64 (val * 1000), s)
      else let suffix = snd (p_peek s) in
        if suffix = lit ''s'' then (int64 (val * 1000), p_advance s)
        else if suffix = lit ''ms'' then (val, p_advance s)
        else if suffix = lit ''m'' then (int64 (int64 (val * 60) * 1000), p_advance s)
        else (int64 (val * 1000), s))"

text \<open>The parameter names of an \<open>on\<close> case.\<close>

partial_function (option) names_loop :: "gostring list \<Rightarrow> parser \<Rightarrow> (gostring list \<times> parser) option" where
  "names_loop acc s =
     (if pk s \<noteq> K_RPAREN \<and> pk s \<noteq> K_EOF then
        (let (t, s) = p_expect K_IDENT s;
             (more, s) = p_consume K_COMMA s in
         if more then names_loop (acc @ [snd t]) s else Some (acc @ [snd t], s))
      else Some (acc, s))"

definition parseSelectCase :: "expr parse \<Rightarrow> stmt option parse \<Rightarrow> SelectCase parse" where
  "parseSelectCase pe ps s =
     (let k = pk s in
      if k = K_WHEN then
        do { (pred, s) \<leftarrow> pe (p_advance s);
             let (q, s) = parse_qualifier s;
             (body, s) \<leftarrow> parseBlock ps s;
             Some (SelectWhenCase pred q (Some body), s) }
      else if k = K_ON then
        do { let (name, s) = p_expect K_IDENT (p_advance s);
             let (has_params, s) = p_consume K_LPAREN s;
             (params, s) \<leftarrow> (if has_params
                then do { (ns, s) \<leftarrow> names_loop [] s; Some (ns, snd (p_expect K_RPAREN s)) }
                else Some ([], s));
             (body, s) \<leftarrow> parseBlock ps s;
             Some (SelectOnCase (snd name) params body, s) }
      else if k = K_TIMEOUT then
        do { let (ms, s) = parseDurationToMillis (p_advance s);
             (body, s) \<leftarrow> parseBlock ps s;
             Some (SelectTimeoutCase ms body, s) }
      else
        Some (SelectWhenCase NilExpr WhenBecomesTrue None,
              p_skip {K_RBRACE, K_EOF, K_WHEN, K_ON, K_TIMEOUT}
                (p_errorf (PErr ''expected `when`, `on`, or `timeout` in select case, got %s'' [k]) s)))"

partial_function (option) select_loop ::
  "expr parse \<Rightarrow> stmt option parse \<Rightarrow> SelectCase list \<Rightarrow> parser \<Rightarrow> (SelectCase list \<times> parser) option" where
  "select_loop pe ps acc s =
     (if pk s \<noteq> K_RBRACE \<and> pk s \<noteq> K_EOF then
        (let s = p_semis s in
         if pk s = K_RBRACE then Some (acc, s)
         else do { (c, s) \<leftarrow> parseSelectCase pe ps s; select_loop pe ps (acc @ [c]) s })
      else Some (acc, s))"

definition parseSelect :: "expr parse \<Rightarrow> stmt option parse \<Rightarrow> stmt parse" where
  "parseSelect pe ps s =
     do { let s = snd (p_expect K_SELECT s);
          let s = snd (p_expect K_LBRACE s);
          (cs, s) \<leftarrow> select_loop pe ps [] s;
          Some (SelectStmt cs, snd (p_expect K_RBRACE s)) }"

definition parseWait :: "expr parse \<Rightarrow> stmt parse" where
  "parseWait pe s =
     do { let s = snd (p_expect K_WAIT s);
          let (paren, s) = p_consume K_LPAREN s;
          (dur, s) \<leftarrow> pe s;
          if paren then Some (WaitStmt dur, snd (p_expect K_RPAREN s)) else Some (WaitStmt dur, s) }"

partial_function (option) require_loop :: "expr parse \<Rightarrow> expr list \<Rightarrow> parser \<Rightarrow> (expr list \<times> parser) option" where
  "require_loop pe acc s =
     (if pk s \<noteq> K_RBRACE \<and> pk s \<noteq> K_EOF then
        do { (e, s) \<leftarrow> pe s; require_loop pe (acc @ [e]) (p_semis s) }
      else Some (acc, s))"

definition parseRequireBlock :: "expr parse \<Rightarrow> stmt parse" where
  "parseRequireBlock pe s =
     do { let s = snd (p_expect K_REQUIRE s);
          let s = snd (p_expect K_LBRACE s);
          (es, s) \<leftarrow> require_loop pe [] s;
          Some (RequireBlock es, snd (p_expect K_RBRACE s)) }"

definition parseAssign :: "expr parse \<Rightarrow> stmt parse" where
  "parseAssign pe s =
     do { let (target, s) = p_expect K_IDENT s;
          let s = snd (p_expect K_ASSIGN s);
          (v, s) \<leftarrow> pe s;
          Some (AssignStmt (snd target) v, s) }"

text \<open>
  \<open>parseExprStmt\<close> returns a nil \<open>*ast.ExprStmt\<close> when the expression is nil; \<open>parseStmt\<close> returns it as an
  \<open>ast.Stmt\<close>, which is then not nil.
\<close>

definition parseExprStmt :: "expr parse \<Rightarrow> stmt parse" where
  "parseExprStmt pe s = do { (x, s) \<leftarrow> pe s; Some (if x = NilExpr then NilExprStmt else ExprStmt x, s) }"

definition parse_stmt_at :: "expr parse \<Rightarrow> stmt option parse \<Rightarrow> kind \<Rightarrow> stmt parse" where
  "parse_stmt_at pe ps k s =
     (if k = K_IF then parseIf pe ps s
      else if k = K_WHILE then parseWhile pe ps s
      else if k = K_FOR then parseFor pe ps s
      else if k = K_RETURN then parseReturn pe s
      else if k = K_ABORT then parseAbort pe s
      else if k = K_WAIT then parseWait pe s
      else if k = K_DEFER then parseDefer pe s
      else if k = K_TRY then parseTry ps s
      else if k = K_WHEN then parseWhen pe ps s
      else if k = K_SELECT then parseSelect pe ps s
      else if k = K_REPEAT then parseRepeatUntil pe ps s
      else if k = K_LBRACE then do { (b, s) \<leftarrow> parseBlock ps s; Some (Block b, s) }
      else if k = K_REQUIRE then parseRequireBlock pe s
      else if k = K_BREAK then Some (BreakStmt, p_advance s)
      else if k = K_CONTINUE then Some (ContinueStmt, p_advance s)
      else if k = K_IDENT \<and> pk1 s = K_ASSIGN then parseAssign pe s
      else parseExprStmt pe s)"

definition parse_stmt_body :: "expr parse \<Rightarrow> stmt option parse \<Rightarrow> stmt option parse" where
  "parse_stmt_body pe ps s =
     (let s = p_semis s; k = pk s in
      if k = K_RBRACE \<or> k = K_EOF then Some (None, s)
      else do { (st, s) \<leftarrow> parse_stmt_at pe ps k s; Some (Some st, s) })"

primrec parseStmt_n :: "(gostring \<Rightarrow> u64 option) \<Rightarrow> nat \<Rightarrow> stmt option parse" where
  "parseStmt_n pf 0 = (\<lambda>s. None)"
| "parseStmt_n pf (Suc n) = parse_stmt_body (parseExpr pf) (parseStmt_n pf n)"

definition parseStmt :: "(gostring \<Rightarrow> u64 option) \<Rightarrow> stmt option parse" where
  "parseStmt pf s = parseStmt_n pf (Suc (length (fst s))) s"

section \<open>Declarations\<close>

partial_function (option) params_loop :: "expr parse \<Rightarrow> Param list \<Rightarrow> parser \<Rightarrow> (Param list \<times> parser) option" where
  "params_loop pe acc s =
     (if pk s = K_IDENT then
        do { let name = snd (p_peek s);
             let (has_default, s) = p_consume K_ASSIGN (p_advance s);
             (d, s) \<leftarrow> (if has_default then pe s else Some (NilExpr, s));
             let acc = acc @ [Param name d];
             let (more, s) = p_consume K_COMMA s;
             if more then params_loop pe acc s else Some (acc, s) }
      else Some (acc, s))"

definition parseParamList :: "expr parse \<Rightarrow> Param list parse" where
  "parseParamList pe s = params_loop pe [] s"

text \<open>\<open>name(params) { body }\<close> after the keyword \<open>kw\<close>: the shape of a handler, a proc and a routine.\<close>

definition parse_decl :: "kind \<Rightarrow> expr parse \<Rightarrow> stmt option parse \<Rightarrow> (gostring \<times> Param list \<times> stmt list) parse" where
  "parse_decl kw pe ps s =
     do { let s = snd (p_expect kw s);
          let (name, s) = p_expect K_IDENT s;
          let s = snd (p_expect K_LPAREN s);
          (params, s) \<leftarrow> parseParamList pe s;
          let s = snd (p_expect K_RPAREN s);
          (body, s) \<leftarrow> parseBlock ps s;
          Some ((snd name, params, body), s) }"

definition parseOnHandler :: "expr parse \<Rightarrow> stmt option parse \<Rightarrow> OnHandler parse" where
  "parseOnHandler pe ps s = do { ((n, p, b), s) \<leftarrow> parse_decl K_ON pe ps s; Some (OnHandler n p b, s) }"

definition parseProc :: "expr parse \<Rightarrow> stmt option parse \<Rightarrow> ProcDecl parse" where
  "parseProc pe ps s = do { ((n, p, b), s) \<leftarrow> parse_decl K_PROC pe ps s; Some (ProcDecl n p b, s) }"

definition parseRoutine :: "expr parse \<Rightarrow> stmt option parse \<Rightarrow> RoutineDecl parse" where
  "parseRoutine pe ps s = do { ((n, p, b), s) \<leftarrow> parse_decl K_ROUTINE pe ps s; Some (RoutineDecl n p b, s) }"

partial_function (option) bounds_loop ::
  "expr parse \<Rightarrow> stmt option parse \<Rightarrow> BoundsDecl option parse \<Rightarrow> BoundsDecl \<Rightarrow> parser \<Rightarrow>
     (BoundsDecl \<times> parser) option" where
  "bounds_loop pe ps pb b s =
     (case b of BoundsDecl e hs prs bs \<Rightarrow>
      (let k = pk s in
       if k = K_RBRACE then Some (b, p_advance s)
       else if k = K_EOF then Some (b, p_errorf (PErr ''unexpected EOF inside bounds block'' []) s)
       else if k = K_ON then
         do { (h, s) \<leftarrow> parseOnHandler pe ps s; bounds_loop pe ps pb (BoundsDecl e (hs @ [h]) prs bs) s }
       else if k = K_PROC then
         do { (p, s) \<leftarrow> parseProc pe ps s; bounds_loop pe ps pb (BoundsDecl e hs (prs @ [p]) bs) s }
       else if k = K_BOUNDS then
         do { (nb, s) \<leftarrow> pb s;
              bounds_loop pe ps pb
                (BoundsDecl e hs prs (case nb of None \<Rightarrow> bs | Some x \<Rightarrow> bs @ [x])) s }
       else bounds_loop pe ps pb b
              (p_advance (p_errorf (PErr ''expected on / proc / bounds inside bounds block, got %s'' [k]) s))))"

definition parse_bounds_body ::
  "expr parse \<Rightarrow> stmt option parse \<Rightarrow> BoundsDecl option parse \<Rightarrow> BoundsDecl option parse" where
  "parse_bounds_body pe ps pb s =
     do { let s = snd (p_expect K_BOUNDS s);
          (shape, s) \<leftarrow> pe s;
          if shape = NilExpr then Some (None, s)
          else do { let s = snd (p_expect K_LBRACE s);
                    (b, s) \<leftarrow> bounds_loop pe ps pb (BoundsDecl shape [] [] []) s;
                    Some (Some b, s) } }"

primrec parseBounds_n :: "(gostring \<Rightarrow> u64 option) \<Rightarrow> nat \<Rightarrow> BoundsDecl option parse" where
  "parseBounds_n pf 0 = (\<lambda>s. None)"
| "parseBounds_n pf (Suc n) = parse_bounds_body (parseExpr pf) (parseStmt pf) (parseBounds_n pf n)"

definition parseBounds :: "(gostring \<Rightarrow> u64 option) \<Rightarrow> BoundsDecl option parse" where
  "parseBounds pf s = parseBounds_n pf (Suc (length (fst s))) s"

partial_function (option) file_loop ::
  "(gostring \<Rightarrow> u64 option) \<Rightarrow> routine_file \<Rightarrow> parser \<Rightarrow> (routine_file \<times> parser) option" where
  "file_loop pf f s =
     (let k = pk s in
      if k = K_EOF then Some (f, s)
      else if k = K_ON then
        do { (h, s) \<leftarrow> parseOnHandler (parseExpr pf) (parseStmt pf) s;
             file_loop pf (f\<lparr>f_Handlers := f_Handlers f @ [h]\<rparr>) s }
      else if k = K_PROC then
        do { (p, s) \<leftarrow> parseProc (parseExpr pf) (parseStmt pf) s;
             file_loop pf (f\<lparr>f_Procs := f_Procs f @ [p]\<rparr>) s }
      else if k = K_ROUTINE then
        do { (r, s) \<leftarrow> parseRoutine (parseExpr pf) (parseStmt pf) s;
             (case f_Routine f of
                Some r' \<Rightarrow> file_loop pf f (p_errorf (PErr ''duplicate routine declaration (one per file)'' []) s)
              | None \<Rightarrow> file_loop pf (f\<lparr>f_Routine := Some r\<rparr>) s) }
      else if k = K_BOUNDS then
        do { (b, s) \<leftarrow> parseBounds pf s;
             file_loop pf (case b of None \<Rightarrow> f | Some x \<Rightarrow> f\<lparr>f_Bounds := f_Bounds f @ [x]\<rparr>) s }
      else if k = K_EXTENDS then
        (let (t, s) = p_expect K_STRING (p_advance s) in
         file_loop pf (f\<lparr>f_Extends := f_Extends f @ [snd t]\<rparr>) s)
      else if k = K_RUNTIME then
        (let s = snd (p_expect K_RUNTIME s);
             (v, s) = p_expect K_STRING s in
         if f_Runtime f \<noteq> [] then
           file_loop pf f (p_errorf (PErr ''duplicate runtime directive (one per file)'' []) s)
         else file_loop pf (f\<lparr>f_Runtime := snd v\<rparr>) s)
      else file_loop pf f
             (p_advance (p_errorf
               (PErr ''expected on / proc / routine / bounds / extends / runtime at top level, got %s'' [k]) s)))"

definition parseFile :: "(gostring \<Rightarrow> u64 option) \<Rightarrow> routine_file parse" where
  "parseFile pf s = file_loop pf empty_file s"

section \<open>Entry points\<close>

definition new_parser :: "unicode \<Rightarrow> gostring \<Rightarrow> parser" where
  "new_parser u src = (map tok_of (fst (lex_all u (New src))), [])"

text \<open>The error an entry point returns: the first diagnostic.\<close>

fun first_err :: "parser \<Rightarrow> perr option" where
  "first_err (ts, []) = None"
| "first_err (ts, e # es) = Some e"

definition Parse :: "unicode \<Rightarrow> (gostring \<Rightarrow> u64 option) \<Rightarrow> gostring \<Rightarrow> (routine_file \<times> perr option) option" where
  "Parse u pf src = do { (f, s) \<leftarrow> parseFile pf (new_parser u src); Some (f, first_err s) }"

definition ParseStmt :: "unicode \<Rightarrow> (gostring \<Rightarrow> u64 option) \<Rightarrow> gostring \<Rightarrow> (stmt option \<times> perr option) option" where
  "ParseStmt u pf src = do { (st, s) \<leftarrow> parseStmt pf (new_parser u src); Some (st, first_err s) }"

definition ParseExpr :: "unicode \<Rightarrow> (gostring \<Rightarrow> u64 option) \<Rightarrow> gostring \<Rightarrow> (expr \<times> perr option) option" where
  "ParseExpr u pf src =
     do { (e, s) \<leftarrow> parseExpr pf (new_parser u src);
          Some (e, case first_err s of
                     Some x \<Rightarrow> Some x
                   | None \<Rightarrow> if pk s \<noteq> K_EOF then Some (PErr ''unexpected %s after expression'' [pk s]) else None) }"

definition ParseOnHandler ::
  "unicode \<Rightarrow> (gostring \<Rightarrow> u64 option) \<Rightarrow> gostring \<Rightarrow> (OnHandler option \<times> perr option) option" where
  "ParseOnHandler u pf src =
     (let s = new_parser u src in
      if pk s \<noteq> K_ON then Some (None, Some (PErr ''expected `on`, got %s'' [pk s]))
      else do { (h, s) \<leftarrow> parseOnHandler (parseExpr pf) (parseStmt pf) s;
                Some (Some h, case first_err s of
                   Some x \<Rightarrow> Some x
                 | None \<Rightarrow> if pk s \<noteq> K_EOF then Some (PErr ''unexpected %s after on-handler'' [pk s]) else None) })"

declare block_loop.simps [code] elif_loop.simps [code] names_loop.simps [code] select_loop.simps [code]
  require_loop.simps [code] params_loop.simps [code] bounds_loop.simps [code] file_loop.simps [code]

end
