(* ===== verification/DslParseProps.thy ===== *)
theory DslParseProps
  imports DslStmts
begin

text \<open>
  The parser returns on every token list, consumes what it reads, and a parse without a diagnostic
  gives a complete tree. One predicate carries all three: \<open>ret b s r W\<close> says that the call \<open>r\<close> made in
  state \<open>s\<close> returns, moves forward (strictly when \<open>b\<close>), keeps the errors collected so far, and that its
  value satisfies \<open>W\<close> if it reported nothing.
\<close>

definition tn :: "parser \<Rightarrow> nat" where
  "tn s = length (fst s)"

definition en :: "parser \<Rightarrow> nat" where
  "en s = length (snd s)"

definition ret :: "bool \<Rightarrow> parser \<Rightarrow> ('a \<times> parser) option \<Rightarrow> ('a \<Rightarrow> bool) \<Rightarrow> bool" where
  "ret b s r W \<longleftrightarrow>
     (\<exists>x s'. r = Some (x, s') \<and> tn s' \<le> tn s \<and> (b \<and> 0 < tn s \<longrightarrow> tn s' < tn s) \<and> en s \<le> en s'
        \<and> (en s' = en s \<longrightarrow> W x))"

definition upto :: "nat \<Rightarrow> 'a parse \<Rightarrow> ('a \<Rightarrow> bool) \<Rightarrow> bool" where
  "upto n f W \<longleftrightarrow> (\<forall>s. tn s < n \<longrightarrow> ret True s (f s) W)"

lemma uptoD: "upto n f W \<Longrightarrow> tn s < n \<Longrightarrow> ret True s (f s) W"
  unfolding upto_def by blast

lemma upto_mono: "upto n f W \<Longrightarrow> m \<le> n \<Longrightarrow> upto m f W"
  by (simp add: upto_def)

lemma ret_Some [simp]:
  "ret b s (Some (x, s')) W \<longleftrightarrow>
     tn s' \<le> tn s \<and> (b \<and> 0 < tn s \<longrightarrow> tn s' < tn s) \<and> en s \<le> en s' \<and> (en s' = en s \<longrightarrow> W x)"
  by (auto simp: ret_def)

lemma ret_weaken: "ret b s r W \<Longrightarrow> (c \<longrightarrow> b) \<Longrightarrow> (\<And>x. W x \<Longrightarrow> V x) \<Longrightarrow> ret c s r V"
  unfolding ret_def by blast

text \<open>A call in a later state, seen from the earlier one.\<close>

lemma ret_later:
  "ret b s1 r W \<Longrightarrow> tn s1 \<le> tn s \<Longrightarrow> (c \<and> 0 < tn s \<longrightarrow> tn s1 < tn s \<or> b) \<Longrightarrow> en s \<le> en s1 \<Longrightarrow>
   (\<And>x. W x \<Longrightarrow> en s1 = en s \<Longrightarrow> V x) \<Longrightarrow> ret c s r V"
  unfolding ret_def by (elim exE conjE, intro exI conjI, assumption) auto

section \<open>Steps\<close>

lemma tn_advance [simp]: "tn (p_advance s) = tn s - 1"
  by (simp add: tn_def p_advance_def)

lemma en_advance [simp]: "en (p_advance s) = en s"
  by (simp add: en_def p_advance_def)

lemma tn_errorf [simp]: "tn (p_errorf e s) = tn s"
  by (simp add: tn_def p_errorf_def)

lemma en_errorf [simp]: "en (p_errorf e s) = Suc (en s)"
  by (simp add: en_def p_errorf_def)

lemma tn_skip [simp]: "tn (p_skip ks s) \<le> tn s" "tn (p_semis s) \<le> tn s"
  by (simp_all add: tn_def p_skip_def p_semis_def length_dropWhile_le)

lemma en_skip [simp]: "en (p_skip ks s) = en s" "en (p_semis s) = en s"
  by (simp_all add: en_def p_skip_def p_semis_def)

lemma pk_pos: "pk s \<noteq> K_EOF \<Longrightarrow> 0 < tn s"
  by (cases s; cases "fst s") (auto simp: pk_def tn_def)

lemma bindI:
  assumes "ret a s1 r W"
    "\<And>x s2. tn s2 \<le> tn s1 \<Longrightarrow> (a \<and> 0 < tn s1 \<longrightarrow> tn s2 < tn s1) \<Longrightarrow> en s1 \<le> en s2 \<Longrightarrow>
       (en s2 = en s1 \<longrightarrow> W x) \<Longrightarrow> ret b s (g (x, s2)) V"
  shows "ret b s (r \<bind> g) V"
  using assms unfolding ret_def by fastforce

lemma expectI:
  assumes "\<And>t s2. tn s2 \<le> tn s1 \<Longrightarrow> en s1 \<le> en s2 \<Longrightarrow>
       (k \<noteq> K_EOF \<and> pk s1 = k \<longrightarrow> tn s2 < tn s1 \<and> en s2 = en s1) \<Longrightarrow> ret b s (g (t, s2)) V"
  shows "ret b s (Let (p_expect k s1) g) V"
proof -
  obtain t s2 where e: "p_expect k s1 = (t, s2)" by (cases "p_expect k s1")
  have "tn s2 \<le> tn s1" "en s1 \<le> en s2"
    "k \<noteq> K_EOF \<and> pk s1 = k \<longrightarrow> tn s2 < tn s1 \<and> en s2 = en s1"
    using e pk_pos [of s1] by (auto simp: p_expect_def split: if_splits)
  from assms [OF this] e show ?thesis by simp
qed

lemma expect_sndI:
  assumes "\<And>s2. tn s2 \<le> tn s1 \<Longrightarrow> en s1 \<le> en s2 \<Longrightarrow>
       (k \<noteq> K_EOF \<and> pk s1 = k \<longrightarrow> tn s2 < tn s1 \<and> en s2 = en s1) \<Longrightarrow> ret b s (g s2) V"
  shows "ret b s (Let (snd (p_expect k s1)) g) V"
  using expectI [of s1 k b s "\<lambda>p. g (snd p)" V] assms by (simp add: Let_def)

lemma expect_end:
  assumes "tn s1 \<le> tn s" "b \<and> 0 < tn s \<longrightarrow> tn s1 < tn s" "en s \<le> en s1" "en s1 = en s \<longrightarrow> V x"
  shows "ret b s (Some (x, snd (p_expect k s1))) V"
  using expect_sndI [of s1 k b s "\<lambda>s2. Some (x, s2)" V] assms by (auto simp: Let_def)

lemma consumeI:
  assumes "pk s1 = k \<Longrightarrow> k \<noteq> K_EOF \<longrightarrow> 0 < tn s1 \<Longrightarrow> ret b s (g (True, p_advance s1)) V"
    "pk s1 \<noteq> k \<Longrightarrow> ret b s (g (False, s1)) V"
  shows "ret b s (Let (p_consume k s1) g) V"
  using assms pk_pos [of s1] by (cases "pk s1 = k") (auto simp: p_consume_def)

text \<open>A call of a parameter known up to \<open>n\<close> tokens.\<close>

lemma callI:
  assumes "upto n f W" "tn s1 < n"
    "\<And>x s2. tn s2 \<le> tn s1 \<Longrightarrow> (0 < tn s1 \<longrightarrow> tn s2 < tn s1) \<Longrightarrow> en s1 \<le> en s2 \<Longrightarrow>
       (en s2 = en s1 \<longrightarrow> W x) \<Longrightarrow> ret b s (g (x, s2)) V"
  shows "ret b s (f s1 \<bind> g) V"
  by (rule bindI [OF uptoD [OF assms(1,2)]]) (use assms(3) in simp)

section \<open>Expressions\<close>

lemma binary_loop_ret:
  assumes "upto n sub complete" "\<And>k. ops k \<Longrightarrow> binary_op k"
  shows "tn s < n \<Longrightarrow> ret False s (binary_loop ops sub left s) (\<lambda>e. complete left \<longrightarrow> complete e)"
proof (induction "tn s" arbitrary: s left rule: less_induct)
  case less
  show ?case
  proof (cases "ops (pk s)")
    case False
    then show ?thesis by (subst binary_loop.simps) simp
  next
    case True
    then have op: "binary_op (pk s)" by (rule assms(2))
    then have pos: "0 < tn s" by (intro pk_pos) (auto simp: binary_op_def)
    show ?thesis
      unfolding binary_loop.simps [of ops sub left s] if_P [OF True]
    proof (rule callI [OF assms(1)], goal_cases)
      case 1
      then show ?case using less.prems by simp
    next
      case (2 right s2)
      then have lt: "tn s2 < tn s" "tn s2 < n" using pos less.prems by auto
      show ?case
        by (simp, rule ret_later [OF less.hyps [OF lt]]) (use 2 pos op in auto)
    qed
  qed
qed

abbreviation complete_args :: "arg list \<Rightarrow> bool" where
  "complete_args \<equiv> list_all complete_arg"

abbreviation completes :: "expr list \<Rightarrow> bool" where
  "completes \<equiv> list_all complete"

lemma parseArg_ret:
  assumes "upto n pe complete" "tn s < n"
  shows "ret True s (parseArg pe s) complete_arg"
proof (cases "pk s = K_IDENT \<and> pk1 s = K_ASSIGN")
  case True
  then have "0 < tn s" by (intro pk_pos) auto
  then show ?thesis
    unfolding parseArg_def if_P [OF True] by (intro callI [OF assms(1)]) (use assms(2) in auto)
next
  case False
  then show ?thesis
    unfolding parseArg_def if_not_P [OF False] by (intro callI [OF assms(1)]) (use assms(2) in auto)
qed

lemma args_loop_ret:
  assumes "upto n pe complete"
  shows "tn s < n \<Longrightarrow> ret True s (args_loop pe args s) (\<lambda>as. complete_args args \<longrightarrow> complete_args as)"
proof (induction "tn s" arbitrary: s args rule: less_induct)
  case less
  show ?case
    unfolding args_loop.simps [of pe args s]
  proof (rule bindI [OF parseArg_ret [OF assms less.prems]], simp only: prod.case, rule consumeI, goal_cases)
    case (1 a s2)
    then have lt: "tn (p_advance s2) < tn s" "tn (p_advance s2) < n" using less.prems by auto
    show ?case
      unfolding prod.case if_True by (rule ret_later [OF less.hyps [OF lt]]) (use 1 in simp_all)
  next
    case (2 a s2)
    then show ?case unfolding prod.case if_False by simp
  qed
qed

lemma elems_loop_ret:
  assumes "upto n pe complete"
  shows "tn s < n \<Longrightarrow> ret True s (elems_loop pe es s) (\<lambda>r. completes es \<longrightarrow> completes r)"
proof (induction "tn s" arbitrary: s es rule: less_induct)
  case less
  show ?case
    unfolding elems_loop.simps [of pe es s]
  proof (rule callI [OF assms less.prems], simp only: prod.case, rule consumeI, goal_cases)
    case (1 e s2)
    then have lt: "tn (p_advance s2) < tn s" "tn (p_advance s2) < n" using less.prems by auto
    show ?case
      unfolding prod.case if_True by (rule ret_later [OF less.hyps [OF lt]]) (use 1 in simp_all)
  next
    case (2 a s2)
    then show ?case unfolding prod.case if_False by simp
  qed
qed

lemma parseArgList_ret:
  "upto n pe complete \<Longrightarrow> tn s < n \<Longrightarrow> ret False s (parseArgList pe s) complete_args"
  by (auto simp: parseArgList_def intro: ret_weaken [OF args_loop_ret])

lemma parseCallTail_ret:
  assumes "upto n pe complete" "tn s < Suc n" "pk s = K_LPAREN"
  shows "ret True s (parseCallTail pe c s) (\<lambda>e. complete c \<longrightarrow> complete e)"
  unfolding parseCallTail_def
  by (rule expect_sndI, rule bindI [OF parseArgList_ret [OF assms(1)]], use assms pk_pos [of s] in simp,
      unfold prod.case, rule expect_end)
     (use assms pk_pos [of s] in simp_all)

lemma parseIndexTail_ret:
  assumes "upto n pe complete" "tn s < Suc n" "pk s = K_LBRACK"
  shows "ret True s (parseIndexTail pe c s) (\<lambda>e. complete c \<longrightarrow> complete e)"
  unfolding parseIndexTail_def
  by (rule expect_sndI, rule callI [OF assms(1)], use assms pk_pos [of s] in simp,
      unfold prod.case, rule expect_end)
     (use assms pk_pos [of s] in simp_all)

lemma parseMemberTail_ret:
  assumes "pk s = K_DOT"
  shows "ret True s (parseMemberTail c s) (\<lambda>e. complete c \<longrightarrow> complete e)"
  unfolding parseMemberTail_def
  by (rule expect_sndI, rule expectI) (use assms pk_pos [of s] in auto)

lemma postfix_loop_ret:
  assumes "upto n pe complete"
  shows "tn s < Suc n \<Longrightarrow> ret False s (postfix_loop pe x s) (\<lambda>e. complete x \<longrightarrow> complete e)"
proof (induction "tn s" arbitrary: s x rule: less_induct)
  case less
  have step: "ret False s (r \<bind> (\<lambda>(x, s). postfix_loop pe x s)) (\<lambda>e. complete x \<longrightarrow> complete e)"
    if "ret True s r (\<lambda>e. complete x \<longrightarrow> complete e)" "0 < tn s" for r
  proof (rule bindI [OF that(1)], goal_cases)
    case (1 y s2)
    then have lt: "tn s2 < tn s" "tn s2 < Suc n" using that(2) less.prems by auto
    show ?case
      unfolding prod.case by (rule ret_later [OF less.hyps [OF lt]]) (use 1 in simp_all)
  qed
  show ?case
    unfolding postfix_loop.simps [of pe x s]
    using parseCallTail_ret [OF assms less.prems] parseMemberTail_ret [of s]
      parseIndexTail_ret [OF assms less.prems] pk_pos [of s]
    by (auto intro!: step)
qed

lemma parseListLit_ret:
  assumes "upto n pe complete" "tn s < Suc n" "pk s = K_LBRACK"
  shows "ret True s (parseListLit pe s) complete"
  unfolding parseListLit_def
proof (rule expect_sndI, goal_cases)
  case (1 s2)
  have "ret False s2 (if pk s2 \<noteq> K_RBRACK then elems_loop pe [] s2 else Some ([], s2)) completes"
    using 1 assms pk_pos [of s] by (auto intro!: ret_weaken [OF elems_loop_ret [OF assms(1)]])
  then show ?case
    by (rule bindI, unfold prod.case, intro expect_end) (use 1 assms(3) pk_pos [of s] in simp_all)
qed

lemma add_fragment_completes: "completes ps \<Longrightarrow> completes (add_fragment ps s)"
  by (simp add: add_fragment_def)

lemma placeholder_ret:
  assumes "upto n pe complete" "tn s < n"
  shows "ret False s (parse_placeholder pe ps s) (\<lambda>r. completes ps \<longrightarrow> completes r)"
proof (cases "pk s \<noteq> K_FSTRING_PART \<and> pk s \<noteq> K_FSTRING_CLOSE")
  case True
  show ?thesis
    unfolding parse_placeholder_def if_P [OF True]
    by (rule callI [OF assms]) (simp add: Let_def le_trans [OF tn_skip(1)])
next
  case False
  then show ?thesis unfolding parse_placeholder_def if_not_P [OF False] by simp
qed

lemma fstring_loop_ret:
  assumes "upto n pe complete"
  shows "tn s < n \<Longrightarrow> ret False s (fstring_loop pe ps s) (\<lambda>e. completes ps \<longrightarrow> complete e)"
proof (induction "tn s" arbitrary: s ps rule: less_induct)
  case less
  show ?case
    unfolding fstring_loop.simps [of pe ps s]
  proof (rule bindI [OF placeholder_ret [OF assms less.prems]], goal_cases)
    case (1 qs s2)
    show ?case
    proof (cases "fst (p_peek s2) = K_FSTRING_PART")
      case True
      then have "0 < tn s2" by (intro pk_pos) (simp add: pk_def)
      then have lt: "tn (p_advance s2) < tn s" "tn (p_advance s2) < n" using 1 less.prems by auto
      show ?thesis
        unfolding prod.case Let_def if_P [OF True]
        by (rule ret_later [OF less.hyps [OF lt]]) (use 1 in \<open>simp_all add: add_fragment_completes\<close>)
    next
      case False
      have "ret False s (Some (FStringLit r, if b then p_advance s2 else p_errorf m s2)) (\<lambda>e. completes ps \<longrightarrow> complete e)"
        if "completes qs \<longrightarrow> completes r" for r b m using 1 that by (cases b) simp_all
      from this [of "add_fragment qs (snd (p_peek s2))" True undefined]
        this [of qs False "PErr ''unterminated f-string (got %s)'' [fst (p_peek s2)]"]
      show ?thesis unfolding prod.case Let_def if_not_P [OF False] by (simp add: add_fragment_completes)
    qed
  qed
qed

lemma parseFString_ret:
  assumes "upto n pe complete" "tn s < Suc n" "pk s = K_FSTRING_OPEN"
  shows "ret True s (parseFString pe s) complete"
proof -
  have pos: "0 < tn s" using assms(3) by (intro pk_pos) simp
  then have "tn (p_advance s) < n" using assms(2) by simp
  from fstring_loop_ret [OF assms(1) this] show ?thesis
    unfolding parseFString_def
    by (rule ret_later) (use pos in \<open>simp_all add: add_fragment_def\<close>)
qed

lemma ParseInt_bounds: "ParseInt s = Some v \<Longrightarrow> - (2 ^ 63) \<le> v \<and> v < 2 ^ 63"
  by (auto simp: ParseInt_def Let_def split: prod.splits if_splits)

lemma primary_leaf:
  assumes "0 < tn s \<or> k = K_EOF" "pk s = k" "en s \<le> en s'" "tn s' \<le> tn s - 1" "en s' = en s \<longrightarrow> complete e"
  shows "ret True s (Some (e, s')) complete"
  using assms by auto

lemma parsePrimary_ret:
  assumes "upto n pe complete" "tn s < Suc n"
  shows "ret True s (parsePrimary pf pe s) complete"
proof -
  have pos: "pk s \<noteq> K_EOF \<Longrightarrow> 0 < tn s" by (rule pk_pos)
  have paren: "ret True s (do { (inner, s) \<leftarrow> pe (p_advance s); Some (inner, snd (p_expect K_RPAREN s)) }) complete"
    if "pk s = K_LPAREN"
    by (rule callI [OF assms(1)], use assms(2) pos that in simp, simp only: prod.case, rule expect_end)
       (use that pos in simp_all)
  have int: "ret True s (case ParseInt w of Some v \<Rightarrow> Some (IntLit v, p_advance s)
      | None \<Rightarrow> Some (IntLit 0, p_errorf e (p_advance s))) complete" if "0 < tn s" for w e
    using that ParseInt_bounds [of w] by (cases "ParseInt w") simp_all
  have float: "ret True s (case pf w of Some v \<Rightarrow> Some (FloatLit v, p_advance s)
      | None \<Rightarrow> Some (FloatLit 0, p_errorf e (p_advance s))) complete" if "0 < tn s" for w e
    using that by (cases "pf w") simp_all
  have k: "fst (p_peek s) = pk s" by (simp add: pk_def)
  show ?thesis
    unfolding parsePrimary_def Let_def k
    using paren int float parseFString_ret [OF assms] parseListLit_ret [OF assms] pos
    by simp
qed

lemma parsePostfix_ret:
  assumes "upto n pe complete" "tn s < Suc n"
  shows "ret True s (parsePostfix pf pe s) complete"
  unfolding parsePostfix_def
proof (rule bindI [OF parsePrimary_ret [OF assms]], simp only: prod.case, goal_cases)
  case (1 x s2)
  then have "tn s2 < Suc n" using assms(2) by simp
  from postfix_loop_ret [OF assms(1) this] show ?case
    by (rule ret_later) (use 1 in simp_all)
qed

lemma parseRange_ret:
  assumes "upto n pe complete" "tn s < Suc n"
  shows "ret True s (parseRange pf pe s) complete"
  unfolding parseRange_def
proof (rule bindI [OF parsePostfix_ret [OF assms]], simp only: prod.case, goal_cases)
  case (1 x s2)
  show ?case
  proof (cases "pk s2 = K_DOTDOT")
    case True
    have "tn (p_advance s2) < Suc n" using 1 assms(2) by simp
    then show ?thesis
      unfolding if_P [OF True]
      by (rule bindI [OF parsePostfix_ret [OF assms(1)]]) (use 1 pk_pos [of s2] True in auto)
  next
    case False
    with 1 show ?thesis by simp
  qed
qed

lemma upto_SucI: "(\<And>s. tn s < n \<Longrightarrow> ret True s (f s) W) \<Longrightarrow> upto n f W"
  unfolding upto_def by blast

text \<open>A prefix operator loop over a level that is already known.\<close>

lemma prefix_loop_ret:
  assumes unfold: "\<And>s. loop s = (if ops (pk s) then loop (p_advance s) \<bind> (\<lambda>(e, s'). Some (UnaryExpr (opk s) e, s')) else sub s)"
    and op: "\<And>s. ops (pk s) \<Longrightarrow> unary_op (opk s) \<and> pk s \<noteq> K_EOF"
    and sub: "upto n sub complete"
  shows "upto n loop complete"
proof (rule upto_SucI)
  fix s :: parser
  assume "tn s < n"
  then show "ret True s (loop s) complete"
  proof (induction "tn s" arbitrary: s rule: less_induct)
    case less
    show ?case
    proof (cases "ops (pk s)")
      case False
      then show ?thesis using uptoD [OF sub less.prems] by (simp add: unfold [of s])
    next
      case True
      then have pos: "0 < tn s" using op by (blast intro: pk_pos)
      then have lt: "tn (p_advance s) < tn s" "tn (p_advance s) < n" using less.prems by simp_all
      show ?thesis
        unfolding unfold [of s] if_P [OF True]
        by (rule bindI [OF less.hyps [OF lt]]) (use op [OF True] pos in auto)
    qed
  qed
qed

lemma parseUnary_ret: "upto n pe complete \<Longrightarrow> upto (Suc n) (parseUnary pf pe) complete"
  by (rule prefix_loop_ret [where ops = "\<lambda>k. k = K_SUB \<or> k = K_ADD" and opk = pk and sub = "parseRange pf pe"])
     (rule parseUnary.simps, auto simp: unary_op_def intro: upto_SucI parseRange_ret)

lemma level_ret:
  assumes "\<And>s. level s = sub s \<bind> (\<lambda>(left, s). binary_loop ops sub left s)" "upto n sub complete"
    "\<And>k. ops k \<Longrightarrow> binary_op k"
  shows "upto n level complete"
proof (rule upto_SucI)
  fix s :: parser
  assume s: "tn s < n"
  show "ret True s (level s) complete"
    unfolding assms(1)
  proof (rule callI [OF assms(2) s], simp only: prod.case, goal_cases)
    case (1 x s2)
    then have "tn s2 < n" using s by simp
    from binary_loop_ret [OF assms(2,3) this] show ?case
      by (rule ret_later) (use 1 in simp_all)
  qed
qed

lemma parseMultiplicative_ret: "upto n pe complete \<Longrightarrow> upto (Suc n) (parseMultiplicative pf pe) complete"
  by (rule level_ret [OF parseMultiplicative_def parseUnary_ret]) (auto simp: mul_op_def binary_op_def)

lemma parseAdditive_ret: "upto n pe complete \<Longrightarrow> upto (Suc n) (parseAdditive pf pe) complete"
  by (rule level_ret [OF parseAdditive_def parseMultiplicative_ret]) (auto simp: add_op_def binary_op_def)

lemma parseComparison_ret: "upto n pe complete \<Longrightarrow> upto (Suc n) (parseComparison pf pe) complete"
  by (rule level_ret [OF parseComparison_def parseAdditive_ret]) (auto simp: cmp_op_def binary_op_def)

lemma parseEquality_ret: "upto n pe complete \<Longrightarrow> upto (Suc n) (parseEquality pf pe) complete"
  by (rule level_ret [OF parseEquality_def parseComparison_ret]) (auto simp: eq_op_def binary_op_def)

lemma parseNot_ret: "upto n pe complete \<Longrightarrow> upto (Suc n) (parseNot pf pe) complete"
  by (rule prefix_loop_ret [where ops = "\<lambda>k. k = K_NOT" and opk = "\<lambda>s. K_NOT" and sub = "parseEquality pf pe"])
     (rule parseNot.simps, auto simp: unary_op_def intro: parseEquality_ret)

lemma parseAnd_ret: "upto n pe complete \<Longrightarrow> upto (Suc n) (parseAnd pf pe) complete"
  by (rule level_ret [OF parseAnd_def parseNot_ret]) (auto simp: binary_op_def)

lemma parseOr_ret: "upto n pe complete \<Longrightarrow> upto (Suc n) (parseOr pf pe) complete"
  by (rule level_ret [OF parseOr_def parseAnd_ret]) (auto simp: binary_op_def)

lemma parseLambda_ret:
  assumes "upto n pe complete" "tn s < Suc n" "pk s = K_IDENT"
  shows "ret True s (parseLambda pe s) complete"
  unfolding parseLambda_def
proof (rule expectI, simp only: prod.case, rule expect_sndI, goal_cases)
  case (1 t s2 s3)
  have pos: "0 < tn s" using assms(3) by (intro pk_pos) simp
  show ?case
    by (rule callI [OF assms(1)]) (use 1 pos assms in simp_all)
qed

lemma parseExpr_n_ret: "upto n (parseExpr_n pf n) complete"
proof (induction n)
  case 0
  show ?case by (simp add: upto_def)
next
  case (Suc n)
  show ?case
  proof (rule upto_SucI)
    fix s :: parser
    assume s: "tn s < Suc n"
    show "ret True s (parseExpr_n pf (Suc n) s) complete"
      using parseLambda_ret [OF Suc.IH s] uptoD [OF parseOr_ret [OF Suc.IH] s] by simp
  qed
qed

text \<open>The bound of \<open>parseExpr\<close> is never reached.\<close>

lemma parseExpr_ret: "ret True s (parseExpr pf s) complete"
  using uptoD [OF parseExpr_n_ret, of s "Suc (tn s)" pf] by (simp add: parseExpr_def tn_def)

end
