(* ===== verification/DslStmtProps.thy ===== *)
theory DslStmtProps
  imports DslParseProps DslRender
begin

text \<open>
  The statement and file parsers return on every token list, and a file parsed without a diagnostic is a
  complete tree.
\<close>

definition complete_opt :: "stmt option \<Rightarrow> bool" where
  "complete_opt o' = (case o' of None \<Rightarrow> True | Some st \<Rightarrow> complete_stmt st)"

abbreviation completes_stmt :: "stmt list \<Rightarrow> bool" where
  "completes_stmt \<equiv> list_all complete_stmt"

definition always :: "expr parse \<Rightarrow> bool" where
  "always pe \<longleftrightarrow> (\<forall>s. ret True s (pe s) complete)"

text \<open>
  What a block may assume of \<open>parseStmt\<close> below \<open>n\<close> tokens: it moves on unless a closing brace or the end is
  next.
\<close>

definition stmts_upto :: "nat \<Rightarrow> stmt option parse \<Rightarrow> bool" where
  "stmts_upto n ps \<longleftrightarrow>
     (\<forall>s. tn s < n \<longrightarrow> ret (pk s \<noteq> K_RBRACE \<and> pk s \<noteq> K_EOF) s (ps s) complete_opt)"

lemma exprI:
  assumes "always pe"
    "\<And>x s2. tn s2 \<le> tn s1 \<Longrightarrow> (0 < tn s1 \<longrightarrow> tn s2 < tn s1) \<Longrightarrow> en s1 \<le> en s2 \<Longrightarrow>
       (en s2 = en s1 \<longrightarrow> complete x) \<Longrightarrow> ret b s (g (x, s2)) V"
  shows "ret b s (pe s1 \<bind> g) V"
proof -
  have r: "ret True s1 (pe s1) complete" using assms(1) unfolding always_def by blast
  show ?thesis by (rule bindI [OF r]) (use assms(2) in simp)
qed

lemma block_loop_ret:
  assumes "stmts_upto n ps"
  shows "tn s < n \<Longrightarrow> ret False s (block_loop ps acc s) (\<lambda>b. completes_stmt acc \<longrightarrow> completes_stmt b)"
proof (induction "tn s" arbitrary: s acc rule: less_induct)
  case less
  show ?case
  proof (cases "pk s = K_RBRACE \<or> pk s = K_EOF")
    case True
    then show ?thesis by (subst block_loop.simps) simp
  next
    case False
    then have pos: "0 < tn s" by (intro pk_pos) simp
    have "ret (pk s \<noteq> K_RBRACE \<and> pk s \<noteq> K_EOF) s (ps s) complete_opt"
      using assms less.prems unfolding stmts_upto_def by blast
    with False have r: "ret True s (ps s) complete_opt" by simp
    show ?thesis
      unfolding block_loop.simps [of ps acc s] if_not_P [OF False]
    proof (rule bindI [OF r], simp only: prod.case, goal_cases)
      case (1 st s2)
      then have lt: "tn s2 < tn s" "tn s2 < n" using pos less.prems by auto
      show ?case
        by (rule ret_later [OF less.hyps [OF lt]]; cases st)
           (use 1 pos in \<open>simp_all add: complete_opt_def\<close>)
    qed
  qed
qed

lemma parseBlock_ret:
  assumes "stmts_upto n ps" "tn s < n"
  shows "ret False s (parseBlock ps s) completes_stmt"
  unfolding parseBlock_def
proof (rule expect_sndI, goal_cases)
  case (1 s2)
  then have "tn s2 < n" using assms(2) by simp
  from block_loop_ret [OF assms(1) this, of "[]"] show ?case
    by (rule bindI, simp only: prod.case, intro expect_end) (use 1 in simp_all)
qed

lemma blockI:
  assumes "stmts_upto n ps" "tn s1 < n"
    "\<And>x s2. tn s2 \<le> tn s1 \<Longrightarrow> en s1 \<le> en s2 \<Longrightarrow> (en s2 = en s1 \<longrightarrow> completes_stmt x) \<Longrightarrow>
       ret b s (g (x, s2)) V"
  shows "ret b s (parseBlock ps s1 \<bind> g) V"
  by (rule bindI [OF parseBlock_ret [OF assms(1,2)]]) (use assms(3) in simp)

lemma elif_loop_ret:
  assumes "always pe" "stmts_upto n ps"
  shows "tn s < n \<Longrightarrow> ret False s (elif_loop pe ps acc s)
     (\<lambda>b. list_all complete_elif acc \<longrightarrow> list_all complete_elif b)"
proof (induction "tn s" arbitrary: s acc rule: less_induct)
  case less
  show ?case
  proof (cases "pk s = K_ELIF")
    case False
    then show ?thesis by (subst elif_loop.simps) simp
  next
    case True
    then have pos: "0 < tn s" by (intro pk_pos) simp
    show ?thesis
      unfolding elif_loop.simps [of pe ps acc s] if_P [OF True]
    proof (rule exprI [OF assms(1)], simp only: prod.case, rule blockI [OF assms(2)], goal_cases)
      case (1 c s2)
      then show ?case using pos less.prems by simp
    next
      case (2 c s2 b s3)
      then have lt: "tn s3 < tn s" "tn s3 < n" using pos less.prems by auto
      show ?case
        unfolding prod.case by (rule ret_later [OF less.hyps [OF lt]]) (use 2 pos in auto)
    qed
  qed
qed

text \<open>Each statement begins with its keyword, so its blocks are read below \<open>n\<close>.\<close>

lemma parseIf_ret:
  assumes "always pe" "stmts_upto n ps" "tn s < Suc n" "pk s = K_IF"
  shows "ret True s (parseIf pe ps s) complete_stmt"
proof -
  have pos: "0 < tn s" using assms(4) by (intro pk_pos) simp
  show ?thesis
    unfolding parseIf_def
  proof (rule expect_sndI, rule exprI [OF assms(1)], simp only: prod.case, rule blockI [OF assms(2)], goal_cases)
    case (1 s1 c s2)
    then show ?case using assms pos by simp
  next
    case (2 s1 c s2 b s3)
    then have "tn s3 < n" using assms pos by simp
    note el = elif_loop_ret [OF assms(1,2) this, of "[]"]
    show ?case
      unfolding prod.case
    proof (rule bindI [OF el], simp only: prod.case, rule consumeI, goal_cases)
      case (1 es s4)
      show ?case
        unfolding prod.case if_True
        by (rule blockI [OF assms(2)]) (use 1 2 assms pos in auto)
    next
      case 3: (2 es s4)
      then show ?case unfolding prod.case if_False using 2 assms pos by auto
    qed
  qed
qed

lemma parseWhile_ret:
  assumes "always pe" "stmts_upto n ps" "tn s < Suc n" "pk s = K_WHILE"
  shows "ret True s (parseWhile pe ps s) complete_stmt"
  unfolding parseWhile_def
  by (rule expect_sndI, rule exprI [OF assms(1)], simp only: prod.case, rule blockI [OF assms(2)])
     (use assms pk_pos [of s] in auto)

lemma parseFor_ret:
  assumes "always pe" "stmts_upto n ps" "tn s < Suc n" "pk s = K_FOR"
  shows "ret True s (parseFor pe ps s) complete_stmt"
  unfolding parseFor_def
  by (rule expect_sndI, rule expectI, simp only: prod.case, rule expect_sndI, rule exprI [OF assms(1)],
      simp only: prod.case, rule blockI [OF assms(2)])
     (use assms pk_pos [of s] in auto)

lemma parseRepeatUntil_ret:
  assumes "always pe" "stmts_upto n ps" "tn s < Suc n" "pk s = K_REPEAT"
  shows "ret True s (parseRepeatUntil pe ps s) complete_stmt"
  unfolding parseRepeatUntil_def
  apply (rule expect_sndI, rule blockI [OF assms(2)])
   apply (use assms pk_pos [of s] in simp)
  apply (simp only: prod.case, rule expect_sndI, rule exprI [OF assms(1)], simp only: prod.case, rule consumeI)
   apply (simp only: prod.case if_True, rule exprI [OF assms(1)])
   apply (use assms pk_pos [of s] in simp_all)
  apply (intro conjI; linarith)
  done

lemma parseReturn_ret:
  assumes "always pe" "pk s = K_RETURN"
  shows "ret True s (parseReturn pe s) complete_stmt"
  unfolding parseReturn_def
proof (rule expect_sndI, goal_cases)
  case (1 s2)
  have pos: "0 < tn s" using assms(2) by (intro pk_pos) simp
  show ?case
  proof (cases "pk s2 = K_RBRACE \<or> pk s2 = K_EOF \<or> pk s2 = K_SEMICOL")
    case True
    then show ?thesis using 1 assms(2) by simp
  next
    case False
    show ?thesis
      unfolding if_not_P [OF False] by (rule exprI [OF assms(1)]) (use 1 assms pos in simp_all)
  qed
qed

lemma parseAbort_ret: "always pe \<Longrightarrow> pk s = K_ABORT \<Longrightarrow> ret True s (parseAbort pe s) complete_stmt"
  unfolding parseAbort_def by (rule expect_sndI, erule exprI) (use pk_pos [of s] in simp_all)

lemma parseDefer_ret: "always pe \<Longrightarrow> pk s = K_DEFER \<Longrightarrow> ret True s (parseDefer pe s) complete_stmt"
  unfolding parseDefer_def by (rule expect_sndI, erule exprI) (use pk_pos [of s] in simp_all)

lemma parseTry_ret:
  assumes "stmts_upto n ps" "tn s < Suc n" "pk s = K_TRY"
  shows "ret True s (parseTry ps s) complete_stmt"
  unfolding parseTry_def
  apply (rule expect_sndI, rule blockI [OF assms(1)])
   apply (use assms pk_pos [of s] in simp)
  apply (simp only: prod.case, rule expect_sndI, rule expectI, simp only: prod.case, rule blockI [OF assms(1)])
   apply (use assms pk_pos [of s] in simp_all)
  done

text \<open>Reading a qualifier moves on and reports at most one error.\<close>

lemma qualifierI:
  assumes "\<And>q s2. tn s2 \<le> tn s1 \<Longrightarrow> en s1 \<le> en s2 \<Longrightarrow> ret b s (g (q, s2)) V"
  shows "ret b s (Let (parse_qualifier s1) g) V"
proof -
  obtain q s2 where q: "parse_qualifier s1 = (q, s2)" by (cases "parse_qualifier s1")
  have "tn s2 \<le> tn s1" "en s1 \<le> en s2"
    using q by (auto simp: parse_qualifier_def Let_def split: if_splits)
  from assms [OF this] q show ?thesis by simp
qed

lemma parseWhen_ret:
  assumes "always pe" "stmts_upto n ps" "tn s < Suc n" "pk s = K_WHEN"
  shows "ret True s (parseWhen pe ps s) complete_stmt"
  unfolding parseWhen_def
  by (rule expect_sndI, rule exprI [OF assms(1)], simp only: prod.case, rule qualifierI,
      simp only: prod.case, rule blockI [OF assms(2)])
     (use assms pk_pos [of s] in simp_all)

lemma durationI:
  assumes "\<And>ms s2. tn s2 \<le> tn s1 \<Longrightarrow> en s1 \<le> en s2 \<Longrightarrow> ret b s (g (ms, s2)) V"
  shows "ret b s (Let (parseDurationToMillis s1) g) V"
proof -
  obtain ms s2 where q: "parseDurationToMillis s1 = (ms, s2)" by (cases "parseDurationToMillis s1")
  have "tn s2 \<le> tn s1 \<and> en s1 \<le> en s2"
    using q by (auto simp: parseDurationToMillis_def p_expect_def Let_def split: if_splits option.splits)
  with assms q show ?thesis by simp
qed

lemma names_loop_ret: "ret False s (names_loop acc s) (\<lambda>_. True)"
proof (induction "tn s" arbitrary: s acc rule: less_induct)
  case less
  show ?case
  proof (cases "pk s \<noteq> K_RPAREN \<and> pk s \<noteq> K_EOF")
    case False
    then show ?thesis unfolding names_loop.simps [of acc s] if_not_P [OF False] by simp
  next
    case True
    then have pos: "0 < tn s" by (intro pk_pos) simp
    show ?thesis
      unfolding names_loop.simps [of acc s] if_P [OF True]
    proof (rule expectI, simp only: prod.case, rule consumeI, goal_cases)
      case (1 t s2)
      then have lt: "tn (p_advance s2) < tn s" by simp
      show ?case
        unfolding prod.case if_True by (rule ret_later [OF less.hyps [OF lt]]) (use 1 in simp_all)
    next
      case (2 t s2)
      then show ?case unfolding prod.case if_False by simp
    qed
  qed
qed

lemma parseSelectCase_ret:
  assumes "always pe" "stmts_upto n ps" "tn s < Suc n"
  shows "ret (pk s \<noteq> K_RBRACE \<and> pk s \<noteq> K_EOF) s (parseSelectCase pe ps s) complete_case"
proof -
  consider "pk s = K_WHEN" | "pk s = K_ON" | "pk s = K_TIMEOUT" | "pk s \<notin> {K_WHEN, K_ON, K_TIMEOUT}" by blast
  then show ?thesis
  proof cases
    case 1
    then have pos: "0 < tn s" by (intro pk_pos) simp
    show ?thesis
      unfolding parseSelectCase_def Let_def [of "pk s"] if_P [OF 1]
      by (rule exprI [OF assms(1)], simp only: prod.case, rule qualifierI, simp only: prod.case,
          rule blockI [OF assms(2)]) (use assms pos in auto)
  next
    case 2
    then have pos: "0 < tn s" by (intro pk_pos) simp
    have ne: "pk s \<noteq> K_WHEN" using 2 by simp
    show ?thesis
      unfolding parseSelectCase_def Let_def [of "pk s"] if_not_P [OF ne] if_P [OF 2]
    proof (rule expectI, simp only: prod.case, rule consumeI, goal_cases)
      case (1 t s2)
      have r: "ret False (p_advance s2) (do { (ns, s) \<leftarrow> names_loop [] (p_advance s2);
          Some (ns, snd (p_expect K_RPAREN s)) }) (\<lambda>_. True)"
        by (rule bindI [OF names_loop_ret], simp only: prod.case, rule expect_end) simp_all
      show ?case
        unfolding prod.case if_True
        by (rule bindI [OF r], simp only: prod.case, rule blockI [OF assms(2)])
          (use 1 assms pos in auto)
    next
      case (2 t s2)
      show ?case
        unfolding prod.case if_False
        by (simp, rule blockI [OF assms(2)]) (use 2 assms pos in auto)
    qed
  next
    case 3
    then have pos: "0 < tn s" by (intro pk_pos) simp
    have ne: "pk s \<noteq> K_WHEN" "pk s \<noteq> K_ON" using 3 by simp_all
    show ?thesis
      unfolding parseSelectCase_def Let_def [of "pk s"] if_not_P [OF ne(1)] if_not_P [OF ne(2)] if_P [OF 3]
      by (rule durationI, simp only: prod.case, rule blockI [OF assms(2)]) (use assms pos in auto)
  next
    case 4
    have drop: "tn (p_skip {K_RBRACE, K_EOF, K_WHEN, K_ON, K_TIMEOUT} (p_errorf e s)) < tn s"
      if "pk s \<noteq> K_RBRACE" "pk s \<noteq> K_EOF" for e
    proof (cases "fst s")
      case Nil
      then show ?thesis using that by (cases s) (simp add: pk_def)
    next
      case (Cons t ts)
      then have "fst t = pk s" by (cases s) (simp add: pk_def)
      then show ?thesis
        using Cons 4 that length_dropWhile_le [of "\<lambda>t. fst t \<notin> {K_RBRACE, K_EOF, K_WHEN, K_ON, K_TIMEOUT}" ts]
        by (simp add: tn_def p_skip_def p_errorf_def)
    qed
    then show ?thesis
      using 4 le_trans [OF tn_skip(1)] by (auto simp: parseSelectCase_def)
  qed
qed

lemma semis_strict:
  assumes "pk s \<noteq> K_RBRACE" "pk s \<noteq> K_EOF" "pk (p_semis s) = K_RBRACE \<or> pk (p_semis s) = K_EOF"
  shows "tn (p_semis s) < tn s"
proof (cases "fst s")
  case Nil
  then show ?thesis using assms(2) by (cases s) (simp add: pk_def)
next
  case (Cons t ts)
  then have "fst t = pk s" by (cases s) (simp add: pk_def)
  then have "fst t = K_SEMICOL"
    using assms Cons by (cases s) (auto simp: p_semis_def pk_def split: if_splits)
  then show ?thesis
    using Cons length_dropWhile_le [of "\<lambda>t. fst t = K_SEMICOL" ts] by (simp add: tn_def p_semis_def)
qed

lemma select_loop_ret:
  assumes "always pe" "stmts_upto n ps"
  shows "tn s < Suc n \<Longrightarrow> ret False s (select_loop pe ps acc s)
     (\<lambda>b. list_all complete_case acc \<longrightarrow> list_all complete_case b)"
proof (induction "tn s" arbitrary: s acc rule: less_induct)
  case less
  show ?case
  proof (cases "pk s \<noteq> K_RBRACE \<and> pk s \<noteq> K_EOF")
    case False
    then show ?thesis unfolding select_loop.simps [of pe ps acc s] if_not_P [OF False] by simp
  next
    case True
    then have pos: "0 < tn s" by (intro pk_pos) simp
    define s1 where "s1 = p_semis s"
    have s1: "tn s1 \<le> tn s" "en s1 = en s" by (simp_all add: s1_def)
    have semi: "tn s1 < tn s" if "pk s1 = K_EOF \<or> pk s1 = K_RBRACE"
      using semis_strict [of s] True that by (auto simp: s1_def)
    show ?thesis
      unfolding select_loop.simps [of pe ps acc s] if_P [OF True] Let_def s1_def [symmetric]
    proof (cases "pk s1 = K_RBRACE")
      case True
      then show "ret False s (if pk s1 = K_RBRACE then Some (acc, s1)
           else do { (c, s) \<leftarrow> parseSelectCase pe ps s1; select_loop pe ps (acc @ [c]) s })
           (\<lambda>b. list_all complete_case acc \<longrightarrow> list_all complete_case b)" using s1 by simp
    next
      case False
      have "tn s1 < Suc n" using s1 less.prems by simp
      note c = parseSelectCase_ret [OF assms this]
      show "ret False s (if pk s1 = K_RBRACE then Some (acc, s1)
           else do { (c, s) \<leftarrow> parseSelectCase pe ps s1; select_loop pe ps (acc @ [c]) s })
           (\<lambda>b. list_all complete_case acc \<longrightarrow> list_all complete_case b)"
        unfolding if_not_P [OF False]
      proof (rule bindI [OF c], simp only: prod.case, goal_cases)
        case (1 x s2)
        have lt: "tn s2 < tn s" using 1 s1 semi False pk_pos [of s1] by (cases "pk s1 = K_EOF") auto
        then have lt2: "tn s2 < Suc n" using less.prems by simp
        show ?case by (rule ret_later [OF less.hyps [OF lt lt2]]) (use 1 s1 in simp_all)
      qed
    qed
  qed
qed

lemma parseSelect_ret:
  assumes "always pe" "stmts_upto n ps" "tn s < Suc n" "pk s = K_SELECT"
  shows "ret True s (parseSelect pe ps s) complete_stmt"
  unfolding parseSelect_def
proof (rule expect_sndI, rule expect_sndI, goal_cases)
  case (1 s1 s2)
  have pos: "0 < tn s" using assms(4) by (intro pk_pos) simp
  have "tn s2 < Suc n" using 1 assms pos by simp
  from select_loop_ret [OF assms(1,2) this, of "[]"] show ?case
    by (rule bindI, simp only: prod.case, intro expect_end) (use 1 assms pos in auto)
qed

lemma parseWait_ret:
  assumes "always pe" "pk s = K_WAIT"
  shows "ret True s (parseWait pe s) complete_stmt"
proof -
  have pos: "0 < tn s" using assms(2) by (intro pk_pos) simp
  show ?thesis
    unfolding parseWait_def
  proof (rule expect_sndI, rule consumeI, goal_cases)
    case (1 s2)
    show ?case
      unfolding prod.case if_True
      by (rule exprI [OF assms(1)], simp only: prod.case, rule expect_end) (use 1 assms pos in auto)
  next
    case (2 s2)
    show ?case
      unfolding prod.case if_False by (rule exprI [OF assms(1)]) (use 2 assms pos in auto)
  qed
qed

lemma require_loop_ret:
  assumes "always pe"
  shows "ret False s (require_loop pe acc s) (\<lambda>b. list_all complete acc \<longrightarrow> list_all complete b)"
proof (induction "tn s" arbitrary: s acc rule: less_induct)
  case less
  show ?case
  proof (cases "pk s \<noteq> K_RBRACE \<and> pk s \<noteq> K_EOF")
    case False
    then show ?thesis unfolding require_loop.simps [of pe acc s] if_not_P [OF False] by simp
  next
    case True
    then have pos: "0 < tn s" by (intro pk_pos) simp
    show ?thesis
      unfolding require_loop.simps [of pe acc s] if_P [OF True]
    proof (rule exprI [OF assms(1)], simp only: prod.case, goal_cases)
      case (1 e s2)
      then have lt: "tn (p_semis s2) < tn s" using pos le_less_trans [OF tn_skip(2)] by simp
      show ?case by (rule ret_later [OF less.hyps [OF lt]]) (use 1 lt in simp_all)
    qed
  qed
qed

lemma parseRequireBlock_ret:
  assumes "always pe" "pk s = K_REQUIRE"
  shows "ret True s (parseRequireBlock pe s) complete_stmt"
  unfolding parseRequireBlock_def
  by (rule expect_sndI, rule expect_sndI, rule bindI [OF require_loop_ret [OF assms(1)]],
      simp only: prod.case, rule expect_end) (use assms pk_pos [of s] in auto)

lemma parseAssign_ret:
  assumes "always pe" "pk s = K_IDENT"
  shows "ret True s (parseAssign pe s) complete_stmt"
  unfolding parseAssign_def
  by (rule expectI, simp only: prod.case, rule expect_sndI, rule exprI [OF assms(1)])
     (use assms pk_pos [of s] in auto)

lemma parseExprStmt_ret:
  assumes "always pe"
  shows "ret True s (parseExprStmt pe s) complete_stmt"
  unfolding parseExprStmt_def by (rule exprI [OF assms]) auto

lemma parse_stmt_at_ret:
  assumes "always pe" "stmts_upto n ps" "tn s < Suc n"
  shows "ret True s (parse_stmt_at pe ps (pk s) s) complete_stmt"
proof -
  have blk: "ret True s (do { (b, s) \<leftarrow> parseBlock ps s; Some (Block b, s) }) complete_stmt"
    if "pk s = K_LBRACE"
  proof -
    have pos: "0 < tn s" using that by (intro pk_pos) simp
    have "ret True s (parseBlock ps s) completes_stmt"
      unfolding parseBlock_def
    proof (rule expect_sndI, goal_cases)
      case (1 s2)
      then have "tn s2 < n" using assms(3) that by simp
      from block_loop_ret [OF assms(2) this, of "[]"] show ?case
        by (rule bindI, simp only: prod.case, intro expect_end) (use 1 that in auto)
    qed
    then show ?thesis by (rule bindI) simp
  qed
  show ?thesis
    unfolding parse_stmt_at_def
    using parseIf_ret [OF assms] parseWhile_ret [OF assms] parseFor_ret [OF assms] parseReturn_ret [OF assms(1)]
      parseAbort_ret [OF assms(1)] parseWait_ret [OF assms(1)] parseDefer_ret [OF assms(1)]
      parseTry_ret [OF assms(2,3)] parseWhen_ret [OF assms] parseSelect_ret [OF assms]
      parseRepeatUntil_ret [OF assms] blk parseRequireBlock_ret [OF assms(1)] parseAssign_ret [OF assms(1)]
      parseExprStmt_ret [OF assms(1)] pk_pos [of s]
    by simp
qed

lemma parse_stmt_body_ret:
  assumes "always pe" "stmts_upto n ps"
  shows "stmts_upto (Suc n) (parse_stmt_body pe ps)"
  unfolding stmts_upto_def
proof (intro allI impI)
  fix s :: parser
  assume s: "tn s < Suc n"
  define s1 where "s1 = p_semis s"
  have s1: "tn s1 \<le> tn s" "en s1 = en s" by (simp_all add: s1_def)
  show "ret (pk s \<noteq> K_RBRACE \<and> pk s \<noteq> K_EOF) s (parse_stmt_body pe ps s) complete_opt"
  proof (cases "pk s1 = K_RBRACE \<or> pk s1 = K_EOF")
    case True
    then show ?thesis
      unfolding parse_stmt_body_def Let_def s1_def [symmetric] if_P [OF True]
      using s1 semis_strict [of s] by (auto simp: complete_opt_def s1_def)
  next
    case False
    then have pos: "0 < tn s1" by (intro pk_pos) simp
    have "tn s1 < Suc n" using s s1 by simp
    note st = parse_stmt_at_ret [OF assms this]
    show ?thesis
      unfolding parse_stmt_body_def Let_def s1_def [symmetric] if_not_P [OF False]
      by (rule bindI [OF st]) (use s1 pos in \<open>auto simp: complete_opt_def\<close>)
  qed
qed

lemma always_parseExpr: "always (parseExpr pf)"
  unfolding always_def using parseExpr_ret by blast

lemma parseStmt_n_ret: "stmts_upto n (parseStmt_n pf n)"
proof (induction n)
  case 0
  show ?case by (simp add: stmts_upto_def)
next
  case (Suc n)
  then show ?case using parse_stmt_body_ret [OF always_parseExpr] by simp
qed

lemma parseStmt_ret: "ret (pk s \<noteq> K_RBRACE \<and> pk s \<noteq> K_EOF) s (parseStmt pf s) complete_opt"
  using parseStmt_n_ret [of "Suc (tn s)" pf] unfolding stmts_upto_def parseStmt_def tn_def by blast

lemma stmts_parseStmt: "stmts_upto n (parseStmt pf)"
  unfolding stmts_upto_def using parseStmt_ret by blast

section \<open>Declarations and files\<close>

lemma params_loop_ret:
  assumes "always pe"
  shows "ret False s (params_loop pe acc s) (\<lambda>b. list_all complete_param acc \<longrightarrow> list_all complete_param b)"
proof (induction "tn s" arbitrary: s acc rule: less_induct)
  case less
  show ?case
  proof (cases "pk s = K_IDENT")
    case False
    then show ?thesis unfolding params_loop.simps [of pe acc s] if_not_P [OF False] by simp
  next
    case True
    then have pos: "0 < tn s" by (intro pk_pos) simp
    have d: "ret False s1 (if b then pe s1 else Some (NilExpr, s1)) optional" for b s1
    proof (cases b)
      case True
      have "ret True s1 (pe s1) complete" using assms unfolding always_def by blast
      with True show ?thesis by (auto intro: ret_weaken)
    qed simp
    have rest: "ret False s (do { (d, s) \<leftarrow> (if b then pe s1 else Some (NilExpr, s1));
            let acc = acc @ [Param x d];
            let (more, s) = p_consume K_COMMA s;
            if more then params_loop pe acc s else Some (acc, s) })
          (\<lambda>b. list_all complete_param acc \<longrightarrow> list_all complete_param b)"
      if s1: "tn s1 < tn s" "en s1 = en s" for b s1 x
    proof (rule bindI [OF d], simp only: prod.case, subst Let_def, rule consumeI, goal_cases)
      case (1 dx s2)
      then have lt: "tn (p_advance s2) < tn s" using s1 by simp
      show ?case
        unfolding prod.case if_True by (rule ret_later [OF less.hyps [OF lt]]) (use 1 s1 in simp_all)
    next
      case (2 dx s2)
      then show ?case unfolding prod.case if_False using s1 by simp
    qed
    show ?thesis
      unfolding params_loop.simps [of pe acc s] if_P [OF True]
      by (subst Let_def, rule consumeI; simp only: prod.case; rule rest) (use pos in simp_all)
  qed
qed

lemma parse_decl_ret:
  assumes "always pe" "stmts_upto (Suc (tn s)) ps" "pk s = kw" "kw \<noteq> K_EOF"
  shows "ret True s (parse_decl kw pe ps s) (\<lambda>(n, p, b). complete_decl p b)"
proof -
  have pos: "0 < tn s" using assms(3,4) by (intro pk_pos) simp
  show ?thesis
    unfolding parse_decl_def parseParamList_def
    apply (rule expect_sndI, rule expectI, simp only: prod.case, rule expect_sndI)
    apply (rule bindI [OF params_loop_ret [OF assms(1)]], simp only: prod.case, rule expect_sndI)
    apply (rule blockI [OF assms(2)])
     apply (use assms(3,4) pos in \<open>auto simp: complete_decl_def\<close>)
    done
qed

lemma decl_ret:
  assumes "always pe" "stmts_upto (Suc (tn s)) ps" "pk s = kw" "kw \<noteq> K_EOF"
    "\<And>n p b. complete_decl p b \<Longrightarrow> W (C n p b)"
  shows "ret True s (do { ((n, p, b), s) \<leftarrow> parse_decl kw pe ps s; Some (C n p b, s) }) W"
  by (rule bindI [OF parse_decl_ret [OF assms(1-4)]]) (use assms(5) in \<open>auto split: prod.splits\<close>)

lemma parseOnHandler_ret:
  "always pe \<Longrightarrow> stmts_upto (Suc (tn s)) ps \<Longrightarrow> pk s = K_ON \<Longrightarrow> ret True s (parseOnHandler pe ps s) complete_handler"
  unfolding parseOnHandler_def by (rule decl_ret) simp_all

lemma parseProc_ret:
  "always pe \<Longrightarrow> stmts_upto (Suc (tn s)) ps \<Longrightarrow> pk s = K_PROC \<Longrightarrow> ret True s (parseProc pe ps s) complete_proc"
  unfolding parseProc_def by (rule decl_ret) simp_all

lemma parseRoutine_ret:
  "always pe \<Longrightarrow> stmts_upto (Suc (tn s)) ps \<Longrightarrow> pk s = K_ROUTINE \<Longrightarrow>
   ret True s (parseRoutine pe ps s) complete_routine"
  unfolding parseRoutine_def by (rule decl_ret) simp_all

definition bounds_opt :: "BoundsDecl option \<Rightarrow> bool" where
  "bounds_opt o' = (case o' of None \<Rightarrow> True | Some b \<Rightarrow> complete_bounds b)"

definition bounds_upto :: "nat \<Rightarrow> BoundsDecl option parse \<Rightarrow> bool" where
  "bounds_upto n pb \<longleftrightarrow> (\<forall>s. tn s < n \<longrightarrow> pk s = K_BOUNDS \<longrightarrow> ret True s (pb s) bounds_opt)"

lemma bounds_loop_ret:
  assumes "always pe" "\<And>m. stmts_upto m ps" "bounds_upto n pb"
  shows "tn s < n \<Longrightarrow> ret False s (bounds_loop pe ps pb b s) (\<lambda>r. complete_bounds b \<longrightarrow> complete_bounds r)"
proof (induction "tn s" arbitrary: s b rule: less_induct)
  case less
  obtain e hs prs bs where b: "b = BoundsDecl e hs prs bs" by (cases b)
  have pos: "pk s \<noteq> K_EOF \<Longrightarrow> 0 < tn s" by (rule pk_pos)
  have step: "ret False s (r \<bind> (\<lambda>(x, s). bounds_loop pe ps pb (f x) s))
      (\<lambda>r. complete_bounds b \<longrightarrow> complete_bounds r)"
    if r: "ret True s r W" and p: "0 < tn s" and f: "\<And>x. W x \<Longrightarrow> complete_bounds b \<Longrightarrow> complete_bounds (f x)"
    for r f and W :: "'a \<Rightarrow> bool"
  proof (rule bindI [OF r], simp only: prod.case, goal_cases)
    case (1 x s2)
    then have lt: "tn s2 < tn s" "tn s2 < n" using p less.prems by auto
    show ?case by (rule ret_later [OF less.hyps [OF lt]]) (use 1 f in auto)
  qed
  have on: "pk s = K_ON \<Longrightarrow> ret False s (parseOnHandler pe ps s \<bind>
      (\<lambda>(h, s). bounds_loop pe ps pb (BoundsDecl e (hs @ [h]) prs bs) s))
      (\<lambda>r. complete_bounds b \<longrightarrow> complete_bounds r)"
    using pos by (intro step [OF parseOnHandler_ret [OF assms(1,2)]]) (simp_all add: b)
  have pr: "pk s = K_PROC \<Longrightarrow> ret False s (parseProc pe ps s \<bind>
      (\<lambda>(h, s). bounds_loop pe ps pb (BoundsDecl e hs (prs @ [h]) bs) s))
      (\<lambda>r. complete_bounds b \<longrightarrow> complete_bounds r)"
    using pos by (intro step [OF parseProc_ret [OF assms(1,2)]]) (simp_all add: b)
  have nb: "pk s = K_BOUNDS \<Longrightarrow> ret False s (pb s \<bind>
      (\<lambda>(h, s). bounds_loop pe ps pb (BoundsDecl e hs prs (case h of None \<Rightarrow> bs | Some x \<Rightarrow> bs @ [x])) s))
      (\<lambda>r. complete_bounds b \<longrightarrow> complete_bounds r)"
  proof -
    assume k: "pk s = K_BOUNDS"
    have r: "ret True s (pb s) bounds_opt" using k assms(3) less.prems unfolding bounds_upto_def by blast
    show "ret False s (pb s \<bind>
      (\<lambda>(h, s). bounds_loop pe ps pb (BoundsDecl e hs prs (case h of None \<Rightarrow> bs | Some x \<Rightarrow> bs @ [x])) s))
      (\<lambda>r. complete_bounds b \<longrightarrow> complete_bounds r)"
      by (rule step [OF r]) (use k pos in \<open>auto simp: b bounds_opt_def split: option.splits\<close>)
  qed
  have skip: "ret False s (bounds_loop pe ps pb b (p_advance (p_errorf m s)))
      (\<lambda>r. complete_bounds b \<longrightarrow> complete_bounds r)" if "0 < tn s" for m
  proof -
    have lt: "tn (p_advance (p_errorf m s)) < tn s" "tn (p_advance (p_errorf m s)) < n"
      using that less.prems by simp_all
    show ?thesis by (rule ret_later [OF less.hyps [OF lt]]) simp_all
  qed
  show ?case
    apply (subst bounds_loop.simps)
    unfolding Let_def
    using on pr nb skip pos unfolding b by (simp del: complete_bounds.simps)
qed

lemma parseBounds_n_ret: "bounds_upto n (parseBounds_n pf n)"
proof (induction n)
  case 0
  show ?case by (simp add: bounds_upto_def)
next
  case (Suc n)
  show ?case
    unfolding bounds_upto_def
  proof (intro allI impI)
    fix s :: parser
    assume s: "tn s < Suc n" "pk s = K_BOUNDS"
    then have pos: "0 < tn s" by (intro pk_pos) simp
    show "ret True s (parseBounds_n pf (Suc n) s) bounds_opt"
      unfolding parseBounds_n.simps parse_bounds_body_def
    proof (rule expect_sndI, rule exprI [OF always_parseExpr], simp only: prod.case, goal_cases)
      case (1 s1 e s2)
      show ?case
      proof (cases "e = NilExpr")
        case True
        then show ?thesis using 1 s pos by (simp add: bounds_opt_def)
      next
        case False
        show ?thesis
          unfolding if_not_P [OF False]
        proof (rule expect_sndI, goal_cases)
          case (1 s3)
          then have "tn s3 < n" using \<open>tn s2 \<le> tn s1\<close> \<open>tn s1 \<le> tn s\<close> s pos 1
            using \<open>K_BOUNDS \<noteq> K_EOF \<and> pk s = K_BOUNDS \<longrightarrow> tn s1 < tn s \<and> en s1 = en s\<close> by simp
          note bl = bounds_loop_ret [OF always_parseExpr stmts_parseStmt Suc.IH this,
              of pf pf "BoundsDecl e [] [] []"]
          show ?case
            by (rule bindI [OF bl]) (use 1 \<open>tn s2 \<le> tn s1\<close> \<open>en s1 \<le> en s2\<close> s pos
                \<open>K_BOUNDS \<noteq> K_EOF \<and> pk s = K_BOUNDS \<longrightarrow> tn s1 < tn s \<and> en s1 = en s\<close>
                \<open>en s2 = en s1 \<longrightarrow> complete e\<close> in \<open>auto simp: bounds_opt_def\<close>)
        qed
      qed
    qed
  qed
qed

lemma parseBounds_ret: "pk s = K_BOUNDS \<Longrightarrow> ret True s (parseBounds pf s) bounds_opt"
  using parseBounds_n_ret [of "Suc (tn s)" pf] unfolding bounds_upto_def parseBounds_def tn_def by blast

lemma complete_file_fields:
  assumes "complete_file f"
  shows "complete_handler h \<Longrightarrow> complete_file (f\<lparr>f_Handlers := f_Handlers f @ [h]\<rparr>)"
    "complete_proc p \<Longrightarrow> complete_file (f\<lparr>f_Procs := f_Procs f @ [p]\<rparr>)"
    "complete_bounds b \<Longrightarrow> complete_file (f\<lparr>f_Bounds := f_Bounds f @ [b]\<rparr>)"
    "complete_routine r \<Longrightarrow> complete_file (f\<lparr>f_Routine := Some r\<rparr>)"
    "complete_file (f\<lparr>f_Extends := xs\<rparr>)" "complete_file (f\<lparr>f_Runtime := v\<rparr>)"
  using assms by (simp_all add: complete_file_def)

lemma file_loop_ret: "ret False s (file_loop pf f s) (\<lambda>r. complete_file f \<longrightarrow> complete_file r)"
proof (induction "tn s" arbitrary: s f rule: less_induct)
  case less
  let ?W = "\<lambda>r. complete_file f \<longrightarrow> complete_file r"
  have pos: "pk s \<noteq> K_EOF \<Longrightarrow> 0 < tn s" by (rule pk_pos)
  have go: "ret False s (file_loop pf g s2) ?W"
    if "tn s2 < tn s" "en s \<le> en s2" "en s2 = en s \<Longrightarrow> complete_file f \<Longrightarrow> complete_file g" for g s2
    by (rule ret_later [OF less.hyps [OF that(1)]]) (use that in auto)
  have on: "ret False s (do { (h, s) \<leftarrow> parseOnHandler (parseExpr pf) (parseStmt pf) s;
             file_loop pf (f\<lparr>f_Handlers := f_Handlers f @ [h]\<rparr>) s }) ?W" if "pk s = K_ON"
    by (rule bindI [OF parseOnHandler_ret [OF always_parseExpr stmts_parseStmt that]], simp only: prod.case, rule go)
       (use that pos in \<open>auto intro: complete_file_fields\<close>)
  have pr: "ret False s (do { (h, s) \<leftarrow> parseProc (parseExpr pf) (parseStmt pf) s;
             file_loop pf (f\<lparr>f_Procs := f_Procs f @ [h]\<rparr>) s }) ?W" if "pk s = K_PROC"
    by (rule bindI [OF parseProc_ret [OF always_parseExpr stmts_parseStmt that]], simp only: prod.case, rule go)
       (use that pos in \<open>auto intro: complete_file_fields\<close>)
  have ro: "ret False s (do { (r, s) \<leftarrow> parseRoutine (parseExpr pf) (parseStmt pf) s;
             (case f_Routine f of
                Some r' \<Rightarrow> file_loop pf f (p_errorf m s)
              | None \<Rightarrow> file_loop pf (f\<lparr>f_Routine := Some r\<rparr>) s) }) ?W" if "pk s = K_ROUTINE" for m
    by (rule bindI [OF parseRoutine_ret [OF always_parseExpr stmts_parseStmt that]], simp only: prod.case,
        cases "f_Routine f"; simp only: option.case; rule go)
       (use that pos in \<open>auto intro: complete_file_fields\<close>)
  have bo: "ret False s (do { (b, s) \<leftarrow> parseBounds pf s;
             file_loop pf (case b of None \<Rightarrow> f | Some x \<Rightarrow> f\<lparr>f_Bounds := f_Bounds f @ [x]\<rparr>) s }) ?W"
    if "pk s = K_BOUNDS"
    by (rule bindI [OF parseBounds_ret [OF that]], simp only: prod.case, rule go)
       (use that pos in \<open>auto simp: bounds_opt_def intro: complete_file_fields split: option.splits\<close>)
  have ex: "ret False s (let (t, s) = p_expect K_STRING (p_advance s) in
         file_loop pf (f\<lparr>f_Extends := f_Extends f @ [snd t]\<rparr>) s) ?W" if "pk s = K_EXTENDS"
    by (rule expectI, simp only: prod.case, rule go) (use that pos in \<open>auto intro: complete_file_fields\<close>)
  have ru: "ret False s (let s = snd (p_expect K_RUNTIME s); (v, s) = p_expect K_STRING s in
         if f_Runtime f \<noteq> [] then file_loop pf f (p_errorf m s)
         else file_loop pf (f\<lparr>f_Runtime := snd v\<rparr>) s) ?W" if "pk s = K_RUNTIME" for m
  proof (rule expect_sndI, rule expectI, simp only: prod.case, goal_cases)
    case (1 s2 t s3)
    then have lt: "tn s3 < tn s" "en s \<le> en s3" using that pos by auto
    have "ret False s (file_loop pf f (p_errorf m s3)) ?W" by (rule go) (use lt in simp_all)
    moreover have "ret False s (file_loop pf (f\<lparr>f_Runtime := snd t\<rparr>) s3) ?W"
      by (rule go) (use lt in \<open>auto intro: complete_file_fields\<close>)
    ultimately show ?case by simp
  qed
  have sk: "ret False s (file_loop pf f (p_advance (p_errorf m s))) ?W" if "0 < tn s" for m
    by (rule go) (use that in simp_all)
  show ?case
    unfolding file_loop.simps [of pf f s] Let_def [of "pk s"]
    using on pr ro bo ex ru sk pos by simp
qed

lemma parseFile_ret: "ret False s (parseFile pf s) complete_file"
  unfolding parseFile_def
  by (rule ret_weaken [OF file_loop_ret]) (simp_all add: complete_file_def empty_file_def)

section \<open>The entry points\<close>

lemma first_err_None: "first_err s = None \<longleftrightarrow> en s = 0"
  by (cases s; cases "snd s") (simp_all add: en_def)

lemma en_new [simp]: "en (new_parser u src) = 0"
  by (simp add: en_def new_parser_def)

text \<open>
  C35. \<open>Parse\<close> returns on every source text, and a file it returns without an error is a complete syntax tree:
  no nil expression, statement or block where the evaluator reads one, and only the operators of the grammar.
\<close>

theorem parse_total_and_complete:
  "\<exists>f err. Parse u pf src = Some (f, err) \<and> (err = None \<longrightarrow> complete_file f)"
  using parseFile_ret [of "new_parser u src" pf]
  by (auto simp: Parse_def ret_def first_err_None)

theorem parse_total_and_complete_witness:
  "\<exists>f. Parse \<lparr>uni_letter = \<lambda>r. False, uni_digit = \<lambda>r. False, uni_print = \<lambda>r. True\<rparr> (\<lambda>s. None) (render
        [(K_ROUTINE, lit ''routine''), (K_IDENT, [97]), (K_LPAREN, [40]), (K_RPAREN, [41]), (K_LBRACE, [123]),
         (K_WAIT, lit ''wait''), (K_INT, [49]), (K_RBRACE, [125])]) = Some (f, None) \<and> complete_file f"
proof -
  let ?u = "\<lparr>uni_letter = \<lambda>r. False, uni_digit = \<lambda>r. False, uni_print = \<lambda>r. True\<rparr>"
  let ?ts = "[(K_ROUTINE, lit ''routine''), (K_IDENT, [97]), (K_LPAREN, [40]), (K_RPAREN, [41]), (K_LBRACE, [123]),
         (K_WAIT, lit ''wait''), (K_INT, [49]), (K_RBRACE, [125])]"
  have n: "runes [97] = [97]" "encode_rune 97 = [97]" "keyword [97] = None" by code_simp+
  have "ident_text ?u [97]"
    by (simp add: ident_text_def utf8_def n string_of_runes_def word_runes_def valid_rune_def ident_rune_def
        IsLetter_def IsSpace_def)
  then have "new_parser ?u (render ?ts) = (?ts @ [(K_EOF, [])], [])"
    using lex_render [of ?ts ?u]
    by (simp add: new_parser_def wf_tok_def digit_bytes_def lit_def allowed_def after_tok_def opens_def)
  moreover have "map_option (first_err o snd) (parseFile (\<lambda>s. None) (?ts @ [(K_EOF, [])], [])) = Some None"
    by code_simp
  ultimately have "map_option snd (Parse ?u (\<lambda>s. None) (render ?ts)) = Some None"
    by (auto simp: Parse_def split: bind_splits)
  moreover obtain f err where
    p: "Parse ?u (\<lambda>s. None) (render ?ts) = Some (f, err) \<and> (err = None \<longrightarrow> complete_file f)"
    using parse_total_and_complete by blast
  ultimately show ?thesis by simp
qed

end
