(* ===== verification/DslPrint.thy ===== *)
theory DslPrint
  imports DslStmts
begin

text \<open>
  The concrete syntax of expressions: \<open>body\<close> writes an expression with the parentheses that the precedence
  table at the head of parser.go asks for and no others. The levels are the table's: 0 lambda, 1 \<open>or\<close>,
  2 \<open>and\<close>, 3 \<open>not\<close>, 4 equality, 5 comparison, 6 sum, 7 product, 8 sign, 9 range, 10 postfix, 11 primary.

  Floats are written by the parameter \<open>sf\<close>.
\<close>

definition tk :: "kind \<Rightarrow> tok" where
  "tk k = (k, kind_string k)"

lemma fst_tk [simp]: "fst (tk k) = k"
  by (simp add: tk_def)

definition binlev :: "kind \<Rightarrow> nat" where
  "binlev k =
     (if k = K_OR then 1 else if k = K_AND then 2 else if eq_op k then 4 else if cmp_op k then 5
      else if add_op k then 6 else 7)"

fun lev :: "expr \<Rightarrow> nat" where
  "lev (LambdaExpr p b) = 0"
| "lev (BinaryExpr k a b) = binlev k"
| "lev (UnaryExpr k a) = (if k = K_NOT then 3 else 8)"
| "lev (RangeLit a b) = 9"
| "lev (CallExpr f as) = 10"
| "lev (MemberExpr r f) = 10"
| "lev (IndexExpr r i) = 10"
| "lev e = 11"

definition paren :: "bool \<Rightarrow> tok list \<Rightarrow> tok list" where
  "paren b ts = (if b then tk K_LPAREN # ts @ [tk K_RPAREN] else ts)"

fun commas :: "tok list list \<Rightarrow> tok list" where
  "commas [] = []"
| "commas [x] = x"
| "commas (x # y # ys) = x @ tk K_COMMA # commas (y # ys)"

text \<open>The digits of a natural number.\<close>

fun digits :: "nat \<Rightarrow> gostring" where
  "digits n = (if n < 10 then [of_nat (48 + n)] else digits (n div 10) @ [of_nat (48 + n mod 10)])"

declare digits.simps [simp del]

text \<open>The literal text before a placeholder: a leading non-empty string part.\<close>

fun take_fragment :: "(expr \<times> tok list) list \<Rightarrow> gostring \<times> (expr \<times> tok list) list" where
  "take_fragment ((StringLit s, ts) # ps) = (if s \<noteq> [] then (s, ps) else ([], (StringLit s, ts) # ps))"
| "take_fragment ps = ([], ps)"

lemma take_fragment_length: "length (snd (take_fragment ps)) \<le> length ps"
  by (cases ps rule: take_fragment.cases) auto

text \<open>The parts of an f-string after its opening, or after a placeholder.\<close>

function fstring_rest :: "(expr \<times> tok list) list \<Rightarrow> tok list" where
  "fstring_rest ps =
     (let (f, ps1) = take_fragment ps in
      case ps1 of
        [] \<Rightarrow> [(K_FSTRING_CLOSE, f)]
      | (e, ts) # ps2 \<Rightarrow> (K_FSTRING_PART, f) # ts @ fstring_rest ps2)"
  by pat_completeness auto
termination
proof (relation "measure length", goal_cases)
  case (2 ps x f ps1 y ps2)
  then have "snd (take_fragment ps) = y # ps2" by (simp add: prod_eq_iff)
  then show ?case using take_fragment_length [of ps] by simp
qed simp

declare fstring_rest.simps [simp del]

definition fstring_toks :: "(expr \<times> tok list) list \<Rightarrow> tok list" where
  "fstring_toks ps =
     (let (f, ps1) = take_fragment ps in
      case ps1 of
        [] \<Rightarrow> [(K_FSTRING_OPEN, f), (K_FSTRING_CLOSE, [])]
      | (e, ts) # ps2 \<Rightarrow> (K_FSTRING_OPEN, f) # ts @ fstring_rest ps2)"

fun body :: "(u64 \<Rightarrow> gostring) \<Rightarrow> expr \<Rightarrow> tok list" and body_arg :: "(u64 \<Rightarrow> gostring) \<Rightarrow> arg \<Rightarrow> tok list" where
  "body sf NilExpr = []"
| "body sf (IntLit v) = [(K_INT, digits (nat v))]"
| "body sf (FloatLit v) = [(K_FLOAT, sf v)]"
| "body sf (StringLit s) = [(K_STRING, s)]"
| "body sf (FStringLit ps) = fstring_toks (map (\<lambda>p. (p, body sf p)) ps)"
| "body sf (BoolLit b) = [tk (if b then K_TRUE else K_FALSE)]"
| "body sf NullLit = [tk K_NULL]"
| "body sf (RangeLit a b) = paren (lev a < 10) (body sf a) @ tk K_DOTDOT # paren (lev b < 10) (body sf b)"
| "body sf (ListLit es) = tk K_LBRACK # commas (map (body sf) es) @ [tk K_RBRACK]"
| "body sf (Ident n) = [(K_IDENT, n)]"
| "body sf (BinaryExpr k a b) =
     paren (lev a < binlev k) (body sf a) @ tk k # paren (lev b < Suc (binlev k)) (body sf b)"
| "body sf (UnaryExpr k a) = tk k # paren (lev a < (if k = K_NOT then 3 else 8)) (body sf a)"
| "body sf (CallExpr f as) =
     paren (lev f < 10) (body sf f) @ tk K_LPAREN # commas (map (body_arg sf) as) @ [tk K_RPAREN]"
| "body sf (MemberExpr r f) = paren (lev r < 10) (body sf r) @ [tk K_DOT, (K_IDENT, f)]"
| "body sf (LambdaExpr p b) = (K_IDENT, p) # tk K_FATARROW # body sf b"
| "body sf (IndexExpr r i) = paren (lev r < 10) (body sf r) @ tk K_LBRACK # body sf i @ [tk K_RBRACK]"
| "body_arg sf (Arg n e) = (if n = [] then body sf e else (K_IDENT, n) # tk K_ASSIGN # body sf e)"

definition at_level :: "(u64 \<Rightarrow> gostring) \<Rightarrow> nat \<Rightarrow> expr \<Rightarrow> tok list" where
  "at_level sf l e = paren (lev e < l) (body sf e)"

lemma body_at_level:
  "body sf (RangeLit a b) = at_level sf 10 a @ tk K_DOTDOT # at_level sf 10 b"
  "body sf (BinaryExpr k a b) = at_level sf (binlev k) a @ tk k # at_level sf (Suc (binlev k)) b"
  "body sf (UnaryExpr k a) = tk k # at_level sf (if k = K_NOT then 3 else 8) a"
  "body sf (CallExpr f as) = at_level sf 10 f @ tk K_LPAREN # commas (map (body_arg sf) as) @ [tk K_RPAREN]"
  "body sf (MemberExpr r g) = at_level sf 10 r @ [tk K_DOT, (K_IDENT, g)]"
  "body sf (IndexExpr r i) = at_level sf 10 r @ tk K_LBRACK # body sf i @ [tk K_RBRACK]"
  by (simp_all add: at_level_def)

text \<open>
  Expressions the printer writes faithfully: complete, integers not negative (a sign is a unary operator),
  floats that \<open>sf\<close> writes and \<open>pf\<close> reads back.
\<close>

fun printable :: "(gostring \<Rightarrow> u64 option) \<Rightarrow> (u64 \<Rightarrow> gostring) \<Rightarrow> expr \<Rightarrow> bool"
  and printable_arg :: "(gostring \<Rightarrow> u64 option) \<Rightarrow> (u64 \<Rightarrow> gostring) \<Rightarrow> arg \<Rightarrow> bool" where
  "printable pf sf NilExpr = False"
| "printable pf sf (IntLit v) = (0 \<le> v \<and> v < 2 ^ 63)"
| "printable pf sf (FloatLit v) = (pf (sf v) = Some v)"
| "printable pf sf (StringLit s) = True"
| "printable pf sf (FStringLit ps) = list_all (printable pf sf) ps"
| "printable pf sf (BoolLit b) = True"
| "printable pf sf NullLit = True"
| "printable pf sf (RangeLit a b) = (printable pf sf a \<and> printable pf sf b)"
| "printable pf sf (ListLit es) = list_all (printable pf sf) es"
| "printable pf sf (Ident n) = True"
| "printable pf sf (BinaryExpr k a b) = (binary_op k \<and> printable pf sf a \<and> printable pf sf b)"
| "printable pf sf (UnaryExpr k a) = (unary_op k \<and> printable pf sf a)"
| "printable pf sf (CallExpr f as) = (printable pf sf f \<and> list_all (printable_arg pf sf) as)"
| "printable pf sf (MemberExpr r f) = printable pf sf r"
| "printable pf sf (LambdaExpr p b) = printable pf sf b"
| "printable pf sf (IndexExpr r i) = (printable pf sf r \<and> printable pf sf i)"
| "printable_arg pf sf (Arg n e) = printable pf sf e"

section \<open>Digits\<close>

lemma digits_facts: "digits n \<noteq> [] \<and> (\<forall>b \<in> set (digits n). is_digit b) \<and> decimal (digits n) = int n"
proof (induction n rule: digits.induct)
  case (1 n)
  have u: "unat (of_nat (48 + m) :: byte) = 48 + m" if "m < 10" for m
    using that by (simp add: unat_of_nat del: of_nat_add)
  then have i: "uint (of_nat (48 + m) :: byte) = 48 + int m" if "m < 10" for m
    using that by (metis of_nat_add of_nat_numeral uint_nat)
  show ?case
  proof (cases "n < 10")
    case True
    then show ?thesis using u [of n] i [of n]
      by (subst (1 2 3) digits.simps) (simp add: is_digit_def decimal_def del: of_nat_add)
  next
    case False
    have "n mod 10 < 10" by simp
    note m = u [OF this] i [OF this]
    have e: "digits n = digits (n div 10) @ [of_nat (48 + n mod 10)]" using False by (subst digits.simps) simp
    have "decimal (digits n) = decimal (digits (n div 10)) * 10 + int (n mod 10)"
      using m(2) unfolding e by (simp add: decimal_def del: of_nat_add)
    also have "decimal (digits (n div 10)) = int (n div 10)" using 1 [OF False] by blast
    also have "int (n div 10) * 10 + int (n mod 10) = int (n div 10 * 10 + n mod 10)"
      by (simp only: of_nat_add of_nat_mult of_nat_numeral)
    also have "\<dots> = int n" by (simp only: div_mult_mod_eq)
    finally show ?thesis
      using 1 [OF False] m(1) unfolding e by (auto simp: is_digit_def simp del: of_nat_add)
  qed
qed

lemma ParseInt_digits:
  assumes "n < 2 ^ 63"
  shows "ParseInt (digits n) = Some (int n)"
proof -
  obtain c cs where c: "digits n = c # cs" using digits_facts [of n] by (cases "digits n") auto
  have "is_digit c" using digits_facts [of n] c by auto
  then have "c \<noteq> 43" "c \<noteq> 45" by (auto simp: is_digit_def)
  then show ?thesis
    using digits_facts [of n] assms by (auto simp: ParseInt_def Let_def c)
qed

end
