(* ===== verification/DslRound.thy ===== *)
theory DslRound
  imports DslPrint
begin

text \<open>
  Expressions survive the round trip through their concrete syntax: the parser reads the tokens the
  printer writes as the same tree and stops after them. The proof goes level by level down the
  precedence table; for the loops (binary operators, postfix chains) it follows the left spine.
\<close>

section \<open>Levels\<close>

definition level :: "(gostring \<Rightarrow> u64 option) \<Rightarrow> nat \<Rightarrow> nat \<Rightarrow> expr parse" where
  "level pf n l =
     (let pe = parseExpr_n pf n in
      if l = 0 then parseExpr_n pf (Suc n) else if l = 1 then parseOr pf pe else if l = 2 then parseAnd pf pe
      else if l = 3 then parseNot pf pe else if l = 4 then parseEquality pf pe
      else if l = 5 then parseComparison pf pe else if l = 6 then parseAdditive pf pe
      else if l = 7 then parseMultiplicative pf pe else if l = 8 then parseUnary pf pe
      else if l = 9 then parseRange pf pe else if l = 10 then parsePostfix pf pe else parsePrimary pf pe)"

definition ops :: "nat \<Rightarrow> kind \<Rightarrow> bool" where
  "ops l k = (if l = 1 then k = K_OR else if l = 2 then k = K_AND else if l = 4 then eq_op k
              else if l = 5 then cmp_op k else if l = 6 then add_op k else if l = 7 then mul_op k else False)"

abbreviation binary_level :: "nat \<Rightarrow> bool" where
  "binary_level l \<equiv> l \<in> {1, 2, 4, 5, 6, 7}"

lemma ops_fun [simp]:
  "ops 1 = (\<lambda>k. k = K_OR)" "ops 2 = (\<lambda>k. k = K_AND)" "ops 4 = eq_op" "ops 5 = cmp_op" "ops 6 = add_op"
  "ops 7 = mul_op" "ops (Suc 0) = (\<lambda>k. k = K_OR)"
  by (simp_all add: ops_def fun_eq_iff)

lemma level_binary:
  "binary_level l \<Longrightarrow>
   level pf n l s = level pf n (Suc l) s \<bind> (\<lambda>(left, s). binary_loop (ops l) (level pf n (Suc l)) left s)"
  by (auto simp: level_def Let_def parseOr_def parseAnd_def parseEquality_def parseComparison_def
      parseAdditive_def parseMultiplicative_def eta_contract_eq)

lemma binlev_ops: "binary_op k \<Longrightarrow> binary_level (binlev k) \<and> ops (binlev k) k"
  by (auto simp: binary_op_def binlev_def ops_def eq_op_def cmp_op_def add_op_def mul_op_def)

lemma ops_binlev: "ops m k \<Longrightarrow> binary_op k \<and> binlev k = m"
  by (auto simp: binary_op_def binlev_def ops_def eq_op_def cmp_op_def add_op_def mul_op_def split: if_splits)

text \<open>The kind of the first token.\<close>

definition hk :: "tok list \<Rightarrow> kind" where
  "hk ts = (case ts of [] \<Rightarrow> K_EOF | t # _ \<Rightarrow> fst t)"

lemma pk_hk: "pk (ts, es) = hk ts"
  by (cases ts) (simp_all add: pk_def hk_def)

lemma hk_Cons [simp]: "hk (t # ts) = fst t"
  by (simp add: hk_def)

text \<open>The kind \<open>k\<close> does not continue an expression of level \<open>l\<close>.\<close>

definition follow :: "nat \<Rightarrow> kind \<Rightarrow> bool" where
  "follow l k \<longleftrightarrow> (l \<le> 10 \<longrightarrow> k \<notin> {K_LPAREN, K_DOT, K_LBRACK}) \<and> (l \<le> 9 \<longrightarrow> k \<noteq> K_DOTDOT)
     \<and> (\<forall>m. l \<le> m \<longrightarrow> \<not> ops m k) \<and> (l = 0 \<longrightarrow> k \<noteq> K_FATARROW)"

lemma follow_mono: "follow l k \<Longrightarrow> l \<le> m \<Longrightarrow> follow m k"
  by (auto simp: follow_def)

lemma follow_op: "ops m k \<Longrightarrow> follow (Suc m) k"
  using ops_binlev [of _ k]
  by (auto simp: follow_def) (auto simp: ops_def eq_op_def cmp_op_def add_op_def mul_op_def split: if_splits)

lemma follow_dotdot: "follow 10 K_DOTDOT"
  by (simp add: follow_def ops_def)

lemma follow_primary: "follow 11 k"
  by (auto simp: follow_def ops_def)

definition reads :: "(gostring \<Rightarrow> u64 option) \<Rightarrow> (u64 \<Rightarrow> gostring) \<Rightarrow> nat \<Rightarrow> expr \<Rightarrow> bool" where
  "reads pf sf l e \<longleftrightarrow>
     (\<forall>n w es. length (at_level sf l e @ w) \<le> n \<longrightarrow> follow l (hk w) \<longrightarrow>
        level pf n l (at_level sf l e @ w, es) = Some (e, w, es))"

lemma readsD:
  "reads pf sf l e \<Longrightarrow> length (at_level sf l e @ w) \<le> n \<Longrightarrow> follow l (hk w) \<Longrightarrow>
   level pf n l (at_level sf l e @ w, es) = Some (e, w, es)"
  unfolding reads_def by blast

lemma at_level_0 [simp]: "at_level sf 0 e = body sf e"
  by (simp add: at_level_def paren_def)

lemma at_level_Suc: "lev e \<noteq> l \<Longrightarrow> at_level sf l e = at_level sf (Suc l) e"
  by (simp add: at_level_def less_Suc_eq)

section \<open>How an expression starts\<close>

definition start_kind :: "kind \<Rightarrow> bool" where
  "start_kind k \<longleftrightarrow> k \<in> {K_INT, K_FLOAT, K_STRING, K_FSTRING_OPEN, K_TRUE, K_FALSE, K_NULL, K_IDENT, K_LPAREN,
     K_LBRACK, K_NOT, K_SUB, K_ADD}"

definition good_start :: "nat \<Rightarrow> tok list \<Rightarrow> bool" where
  "good_start l ts \<longleftrightarrow> ts \<noteq> [] \<and> start_kind (hk ts) \<and> (4 \<le> l \<longrightarrow> hk ts \<noteq> K_NOT)
     \<and> (9 \<le> l \<longrightarrow> hk ts \<noteq> K_SUB \<and> hk ts \<noteq> K_ADD)"

lemma good_start_mono: "good_start l ts \<Longrightarrow> m \<le> l \<Longrightarrow> good_start m ts"
  by (auto simp: good_start_def)

lemma good_start_append [simp]: "good_start l ts \<Longrightarrow> good_start l (ts @ us)"
  by (cases ts) (auto simp: good_start_def)

lemma good_start_paren: "good_start l (paren True ts)"
  by (simp add: good_start_def paren_def start_kind_def)

lemma good_start_at:
  "good_start (lev e) (body sf e) \<Longrightarrow> good_start l (at_level sf l e)"
  using good_start_mono [of "lev e" "body sf e" l]
  by (cases "lev e < l") (simp_all add: at_level_def good_start_paren, simp add: paren_def)

lemma binlev_le: "binlev k \<le> 7"
  by (simp add: binlev_def)

lemma body_start:
  fixes e :: expr and a :: arg
  shows "printable pf sf e \<Longrightarrow> good_start (lev e) (body sf e)" and "True"
proof (induction e and a)
  case (FStringLit ps)
  show ?case
    by (simp add: fstring_toks_def Let_def split: prod.split list.split) (simp add: good_start_def start_kind_def)
next
  case (RangeLit a b)
  then have "good_start 10 (at_level sf 10 a)" by (simp add: good_start_at)
  then show ?case
    unfolding body_at_level by (simp add: good_start_mono [of 10] del: body.simps)
next
  case (BinaryExpr k a b)
  then have "good_start (binlev k) (at_level sf (binlev k) a)" by (simp add: good_start_at)
  then show ?case unfolding body_at_level by (simp del: body.simps)
next
  case (CallExpr f as)
  then have "good_start 10 (at_level sf 10 f)" by (simp add: good_start_at)
  then show ?case unfolding body_at_level by (simp del: body.simps)
next
  case (MemberExpr f g)
  then have "good_start 10 (at_level sf 10 f)" by (simp add: good_start_at)
  then show ?case unfolding body_at_level by (simp del: body.simps)
next
  case (IndexExpr f g)
  then have "good_start 10 (at_level sf 10 f)" by (simp add: good_start_at)
  then show ?case unfolding body_at_level by (simp del: body.simps)
next
  case (UnaryExpr k a)
  then show ?case by (auto simp: good_start_def start_kind_def unary_op_def)
qed (simp_all add: good_start_def start_kind_def)

lemma at_level_start: "printable pf sf e \<Longrightarrow> good_start l (at_level sf l e)"
  using body_start(1) good_start_at by blast

text \<open>
  The two places where the parser looks at two tokens: only a lambda starts with an identifier and an
  arrow, and no expression starts with an identifier and an assignment sign.
\<close>

definition ident_then :: "kind \<Rightarrow> tok list \<Rightarrow> bool" where
  "ident_then q ts \<longleftrightarrow> (\<exists>a b us. ts = a # b # us \<and> fst a = K_IDENT \<and> fst b = q)"

lemma ident_then_pk:
  "q \<noteq> K_EOF \<Longrightarrow> pk (ts, es) = K_IDENT \<and> pk1 (ts, es) = q \<longleftrightarrow> ident_then q ts"
  by (cases "(ts, es)" rule: pk1.cases) (auto simp: ident_then_def pk_hk hk_def)

lemma no_ident_paren: "\<not> ident_then q (paren True ts @ w)"
  by (simp add: ident_then_def paren_def)

lemma no_ident_at:
  assumes "lev e \<noteq> 0 \<or> q = K_ASSIGN \<Longrightarrow> \<forall>w. hk w \<noteq> q \<longrightarrow> \<not> ident_then q (body sf e @ w)" "l \<noteq> 0" "hk w \<noteq> q"
  shows "\<not> ident_then q (at_level sf l e @ w)"
proof (cases "lev e < l")
  case True
  then show ?thesis by (simp add: at_level_def no_ident_paren)
next
  case False
  then show ?thesis using assms by (simp add: at_level_def paren_def)
qed

lemma binary_kind: "binary_op k \<Longrightarrow> k \<noteq> K_FATARROW \<and> k \<noteq> K_ASSIGN \<and> binlev k \<noteq> 0"
  using binlev_ops [of k] by (auto simp: binary_op_def)

lemma body_no_ident:
  fixes e :: expr and a :: arg
  assumes q: "q = K_FATARROW \<or> q = K_ASSIGN"
  shows "printable pf sf e \<Longrightarrow> lev e \<noteq> 0 \<or> q = K_ASSIGN \<Longrightarrow>
     \<forall>w. hk w \<noteq> q \<longrightarrow> \<not> ident_then q (body sf e @ w)" and "True"
proof (induction e and a)
  case (FStringLit ps)
  show ?case
    by (simp add: fstring_toks_def Let_def split: prod.split list.split) (simp add: ident_then_def)
next
  case (RangeLit a b)
  then have "\<forall>w. hk w \<noteq> q \<longrightarrow> \<not> ident_then q (at_level sf 10 a @ w)" by (intro allI impI no_ident_at) auto
  then show ?case using q unfolding body_at_level by auto
next
  case (BinaryExpr k a b)
  then have "\<forall>w. hk w \<noteq> q \<longrightarrow> \<not> ident_then q (at_level sf (binlev k) a @ w)"
    using binary_kind [of k] by (intro allI impI no_ident_at) auto
  then show ?case unfolding body_at_level using BinaryExpr.prems binary_kind [of k] q by auto
next
  case (CallExpr f as)
  then have "\<forall>w. hk w \<noteq> q \<longrightarrow> \<not> ident_then q (at_level sf 10 f @ w)" by (intro allI impI no_ident_at) auto
  then show ?case using q unfolding body_at_level by auto
next
  case (MemberExpr f g)
  then have "\<forall>w. hk w \<noteq> q \<longrightarrow> \<not> ident_then q (at_level sf 10 f @ w)" by (intro allI impI no_ident_at) auto
  then show ?case using q unfolding body_at_level by auto
next
  case (IndexExpr f g)
  then have "\<forall>w. hk w \<noteq> q \<longrightarrow> \<not> ident_then q (at_level sf 10 f @ w)" by (intro allI impI no_ident_at) auto
  then show ?case using q unfolding body_at_level by auto
next
  case (UnaryExpr k a)
  then show ?case by (auto simp: ident_then_def unary_op_def)
next
  case (Ident n)
  show ?case by (auto simp: ident_then_def hk_def split: list.splits)
next
  case (LambdaExpr p b)
  then show ?case using q by (auto simp: ident_then_def)
qed (auto simp: ident_then_def)

section \<open>Going down the table\<close>

text \<open>An expression read at one level is read at the next lower one, unless that level is its own.\<close>

lemma pk_at:
  assumes "printable pf sf e"
  shows "start_kind (pk (at_level sf l e @ w, es))" "4 \<le> l \<Longrightarrow> pk (at_level sf l e @ w, es) \<noteq> K_NOT"
    "9 \<le> l \<Longrightarrow> pk (at_level sf l e @ w, es) \<noteq> K_SUB \<and> pk (at_level sf l e @ w, es) \<noteq> K_ADD"
  using at_level_start [OF assms, of l] by (cases "at_level sf l e"; simp add: good_start_def pk_hk)+

lemma binary_loop_stop: "\<not> ops l (hk w) \<Longrightarrow> binary_loop (ops l) sub left (w, es) = Some (left, w, es)"
  by (subst binary_loop.simps) (simp add: pk_hk)

lemma postfix_loop_stop:
  "hk w \<notin> {K_LPAREN, K_DOT, K_LBRACK} \<Longrightarrow> postfix_loop pe x (w, es) = Some (x, w, es)"
  by (subst postfix_loop.simps) (simp add: pk_hk)

lemma reads_down:
  assumes p: "printable pf sf e" and r: "reads pf sf (Suc l) e" and ne: "lev e \<noteq> l" and l: "l \<le> 10"
  shows "reads pf sf l e"
  unfolding reads_def
proof (intro allI impI)
  fix n w es
  assume len: "length (at_level sf l e @ w) \<le> n" and fo: "follow l (hk w)"
  have at: "at_level sf l e = at_level sf (Suc l) e" by (rule at_level_Suc [OF ne])
  have up: "level pf n (Suc l) (at_level sf l e @ w, es) = Some (e, w, es)"
    unfolding at by (rule readsD [OF r]) (use len at follow_mono [OF fo, of "Suc l"] in simp_all)
  have nops: "\<not> ops l (hk w)" using fo by (simp add: follow_def)
  note pks = pk_at [OF p, of "Suc l" w es, folded at]
  consider "l = 0" | "binary_level l" | "l = 3" | "l = 8" | "l = 9" | "l = 10"
  proof -
    have "l = 0 \<or> l = 1 \<or> l = 2 \<or> l = 3 \<or> l = 4 \<or> l = 5 \<or> l = 6 \<or> l = 7 \<or> l = 8 \<or> l = 9 \<or> l = 10"
      using l by arith
    then show thesis using that by auto
  qed
  then show "level pf n l (at_level sf l e @ w, es) = Some (e, w, es)"
  proof cases
    case 1
    have "\<not> ident_then K_FATARROW (at_level sf (Suc 0) e @ w)"
      by (rule no_ident_at [OF body_no_ident(1) [OF _ p]]) (use fo 1 in \<open>simp_all add: follow_def\<close>)
    then show ?thesis using up at 1 ident_then_pk [of K_FATARROW "body sf e @ w" es] by (auto simp: level_def)
  next
    case 2
    then show ?thesis using up by (simp add: level_binary binary_loop_stop [OF nops])
  next
    case 3
    then show ?thesis using up pks(2) by (simp add: level_def Let_def parseNot.simps [of _ _ "(_, _)"])
  next
    case 4
    then show ?thesis using up pks(3) by (simp add: level_def Let_def parseUnary.simps [of _ _ "(_, _)"])
  next
    case 5
    then show ?thesis using up fo by (simp add: level_def Let_def parseRange_def pk_hk follow_def)
  next
    case 6
    then show ?thesis
      using up fo by (simp add: level_def Let_def parsePostfix_def follow_def postfix_loop_stop)
  qed
qed

lemma reads_to:
  assumes "printable pf sf e" "reads pf sf m e" "l \<le> m" "m \<le> 11" "lev e < l \<or> m \<le> lev e"
  shows "reads pf sf l e"
  using assms(3,4,2,5)
proof (induction rule: dec_induct [of l m, consumes 1])
  case (step n)
  have "reads pf sf n e" by (rule reads_down [OF assms(1)]) (use step in auto)
  with step show ?case by auto
qed simp

text \<open>Once an expression is read at level 0, its parenthesised form is a primary.\<close>

lemma follow_rparen: "follow 0 K_RPAREN" "follow 0 K_RBRACK" "follow 0 K_COMMA" "follow 0 K_FSTRING_PART"
  "follow 0 K_FSTRING_CLOSE" "follow 0 K_EOF"
  by (auto simp: follow_def ops_def eq_op_def cmp_op_def add_op_def mul_op_def)

text \<open>The recursive entry inside a bracket.\<close>

lemma inner_reads:
  assumes "reads pf sf 0 e" "length (body sf e @ w) < n" "follow 0 (hk w)"
  shows "parseExpr_n pf n (body sf e @ w, es) = Some (e, w, es)"
proof -
  obtain m where m: "n = Suc m" using assms(2) by (cases n) auto
  show ?thesis using readsD [OF assms(1), of w m es] assms(2,3) by (simp add: m level_def)
qed

lemma reads_paren:
  assumes "reads pf sf 0 e" "lev e \<noteq> 11"
  shows "reads pf sf 11 e"
  unfolding reads_def
proof (intro allI impI)
  fix n w es
  assume len: "length (at_level sf 11 e @ w) \<le> n"
  have lt: "lev e < 11" using assms(2) by (cases e) (auto simp: binlev_def)
  then have at: "at_level sf 11 e = tk K_LPAREN # body sf e @ [tk K_RPAREN]" by (simp add: at_level_def paren_def)
  have "parseExpr_n pf n (body sf e @ tk K_RPAREN # w, es) = Some (e, tk K_RPAREN # w, es)"
    by (rule inner_reads [OF assms(1)]) (use len at follow_rparen in simp_all)
  then show "level pf n 11 (at_level sf 11 e @ w, es) = Some (e, w, es)"
    by (simp add: at level_def parsePrimary_def p_advance_def p_expect_def pk_hk)
qed

lemma lev_le: "lev e \<le> 11"
  by (cases e) (auto simp: binlev_def)

text \<open>Reading an expression at its own level is enough.\<close>

lemma reads_all:
  assumes "printable pf sf e" "reads pf sf (lev e) e" "l \<le> 11"
  shows "reads pf sf l e"
proof -
  have zero: "reads pf sf 0 e" by (rule reads_to [OF assms(1,2)]) (use lev_le in auto)
  show ?thesis
  proof (cases "l \<le> lev e")
    case True
    then show ?thesis by (intro reads_to [OF assms(1,2)]) (use lev_le in auto)
  next
    case False
    then have "lev e \<noteq> 11" using assms(3) by auto
    from reads_paren [OF zero this] show ?thesis
      by (rule reads_to [OF assms(1)]) (use False assms(3) in auto)
  qed
qed

section \<open>Left spines\<close>

text \<open>An operand of a binary level hands what follows to the level's loop.\<close>

definition spine :: "(gostring \<Rightarrow> u64 option) \<Rightarrow> (u64 \<Rightarrow> gostring) \<Rightarrow> nat \<Rightarrow> expr \<Rightarrow> bool" where
  "spine pf sf m e \<longleftrightarrow>
     (\<forall>n w es. length (at_level sf m e @ w) \<le> n \<longrightarrow> follow (Suc m) (hk w) \<longrightarrow>
        level pf n m (at_level sf m e @ w, es) = binary_loop (ops m) (level pf n (Suc m)) e (w, es))"

lemma spine_other:
  assumes "reads pf sf (Suc m) e" "lev e \<noteq> m" "binary_level m"
  shows "spine pf sf m e"
  unfolding spine_def
proof (intro allI impI)
  fix n w es
  assume "length (at_level sf m e @ w) \<le> n" "follow (Suc m) (hk w)"
  then show "level pf n m (at_level sf m e @ w, es) = binary_loop (ops m) (level pf n (Suc m)) e (w, es)"
    using readsD [OF assms(1)] at_level_Suc [OF assms(2)] by (simp add: level_binary [OF assms(3)])
qed

lemma spine_binary:
  assumes k: "binary_op k" "binlev k = m" and a: "spine pf sf m a" and b: "reads pf sf (Suc m) b"
  shows "spine pf sf m (BinaryExpr k a b)"
  unfolding spine_def
proof (intro allI impI)
  fix n w es
  assume len: "length (at_level sf m (BinaryExpr k a b) @ w) \<le> n" and fo: "follow (Suc m) (hk w)"
  have at: "at_level sf m (BinaryExpr k a b) @ w = at_level sf m a @ tk k # at_level sf (Suc m) b @ w"
    using k(2) body_at_level(2) [of sf k a b] by (simp add: at_level_def paren_def)
  have o1: "ops m k" using binlev_ops [OF k(1)] k(2) by simp
  have "level pf n m (at_level sf m a @ tk k # at_level sf (Suc m) b @ w, es)
      = binary_loop (ops m) (level pf n (Suc m)) a (tk k # at_level sf (Suc m) b @ w, es)"
    using a len at follow_op [OF o1] unfolding spine_def by (metis hk_Cons fst_tk)
  also have "\<dots> = binary_loop (ops m) (level pf n (Suc m)) (BinaryExpr k a b) (w, es)"
    using readsD [OF b, of w n es] len at fo o1
    by (subst binary_loop.simps) (simp add: pk_hk p_advance_def)
  finally show "level pf n m (at_level sf m (BinaryExpr k a b) @ w, es)
      = binary_loop (ops m) (level pf n (Suc m)) (BinaryExpr k a b) (w, es)" unfolding at .
qed

lemma spine_reads:
  assumes "spine pf sf m e" "binary_level m"
  shows "reads pf sf m e"
  unfolding reads_def
proof (intro allI impI)
  fix n w es
  assume "length (at_level sf m e @ w) \<le> n" and fo: "follow m (hk w)"
  moreover have "\<not> ops m (hk w)" "follow (Suc m) (hk w)" using fo follow_mono [OF fo] by (auto simp: follow_def)
  ultimately show "level pf n m (at_level sf m e @ w, es) = Some (e, w, es)"
    using assms(1) unfolding spine_def by (metis binary_loop_stop)
qed

text \<open>The same for the postfix chain.\<close>

definition chain :: "(gostring \<Rightarrow> u64 option) \<Rightarrow> (u64 \<Rightarrow> gostring) \<Rightarrow> expr \<Rightarrow> bool" where
  "chain pf sf e \<longleftrightarrow>
     (\<forall>n w es. length (at_level sf 10 e @ w) \<le> n \<longrightarrow>
        level pf n 10 (at_level sf 10 e @ w, es) = postfix_loop (parseExpr_n pf n) e (w, es))"

lemma chain_other:
  assumes "reads pf sf 11 e" "lev e \<noteq> 10"
  shows "chain pf sf e"
  unfolding chain_def
proof (intro allI impI)
  fix n w es
  assume len: "length (at_level sf 10 e @ w) \<le> n"
  have at: "at_level sf 10 e = at_level sf 11 e" using at_level_Suc [OF assms(2), of sf] by simp
  have "level pf n 11 (at_level sf 11 e @ w, es) = Some (e, w, es)"
    by (rule readsD [OF assms(1)]) (use len at follow_primary in simp_all)
  then show "level pf n 10 (at_level sf 10 e @ w, es) = postfix_loop (parseExpr_n pf n) e (w, es)"
    by (simp add: at level_def Let_def parsePostfix_def)
qed

lemma chain_reads:
  assumes "chain pf sf e"
  shows "reads pf sf 10 e"
  unfolding reads_def
proof (intro allI impI)
  fix n w es
  assume len: "length (at_level sf 10 e @ w) \<le> n" "follow 10 (hk w)"
  then have "hk w \<notin> {K_LPAREN, K_DOT, K_LBRACK}" by (simp add: follow_def)
  with assms len(1) show "level pf n 10 (at_level sf 10 e @ w, es) = Some (e, w, es)"
    unfolding chain_def by (metis postfix_loop_stop)
qed

section \<open>Lists, arguments and f-strings\<close>

lemma consume_yes: "hk w = k \<Longrightarrow> p_consume k (w, es) = (True, tl w, es)"
  by (simp add: p_consume_def pk_hk p_advance_def)

lemma consume_no: "hk w \<noteq> k \<Longrightarrow> p_consume k (w, es) = (False, w, es)"
  by (simp add: p_consume_def pk_hk)

lemma elems_round:
  assumes "\<forall>e \<in> set (x # xs). reads pf sf 0 e" "length (commas (map (body sf) (x # xs)) @ tk K_RBRACK # w) < n"
  shows "elems_loop (parseExpr_n pf n) acc (commas (map (body sf) (x # xs)) @ tk K_RBRACK # w, es)
     = Some (acc @ x # xs, tk K_RBRACK # w, es)"
  using assms
proof (induction xs arbitrary: x acc)
  case Nil
  then show ?case
    using inner_reads [of pf sf x "tk K_RBRACK # w" n es] follow_rparen
    by (subst elems_loop.simps) (simp add: consume_no)
next
  case (Cons y ys)
  let ?w = "commas (map (body sf) (y # ys)) @ tk K_RBRACK # w"
  have "parseExpr_n pf n (body sf x @ tk K_COMMA # ?w, es) = Some (x, tk K_COMMA # ?w, es)"
    by (rule inner_reads) (use Cons.prems follow_rparen in simp_all)
  moreover have "elems_loop (parseExpr_n pf n) (acc @ [x]) (?w, es) = Some ((acc @ [x]) @ y # ys, tk K_RBRACK # w, es)"
    by (rule Cons.IH) (use Cons.prems in simp_all)
  ultimately show ?case by (subst elems_loop.simps) (simp add: consume_yes)
qed

lemma arg_lookahead:
  assumes "printable pf sf e" "hk w \<noteq> K_ASSIGN"
  shows "\<not> (pk (body sf e @ w, es) = K_IDENT \<and> pk1 (body sf e @ w, es) = K_ASSIGN)"
  using body_no_ident(1) [of K_ASSIGN pf sf e] assms ident_then_pk [of K_ASSIGN "body sf e @ w" es] by simp

fun arg_expr :: "arg \<Rightarrow> expr" where
  "arg_expr (Arg n e) = e"

text \<open>One argument.\<close>

lemma arg_round:
  assumes "reads pf sf 0 (arg_expr a)" "printable pf sf (arg_expr a)" "length (body_arg sf a @ w) < n"
    "hk w = K_COMMA \<or> hk w = K_RPAREN"
  shows "parseArg (parseExpr_n pf n) (body_arg sf a @ w, es) = Some (a, w, es)"
proof (cases a)
  case (Arg m e)
  have f: "follow 0 (hk w)" using assms(4) follow_rparen by auto
  have r: "parseExpr_n pf n (body sf e @ w, es) = Some (e, w, es)"
    by (rule inner_reads) (use assms f Arg in \<open>auto split: if_splits\<close>)
  show ?thesis
  proof (cases "m = []")
    case True
    have "\<not> (pk (body sf e @ w, es) = K_IDENT \<and> pk1 (body sf e @ w, es) = K_ASSIGN)"
      by (rule arg_lookahead [of pf sf]) (use assms Arg in auto)
    then show ?thesis using r Arg True by (auto simp: parseArg_def)
  next
    case False
    then show ?thesis using r Arg by (simp add: parseArg_def pk_hk p_advance_def)
  qed
qed

lemma args_round:
  assumes "\<forall>a \<in> set (x # xs). reads pf sf 0 (arg_expr a) \<and> printable pf sf (arg_expr a)"
    "length (commas (map (body_arg sf) (x # xs)) @ tk K_RPAREN # w) < n"
  shows "args_loop (parseExpr_n pf n) acc (commas (map (body_arg sf) (x # xs)) @ tk K_RPAREN # w, es)
     = Some (acc @ x # xs, tk K_RPAREN # w, es)"
  using assms
proof (induction xs arbitrary: x acc)
  case Nil
  then have "reads pf sf 0 (arg_expr x)" "printable pf sf (arg_expr x)" "length (body_arg sf x @ tk K_RPAREN # w) < n"
    by simp_all
  note one = arg_round [OF this]
  show ?case
    by (subst args_loop.simps) (simp add: one consume_no)
next
  case (Cons y ys)
  let ?w = "commas (map (body_arg sf) (y # ys)) @ tk K_RPAREN # w"
  have "reads pf sf 0 (arg_expr x)" "printable pf sf (arg_expr x)" "length (body_arg sf x @ tk K_COMMA # ?w) < n"
    using Cons.prems by simp_all
  from arg_round [OF this] have "parseArg (parseExpr_n pf n) (body_arg sf x @ tk K_COMMA # ?w, es) = Some (x, tk K_COMMA # ?w, es)"
    by simp
  moreover have "args_loop (parseExpr_n pf n) (acc @ [x]) (?w, es) = Some ((acc @ [x]) @ y # ys, tk K_RPAREN # w, es)"
    by (rule Cons.IH) (use Cons.prems in simp_all)
  ultimately show ?case by (subst args_loop.simps) (simp add: consume_yes)
qed

text \<open>F-strings: the tokens of the parts \<open>ps\<close> after a placeholder rebuild \<open>ps\<close>.\<close>

definition with_toks :: "(u64 \<Rightarrow> gostring) \<Rightarrow> expr list \<Rightarrow> (expr \<times> tok list) list" where
  "with_toks sf ps = map (\<lambda>p. (p, body sf p)) ps"

lemma take_fragment_parts:
  obtains f qs where "take_fragment (with_toks sf ps) = (f, with_toks sf qs)" "ps = add_fragment [] f @ qs"
    "length qs \<le> length ps"
proof (cases ps)
  case Nil
  then show ?thesis using that [of "[]" "[]"] by (simp add: with_toks_def add_fragment_def)
next
  case (Cons p ps')
  show ?thesis
  proof (cases "\<exists>s. p = StringLit s \<and> s \<noteq> []")
    case True
    then obtain s where "p = StringLit s" "s \<noteq> []" by blast
    then show ?thesis using that [of s ps'] Cons by (simp add: with_toks_def add_fragment_def)
  next
    case False
    then have "take_fragment (with_toks sf ps) = ([], with_toks sf ps)"
      by (cases p) (auto simp: Cons with_toks_def)
    then show ?thesis using that [of "[]" ps] by (simp add: add_fragment_def)
  qed
qed

lemma add_fragment_append: "add_fragment acc f = acc @ add_fragment [] f"
  by (simp add: add_fragment_def)

text \<open>One filled placeholder and the loop after it.\<close>

lemma placeholder_round:
  assumes "reads pf sf 0 p" "printable pf sf p" "length (body sf p @ w) < n"
    "hk w = K_FSTRING_PART \<or> hk w = K_FSTRING_CLOSE"
  shows "parse_placeholder (parseExpr_n pf n) acc (body sf p @ w, es) = Some (acc @ [p], w, es)"
proof -
  have f: "follow 0 (hk w)" using assms(4) follow_rparen by auto
  have r: "parseExpr_n pf n (body sf p @ w, es) = Some (p, w, es)" by (rule inner_reads [OF assms(1,3) f])
  have "start_kind (pk (body sf p @ w, es))" using pk_at(1) [OF assms(2), of 0 w es] by simp
  then have k: "pk (body sf p @ w, es) \<noteq> K_FSTRING_PART \<and> pk (body sf p @ w, es) \<noteq> K_FSTRING_CLOSE"
    by (auto simp: start_kind_def)
  have "p \<noteq> NilExpr" using assms(2) by auto
  then show ?thesis
    unfolding parse_placeholder_def if_P [OF k] Let_def using r assms(4) by (auto simp: pk_hk fstring_stops_def)
qed

lemma fstring_rest_hk: "hk (fstring_rest ps @ w) = K_FSTRING_PART \<or> hk (fstring_rest ps @ w) = K_FSTRING_CLOSE"
  by (subst (1 2) fstring_rest.simps) (auto simp: Let_def split: prod.splits list.splits)

lemma fstring_round:
  assumes "\<forall>p \<in> set (p # ps). reads pf sf 0 p \<and> printable pf sf p"
    "length (body sf p @ fstring_rest (with_toks sf ps) @ w) < n"
  shows "fstring_loop (parseExpr_n pf n) acc (body sf p @ fstring_rest (with_toks sf ps) @ w, es)
     = Some (FStringLit (acc @ p # ps), w, es)"
  using assms
proof (induction "length ps" arbitrary: p ps acc rule: less_induct)
  case less
  obtain f qs where f: "take_fragment (with_toks sf ps) = (f, with_toks sf qs)" "ps = add_fragment [] f @ qs"
    "length qs \<le> length ps" by (rule take_fragment_parts)
  have ph: "parse_placeholder (parseExpr_n pf n) acc (body sf p @ fstring_rest (with_toks sf ps) @ w, es)
      = Some (acc @ [p], fstring_rest (with_toks sf ps) @ w, es)"
    by (rule placeholder_round) (use less.prems fstring_rest_hk in auto)
  show ?case
  proof (cases qs)
    case Nil
    then have "fstring_rest (with_toks sf ps) = [(K_FSTRING_CLOSE, f)]"
      using f(1) by (subst fstring_rest.simps) (simp add: with_toks_def)
    with ph have "fstring_loop (parseExpr_n pf n) acc (body sf p @ fstring_rest (with_toks sf ps) @ w, es)
        = Some (FStringLit (acc @ p # add_fragment [] f), w, es)"
      by (subst fstring_loop.simps) (simp add: p_advance_def add_fragment_append [of "acc @ [p]"])
    with Nil f(2) show ?thesis by simp
  next
    case (Cons q qs')
    then have e: "fstring_rest (with_toks sf ps) = (K_FSTRING_PART, f) # body sf q @ fstring_rest (with_toks sf qs')"
      using f(1) by (subst fstring_rest.simps) (simp add: with_toks_def)
    have lt: "length qs' < length ps" using f(3) Cons by simp
    have "fstring_loop (parseExpr_n pf n) (add_fragment (acc @ [p]) f) (body sf q @ fstring_rest (with_toks sf qs') @ w, es)
        = Some (FStringLit (add_fragment (acc @ [p]) f @ q # qs'), w, es)"
      by (rule less.hyps [OF lt]) (use less.prems f(2) Cons e in auto)
    then have "fstring_loop (parseExpr_n pf n) acc (body sf p @ fstring_rest (with_toks sf ps) @ w, es)
        = Some (FStringLit (acc @ p # add_fragment [] f @ q # qs'), w, es)"
      using ph by (subst fstring_loop.simps) (simp add: e p_advance_def add_fragment_append [of "acc @ [p]"])
    with Cons f(2) show ?thesis by simp
  qed
qed

lemma fstring_toks_round:
  assumes "\<forall>p \<in> set ps. reads pf sf 0 p \<and> printable pf sf p" "length (fstring_toks (with_toks sf ps) @ w) \<le> n"
  shows "parseFString (parseExpr_n pf n) (fstring_toks (with_toks sf ps) @ w, es) = Some (FStringLit ps, w, es)"
proof -
  obtain f qs where f: "take_fragment (with_toks sf ps) = (f, with_toks sf qs)" "ps = add_fragment [] f @ qs"
    by (rule take_fragment_parts)
  show ?thesis
  proof (cases qs)
    case Nil
    then have e: "fstring_toks (with_toks sf ps) = [(K_FSTRING_OPEN, f), (K_FSTRING_CLOSE, [])]"
      using f(1) by (simp add: fstring_toks_def with_toks_def)
    have "parseFString (parseExpr_n pf n) (fstring_toks (with_toks sf ps) @ w, es) = Some (FStringLit (add_fragment [] f), w, es)"
      unfolding e parseFString_def p_advance_def
      by (subst fstring_loop.simps) (simp add: parse_placeholder_def pk_hk p_advance_def add_fragment_def)
    with Nil f(2) show ?thesis by simp
  next
    case (Cons q qs')
    then have e: "fstring_toks (with_toks sf ps) = (K_FSTRING_OPEN, f) # body sf q @ fstring_rest (with_toks sf qs')"
      using f(1) by (simp add: fstring_toks_def with_toks_def)
    have "fstring_loop (parseExpr_n pf n) (add_fragment [] f) (body sf q @ fstring_rest (with_toks sf qs') @ w, es)
        = Some (FStringLit (add_fragment [] f @ q # qs'), w, es)"
      by (rule fstring_round) (use assms f(2) Cons e in auto)
    then have "parseFString (parseExpr_n pf n) (fstring_toks (with_toks sf ps) @ w, es)
        = Some (FStringLit (add_fragment [] f @ q # qs'), w, es)" by (simp add: e parseFString_def p_advance_def)
    with Cons f(2) show ?thesis by simp
  qed
qed

section \<open>Every expression is read at its level\<close>

lemma chain_step:
  assumes c: "chain pf sf r" and at: "at_level sf 10 e @ w = at_level sf 10 r @ us"
    and len: "length (at_level sf 10 e @ w) \<le> n"
    and step: "postfix_loop (parseExpr_n pf n) r (us, es) = postfix_loop (parseExpr_n pf n) e (w, es)"
  shows "level pf n 10 (at_level sf 10 e @ w, es) = postfix_loop (parseExpr_n pf n) e (w, es)"
  using c len step unfolding chain_def at by simp

lemma chain_call:
  assumes "chain pf sf f" "\<forall>a \<in> set as. reads pf sf 0 (arg_expr a) \<and> printable pf sf (arg_expr a)"
  shows "chain pf sf (CallExpr f as)"
  unfolding chain_def
proof (intro allI impI)
  fix n w es
  let ?us = "tk K_LPAREN # commas (map (body_arg sf) as) @ tk K_RPAREN # w"
  assume len: "length (at_level sf 10 (CallExpr f as) @ w) \<le> n"
  have at: "at_level sf 10 (CallExpr f as) @ w = at_level sf 10 f @ ?us"
    using body_at_level(4) [of sf f as] by (simp add: at_level_def [of _ _ "CallExpr f as"] paren_def)
  have args: "parseArgList (parseExpr_n pf n) (commas (map (body_arg sf) as) @ tk K_RPAREN # w, es)
      = Some (as, tk K_RPAREN # w, es)"
  proof (cases as)
    case Nil
    then show ?thesis by (simp add: parseArgList_def pk_hk)
  next
    case (Cons x xs)
    have ne: "pk (commas (map (body_arg sf) as) @ tk K_RPAREN # w, es) \<noteq> K_RPAREN"
    proof -
      obtain m e where x: "x = Arg m e" by (cases x)
      have "printable pf sf e" using assms(2) Cons x by simp
      from at_level_start [OF this, of 0] have "good_start 0 (body sf e)" by simp
      then have "body_arg sf x \<noteq> [] \<and> hk (body_arg sf x) \<noteq> K_RPAREN"
        by (auto simp: x good_start_def start_kind_def)
      then show ?thesis
        unfolding pk_hk Cons by (cases xs; cases "body_arg sf x") auto
    qed
    have "args_loop (parseExpr_n pf n) [] (commas (map (body_arg sf) (x # xs)) @ tk K_RPAREN # w, es)
      = Some ([] @ x # xs, tk K_RPAREN # w, es)"
      by (rule args_round) (use assms(2) len at Cons in auto)
    then show ?thesis using ne unfolding Cons by (simp add: parseArgList_def)
  qed
  show "level pf n 10 (at_level sf 10 (CallExpr f as) @ w, es)
      = postfix_loop (parseExpr_n pf n) (CallExpr f as) (w, es)"
    by (rule chain_step [OF assms(1) at len], subst postfix_loop.simps)
       (simp add: pk_hk parseCallTail_def p_expect_def p_advance_def args)
qed

lemma chain_member:
  assumes "chain pf sf r"
  shows "chain pf sf (MemberExpr r g)"
  unfolding chain_def
proof (intro allI impI)
  fix n w es
  assume len: "length (at_level sf 10 (MemberExpr r g) @ w) \<le> n"
  have at: "at_level sf 10 (MemberExpr r g) @ w = at_level sf 10 r @ tk K_DOT # (K_IDENT, g) # w"
    using body_at_level(5) [of sf r g] by (simp add: at_level_def [of _ _ "MemberExpr r g"] paren_def)
  show "level pf n 10 (at_level sf 10 (MemberExpr r g) @ w, es)
      = postfix_loop (parseExpr_n pf n) (MemberExpr r g) (w, es)"
    by (rule chain_step [OF assms at len], subst postfix_loop.simps)
       (simp add: pk_hk parseMemberTail_def p_expect_def p_advance_def)
qed

lemma chain_index:
  assumes "chain pf sf r" "reads pf sf 0 i"
  shows "chain pf sf (IndexExpr r i)"
  unfolding chain_def
proof (intro allI impI)
  fix n w es
  assume len: "length (at_level sf 10 (IndexExpr r i) @ w) \<le> n"
  have at: "at_level sf 10 (IndexExpr r i) @ w = at_level sf 10 r @ tk K_LBRACK # body sf i @ tk K_RBRACK # w"
    using body_at_level(6) [of sf r i] by (simp add: at_level_def [of _ _ "IndexExpr r i"] paren_def)
  have "parseExpr_n pf n (body sf i @ tk K_RBRACK # w, es) = Some (i, tk K_RBRACK # w, es)"
    by (rule inner_reads [OF assms(2)]) (use len at follow_rparen in simp_all)
  then show "level pf n 10 (at_level sf 10 (IndexExpr r i) @ w, es)
      = postfix_loop (parseExpr_n pf n) (IndexExpr r i) (w, es)"
    by (intro chain_step [OF assms(1) at len], subst postfix_loop.simps)
       (simp add: pk_hk parseIndexTail_def p_expect_def p_advance_def)
qed

text \<open>What the induction carries: every level, every spine, the postfix chain.\<close>

definition full :: "(gostring \<Rightarrow> u64 option) \<Rightarrow> (u64 \<Rightarrow> gostring) \<Rightarrow> expr \<Rightarrow> bool" where
  "full pf sf e \<longleftrightarrow> (\<forall>l \<le> 11. reads pf sf l e) \<and> (\<forall>m. binary_level m \<longrightarrow> spine pf sf m e) \<and> chain pf sf e"

lemma fullI:
  assumes "printable pf sf e" "reads pf sf (lev e) e" "binary_level (lev e) \<Longrightarrow> spine pf sf (lev e) e"
    "lev e = 10 \<Longrightarrow> chain pf sf e"
  shows "full pf sf e"
proof -
  note r = reads_all [OF assms(1,2)]
  have "spine pf sf m e" if "binary_level m" for m
    using assms(3) that spine_other [OF r _ that] by (cases "lev e = m") auto
  moreover have "chain pf sf e" using assms(4) chain_other [OF r] by (cases "lev e = 10") auto
  ultimately show ?thesis using r by (simp add: full_def)
qed

lemma full_atom:
  assumes "printable pf sf e" "lev e = 11"
    "\<And>n w es. length (body sf e @ w) \<le> n \<Longrightarrow> parsePrimary pf (parseExpr_n pf n) (body sf e @ w, es) = Some (e, w, es)"
  shows "full pf sf e"
proof -
  have "reads pf sf 11 e"
    unfolding reads_def using assms(2,3) by (simp add: at_level_def paren_def level_def)
  then show ?thesis by (intro fullI [OF assms(1)]) (simp_all add: assms(2))
qed

lemma full_reads: "full pf sf e \<Longrightarrow> l \<le> 11 \<Longrightarrow> reads pf sf l e"
  by (simp add: full_def)

lemma at_own: "at_level sf (lev e) e = body sf e"
  by (simp add: at_level_def paren_def)

lemma printable_full:
  fixes e :: expr and a :: arg
  shows "printable pf sf e \<Longrightarrow> full pf sf e"
    and "printable_arg pf sf a \<Longrightarrow> full pf sf (arg_expr a)"
proof (induction e and a)
  case (IntLit v)
  then have "nat v < 2 ^ 63" "int (nat v) = v" by (simp_all add: nat_less_iff)
  then have "ParseInt (digits (nat v)) = Some v" using ParseInt_digits [of "nat v"] by simp
  then show ?case using IntLit by (intro full_atom) (simp_all add: parsePrimary_def p_advance_def)
next
  case (FloatLit v)
  then show ?case by (intro full_atom) (simp_all add: parsePrimary_def p_advance_def)
next
  case (StringLit s)
  then show ?case by (intro full_atom) (simp_all add: parsePrimary_def p_advance_def)
next
  case (FStringLit ps)
  then have ps: "\<forall>p \<in> set ps. reads pf sf 0 p \<and> printable pf sf p" by (auto simp: list_all_iff full_def)
  have "parsePrimary pf (parseExpr_n pf n) (body sf (FStringLit ps) @ w, es) = Some (FStringLit ps, w, es)"
    if "length (body sf (FStringLit ps) @ w) \<le> n" for n w es
  proof -
    have b: "body sf (FStringLit ps) = fstring_toks (with_toks sf ps)" by (simp add: with_toks_def)
    have "fst (p_peek (fstring_toks (with_toks sf ps) @ w, es)) = K_FSTRING_OPEN"
      by (auto simp: fstring_toks_def Let_def split: prod.splits list.splits)
    then show ?thesis
      using fstring_toks_round [OF ps, of w n es] that unfolding b by (simp add: parsePrimary_def Let_def)
  qed
  then show ?case using FStringLit.prems by (intro full_atom) simp_all
next
  case (BoolLit b)
  then show ?case by (intro full_atom) (simp_all add: parsePrimary_def p_advance_def)
next
  case NullLit
  then show ?case by (intro full_atom) (simp_all add: parsePrimary_def p_advance_def)
next
  case (Ident n)
  then show ?case by (intro full_atom) (simp_all add: parsePrimary_def p_advance_def)
next
  case (ListLit xs)
  then have xs: "\<forall>e \<in> set xs. reads pf sf 0 e \<and> printable pf sf e" by (auto simp: list_all_iff full_def)
  have "parseListLit (parseExpr_n pf n) (body sf (ListLit xs) @ w, es) = Some (ListLit xs, w, es)"
    if len: "length (body sf (ListLit xs) @ w) \<le> n" for n w es
  proof (cases xs)
    case Nil
    then show ?thesis by (simp add: parseListLit_def p_expect_def p_advance_def pk_hk)
  next
    case (Cons y ys)
    let ?t = "commas (map (body sf) (y # ys)) @ tk K_RBRACK # w"
    have "good_start 0 (body sf y)" using xs Cons at_level_start [of pf sf y 0] by simp
    then have "hk ?t \<noteq> K_RBRACK"
      by (cases ys; cases "body sf y") (auto simp: good_start_def start_kind_def)
    moreover have "elems_loop (parseExpr_n pf n) [] (?t, es) = Some ([] @ y # ys, tk K_RBRACK # w, es)"
      by (rule elems_round) (use xs Cons len in auto)
    ultimately show ?thesis
      unfolding Cons by (simp add: parseListLit_def p_expect_def p_advance_def pk_hk)
  qed
  then show ?case
    using ListLit.prems by (intro full_atom) (simp_all add: parsePrimary_def p_advance_def)
next
  case (RangeLit a b)
  then have ab: "reads pf sf 10 a" "reads pf sf 10 b" by (auto intro: full_reads)
  have "reads pf sf 9 (RangeLit a b)"
    unfolding reads_def
  proof (intro allI impI)
    fix n w es
    assume len: "length (at_level sf 9 (RangeLit a b) @ w) \<le> n" and fo: "follow 9 (hk w)"
    have at: "at_level sf 9 (RangeLit a b) @ w = at_level sf 10 a @ tk K_DOTDOT # at_level sf 10 b @ w"
      using body_at_level(1) [of sf a b] at_own [of sf "RangeLit a b"] by simp
    have "level pf n 10 (at_level sf 10 a @ tk K_DOTDOT # at_level sf 10 b @ w, es)
        = Some (a, tk K_DOTDOT # at_level sf 10 b @ w, es)"
      by (rule readsD [OF ab(1)]) (use len at follow_dotdot in simp_all)
    moreover have "level pf n 10 (at_level sf 10 b @ w, es) = Some (b, w, es)"
      by (rule readsD [OF ab(2)]) (use len at follow_mono [OF fo] in simp_all)
    ultimately show "level pf n 9 (at_level sf 9 (RangeLit a b) @ w, es) = Some (RangeLit a b, w, es)"
      unfolding at by (simp add: level_def Let_def parseRange_def pk_hk p_advance_def)
  qed
  then show ?case using RangeLit.prems by (intro fullI) simp_all
next
  case (BinaryExpr k a b)
  then have k: "binary_op k" "binary_level (binlev k)" using binlev_ops by auto
  have "Suc (binlev k) \<le> 11" using binlev_le [of k] by simp
  then have ab: "spine pf sf (binlev k) a" "reads pf sf (Suc (binlev k)) b"
    using BinaryExpr k(2) by (auto simp: full_def)
  have sp: "spine pf sf (binlev k) (BinaryExpr k a b)" by (rule spine_binary [OF k(1) refl ab])
  show ?case
    using BinaryExpr.prems sp spine_reads [OF sp k(2)] binlev_le [of k] by (intro fullI) simp_all
next
  case (UnaryExpr k a)
  let ?l = "if k = K_NOT then 3 else 8 :: nat"
  have r: "reads pf sf ?l a" using UnaryExpr by (auto intro: full_reads)
  have "reads pf sf ?l (UnaryExpr k a)"
    unfolding reads_def
  proof (intro allI impI)
    fix n w es
    assume len: "length (at_level sf ?l (UnaryExpr k a) @ w) \<le> n" and fo: "follow ?l (hk w)"
    have at: "at_level sf ?l (UnaryExpr k a) @ w = tk k # at_level sf ?l a @ w"
      using body_at_level(3) [of sf k a] at_own [of sf "UnaryExpr k a"] by simp
    have "level pf n ?l (at_level sf ?l a @ w, es) = Some (a, w, es)"
      by (rule readsD [OF r]) (use len at fo in simp_all)
    then show "level pf n ?l (at_level sf ?l (UnaryExpr k a) @ w, es) = Some (UnaryExpr k a, w, es)"
      unfolding at using UnaryExpr.prems
      by (cases "k = K_NOT")
         (auto simp: level_def Let_def parseNot.simps [of _ _ "(tk _ # _, _)"] parseUnary.simps [of _ _ "(tk _ # _, _)"]
           pk_hk p_advance_def unary_op_def)
  qed
  then show ?case using UnaryExpr.prems by (intro fullI) (auto split: if_splits)
next
  case (CallExpr f as)
  have c: "chain pf sf (CallExpr f as)"
  proof (rule chain_call)
    show "chain pf sf f" using CallExpr by (simp add: full_def)
    show "\<forall>a \<in> set as. reads pf sf 0 (arg_expr a) \<and> printable pf sf (arg_expr a)"
    proof
      fix a assume a: "a \<in> set as"
      then have "printable_arg pf sf a" using CallExpr.prems by (simp add: list_all_iff)
      moreover have "printable pf sf (arg_expr a)" using calculation by (cases a) simp
      ultimately show "reads pf sf 0 (arg_expr a) \<and> printable pf sf (arg_expr a)"
        using CallExpr.IH(2) [OF a] by (simp add: full_def)
    qed
  qed
  show ?case using CallExpr.prems c chain_reads [OF c] by (intro fullI) simp_all
next
  case (MemberExpr r g)
  then have c: "chain pf sf (MemberExpr r g)" by (intro chain_member) (simp add: full_def)
  show ?case using MemberExpr.prems c chain_reads [OF c] by (intro fullI) simp_all
next
  case (IndexExpr r i)
  then have c: "chain pf sf (IndexExpr r i)" by (intro chain_index) (simp_all add: full_def)
  show ?case using IndexExpr.prems c chain_reads [OF c] by (intro fullI) simp_all
next
  case (LambdaExpr p b)
  then have r: "reads pf sf 0 b" by (auto intro: full_reads)
  have "reads pf sf 0 (LambdaExpr p b)"
    unfolding reads_def
  proof (intro allI impI)
    fix n w es
    assume len: "length (at_level sf 0 (LambdaExpr p b) @ w) \<le> n" and fo: "follow 0 (hk w)"
    have "parseExpr_n pf n (body sf b @ w, es) = Some (b, w, es)"
      by (rule inner_reads [OF r]) (use len fo in simp_all)
    then show "level pf n 0 (at_level sf 0 (LambdaExpr p b) @ w, es) = Some (LambdaExpr p b, w, es)"
      by (simp add: level_def pk_hk parseLambda_def p_expect_def p_advance_def)
  qed
  then show ?case using LambdaExpr.prems by (intro fullI) simp_all
qed simp_all

text \<open>The printed tokens of an expression, read by \<open>parseExpr\<close>.\<close>

lemma parse_print_expr:
  assumes "printable pf sf e" "follow 0 (hk w)"
  shows "parseExpr pf (body sf e @ w, es) = Some (e, w, es)"
proof -
  have "reads pf sf 0 e" using full_reads [OF printable_full(1) [OF assms(1)]] by simp
  from inner_reads [OF this, of w "Suc (length (body sf e @ w))"] assms(2) show ?thesis
    by (simp add: parseExpr_def)
qed

end
