(* ===== verification/DslText.thy ===== *)
theory DslText
  imports DslRender DslLexProps DslRound
begin

text \<open>
  The front end as a whole, from source bytes to a tree: an expression is printed (\<open>DslPrint\<close>), its tokens are
  rendered (\<open>DslRender\<close>), and \<open>ParseExpr\<close> lexes and parses the text. \<open>writable\<close> says which names, strings and
  floats have a spelling; the flag is set inside the placeholder of an f-string, where the lexer knows
  no second f-string.
\<close>

fun writable :: "unicode \<Rightarrow> (u64 \<Rightarrow> gostring) \<Rightarrow> bool \<Rightarrow> expr \<Rightarrow> bool"
  and writable_arg :: "unicode \<Rightarrow> (u64 \<Rightarrow> gostring) \<Rightarrow> bool \<Rightarrow> arg \<Rightarrow> bool" where
  "writable u sf b NilExpr = False"
| "writable u sf b (IntLit v) = True"
| "writable u sf b (FloatLit v) = float_text (sf v)"
| "writable u sf b (StringLit s) = utf8 s"
| "writable u sf b (FStringLit ps) = (\<not> b \<and> list_all (writable u sf True) ps)"
| "writable u sf b (BoolLit v) = True"
| "writable u sf b NullLit = True"
| "writable u sf b (RangeLit x y) = (writable u sf b x \<and> writable u sf b y)"
| "writable u sf b (ListLit es) = list_all (writable u sf b) es"
| "writable u sf b (Ident n) = ident_text u n"
| "writable u sf b (BinaryExpr k x y) = (binary_op k \<and> writable u sf b x \<and> writable u sf b y)"
| "writable u sf b (UnaryExpr k x) = (unary_op k \<and> writable u sf b x)"
| "writable u sf b (CallExpr f as) = (writable u sf b f \<and> list_all (writable_arg u sf b) as)"
| "writable u sf b (MemberExpr r f) = (writable u sf b r \<and> ident_text u f)"
| "writable u sf b (LambdaExpr p x) = (ident_text u p \<and> writable u sf b x)"
| "writable u sf b (IndexExpr r i) = (writable u sf b r \<and> writable u sf b i)"
| "writable_arg u sf b (Arg n e) = ((n \<noteq> [] \<longrightarrow> ident_text u n) \<and> writable u sf b e)"

section \<open>The mode of the lexer over a token list\<close>

definition mode_after :: "bool \<Rightarrow> tok list \<Rightarrow> bool" where
  "mode_after b ts = fold (\<lambda>t b. after_tok b t) ts b"

lemma mode_after_simps [simp]:
  "mode_after b [] = b" "mode_after b (t # ts) = mode_after (after_tok b t) ts"
  "mode_after b (xs @ ys) = mode_after (mode_after b xs) ys"
  by (simp_all add: mode_after_def)

lemma moded_append: "moded b xs \<Longrightarrow> moded (mode_after b xs) ys \<Longrightarrow> moded b (xs @ ys)"
  by (induction xs arbitrary: b) auto

text \<open>Well-formed tokens that leave the mode as they find it.\<close>

definition steady :: "unicode \<Rightarrow> bool \<Rightarrow> tok list \<Rightarrow> bool" where
  "steady u b ts \<longleftrightarrow> list_all (wf_tok u) ts \<and> moded b ts \<and> mode_after b ts = b"

lemma steady_append: "steady u b xs \<Longrightarrow> steady u b ys \<Longrightarrow> steady u b (xs @ ys)"
  by (simp add: steady_def moded_append)

lemma steady_Nil [simp]: "steady u b []"
  by (simp add: steady_def)

definition plain :: "kind \<Rightarrow> bool" where
  "plain k \<longleftrightarrow> k \<notin> {K_ILLEGAL, K_EOF, K_NEWLINE, K_FSTRING_OPEN, K_FSTRING_PART, K_FSTRING_CLOSE, K_RBRACE}"

lemma steady_one: "plain (fst t) \<Longrightarrow> wf_tok u t \<Longrightarrow> steady u b [t]"
  by (cases t) (auto simp: steady_def plain_def allowed_def opens_def after_tok_def)

lemma steady_Cons: "plain (fst t) \<Longrightarrow> wf_tok u t \<Longrightarrow> steady u b ts \<Longrightarrow> steady u b (t # ts)"
  using steady_append [OF steady_one] by simp

definition named :: "kind \<Rightarrow> bool" where
  "named k \<longleftrightarrow> plain k \<and> k \<notin> {K_IDENT, K_INT, K_FLOAT, K_STRING}"

lemma named_tk: "named k \<Longrightarrow> plain k \<and> wf_tok u (tk k)"
  by (auto simp: named_def plain_def wf_tok_def tk_def)

lemma steady_tk: "named k \<Longrightarrow> steady u b ts \<Longrightarrow> steady u b (tk k # ts)"
  by (rule steady_Cons) (simp_all add: named_tk)

lemma named_kinds [simp]:
  "named K_LPAREN" "named K_RPAREN" "named K_LBRACK" "named K_RBRACK" "named K_COMMA" "named K_DOTDOT"
  "named K_DOT" "named K_ASSIGN" "named K_FATARROW" "named K_TRUE" "named K_FALSE" "named K_NULL"
  by (simp_all add: named_def plain_def)

lemma named_binary: "binary_op k \<Longrightarrow> named k"
  by (auto simp: binary_op_def named_def plain_def)

lemma named_unary: "unary_op k \<Longrightarrow> named k"
  by (auto simp: unary_op_def named_def plain_def)

lemma steady_ident: "ident_text u n \<Longrightarrow> steady u b ts \<Longrightarrow> steady u b ((K_IDENT, n) # ts)"
  by (rule steady_Cons) (simp_all add: plain_def wf_tok_def)

lemma steady_paren: "steady u b ts \<Longrightarrow> steady u b (paren c ts)"
  by (simp add: paren_def steady_tk steady_append)

lemma steady_commas: "list_all (steady u b) tss \<Longrightarrow> steady u b (commas tss)"
  by (induction tss rule: commas.induct) (auto intro!: steady_append steady_tk)

section \<open>F-strings\<close>

lemma fstring_rest_nonempty: "fstring_rest ps \<noteq> []"
  by (subst fstring_rest.simps) (auto split: prod.splits list.splits)

text \<open>A part of an f-string is spelt when its literal text is, or its placeholder holds steady tokens.\<close>

definition part_ok :: "unicode \<Rightarrow> expr \<times> tok list \<Rightarrow> bool" where
  "part_ok u p \<longleftrightarrow> steady u True (snd p) \<and> (\<forall>s. fst p = StringLit s \<longrightarrow> utf8 s)"

lemma utf8_Nil [simp]: "utf8 []"
  by (simp add: utf8_def string_of_runes_def)

lemma take_fragment_ok:
  assumes "list_all (part_ok u) ps" "take_fragment ps = (f, qs)"
  shows "utf8 f \<and> list_all (part_ok u) qs"
  using assms by (cases ps rule: take_fragment.cases) (auto simp: part_ok_def split: if_splits)

lemma wf_tok_fstring [simp]:
  "wf_tok u (K_FSTRING_OPEN, s) = utf8 s" "wf_tok u (K_FSTRING_PART, s) = utf8 s" "wf_tok u (K_FSTRING_CLOSE, s) = utf8 s"
  by (simp_all add: wf_tok_def)

lemma fstring_rest_steady:
  "list_all (part_ok u) ps \<Longrightarrow>
   list_all (wf_tok u) (fstring_rest ps) \<and> moded True (fstring_rest ps) \<and> \<not> mode_after True (fstring_rest ps)"
proof (induction ps rule: fstring_rest.induct)
  case (1 ps)
  obtain f qs where t: "take_fragment ps = (f, qs)" by fastforce
  note ok = take_fragment_ok [OF 1(2) t]
  show ?case
  proof (cases qs)
    case Nil
    then have "fstring_rest ps = [(K_FSTRING_CLOSE, f)]" using t by (subst fstring_rest.simps) simp
    then show ?thesis using ok by (simp add: allowed_def opens_def after_tok_def)
  next
    case (Cons q rs)
    obtain e ts where q: "q = (e, ts)" by fastforce
    have e: "fstring_rest ps = (K_FSTRING_PART, f) # ts @ fstring_rest rs"
      using t Cons q by (subst fstring_rest.simps) simp
    have r: "list_all (wf_tok u) (fstring_rest rs) \<and> moded True (fstring_rest rs) \<and> \<not> mode_after True (fstring_rest rs)"
      using 1(1) t Cons q ok by auto
    have "steady u True ts" using ok Cons q by (simp add: part_ok_def)
    then show ?thesis
      using r ok unfolding e steady_def
      by (simp add: allowed_def opens_def after_tok_def moded_append fstring_rest_nonempty)
  qed
qed

lemma fstring_toks_steady:
  assumes "list_all (part_ok u) ps"
  shows "steady u False (fstring_toks ps)"
proof -
  obtain f qs where t: "take_fragment ps = (f, qs)" by fastforce
  note ok = take_fragment_ok [OF assms t]
  show ?thesis
  proof (cases qs)
    case Nil
    then show ?thesis using ok t
      by (simp add: fstring_toks_def steady_def allowed_def opens_def after_tok_def)
  next
    case (Cons q rs)
    obtain e ts where q: "q = (e, ts)" by fastforce
    have "list_all (part_ok u) rs" "steady u True ts" using ok Cons q by (simp_all add: part_ok_def)
    then show ?thesis using fstring_rest_steady [of u rs] ok t Cons q
      by (simp add: fstring_toks_def steady_def allowed_def opens_def after_tok_def moded_append
          fstring_rest_nonempty)
  qed
qed

section \<open>Printed expressions\<close>

lemma digits_wf: "wf_tok u (K_INT, digits n)"
  using digits_facts [of n] by (auto simp: wf_tok_def digit_bytes_def is_digit_def word_le_nat_alt)

lemma body_steady:
  fixes e :: expr and a :: arg
  shows "writable u sf b e \<Longrightarrow> steady u b (body sf e)"
    and "writable_arg u sf b a \<Longrightarrow> steady u b (body_arg sf a)"
proof (induction e and a arbitrary: b and b)
  case (IntLit v)
  show ?case by (simp add: steady_one plain_def digits_wf)
next
  case (FloatLit v)
  then show ?case by (simp add: steady_one plain_def wf_tok_def)
next
  case (StringLit s)
  then show ?case by (simp add: steady_one plain_def wf_tok_def)
next
  case (FStringLit ps)
  then have "list_all (part_ok u) (map (\<lambda>p. (p, body sf p)) ps)" by (auto simp: list_all_iff part_ok_def)
  with FStringLit.prems show ?case by (simp add: fstring_toks_steady)
next
  case (ListLit es)
  then have "steady u b (commas (map (body sf) es))" by (intro steady_commas) (auto simp: list_all_iff)
  then show ?case by (simp add: steady_tk steady_append)
next
  case (CallExpr f as)
  then have "steady u b (commas (map (body_arg sf) as))" by (intro steady_commas) (auto simp: list_all_iff)
  with CallExpr show ?case by (simp add: steady_tk steady_append steady_paren)
qed (simp_all add: steady_tk steady_append steady_paren steady_ident named_binary named_unary)

section \<open>From text to tree\<close>

text \<open>The text of an expression.\<close>

definition expr_text :: "(u64 \<Rightarrow> gostring) \<Rightarrow> expr \<Rightarrow> gostring" where
  "expr_text sf e = render (body sf e)"

lemma lex_expr_text:
  "writable u sf False e \<Longrightarrow>
   map tok_of (fst (lex_all u (New (expr_text sf e)))) = body sf e @ [(K_EOF, [])]
   \<and> l_errs (snd (lex_all u (New (expr_text sf e)))) = []"
  unfolding expr_text_def
  by (rule lex_render) (use body_steady(1) [of u sf False e] in \<open>simp_all add: steady_def list_all_iff\<close>)

text \<open>C34. An expression printed with the fewest parentheses the precedence table allows, rendered as source text and
  given to \<open>ParseExpr\<close>, is read back as the same tree without a diagnostic.\<close>

theorem expression_round_trip:
  assumes "writable u sf False e" "printable pf sf e"
  shows "ParseExpr u pf (expr_text sf e) = Some (e, None)"
proof -
  have "new_parser u (expr_text sf e) = (body sf e @ [(K_EOF, [])], [])"
    using lex_expr_text [OF assms(1)] by (simp add: new_parser_def)
  moreover have "parseExpr pf (body sf e @ [(K_EOF, [])], []) = Some (e, [(K_EOF, [])], [])"
    by (rule parse_print_expr [OF assms(2)]) (simp add: follow_def ops_def eq_op_def cmp_op_def add_op_def mul_op_def)
  ultimately show ?thesis by (simp add: ParseExpr_def pk_def)
qed

theorem expression_round_trip_witness:
  "ParseExpr \<lparr>uni_letter = \<lambda>r. False, uni_digit = \<lambda>r. False, uni_print = \<lambda>r. True\<rparr> (\<lambda>s. None)
      (expr_text (\<lambda>v. []) (BinaryExpr K_MUL (BinaryExpr K_ADD (Ident [97]) (IntLit 12))
         (FStringLit [StringLit [104], Ident [98]])))
    = Some (BinaryExpr K_MUL (BinaryExpr K_ADD (Ident [97]) (IntLit 12))
         (FStringLit [StringLit [104], Ident [98]]), None)"
proof (rule expression_round_trip)
  have k: "keyword [97] = None" "keyword [98] = None" by code_simp+
  have r: "runes [97] = [97]" "runes [98] = [98]" "runes [104] = [104]" "runes [] = []" by code_simp+
  have s: "encode_rune 97 = [97]" "encode_rune 98 = [98]" "encode_rune 104 = [104]" by code_simp+
  have "ident_text u [97]" "ident_text u [98]" "utf8 [104]" for u
    by (simp_all add: ident_text_def utf8_def k r s string_of_runes_def word_runes_def valid_rune_def ident_rune_def
        IsLetter_def IsSpace_def)
  then show "writable \<lparr>uni_letter = \<lambda>r. False, uni_digit = \<lambda>r. False, uni_print = \<lambda>r. True\<rparr> (\<lambda>v. []) False
      (BinaryExpr K_MUL (BinaryExpr K_ADD (Ident [97]) (IntLit 12))
         (FStringLit [StringLit [104], Ident [98]]))"
    by (simp add: binary_op_def)
qed (simp add: binary_op_def)

end
