(* ===== verification/DslFindings.thy ===== *)
theory DslFindings
  imports DslStmts
begin

text \<open>
  Programs whose parse is not what the comments of lex.go and parser.go lead one to expect, each evaluated.
  \<open>latin\<close> is a table without letters beyond Latin-1.
\<close>

abbreviation latin :: unicode where
  "latin \<equiv> \<lparr>uni_letter = \<lambda>r. False, uni_digit = \<lambda>r. False, uni_print = \<lambda>r. True\<rparr>"

abbreviation no_float :: "gostring \<Rightarrow> u64 option" where
  "no_float \<equiv> \<lambda>s. None"

text \<open>\<open>f"a"\<close> is lexed as the end of an f-string, which starts no expression.\<close>

lemma plain_fstring_tokens:
  "map tok_of (fst (lex_all latin (New [102, 34, 97, 34]))) = [(K_FSTRING_CLOSE, [97]), (K_EOF, [])]"
  by code_simp

lemma plain_fstring_rejected:
  "ParseExpr latin no_float [102, 34, 97, 34]
     = Some (NilExpr, Some (PErr ''expected expression, got %s'' [K_FSTRING_CLOSE]))"
proof -
  have "parseExpr no_float ([(K_FSTRING_CLOSE, [97]), (K_EOF, [])], [])
      = Some (NilExpr, [(K_EOF, [])], [PErr ''expected expression, got %s'' [K_FSTRING_CLOSE]])" by code_simp
  then show ?thesis by (simp add: ParseExpr_def new_parser_def plain_fstring_tokens)
qed

text \<open>\<open>a + 1 .. b + 2\<close>\<close>

lemma range_binds_tight:
  "map_option fst (parseExpr no_float
     ([(K_IDENT, [97]), (K_ADD, []), (K_INT, [49]), (K_DOTDOT, []), (K_IDENT, [98]), (K_ADD, []), (K_INT, [50])], []))
   = Some (BinaryExpr K_ADD (BinaryExpr K_ADD (Ident [97]) (RangeLit (IntLit 1) (Ident [98]))) (IntLit 2))"
  by code_simp

text \<open>\<open>- a .. b\<close>\<close>

lemma sign_covers_range:
  "map_option fst (parseExpr no_float ([(K_SUB, []), (K_IDENT, [97]), (K_DOTDOT, []), (K_IDENT, [98])], []))
   = Some (UnaryExpr K_SUB (RangeLit (Ident [97]) (Ident [98])))"
  by code_simp

text \<open>\<open>{ wait (a) - b }\<close>: two statements.\<close>

lemma wait_takes_parenthesis:
  "map_option fst (parseBlock (parseStmt no_float)
     ([(K_LBRACE, []), (K_WAIT, []), (K_LPAREN, []), (K_IDENT, [97]), (K_RPAREN, []), (K_SUB, []), (K_IDENT, [98]),
       (K_RBRACE, [])], []))
   = Some [WaitStmt (Ident [97]), ExprStmt (UnaryExpr K_SUB (Ident [98]))]"
  by code_simp

text \<open>\<open>{ ) }\<close>: the failed expression statement stays in the block.\<close>

lemma nil_statement_kept:
  "map_option fst (parseBlock (parseStmt no_float) ([(K_LBRACE, []), (K_RPAREN, []), (K_RBRACE, [])], []))
   = Some [NilExprStmt]"
  by code_simp

text \<open>\<open>return if\<close>: no bare return before a statement.\<close>

lemma bare_return_needs_end:
  "map_option (\<lambda>(st, s). (st, snd s)) (parseStmt no_float ([(K_RETURN, []), (K_IF, []), (K_TRUE, [])], []))
   = Some (Some (ReturnStmt NilExpr), [PErr ''expected expression, got %s'' [K_IF]])"
  by code_simp

end
