(* ===== verification/DslValue.thy ===== *)
theory DslValue
  imports DslParser
begin

text \<open>
  Run-time values of the routine language (dsl/interp/value.go and error.go). Values that Go holds by
  pointer (ranges, lists, maps, callables, host entities) are \<open>VRef a x\<close>: the identity \<open>a\<close>, on which \<open>==\<close> falls
  back, and the object \<open>x\<close>. No object is mutated. A procedure is its name, its file and its place in it. A \<open>Map\<close> is a list of pairs in the order in which Go
  ranges over it.

  \<open>float64\<close> arithmetic, its text and the conversion to an integer are the fields of \<open>floats\<close>; a float is
  its 64 bits. What the host supplies (entities, actions, the state they read) is in \<open>DslHost\<close>.
\<close>

section \<open>Error codes\<close>

datatype ErrorCode =
  PATH_BLOCKED | OUT_OF_RANGE | DOOR_LOCKED | INVENTORY_FULL | INVENTORY_EMPTY | NO_SUCH_ITEM | TARGET_DEAD
| TARGET_OUT_OF_VIEW | RETREAT_TOO_EARLY | EAT_IN_COMBAT | NOT_LOGGED_IN | INTERRUPTED | BANK_NOT_OPEN
| TRADE_NOT_ACTIVE | DIALOG_NOT_OPEN | ACTION_TIMEOUT | SERVER_REJECTED | NOT_IMPLEMENTED | SHOP_NOT_OPEN
| POLICY_VETO | FORMAT_MISMATCH

definition errorCodeNames :: "ErrorCode \<Rightarrow> string" where
  "errorCodeNames c =
     (case c of
        PATH_BLOCKED \<Rightarrow> ''PATH_BLOCKED'' | OUT_OF_RANGE \<Rightarrow> ''OUT_OF_RANGE'' | DOOR_LOCKED \<Rightarrow> ''DOOR_LOCKED''
      | INVENTORY_FULL \<Rightarrow> ''INVENTORY_FULL'' | INVENTORY_EMPTY \<Rightarrow> ''INVENTORY_EMPTY''
      | NO_SUCH_ITEM \<Rightarrow> ''NO_SUCH_ITEM'' | TARGET_DEAD \<Rightarrow> ''TARGET_DEAD''
      | TARGET_OUT_OF_VIEW \<Rightarrow> ''TARGET_OUT_OF_VIEW'' | RETREAT_TOO_EARLY \<Rightarrow> ''RETREAT_TOO_EARLY''
      | EAT_IN_COMBAT \<Rightarrow> ''EAT_IN_COMBAT'' | NOT_LOGGED_IN \<Rightarrow> ''NOT_LOGGED_IN'' | INTERRUPTED \<Rightarrow> ''INTERRUPTED''
      | BANK_NOT_OPEN \<Rightarrow> ''BANK_NOT_OPEN'' | TRADE_NOT_ACTIVE \<Rightarrow> ''TRADE_NOT_ACTIVE''
      | DIALOG_NOT_OPEN \<Rightarrow> ''DIALOG_NOT_OPEN'' | ACTION_TIMEOUT \<Rightarrow> ''ACTION_TIMEOUT''
      | SERVER_REJECTED \<Rightarrow> ''SERVER_REJECTED'' | NOT_IMPLEMENTED \<Rightarrow> ''NOT_IMPLEMENTED''
      | SHOP_NOT_OPEN \<Rightarrow> ''SHOP_NOT_OPEN'' | POLICY_VETO \<Rightarrow> ''POLICY_VETO''
      | FORMAT_MISMATCH \<Rightarrow> ''FORMAT_MISMATCH'')"

section \<open>Values\<close>

text \<open>Who made a reference value: the interpreter (a running number) or the host.\<close>

datatype addr = Own nat | Foreign nat

text \<open>A registered callable: a function of the host, or the bang form of a callable.\<close>

datatype builtin = HostFn nat | BangCallable builtin

datatype val =
  VNull | VBool bool | VInt int | VFloat u64 | VString gostring | VRef addr obj
and obj =
  Range val val
| List "val list"
| Map "(gostring \<times> val) list"
| Error ErrorCode gostring bool
| CallResult val "val option"
| BuiltinValue gostring builtin
| FormatCallable
| StringContains gostring
| ListFilter "val list"
| ListMap "val list"
| ListFind "val list"
| ListNearest "val list"
| Lambda nat gostring expr
| ProcCallable gostring nat nat
| Region nat
| Entity nat

record floats =
  f_of_int :: "int \<Rightarrow> u64"
  f_add :: "u64 \<Rightarrow> u64 \<Rightarrow> u64"
  f_sub :: "u64 \<Rightarrow> u64 \<Rightarrow> u64"
  f_mul :: "u64 \<Rightarrow> u64 \<Rightarrow> u64"
  f_div :: "u64 \<Rightarrow> u64 \<Rightarrow> u64"
  f_mod :: "u64 \<Rightarrow> u64 \<Rightarrow> u64"
  f_neg :: "u64 \<Rightarrow> u64"
  f_lt :: "u64 \<Rightarrow> u64 \<Rightarrow> bool"
  f_le :: "u64 \<Rightarrow> u64 \<Rightarrow> bool"
  f_eq :: "u64 \<Rightarrow> u64 \<Rightarrow> bool"
  f_show :: "u64 \<Rightarrow> gostring"
  f_nanos :: "u64 \<Rightarrow> int"

section \<open>Text of a value\<close>

fun FormatNat :: "nat \<Rightarrow> gostring" where
  "FormatNat n = (if n < 10 then [of_nat (48 + n)] else FormatNat (n div 10) @ [of_nat (48 + n mod 10)])"

declare FormatNat.simps [simp del]

definition FormatInt :: "int \<Rightarrow> gostring" where
  "FormatInt v = (if v < 0 then 45 # FormatNat (nat (- v)) else FormatNat (nat v))"

fun Join :: "gostring list \<Rightarrow> gostring \<Rightarrow> gostring" where
  "Join [] sep = []"
| "Join [x] sep = x"
| "Join (x # y # ys) sep = x @ sep @ Join (y # ys) sep"

text \<open>\<open>Display\<close>; \<open>ent\<close> is the text of a host entity.\<close>

fun Display :: "floats \<Rightarrow> (nat \<Rightarrow> gostring) \<Rightarrow> val \<Rightarrow> gostring"
  and display_obj :: "floats \<Rightarrow> (nat \<Rightarrow> gostring) \<Rightarrow> obj \<Rightarrow> gostring" where
  "Display fp ent VNull = lit ''null''"
| "Display fp ent (VBool b) = (if b then lit ''true'' else lit ''false'')"
| "Display fp ent (VInt i) = FormatInt i"
| "Display fp ent (VFloat f) = f_show fp f"
| "Display fp ent (VString s) = s"
| "Display fp ent (VRef a x) = display_obj fp ent x"
| "display_obj fp ent (Range lo hi) = Display fp ent lo @ lit ''..'' @ Display fp ent hi"
| "display_obj fp ent (List xs) = lit ''['' @ Join (map (Display fp ent) xs) (lit '', '') @ lit '']''"
| "display_obj fp ent (Map kvs) =
     lit ''{'' @ Join (map (\<lambda>(k, v). k @ lit '': '' @ Display fp ent v) kvs) (lit '', '') @ lit ''}''"
| "display_obj fp ent (Error c r ftl) =
     (if r = [] then lit (errorCodeNames c) else lit (errorCodeNames c) @ lit '': '' @ r)"
| "display_obj fp ent (CallResult v e) =
     (case e of Some x \<Rightarrow> lit ''{err: '' @ Display fp ent x @ lit ''}''
      | None \<Rightarrow> lit ''{val: '' @ Display fp ent v @ lit ''}'')"
| "display_obj fp ent (BuiltinValue n b) = lit ''<builtin '' @ n @ lit ''>''"
| "display_obj fp ent FormatCallable = lit ''<format>''"
| "display_obj fp ent (StringContains s) = lit ''<contains>''"
| "display_obj fp ent (ListFilter xs) = lit ''<list.filter>''"
| "display_obj fp ent (ListMap xs) = lit ''<list.map>''"
| "display_obj fp ent (ListFind xs) = lit ''<list.find>''"
| "display_obj fp ent (ListNearest xs) = lit ''<list.nearest>''"
| "display_obj fp ent (Lambda env p b) = lit ''<lambda('' @ p @ lit '')>''"
| "display_obj fp ent (ProcCallable n f i) = lit ''<proc '' @ n @ lit ''>''"
| "display_obj fp ent (Region n) = ent n"
| "display_obj fp ent (Entity n) = ent n"

section \<open>Truth and equality\<close>

text \<open>\<open>nl\<close> says which host entities are \<open>NullLike\<close>.\<close>

definition IsNullish :: "(nat \<Rightarrow> bool) \<Rightarrow> val \<Rightarrow> bool" where
  "IsNullish nl v = (case v of VNull \<Rightarrow> True | VRef a (Entity n) \<Rightarrow> nl n | _ \<Rightarrow> False)"

fun Truthy :: "floats \<Rightarrow> (nat \<Rightarrow> bool) \<Rightarrow> val \<Rightarrow> bool" where
  "Truthy fp nl VNull = False"
| "Truthy fp nl (VBool b) = b"
| "Truthy fp nl (VInt i) = (i \<noteq> 0)"
| "Truthy fp nl (VFloat f) = (\<not> f_eq fp f 0)"
| "Truthy fp nl (VString s) = (s \<noteq> [])"
| "Truthy fp nl (VRef a (List xs)) = (xs \<noteq> [])"
| "Truthy fp nl (VRef a (Map kvs)) = (kvs \<noteq> [])"
| "Truthy fp nl (VRef a (Entity n)) = (\<not> nl n)"
| "Truthy fp nl (VRef a x) = True"

lemma size_member: "x \<in> set xs \<Longrightarrow> size x \<le> size_list size xs"
  by (induction xs) auto

lemma size_pair_member: "(k, x) \<in> set xs \<Longrightarrow> size x \<le> size_list (size_prod (\<lambda>x. 0) size) xs"
  by (induction xs) auto

lemma size_zip_member: "(x, y) \<in> set (zip xs ys) \<Longrightarrow> size x \<le> size_list size xs"
  by (auto dest: set_zip_leftD size_member)

text \<open>Go's \<open>==\<close> on two interfaces: pointers by identity, the one struct value by its field.\<close>

definition same_ref :: "addr \<Rightarrow> obj \<Rightarrow> addr \<Rightarrow> obj \<Rightarrow> bool" where
  "same_ref a x b y =
     (case (x, y) of (StringContains s, StringContains t) \<Rightarrow> s = t | _ \<Rightarrow> a = b)"

function Equal :: "floats \<Rightarrow> (nat \<Rightarrow> bool) \<Rightarrow> val \<Rightarrow> val \<Rightarrow> bool" where
  "Equal fp nl a b =
     (if IsNullish nl a \<or> IsNullish nl b then IsNullish nl a \<and> IsNullish nl b
      else case a of
        VBool x \<Rightarrow> (case b of VBool y \<Rightarrow> x = y | _ \<Rightarrow> False)
      | VInt i \<Rightarrow> (case b of VInt j \<Rightarrow> i = j | VFloat g \<Rightarrow> f_eq fp (f_of_int fp i) g | _ \<Rightarrow> False)
      | VFloat f \<Rightarrow> (case b of VFloat g \<Rightarrow> f_eq fp f g | VInt j \<Rightarrow> f_eq fp f (f_of_int fp j) | _ \<Rightarrow> False)
      | VString s \<Rightarrow> (case b of VString t \<Rightarrow> s = t | _ \<Rightarrow> False)
      | VRef p (List xs) \<Rightarrow>
          (case b of VRef q (List ys) \<Rightarrow> length xs = length ys \<and> list_all (\<lambda>(x, y). Equal fp nl x y) (zip xs ys)
           | _ \<Rightarrow> False)
      | VRef p (Map xs) \<Rightarrow>
          (case b of
             VRef q (Map ys) \<Rightarrow>
               length xs = length ys
               \<and> list_all (\<lambda>(k, x). case map_of ys k of None \<Rightarrow> False | Some y \<Rightarrow> Equal fp nl x y) xs
           | _ \<Rightarrow> False)
      | VRef p x \<Rightarrow> (case b of VRef q y \<Rightarrow> same_ref p x q y | _ \<Rightarrow> False)
      | VNull \<Rightarrow> False)"
  by pat_completeness auto
termination
  by (relation "measure (\<lambda>(fp, nl, a, b). size a)")
     (auto dest: size_zip_member dest!: size_pair_member [of _ _ "_ :: (gostring \<times> val) list"])

declare Equal.simps [simp del]

text \<open>\<open>valueEqual\<close> of watchers.go, for the \<open>changes\<close> qualifier: lists and maps by identity.\<close>

definition valueEqual :: "floats \<Rightarrow> val \<Rightarrow> val \<Rightarrow> bool" where
  "valueEqual fp a b =
     (case a of
        VBool x \<Rightarrow> b = VBool x
      | VInt i \<Rightarrow> b = VInt i
      | VFloat f \<Rightarrow> (case b of VFloat g \<Rightarrow> f_eq fp f g | _ \<Rightarrow> False)
      | VString s \<Rightarrow> b = VString s
      | VNull \<Rightarrow> b = VNull
      | VRef p x \<Rightarrow> (case b of VRef q y \<Rightarrow> same_ref p x q y | _ \<Rightarrow> False))"

definition AsInt :: "val \<Rightarrow> int option" where
  "AsInt v = (case v of VInt i \<Rightarrow> Some i | _ \<Rightarrow> None)"

definition AsFloat :: "floats \<Rightarrow> val \<Rightarrow> u64 option" where
  "AsFloat fp v = (case v of VInt i \<Rightarrow> Some (f_of_int fp i) | VFloat f \<Rightarrow> Some f | _ \<Rightarrow> None)"

end
