(* ===== verification/DslHost.thy ===== *)
theory DslHost
  imports DslValue "HOL-Library.AList"
begin

text \<open>
  What an evaluation works on: the host, the state of an interpreter and the operations on its parts
  (dsl/interp/env.go, caps.go and the data of interp.go, events.go, watchers.go).

  Everything that is not the interpreter is the record \<open>host\<close>: the entities and actions, which act on a world
  of type \<open>'w\<close>, the clock, the random numbers, the event queue, cancellation. A host function that
  calls back (\<open>wait_until\<close>, \<open>nearest_npc\<close>) answers \<open>HAsk\<close> and is resumed with the result.

  Go returns an error or panics. An action \<open>('a, 'w) act\<close> has three outcomes accordingly, and \<open>None\<close> when it
  does not return.
\<close>

section \<open>Outcomes\<close>

text \<open>
  A \<open>RuntimeError\<close>: its format string and what is printed in it. \<open>Unvalidated\<close> is one of the errors that the
  validator is there to rule out, \<open>ContainedPanic\<close> the error that a Go panic is converted to.
\<close>

datatype rterr = RtErr string "gostring list" | Unvalidated string | ContainedPanic

datatype signal =
  BreakSignal | ContinueSignal | ReturnSignal val | AbortSignal val | Panicked rterr | GoPanic

datatype 'a outcome = Ret 'a | Fail rterr | Throw signal

text \<open>What a host function answers.\<close>

datatype hostres = HRet val | HErr rterr | HAbort val | HPanic | HAsk val "val list"

text \<open>Which channel wakes a waiting \<open>select\<close>.\<close>

datatype wake = WakeDone | WakeTimer | WakeOn

record caps =
  OpBudget :: int
  WallClock :: int
  MaxRecursion :: int
  MaxListLen :: int
  MaxStringLen :: int

definition DefaultCaps :: caps where
  "DefaultCaps = \<lparr>OpBudget = 1000000, WallClock = 4 * 3600 * 1000000000, MaxRecursion = 64, MaxListLen = 1024,
     MaxStringLen = 4096\<rparr>"

record 'w host =
  h_fp :: floats
  h_lower :: "gostring \<Rightarrow> gostring"
  h_upper :: "gostring \<Rightarrow> gostring"
  h_caps :: caps
  h_builtins :: "gostring \<Rightarrow> builtin option"
  h_reserved :: "(gostring \<times> val) list"
  h_call :: "nat \<Rightarrow> val list \<Rightarrow> (gostring \<times> val) list \<Rightarrow> 'w \<Rightarrow> hostres \<times> 'w"
  h_resume :: "rterr + val \<Rightarrow> 'w \<Rightarrow> hostres \<times> 'w"
  h_yields :: "nat \<Rightarrow> bool"
  h_callable :: "nat \<Rightarrow> bool"
  h_nulllike :: "nat \<Rightarrow> bool"
  h_kind :: "nat \<Rightarrow> gostring"
  h_display :: "nat \<Rightarrow> 'w \<Rightarrow> gostring"
  h_getter :: "nat \<Rightarrow> bool"
  h_get :: "nat \<Rightarrow> gostring \<Rightarrow> 'w \<Rightarrow> val option"
  h_indexer :: "nat \<Rightarrow> bool"
  h_index :: "nat \<Rightarrow> val \<Rightarrow> 'w \<Rightarrow> val option"
  h_region :: "nat \<Rightarrow> int \<Rightarrow> int \<Rightarrow> bool"
  h_reachable :: "(int \<Rightarrow> int \<Rightarrow> 'w \<Rightarrow> bool) option"
  h_cancelled :: "'w \<Rightarrow> bool \<times> 'w"
  h_now :: "'w \<Rightarrow> int \<times> 'w"
  h_poll :: "'w \<Rightarrow> (gostring \<times> val list) option \<times> 'w"
  h_float64 :: "'w \<Rightarrow> u64 \<times> 'w"
  h_intn :: "nat \<Rightarrow> 'w \<Rightarrow> nat \<times> 'w"
  h_boundary :: "'w \<Rightarrow> 'w"
  h_wake :: "bool \<Rightarrow> 'w \<Rightarrow> wake \<times> 'w"

section \<open>The state of an interpreter\<close>

text \<open>An \<open>Env\<close>: its parent's address and its own bindings.\<close>

type_synonym scope = "nat option \<times> (gostring \<times> val) list"

record budget =
  opsRemaining :: int
  deadline :: int
  recursionDepth :: int

record deferredCall =
  d_callee :: val
  d_args :: "val list"
  d_named :: "(gostring \<times> val) list"

record watcher =
  w_predicate :: expr
  w_qualifier :: WhenQualifier
  w_body :: "stmt list"
  w_env :: nat
  w_last :: val

text \<open>A listener that a \<open>select\<close> registers: the event, the select, its case and parameters, the capacity
  of the select's channel.\<close>

record eventListener =
  e_name :: gostring
  e_select :: nat
  e_case :: nat
  e_params :: "gostring list"
  e_room :: nat

record onFired =
  o_case :: nat
  o_args :: "val list"
  o_params :: "gostring list"

text \<open>A region filter: never, or a region of the host.\<close>

datatype region = NeverMatch | HostRegion nat

record BoundedHandler =
  b_Handler :: OnHandler
  b_Filters :: "region list"

record 'w istate =
  i_heap :: "scope list"
  i_next :: nat
  i_files :: "ProcDecl list list"
  i_budget :: "budget option"
  i_deferred :: "deferredCall list"
  i_watchers :: "nat list list"
  i_wstore :: "watcher list"
  i_listeners :: "eventListener list"
  i_onch :: "nat \<Rightarrow> onFired list"
  i_handlers :: "gostring \<Rightarrow> OnHandler list"
  i_bounded :: "gostring \<Rightarrow> BoundedHandler list"
  i_routineEnv :: "nat option"
  i_world :: 'w

text \<open>The procedures of a file that a procedure value points to.\<close>

definition procs_of :: "'w istate \<Rightarrow> nat \<Rightarrow> ProcDecl list" where
  "procs_of s f = (if f < length (i_files s) then i_files s ! f else [])"

type_synonym ('a, 'w) act = "'w istate \<Rightarrow> ('a outcome \<times> 'w istate) option"

definition ret :: "'a \<Rightarrow> ('a, 'w) act" where
  "ret x s = Some (Ret x, s)"

definition fail :: "rterr \<Rightarrow> ('a, 'w) act" where
  "fail e s = Some (Fail e, s)"

definition throw :: "signal \<Rightarrow> ('a, 'w) act" where
  "throw g s = Some (Throw g, s)"

definition bnd :: "('a, 'w) act \<Rightarrow> ('a \<Rightarrow> ('b, 'w) act) \<Rightarrow> ('b, 'w) act" where
  "bnd m f s =
     (case m s of
        None \<Rightarrow> None
      | Some (Ret x, s') \<Rightarrow> f x s'
      | Some (Fail e, s') \<Rightarrow> Some (Fail e, s')
      | Some (Throw g, s') \<Rightarrow> Some (Throw g, s'))"

text \<open>Run \<open>m\<close> and continue on its outcome, whatever it is.\<close>

definition handle :: "('a, 'w) act \<Rightarrow> ('a outcome \<Rightarrow> ('b, 'w) act) \<Rightarrow> ('b, 'w) act" where
  "handle m f s = (case m s of None \<Rightarrow> None | Some (r, s') \<Rightarrow> f r s')"

definition outcome :: "'a outcome \<Rightarrow> ('a, 'w) act" where
  "outcome r s = Some (r, s)"

text \<open>\<open>defer g\<close>: \<open>g\<close> changes the state after \<open>m\<close>, on every path.\<close>

definition deferring :: "('a, 'w) act \<Rightarrow> ('w istate \<Rightarrow> 'w istate) \<Rightarrow> ('a, 'w) act" where
  "deferring m g = handle m (\<lambda>r s. Some (r, g s))"

definition gets :: "('w istate \<Rightarrow> 'a) \<Rightarrow> ('a, 'w) act" where
  "gets f s = Some (Ret (f s), s)"

definition modify :: "('w istate \<Rightarrow> 'w istate) \<Rightarrow> (unit, 'w) act" where
  "modify f s = Some (Ret (), f s)"

text \<open>A step of the world.\<close>

definition world :: "('w \<Rightarrow> 'a \<times> 'w) \<Rightarrow> ('a, 'w) act" where
  "world f s = (let (x, w) = f (i_world s) in Some (Ret x, s\<lparr>i_world := w\<rparr>))"

text \<open>An error as a panic: \<open>if err != nil { panic(err) }\<close>.\<close>

definition panicking :: "('a, 'w) act \<Rightarrow> ('a, 'w) act" where
  "panicking m = handle m (\<lambda>r. case r of Fail e \<Rightarrow> throw (Panicked e) | _ \<Rightarrow> outcome r)"

text \<open>Apply \<open>f\<close> to the elements of a list from the left, and collect the results.\<close>

fun each :: "('a \<Rightarrow> ('b, 'w) act) \<Rightarrow> 'a list \<Rightarrow> ('b list, 'w) act" where
  "each f [] = ret []"
| "each f (x # xs) = bnd (f x) (\<lambda>y. bnd (each f xs) (\<lambda>ys. ret (y # ys)))"

lemma each_cong [fundef_cong]:
  "xs = ys \<Longrightarrow> (\<And>x. x \<in> set ys \<Longrightarrow> f x = g x) \<Longrightarrow> each f xs = each g ys"
  by (induction xs arbitrary: ys) auto

section \<open>Identities\<close>

definition new_ref :: "obj \<Rightarrow> (val, 'w) act" where
  "new_ref x s = Some (Ret (VRef (Own (i_next s)) x), s\<lparr>i_next := Suc (i_next s)\<rparr>)"

section \<open>env.go\<close>

definition NewEnv :: "(nat, 'w) act" where
  "NewEnv s = Some (Ret (length (i_heap s)), s\<lparr>i_heap := i_heap s @ [(None, [])]\<rparr>)"

definition Child :: "nat \<Rightarrow> (nat, 'w) act" where
  "Child e s = Some (Ret (length (i_heap s)), s\<lparr>i_heap := i_heap s @ [(Some e, [])]\<rparr>)"

definition define_in :: "nat \<Rightarrow> gostring \<Rightarrow> val \<Rightarrow> scope list \<Rightarrow> scope list" where
  "define_in e x v hp = (if e < length hp then hp[e := (fst (hp ! e), AList.update x v (snd (hp ! e)))] else hp)"

definition Define :: "nat \<Rightarrow> gostring \<Rightarrow> val \<Rightarrow> (unit, 'w) act" where
  "Define e x v = modify (\<lambda>s. s\<lparr>i_heap := define_in e x v (i_heap s)\<rparr>)"

text \<open>The scope of the chain from \<open>e\<close> that binds \<open>x\<close>. A parent is older than its child.\<close>

function env_find :: "scope list \<Rightarrow> gostring \<Rightarrow> nat \<Rightarrow> nat option" where
  "env_find hp x e =
     (if e < length hp then
        (if map_of (snd (hp ! e)) x \<noteq> None then Some e
         else case fst (hp ! e) of Some p \<Rightarrow> if p < e then env_find hp x p else None | None \<Rightarrow> None)
      else None)"
  by pat_completeness auto
termination by (relation "measure (\<lambda>(hp, x, e). e)") auto

declare env_find.simps [simp del]

definition EnvSet :: "nat \<Rightarrow> gostring \<Rightarrow> val \<Rightarrow> (unit, 'w) act" where
  "EnvSet e x v =
     modify (\<lambda>s. s\<lparr>i_heap := (case env_find (i_heap s) x e of
                                Some c \<Rightarrow> define_in c x v (i_heap s)
                              | None \<Rightarrow> define_in e x v (i_heap s))\<rparr>)"

definition EnvGet :: "scope list \<Rightarrow> nat \<Rightarrow> gostring \<Rightarrow> val option" where
  "EnvGet hp e x = (case env_find hp x e of Some c \<Rightarrow> map_of (snd (hp ! c)) x | None \<Rightarrow> None)"

section \<open>caps.go\<close>

definition cap_of :: "(caps \<Rightarrow> int) \<Rightarrow> caps \<Rightarrow> int" where
  "cap_of f c = (if f c \<le> 0 then f DefaultCaps else f c)"

definition newBudget :: "'w host \<Rightarrow> (budget, 'w) act" where
  "newBudget h =
     bnd (world (h_now h)) (\<lambda>now.
     ret \<lparr>opsRemaining = cap_of OpBudget (h_caps h), deadline = now + cap_of WallClock (h_caps h), recursionDepth = 0\<rparr>)"

definition op_budget_exceeded :: val where
  "op_budget_exceeded = VString (lit ''op_budget_exceeded'')"

definition wall_clock_exceeded :: val where
  "wall_clock_exceeded = VString (lit ''wall_clock_exceeded'')"

text \<open>\<open>chargeOp\<close> with what each caller does with its error: abort.\<close>

definition chargeOp :: "'w host \<Rightarrow> (unit, 'w) act" where
  "chargeOp h =
     bnd (gets i_budget) (\<lambda>b.
     case b of
       None \<Rightarrow> ret ()
     | Some b \<Rightarrow>
         bnd (modify (\<lambda>s. s\<lparr>i_budget := Some (b\<lparr>opsRemaining := opsRemaining b - 1\<rparr>)\<rparr>)) (\<lambda>_.
         if opsRemaining b - 1 < 0 then throw (AbortSignal op_budget_exceeded)
         else bnd (world (h_now h)) (\<lambda>now.
              if deadline b < now then throw (AbortSignal wall_clock_exceeded) else ret ())))"

definition enterCall :: "'w host \<Rightarrow> (unit, 'w) act" where
  "enterCall h =
     bnd (gets i_budget) (\<lambda>b.
     case b of
       None \<Rightarrow> ret ()
     | Some b \<Rightarrow>
         let d = recursionDepth b + 1; cp = cap_of MaxRecursion (h_caps h) in
         bnd (modify (\<lambda>s. s\<lparr>i_budget := Some (b\<lparr>recursionDepth := d\<rparr>)\<rparr>)) (\<lambda>_.
         if cp < d then fail (RtErr ''recursion_depth_exceeded (cap=%d)'' [FormatInt cp]) else ret ()))"

definition exitCall :: "'w istate \<Rightarrow> 'w istate" where
  "exitCall s =
     (case i_budget s of
        None \<Rightarrow> s
      | Some b \<Rightarrow>
          if 0 < recursionDepth b then s\<lparr>i_budget := Some (b\<lparr>recursionDepth := recursionDepth b - 1\<rparr>)\<rparr> else s)"

text \<open>\<open>checkListLen\<close> and \<open>checkStringLen\<close>; every caller aborts with the message.\<close>

definition too_large :: "string \<Rightarrow> int \<Rightarrow> int \<Rightarrow> val" where
  "too_large what n cp = VString (lit what @ lit ''_too_large (len='' @ FormatInt n @ lit '', cap='' @ FormatInt cp @ lit '')'')"

definition checkListLen :: "'w host \<Rightarrow> nat \<Rightarrow> (unit, 'w) act" where
  "checkListLen h n =
     bnd (gets i_budget) (\<lambda>b.
     let cp = cap_of MaxListLen (h_caps h) in
     if b \<noteq> None \<and> cp < int n then throw (AbortSignal (too_large ''list'' (int n) cp)) else ret ())"

definition checkStringLen :: "'w host \<Rightarrow> nat \<Rightarrow> (unit, 'w) act" where
  "checkStringLen h n =
     bnd (gets i_budget) (\<lambda>b.
     let cp = cap_of MaxStringLen (h_caps h) in
     if b \<noteq> None \<and> cp < int n then throw (AbortSignal (too_large ''string'' (int n) cp)) else ret ())"

section \<open>Watcher frames and listeners\<close>

definition push_frame :: "'w istate \<Rightarrow> 'w istate" where
  "push_frame s = s\<lparr>i_watchers := i_watchers s @ [[]]\<rparr>"

definition pop_frame :: "'w istate \<Rightarrow> 'w istate" where
  "pop_frame s = s\<lparr>i_watchers := butlast (i_watchers s)\<rparr>"

definition registerWatcher :: "watcher \<Rightarrow> (unit, 'w) act" where
  "registerWatcher w =
     modify (\<lambda>s. if i_watchers s = [] then s
                  else s\<lparr>i_watchers := butlast (i_watchers s) @ [last (i_watchers s) @ [length (i_wstore s)]],
                         i_wstore := i_wstore s @ [w]\<rparr>)"

definition activeWatchers :: "'w istate \<Rightarrow> nat list" where
  "activeWatchers s = concat (i_watchers s)"

definition addEventListener :: "eventListener \<Rightarrow> (unit, 'w) act" where
  "addEventListener l = modify (\<lambda>s. s\<lparr>i_listeners := i_listeners s @ [l]\<rparr>)"

text \<open>A select removes its listeners together.\<close>

definition removeListeners :: "nat \<Rightarrow> 'w istate \<Rightarrow> 'w istate" where
  "removeListeners n s = s\<lparr>i_listeners := filter (\<lambda>l. e_select l \<noteq> n) (i_listeners s)\<rparr>"

text \<open>A listener puts the event into its select's channel unless that is full.\<close>

definition deliver :: "val list \<Rightarrow> eventListener \<Rightarrow> (nat \<Rightarrow> onFired list) \<Rightarrow> (nat \<Rightarrow> onFired list)" where
  "deliver args l ch =
     (let q = ch (e_select l) in
      if length q < e_room l
      then ch(e_select l := q @ [\<lparr>o_case = e_case l, o_args = args, o_params = e_params l\<rparr>]) else ch)"

end
