(* ===== verification/DslEval.thy ===== *)
theory DslEval
  imports DslHost
begin

text \<open>
  Expressions (dsl/interp/interp.go, format.go, dsl/spec/format.go). Every operation that evaluates
  something else is a definition over \<open>run\<close>, which performs a \<open>task\<close>; \<open>DslExec\<close> ties the knot. A task that
  stands for a statement or a loop returns \<open>VNull\<close>. The flag \<open>ctx\<close> is set where the code passes the routine's
  context on, and not where it passes \<open>context.Background()\<close>.
\<close>

text \<open>The state of one when-case of a select: its index, predicate, qualifier, body and last value.\<close>

datatype whenCase = WhenCase nat expr WhenQualifier "stmt list option" val

datatype task =
  Eval bool expr nat
| CallFn val "val list" "(gostring \<times> val) list"
| Resume "rterr + val"
| Exec bool stmt nat
| ExecBlock bool "stmt list" nat
| WhileLoop bool expr "stmt list" nat
| ForRange bool gostring int int "stmt list" nat
| RepeatLoop bool "stmt list" expr nat "int option"
| WaitLoop bool u64
| Drain bool nat
| Dispatch bool nat
| SelectLoop bool nat "SelectCase list" "whenCase list" nat int

type_synonym 'w runner = "task \<Rightarrow> (val, 'w) act"

definition ctx_err :: "'w host \<Rightarrow> bool \<Rightarrow> (bool, 'w) act" where
  "ctx_err h ctx = (if ctx then world (h_cancelled h) else ret False)"

definition truthy :: "'w host \<Rightarrow> val \<Rightarrow> bool" where
  "truthy h = Truthy (h_fp h) (h_nulllike h)"

definition show_val :: "'w host \<Rightarrow> 'w \<Rightarrow> val \<Rightarrow> gostring" where
  "show_val h w = Display (h_fp h) (\<lambda>n. h_display h n w)"

fun Kind :: "'w host \<Rightarrow> val \<Rightarrow> gostring" where
  "Kind h VNull = lit ''null''"
| "Kind h (VBool b) = lit ''bool''"
| "Kind h (VInt i) = lit ''int''"
| "Kind h (VFloat f) = lit ''float''"
| "Kind h (VString s) = lit ''string''"
| "Kind h (VRef a (Range x y)) = lit ''range''"
| "Kind h (VRef a (List xs)) = lit ''list''"
| "Kind h (VRef a (Map kvs)) = lit ''map''"
| "Kind h (VRef a (Error c r f)) = lit ''error''"
| "Kind h (VRef a (CallResult v e)) = lit ''result''"
| "Kind h (VRef a (Lambda e p b)) = lit ''lambda''"
| "Kind h (VRef a (ProcCallable n f i)) = lit ''proc''"
| "Kind h (VRef a (Region n)) = lit ''region''"
| "Kind h (VRef a (Entity n)) = h_kind h n"
| "Kind h (VRef a x) = lit ''builtin''"

section \<open>Callables\<close>

fun builtin_yields :: "'w host \<Rightarrow> builtin \<Rightarrow> bool" where
  "builtin_yields h (HostFn n) = h_yields h n"
| "builtin_yields h (BangCallable b) = builtin_yields h b"

text \<open>The assertions \<open>v.(Callable)\<close> and \<open>v.(Yielder)\<close>.\<close>

fun Callable :: "'w host \<Rightarrow> val \<Rightarrow> bool" where
  "Callable h (VRef a (BuiltinValue n b)) = True"
| "Callable h (VRef a FormatCallable) = True"
| "Callable h (VRef a (StringContains s)) = True"
| "Callable h (VRef a (ListFilter xs)) = True"
| "Callable h (VRef a (ListMap xs)) = True"
| "Callable h (VRef a (ListFind xs)) = True"
| "Callable h (VRef a (ListNearest xs)) = True"
| "Callable h (VRef a (Lambda e p b)) = True"
| "Callable h (VRef a (ProcCallable n f i)) = True"
| "Callable h (VRef a (Entity n)) = h_callable h n"
| "Callable h v = False"

fun Yields :: "'w host \<Rightarrow> val \<Rightarrow> bool" where
  "Yields h (VRef a (BuiltinValue n b)) = builtin_yields h b"
| "Yields h (VRef a (Entity n)) = h_yields h n"
| "Yields h v = False"

text \<open>The answer of a host function: a result, or a call back into the interpreter.\<close>

fun host_reply :: "'w host \<Rightarrow> 'w runner \<Rightarrow> hostres \<Rightarrow> (val, 'w) act" where
  "host_reply h run (HRet v) = ret v"
| "host_reply h run (HErr e) = fail e"
| "host_reply h run (HAbort v) = throw (AbortSignal v)"
| "host_reply h run HPanic = throw GoPanic"
| "host_reply h run (HAsk f args) =
     (if Callable h f then
        handle (run (CallFn f args []))
          (\<lambda>r. case r of Ret v \<Rightarrow> run (Resume (Inr v)) | Fail e \<Rightarrow> run (Resume (Inl e)) | Throw g \<Rightarrow> throw g)
      else throw GoPanic)"

fun builtin_call :: "'w host \<Rightarrow> 'w runner \<Rightarrow> builtin \<Rightarrow> val list \<Rightarrow> (gostring \<times> val) list \<Rightarrow> (val, 'w) act" where
  "builtin_call h run (HostFn n) args named = bnd (world (h_call h n args named)) (host_reply h run)"
| "builtin_call h run (BangCallable b) args named =
     bnd (builtin_call h run b args named)
       (\<lambda>v. case v of
          VRef a (CallResult x None) \<Rightarrow> ret x
        | VRef a (CallResult x (Some e)) \<Rightarrow> throw (AbortSignal e)
        | _ \<Rightarrow> ret v)"

text \<open>Filter, map and find over the items of a list.\<close>

definition one_callable :: "'w host \<Rightarrow> string \<Rightarrow> string \<Rightarrow> val list \<Rightarrow> (val, 'w) act" where
  "one_callable h arity kind args =
     (case args of
        [f] \<Rightarrow> if Callable h f then ret f else fail (RtErr kind [Kind h f])
      | _ \<Rightarrow> fail (RtErr arity [FormatInt (int (length args))]))"

fun filter_items :: "'w host \<Rightarrow> 'w runner \<Rightarrow> val \<Rightarrow> val list \<Rightarrow> (val list, 'w) act" where
  "filter_items h run f [] = ret []"
| "filter_items h run f (x # xs) =
     bnd (run (CallFn f [x] [])) (\<lambda>v.
     bnd (filter_items h run f xs) (\<lambda>ys.
     ret (if truthy h v then x # ys else ys)))"

fun find_item :: "'w host \<Rightarrow> 'w runner \<Rightarrow> val \<Rightarrow> val list \<Rightarrow> (val, 'w) act" where
  "find_item h run f [] = ret VNull"
| "find_item h run f (x # xs) =
     bnd (run (CallFn f [x] [])) (\<lambda>v. if truthy h v then ret x else find_item h run f xs)"

definition list_filter :: "'w host \<Rightarrow> 'w runner \<Rightarrow> val list \<Rightarrow> val list \<Rightarrow> (val, 'w) act" where
  "list_filter h run items args =
     bnd (one_callable h ''list.filter takes 1 argument (predicate), got %d''
            ''list.filter: predicate must be callable, got %s'' args) (\<lambda>f.
     bnd (filter_items h run f items) (\<lambda>ys. new_ref (List ys)))"

definition list_map :: "'w host \<Rightarrow> 'w runner \<Rightarrow> val list \<Rightarrow> val list \<Rightarrow> (val, 'w) act" where
  "list_map h run items args =
     bnd (one_callable h ''list.map takes 1 argument (fn), got %d'' ''list.map: fn must be callable, got %s'' args) (\<lambda>f.
     bnd (each (\<lambda>x. run (CallFn f [x] [])) items) (\<lambda>ys. new_ref (List ys)))"

definition list_find :: "'w host \<Rightarrow> 'w runner \<Rightarrow> val list \<Rightarrow> val list \<Rightarrow> (val, 'w) act" where
  "list_find h run items args =
     bnd (one_callable h ''list.find takes 1 argument (predicate), got %d''
            ''list.find: predicate must be callable, got %s'' args) (\<lambda>f. find_item h run f items)"

text \<open>Nearest element by the king's move distance.\<close>

text \<open>\<open>v.(Getter)\<close> and its \<open>Get\<close>: \<open>None\<close> if \<open>v\<close> is no getter.\<close>

fun getter :: "'w host \<Rightarrow> 'w \<Rightarrow> val \<Rightarrow> (gostring \<Rightarrow> val option) option" where
  "getter h w (VRef a (Map kvs)) = Some (map_of kvs)"
| "getter h w (VRef a (Error c r f)) =
     Some (\<lambda>x. if x = lit ''code'' then Some (VString (lit (errorCodeNames c)))
               else if x = lit ''reason'' then Some (VString r)
               else if x = lit ''fatal'' then Some (VBool f) else None)"
| "getter h w (VRef a (CallResult v e)) =
     Some (\<lambda>x. if x = lit ''val'' then Some v
               else if x = lit ''err'' then Some (case e of None \<Rightarrow> VNull | Some y \<Rightarrow> y) else None)"
| "getter h w (VRef a (Entity n)) = (if h_getter h n then Some (\<lambda>x. h_get h n x w) else None)"
| "getter h w v = None"

definition pointOf :: "'w host \<Rightarrow> 'w \<Rightarrow> val \<Rightarrow> (int \<times> int) option" where
  "pointOf h w v =
     (case getter h w v of
        None \<Rightarrow> None
      | Some g \<Rightarrow>
          (case (g (lit ''x''), g (lit ''y'')) of
             (Some a, Some b) \<Rightarrow> (case (AsInt a, AsInt b) of (Some x, Some y) \<Rightarrow> Some (x, y) | _ \<Rightarrow> None)
           | _ \<Rightarrow> None))"

definition pointFromArgs :: "'w host \<Rightarrow> 'w \<Rightarrow> val list \<Rightarrow> rterr + int \<times> int" where
  "pointFromArgs h w args =
     (case args of
        [p] \<Rightarrow> (case pointOf h w p of
                  Some q \<Rightarrow> Inr q
                | None \<Rightarrow> Inl (RtErr ''list.nearest: argument has no .x/.y coordinates'' []))
      | [a, b] \<Rightarrow> (case (AsInt a, AsInt b) of
                     (Some x, Some y) \<Rightarrow> Inr (x, y)
                   | _ \<Rightarrow> Inl (RtErr ''list.nearest: two-arg form needs Int x, y'' []))
      | _ \<Rightarrow> Inl (RtErr ''list.nearest: takes a position or x, y (got %d args)'' [FormatInt (int (length args))]))"

definition chebyshevDist :: "int \<Rightarrow> int \<Rightarrow> int \<Rightarrow> int \<Rightarrow> int" where
  "chebyshevDist ax ay bx by =
     (let dx = int64 (ax - bx); dx = (if dx < 0 then int64 (- dx) else dx);
          dy = int64 (ay - by); dy = (if dy < 0 then int64 (- dy) else dy) in
      if dx < dy then dy else dx)"

fun nearest_item :: "'w host \<Rightarrow> 'w \<Rightarrow> (int \<Rightarrow> int \<Rightarrow> bool) \<Rightarrow> int \<times> int \<Rightarrow> val list \<Rightarrow> val \<times> int \<Rightarrow> val \<times> int" where
  "nearest_item h w gate r [] best = best"
| "nearest_item h w gate r (v # vs) best =
     (case pointOf h w v of
        None \<Rightarrow> nearest_item h w gate r vs best
      | Some (x, y) \<Rightarrow>
          (if \<not> gate x y then nearest_item h w gate r vs best
           else let d = chebyshevDist (fst r) (snd r) x y in
             if snd best < 0 \<or> d < snd best then nearest_item h w gate r vs (v, d)
             else nearest_item h w gate r vs best))"

definition list_nearest :: "'w host \<Rightarrow> val list \<Rightarrow> val list \<Rightarrow> (gostring \<times> val) list \<Rightarrow> (val, 'w) act" where
  "list_nearest h items args named =
     bnd (gets i_world) (\<lambda>w.
     case pointFromArgs h w args of
       Inl e \<Rightarrow> fail e
     | Inr r \<Rightarrow>
         let open = (case map_of named (lit ''reachable'') of Some v \<Rightarrow> \<not> truthy h v | None \<Rightarrow> False);
             gate = (case h_reachable h of None \<Rightarrow> (\<lambda>x y. True) | Some f \<Rightarrow> if open then (\<lambda>x y. True) else (\<lambda>x y. f x y w)) in
         ret (fst (nearest_item h w gate r items (VNull, -1))))"

section \<open>format\<close>

text \<open>\<open>WalkFormatTemplate\<close>: the parts of a template in order.\<close>

datatype fmt_part = Raw gostring | Escape byte | Placeholder

text \<open>\<open>run\<close> is the literal text since the last escape or placeholder.\<close>

function walk_template :: "gostring \<Rightarrow> gostring \<Rightarrow> fmt_part list" where
  "walk_template raw [] = (if raw = [] then [] else [Raw raw])"
| "walk_template raw (c # cs) =
     (let flush = (if raw = [] then [] else [Raw raw]) in
      if c = 123 \<and> cs \<noteq> [] \<and> hd cs = 123 then flush @ Escape 123 # walk_template [] (tl cs)
      else if c = 123 \<and> cs \<noteq> [] \<and> hd cs = 125 then flush @ Placeholder # walk_template [] (tl cs)
      else if c = 125 \<and> cs \<noteq> [] \<and> hd cs = 125 then flush @ Escape 125 # walk_template [] (tl cs)
      else walk_template (raw @ [c]) cs)"
  by pat_completeness auto
termination by (relation "measure (\<lambda>(raw, cs). length cs)") (auto simp: neq_Nil_conv)

definition CountFormatPlaceholders :: "gostring \<Rightarrow> nat" where
  "CountFormatPlaceholders t = length (filter (\<lambda>p. p = Placeholder) (walk_template [] t))"

text \<open>The render loop; the length is checked after every part.\<close>

fun render_parts :: "'w host \<Rightarrow> gostring \<Rightarrow> fmt_part list \<Rightarrow> val list \<Rightarrow> (gostring, 'w) act" where
  "render_parts h sb [] args = ret sb"
| "render_parts h sb (Raw s # ps) args = bnd (checkStringLen h (length (sb @ s))) (\<lambda>_. render_parts h (sb @ s) ps args)"
| "render_parts h sb (Escape b # ps) args = bnd (checkStringLen h (length (sb @ [b]))) (\<lambda>_. render_parts h (sb @ [b]) ps args)"
| "render_parts h sb (Placeholder # ps) args =
     bnd (gets i_world) (\<lambda>w.
     let sb = sb @ show_val h w (hd args) in
     bnd (checkStringLen h (length sb)) (\<lambda>_. render_parts h sb ps (tl args)))"

definition format_call :: "'w host \<Rightarrow> val list \<Rightarrow> (gostring \<times> val) list \<Rightarrow> (val, 'w) act" where
  "format_call h args named =
     (if named \<noteq> [] then fail (RtErr ''format takes positional args only'' [])
      else case args of
        [] \<Rightarrow> fail (RtErr ''format takes at least 1 arg (the template)'' [])
      | VString t # xs \<Rightarrow>
          (let n = CountFormatPlaceholders t in
           if n \<noteq> length xs then
             bnd (new_ref (Error FORMAT_MISMATCH
                 (lit ''template has '' @ FormatInt (int n) @ lit '' placeholders, got '' @ FormatInt (int (length xs))
                  @ lit '' args'') False))
               (\<lambda>e. throw (AbortSignal e))
           else bnd (render_parts h [] (walk_template [] t) xs) (\<lambda>s. ret (VString s)))
      | v # xs \<Rightarrow> fail (RtErr ''format: template must be a string, got %s'' [Kind h v]))"

end
