(* ===== verification/DslSpec.thy ===== *)
theory DslSpec
  imports DslEval
begin

text \<open>
  The vocabulary of routines (dsl/spec/actions.go, events.go, spec_roots.go, format.go): the callables with their
  kinds and arities, the events, the reserved names, and what the validator derives from them. The documentation
  texts of the tables are left out.
\<close>

section \<open>Actions\<close>

datatype ActionKind = PrimaryAction | Primitive | LLMStdlib | MemoryStdlib | PersonaRead

datatype CatalogKind = CatalogNone | CatalogPlaceOrPOI | CatalogPlace | CatalogItem | CatalogNPC

record ActionSpec =
  a_Name :: gostring
  a_Kind :: ActionKind
  a_MinArgs :: nat
  a_MaxArgs :: int
  a_Params :: "gostring list"
  a_ParamKinds :: "CatalogKind list"

definition BangEligible :: "ActionSpec \<Rightarrow> bool" where
  "BangEligible s \<longleftrightarrow> a_Kind s \<in> {PrimaryAction, LLMStdlib, MemoryStdlib}"

definition IsAction :: "ActionSpec \<Rightarrow> bool" where
  "IsAction s \<longleftrightarrow> a_Kind s = PrimaryAction"

definition AllowedInProc :: "ActionSpec \<Rightarrow> bool" where
  "AllowedInProc s \<longleftrightarrow> a_Kind s \<in> {PersonaRead, MemoryStdlib} \<or> a_Name s = lit ''format''"

definition AllowedInRequire :: "ActionSpec \<Rightarrow> bool" where
  "AllowedInRequire s = AllowedInProc s"

definition AllowedInHandler :: "ActionSpec \<Rightarrow> bool" where
  "AllowedInHandler s \<longleftrightarrow> \<not> (a_Kind s = Primitive \<and> a_Name s \<in> {lit ''wait'', lit ''wait_until''})"

definition SubscriptionSafe :: "ActionSpec \<Rightarrow> bool" where
  "SubscriptionSafe s \<longleftrightarrow> a_Kind s \<in> {PersonaRead, MemoryStdlib} \<or> a_Name s = lit ''format''"

definition ParamKind :: "ActionSpec \<Rightarrow> nat \<Rightarrow> CatalogKind" where
  "ParamKind s i = (if length (a_ParamKinds s) \<le> i then CatalogNone else a_ParamKinds s ! i)"

definition action :: "string \<Rightarrow> ActionKind \<Rightarrow> nat \<Rightarrow> int \<Rightarrow> string list \<Rightarrow> CatalogKind list \<Rightarrow> ActionSpec" where
  "action n k lo hi ps ks = \<lparr>a_Name = lit n, a_Kind = k, a_MinArgs = lo, a_MaxArgs = hi, a_Params = map lit ps, a_ParamKinds = ks\<rparr>"

definition primary_actions :: "ActionSpec list" where
  "primary_actions =
   [action ''walk_to'' PrimaryAction 1 2 [''x'', ''y''] [],
    action ''go_to'' PrimaryAction 1 2 [''target'', ''y''] [CatalogPlace],
    action ''attack'' PrimaryAction 1 1 [''target''] [],
    action ''attack_ranged'' PrimaryAction 1 1 [''target''] [],
    action ''talk_to'' PrimaryAction 1 1 [''npc''] [CatalogNPC],
    action ''pickpocket'' PrimaryAction 1 1 [''npc''] [CatalogNPC],
    action ''converse'' PrimaryAction 1 1 [''npc''] [CatalogNPC],
    action ''answer'' PrimaryAction 1 1 [''option_index''] [],
    action ''drop'' PrimaryAction 1 2 [''item''] [],
    action ''pick_up'' PrimaryAction 1 1 [''ground_item''] [],
    action ''eat'' PrimaryAction 1 1 [''item''] [CatalogItem],
    action ''say'' PrimaryAction 1 1 [''message''] [],
    action ''whisper'' PrimaryAction 2 2 [''to'', ''message''] [],
    action ''command'' PrimaryAction 1 1 [''cmd''] [],
    action ''use'' PrimaryAction 1 4 [''item'', ''target'', ''x'', ''y''] [CatalogItem],
    action ''interact_at'' PrimaryAction 1 4 [''position'', ''option'', ''x'', ''y''] [],
    action ''distance_to'' Primitive 1 1 [''target''] [],
    action ''distance_to_xy'' Primitive 2 2 [''x'', ''y''] [],
    action ''nearest_npc'' Primitive 0 2 [''predicate'', ''reachable''] [],
    action ''find_option'' Primitive 1 1 [''needle''] [],
    action ''add_friend'' PrimaryAction 1 1 [''name''] [],
    action ''follow'' PrimaryAction 1 1 [''target''] [],
    action ''open_boundary'' PrimaryAction 1 1 [''boundary''] [],
    action ''use_inventory_default'' PrimaryAction 1 1 [''item''] [CatalogItem],
    action ''box'' Primitive 0 4 [''x1'', ''y1'', ''x2'', ''y2''] [],
    action ''circle'' Primitive 0 3 [''cx'', ''cy'', ''radius''] [],
    action ''near'' Primitive 0 1 [''radius''] [],
    action ''in_region'' Primitive 4 4 [''x1'', ''y1'', ''x2'', ''y2''] [],
    action ''walk_path'' PrimaryAction 1 1 [''corners''] [],
    action ''is_reachable'' Primitive 1 2 [''x'', ''y''] [],
    action ''wait_for_dialog'' Primitive 0 1 [''timeout_seconds''] [],
    action ''logout'' PrimaryAction 0 0 [] [],
    action ''equip'' PrimaryAction 1 2 [''item''] [CatalogItem],
    action ''unequip'' PrimaryAction 1 2 [''item''] [CatalogItem],
    action ''mine'' PrimaryAction 1 1 [''rock''] [],
    action ''fish'' PrimaryAction 1 1 [''spot''] [],
    action ''chop'' PrimaryAction 1 1 [''tree''] [],
    action ''cook'' PrimaryAction 2 2 [''item'', ''fire''] [],
    action ''cast'' PrimaryAction 1 2 [''spell'', ''target''] []]"

definition primitives :: "ActionSpec list" where
  "primitives =
   [action ''wait'' Primitive 1 1 [''seconds''] [],
    action ''format'' Primitive 1 (-1) [''template'', ''args...''] [],
    action ''wait_until'' Primitive 1 2 [''predicate_lambda'', ''timeout_seconds''] [],
    action ''note'' Primitive 1 1 [''text''] [],
    action ''look_around'' Primitive 0 1 [''radius''] [],
    action ''where_am_i'' Primitive 0 0 [] [],
    action ''bearing_to'' Primitive 1 2 [''x'', ''y''] [],
    action ''where_is'' Primitive 1 1 [''name''] [CatalogPlaceOrPOI],
    action ''search_map'' Primitive 1 1 [''type''] [CatalogPlaceOrPOI],
    action ''reachable'' Primitive 1 2 [''x'', ''y''] [],
    action ''survey_map'' Primitive 0 0 [] [],
    action ''scan_for'' Primitive 1 3 [''type'', ''radius'', ''reachable''] [],
    action ''resolve'' Primitive 1 2 [''text'', ''kind''] [],
    action ''resolve_one'' Primitive 1 2 [''text'', ''kind''] []]"

definition stdlib_actions :: "ActionSpec list" where
  "stdlib_actions =
   [action ''contemplate_reality'' LLMStdlib 0 1 [''question''] [],
    action ''evaluate'' LLMStdlib 1 1 [''situation''] [],
    action ''decide'' LLMStdlib 1 2 [''options'', ''context''] [],
    action ''exec'' LLMStdlib 1 1 [''prompt''] [],
    action ''improvise'' LLMStdlib 1 1 [''prompt''] [],
    action ''reflect_now'' LLMStdlib 0 0 [] [],
    action ''recall'' MemoryStdlib 1 2 [''query'', ''top''] [],
    action ''relation_with'' MemoryStdlib 1 1 [''name''] [],
    action ''remember'' MemoryStdlib 2 2 [''key'', ''value''] [],
    action ''recollect'' MemoryStdlib 1 1 [''key''] [],
    action ''forget'' MemoryStdlib 1 1 [''key''] [],
    action ''wait_for_chat'' MemoryStdlib 0 2 [''timeout_seconds'', ''from''] [],
    action ''observe'' MemoryStdlib 1 2 [''target'', ''ticks''] [],
    action ''mood'' PersonaRead 0 0 [] [],
    action ''motivation'' PersonaRead 0 0 [] []]"

definition Actions :: "ActionSpec list" where
  "Actions = primary_actions @ primitives @ stdlib_actions"

text \<open>A later row of the same name would replace an earlier one.\<close>

definition ByName :: "gostring \<Rightarrow> ActionSpec option" where
  "ByName n = map_of (rev (map (\<lambda>a. (a_Name a, a)) Actions)) n"

definition StripBang :: "gostring \<Rightarrow> gostring \<times> bool" where
  "StripBang n = (if 1 < length n \<and> last n = 33 then (butlast n, True) else (n, False))"

section \<open>Events and reserved names\<close>

record EventSpec =
  v_Name :: gostring
  v_Params :: "gostring list"

definition event :: "string \<Rightarrow> string list \<Rightarrow> EventSpec" where
  "event n ps = \<lparr>v_Name = lit n, v_Params = map lit ps\<rparr>"

definition Events :: "EventSpec list" where
  "Events =
   [event ''chat_received'' [''speaker'', ''message''],
    event ''private_message'' [''speaker'', ''message''],
    event ''server_message'' [''text''],
    event ''coords_changed'' [''x'', ''y''],
    event ''trade_request'' [''from''],
    event ''duel_request_incoming'' [''from''],
    event ''trade_opened'' [''other_index''],
    event ''trade_other_offer'' [''items''],
    event ''trade_other_accepted'' [],
    event ''trade_closed'' [''completed''],
    event ''trade_confirm_shown'' [],
    event ''duel_opened'' [''other_index''],
    event ''duel_other_offer'' [''items''],
    event ''duel_settings_update'' [''disallow_retreat'', ''disallow_magic'', ''disallow_prayer'', ''disallow_weapons''],
    event ''duel_other_accepted'' [],
    event ''duel_confirm_shown'' [],
    event ''duel_closed'' [''completed''],
    event ''item_gained'' [''item_id'', ''count''],
    event ''message'' [''text''],
    event ''xp_gain'' [''skill'', ''amount''],
    event ''target_died'' [''target''],
    event ''npc_killed'' [''target''],
    event ''damage_taken'' [''amount'', ''source''],
    event ''level_up'' [''skill'', ''new_level''],
    event ''equipment_changed'' [''slot'', ''item''],
    event ''player_equipment_changed'' [''player'', ''slot'', ''item''],
    event ''player_level_changed'' [''player'', ''new_level''],
    event ''death'' [],
    event ''item_appeared'' [''item_id'', ''x'', ''y''],
    event ''item_disappeared'' [''item_id'', ''x'', ''y''],
    event ''bank_opened'' [''max_size''],
    event ''bank_slot_update'' [''slot'', ''item_id'', ''amount''],
    event ''bank_closed'' [],
    event ''boundary_changed'' [''x'', ''y'', ''dir'', ''id'']]"

definition EventByName :: "gostring \<Rightarrow> EventSpec option" where
  "EventByName n = map_of (rev (map (\<lambda>e. (v_Name e, e)) Events)) n"

definition eventArity :: "gostring \<Rightarrow> nat option" where
  "eventArity n = map_option (\<lambda>e. length (v_Params e)) (EventByName n)"

definition ReservedRoots :: "gostring list" where
  "ReservedRoots = map lit [''self'', ''world'', ''inventory'', ''combat'',
     ''trade'', ''bank'', ''duel'', ''magic'', ''prayer'', ''shop'', ''host'']"

section \<open>Identifiers in a template\<close>

definition isFormatIdentStart :: "byte \<Rightarrow> bool" where
  "isFormatIdentStart c \<longleftrightarrow> c = 95 \<or> (97 \<le> c \<and> c \<le> 122) \<or> (65 \<le> c \<and> c \<le> 90)"

definition isFormatIdentChar :: "byte \<Rightarrow> bool" where
  "isFormatIdentChar c \<longleftrightarrow> isFormatIdentStart c \<or> (48 \<le> c \<and> c \<le> 57)"

text \<open>The identifiers in braces of one literal run, and the one that the run ends in.\<close>

function scan_idents :: "gostring \<Rightarrow> gostring list \<times> gostring" where
  "scan_idents [] = ([], [])"
| "scan_idents (c # cs) =
     (if c \<noteq> 123 \<or> cs = [] \<or> \<not> isFormatIdentStart (hd cs) then scan_idents cs
      else let name = takeWhile isFormatIdentChar cs; more = dropWhile isFormatIdentChar cs in
        if more = [] then ([], cs)
        else if hd more = 125 then (let (out, p) = scan_idents (tl more) in (name # out, p))
        else scan_idents cs)"
  by pat_completeness auto
termination
  by (relation "measure length")
    (auto simp: less_Suc_eq_le intro: le_trans [OF diff_le_self] le_trans [OF length_dropWhile_le])

fun ident_parts :: "fmt_part list \<Rightarrow> gostring \<Rightarrow> gostring list" where
  "ident_parts [] pending = []"
| "ident_parts (Raw s # ps) pending = (let (out, p) = scan_idents s in out @ ident_parts ps p)"
| "ident_parts (Escape b # ps) pending = (if b = 125 \<and> pending \<noteq> [] then [pending] else []) @ ident_parts ps []"
| "ident_parts (Placeholder # ps) pending = ident_parts ps []"

definition FormatIdentPlaceholders :: "gostring \<Rightarrow> gostring list" where
  "FormatIdentPlaceholders t = ident_parts (walk_template [] t) []"

end
