(* ===== verification/DslExpr.thy ===== *)
theory DslExpr
  imports DslEval
begin

text \<open>
  The evaluator of expressions: \<open>evalSafe\<close> and its helpers, and \<open>Callable.Call\<close> for each kind of callable
  but a procedure, whose body is in \<open>DslExec\<close>.
\<close>

section \<open>Operators\<close>

text \<open>Go's remainder takes the sign of the dividend.\<close>

definition go_rem :: "int \<Rightarrow> int \<Rightarrow> int" where
  "go_rem a b = sgn a * (\<bar>a\<bar> mod \<bar>b\<bar>)"

definition cmpNumeric :: "'w host \<Rightarrow> kind \<Rightarrow> val \<Rightarrow> val \<Rightarrow> (val, 'w) act" where
  "cmpNumeric h op a b =
     (case (AsFloat (h_fp h) a, AsFloat (h_fp h) b) of
        (Some x, Some y) \<Rightarrow>
          (if op = K_LT then ret (VBool (f_lt (h_fp h) x y))
           else if op = K_LTE then ret (VBool (f_le (h_fp h) x y))
           else if op = K_GT then ret (VBool (f_lt (h_fp h) y x))
           else if op = K_GTE then ret (VBool (f_le (h_fp h) y x))
           else fail (RtErr ''unhandled comparison %s'' [kind_string op]))
      | _ \<Rightarrow> fail (RtErr ''cannot compare %s with %s'' [Kind h a, Kind h b]))"

definition arith_int :: "kind \<Rightarrow> int \<Rightarrow> int \<Rightarrow> (val, 'w) act option" where
  "arith_int op a b =
     (if op = K_ADD then Some (ret (VInt (int64 (a + b))))
      else if op = K_SUB then Some (ret (VInt (int64 (a - b))))
      else if op = K_MUL then Some (ret (VInt (int64 (a * b))))
      else if op = K_REM then
        Some (if b = 0 then fail (RtErr ''modulo by zero'' []) else ret (VInt (int64 (go_rem a b))))
      else None)"

definition arith_float :: "'w host \<Rightarrow> kind \<Rightarrow> val \<Rightarrow> val \<Rightarrow> (val, 'w) act" where
  "arith_float h op a b =
     (case (AsFloat (h_fp h) a, AsFloat (h_fp h) b) of
        (Some x, Some y) \<Rightarrow>
          (if op = K_ADD then ret (VFloat (f_add (h_fp h) x y))
           else if op = K_SUB then ret (VFloat (f_sub (h_fp h) x y))
           else if op = K_MUL then ret (VFloat (f_mul (h_fp h) x y))
           else if op = K_QUO then
             (if f_eq (h_fp h) y 0 then fail (RtErr ''division by zero'' []) else ret (VFloat (f_div (h_fp h) x y)))
           else if op = K_REM then
             (if f_eq (h_fp h) y 0 then fail (RtErr ''modulo by zero'' []) else ret (VFloat (f_mod (h_fp h) x y)))
           else fail (RtErr ''unsupported numeric op %s'' [kind_string op]))
      | _ \<Rightarrow> fail (RtErr ''non-numeric operand to %s (%s, %s)'' [kind_string op, Kind h a, Kind h b]))"

definition arithNumeric :: "'w host \<Rightarrow> kind \<Rightarrow> val \<Rightarrow> val \<Rightarrow> (val, 'w) act" where
  "arithNumeric h op a b =
     (case (a, b) of
        (VInt x, VInt y) \<Rightarrow> (case arith_int op x y of Some m \<Rightarrow> m | None \<Rightarrow> arith_float h op a b)
      | _ \<Rightarrow> arith_float h op a b)"

definition addValues :: "'w host \<Rightarrow> val \<Rightarrow> val \<Rightarrow> (val, 'w) act" where
  "addValues h a b =
     (case a of
        VString s \<Rightarrow>
          (case b of
             VString t \<Rightarrow> bnd (checkStringLen h (length (s @ t))) (\<lambda>_. ret (VString (s @ t)))
           | _ \<Rightarrow> fail (RtErr ''cannot concatenate string with %s'' [Kind h b]))
      | _ \<Rightarrow> arithNumeric h K_ADD a b)"

definition binary_op_value :: "'w host \<Rightarrow> kind \<Rightarrow> val \<Rightarrow> val \<Rightarrow> (val, 'w) act" where
  "binary_op_value h op a b =
     (if op = K_EQ then ret (VBool (Equal (h_fp h) (h_nulllike h) a b))
      else if op = K_NEQ then ret (VBool (\<not> Equal (h_fp h) (h_nulllike h) a b))
      else if op \<in> {K_LT, K_LTE, K_GT, K_GTE} then cmpNumeric h op a b
      else if op = K_ADD then addValues h a b
      else if op \<in> {K_SUB, K_MUL, K_QUO, K_REM} then arithNumeric h op a b
      else fail (RtErr ''unsupported binary op %s'' [kind_string op]))"

definition unary_op_value :: "'w host \<Rightarrow> kind \<Rightarrow> val \<Rightarrow> (val, 'w) act" where
  "unary_op_value h op v =
     (if op = K_NOT then ret (VBool (\<not> truthy h v))
      else if op = K_SUB then
        (case v of
           VInt i \<Rightarrow> ret (VInt (int64 (- i)))
         | VFloat f \<Rightarrow> ret (VFloat (f_neg (h_fp h) f))
         | _ \<Rightarrow> fail (RtErr ''unary - on non-numeric %s'' [Kind h v]))
      else if op = K_ADD then ret v
      else fail (RtErr ''unsupported unary op %s'' [kind_string op]))"

section \<open>Member access and indexing\<close>

definition list_member :: "'w host \<Rightarrow> val list \<Rightarrow> gostring \<Rightarrow> (val, 'w) act" where
  "list_member h xs f =
     (if f = lit ''length'' then ret (VInt (int (length xs)))
      else if f = lit ''filter'' then new_ref (ListFilter xs)
      else if f = lit ''map'' then new_ref (ListMap xs)
      else if f = lit ''find'' then new_ref (ListFind xs)
      else if f = lit ''nearest'' then new_ref (ListNearest xs)
      else if f = lit ''first'' then ret (if xs = [] then VNull else hd xs)
      else if f = lit ''last'' then ret (if xs = [] then VNull else last xs)
      else if f = lit ''random'' then
        (if xs = [] then ret VNull else bnd (world (h_intn h (length xs))) (\<lambda>i. ret (xs ! (i mod length xs))))
      else fail (RtErr ''list has no field %q'' [f]))"

definition string_member :: "'w host \<Rightarrow> gostring \<Rightarrow> gostring \<Rightarrow> (val, 'w) act" where
  "string_member h s f =
     (if f = lit ''length'' then ret (VInt (int (length s)))
      else if f = lit ''lower'' then ret (VString (h_lower h s))
      else if f = lit ''upper'' then ret (VString (h_upper h s))
      else if f = lit ''contains'' then new_ref (StringContains s)
      else fail (RtErr ''%s does not support field access'' [lit ''string'']))"

definition member_value :: "'w host \<Rightarrow> val \<Rightarrow> gostring \<Rightarrow> (val, 'w) act" where
  "member_value h recv f =
     (case recv of
        VRef a (List xs) \<Rightarrow> list_member h xs f
      | _ \<Rightarrow>
          bnd (gets i_world) (\<lambda>w.
          case getter h w recv of
            Some g \<Rightarrow>
              (case g f of Some v \<Rightarrow> ret v | None \<Rightarrow> fail (RtErr ''%s has no field %q'' [Kind h recv, f]))
          | None \<Rightarrow>
              (case recv of
                 VNull \<Rightarrow> ret VNull
               | VString s \<Rightarrow> string_member h s f
               | _ \<Rightarrow> fail (RtErr ''%s does not support field access'' [Kind h recv]))))"

text \<open>\<open>v.(Indexer)\<close> and its \<open>Index\<close>.\<close>

fun indexer :: "'w host \<Rightarrow> 'w \<Rightarrow> val \<Rightarrow> val \<Rightarrow> val option option" where
  "indexer h w (VRef a (Map kvs)) i =
     Some (case i of VString s \<Rightarrow> map_of kvs s | _ \<Rightarrow> map_of kvs (show_val h w i))"
| "indexer h w (VRef a (Entity n)) i = (if h_indexer h n then Some (h_index h n i w) else None)"
| "indexer h w v i = None"

definition index_value :: "'w host \<Rightarrow> val \<Rightarrow> val \<Rightarrow> (val, 'w) act" where
  "index_value h recv idx =
     (case recv of
        VRef a (List xs) \<Rightarrow>
          (case AsInt idx of
             None \<Rightarrow> fail (RtErr ''list index must be int, got %s'' [Kind h idx])
           | Some i \<Rightarrow>
               if i < 0 \<or> int (length xs) \<le> i
               then fail (RtErr ''list index %d out of bounds (length %d)'' [FormatInt i, FormatInt (int (length xs))])
               else ret (xs ! nat i))
      | VString s \<Rightarrow>
          (case AsInt idx of
             None \<Rightarrow> fail (RtErr ''string index must be int, got %s'' [Kind h idx])
           | Some i \<Rightarrow>
               if i < 0 \<or> int (length s) \<le> i
               then fail (RtErr ''string index %d out of bounds (length %d)'' [FormatInt i, FormatInt (int (length s))])
               else ret (VString (encode_rune (unat (s ! nat i)))))
      | _ \<Rightarrow>
          bnd (gets i_world) (\<lambda>w.
          case indexer h w recv idx of
            Some (Some v) \<Rightarrow> ret v
          | Some None \<Rightarrow> fail (RtErr ''%s index %s not found'' [Kind h recv, show_val h w idx])
          | None \<Rightarrow> fail (RtErr ''%s does not support indexing'' [Kind h recv])))"

section \<open>Calls\<close>

fun Contains :: "gostring \<Rightarrow> gostring \<Rightarrow> bool" where
  "Contains [] n = (n = [])"
| "Contains (c # cs) n = (take (length n) (c # cs) = n \<or> Contains cs n)"

definition string_contains :: "'w host \<Rightarrow> gostring \<Rightarrow> val list \<Rightarrow> (val, 'w) act" where
  "string_contains h hay args =
     (case args of
        [VString n] \<Rightarrow> ret (VBool (Contains (h_lower h hay) (h_lower h n)))
      | [v] \<Rightarrow> fail (RtErr ''contains: needle must be String, got %s'' [Kind h v])
      | _ \<Rightarrow> fail (RtErr ''contains takes 1 arg (needle), got %d'' [FormatInt (int (length args))]))"

definition lambda_call :: "'w runner \<Rightarrow> nat \<Rightarrow> gostring \<Rightarrow> expr \<Rightarrow> val list \<Rightarrow> (val, 'w) act" where
  "lambda_call run env p b args =
     (case args of
        [x] \<Rightarrow> bnd (Child env) (\<lambda>e. bnd (Define e p x) (\<lambda>_. run (Eval False b e)))
      | _ \<Rightarrow> fail (RtErr ''lambda(%s): expected 1 arg, got %d'' [p, FormatInt (int (length args))]))"

text \<open>The result of a call, \<open>v\<close> being no procedure.\<close>

fun call_value :: "'w host \<Rightarrow> 'w runner \<Rightarrow> val \<Rightarrow> val list \<Rightarrow> (gostring \<times> val) list \<Rightarrow> (val, 'w) act" where
  "call_value h run (VRef a (BuiltinValue n b)) args named = builtin_call h run b args named"
| "call_value h run (VRef a FormatCallable) args named = format_call h args named"
| "call_value h run (VRef a (StringContains s)) args named = string_contains h s args"
| "call_value h run (VRef a (ListFilter xs)) args named = list_filter h run xs args"
| "call_value h run (VRef a (ListMap xs)) args named = list_map h run xs args"
| "call_value h run (VRef a (ListFind xs)) args named = list_find h run xs args"
| "call_value h run (VRef a (ListNearest xs)) args named = list_nearest h xs args named"
| "call_value h run (VRef a (Lambda e p b)) args named = lambda_call run e p b args"
| "call_value h run (VRef a (Entity n)) args named = builtin_call h run (HostFn n) args named"
| "call_value h run v args named = throw GoPanic"

definition dispatch :: "'w runner \<Rightarrow> bool \<Rightarrow> bool \<Rightarrow> (unit, 'w) act" where
  "dispatch run yields ctx =
     bnd (gets i_routineEnv) (\<lambda>re.
     case re of
       Some e \<Rightarrow> if yields then bnd (run (Dispatch ctx e)) (\<lambda>_. ret ()) else ret ()
     | None \<Rightarrow> ret ())"

text \<open>Positional and named arguments; a later name replaces an earlier one.\<close>

fun eval_args :: "'w runner \<Rightarrow> bool \<Rightarrow> nat \<Rightarrow> arg list \<Rightarrow> (val list \<times> (gostring \<times> val) list, 'w) act" where
  "eval_args run ctx env [] = ret ([], [])"
| "eval_args run ctx env (Arg n e # as) =
     bnd (run (Eval ctx e env)) (\<lambda>v.
     bnd (eval_args run ctx env as) (\<lambda>(ps, ns).
     ret (if n = [] then (v # ps, ns) else (ps, if map_of ns n = None then (n, v) # ns else ns))))"

definition evalCallee :: "'w host \<Rightarrow> 'w runner \<Rightarrow> bool \<Rightarrow> expr \<Rightarrow> nat \<Rightarrow> (val, 'w) act" where
  "evalCallee h run ctx e env =
     bnd (run (Eval ctx e env)) (\<lambda>v. if Callable h v then ret v else fail (RtErr ''%s is not callable'' [Kind h v]))"

definition evalCall :: "'w host \<Rightarrow> 'w runner \<Rightarrow> bool \<Rightarrow> expr \<Rightarrow> arg list \<Rightarrow> nat \<Rightarrow> (val, 'w) act" where
  "evalCall h run ctx f as env =
     bnd (evalCallee h run ctx f env) (\<lambda>callee.
     bnd (eval_args run ctx env as) (\<lambda>(args, named).
     bnd (dispatch run (Yields h callee) ctx) (\<lambda>_.
     case (f = Ident (lit ''wait''), map (AsFloat (h_fp h)) args) of
       (True, [Some secs]) \<Rightarrow> bnd (run (WaitLoop ctx secs)) (\<lambda>_. ret VNull)
     | _ \<Rightarrow>
         handle (run (CallFn callee args named)) (\<lambda>r.
         case r of
           Throw g \<Rightarrow> throw g
         | _ \<Rightarrow> bnd (dispatch run (Yields h callee) ctx) (\<lambda>_. outcome r)))))"

section \<open>evalSafe\<close>

definition evalIdent :: "'w host \<Rightarrow> gostring \<Rightarrow> nat \<Rightarrow> (val, 'w) act" where
  "evalIdent h x env =
     bnd (gets (\<lambda>s. EnvGet (i_heap s) env x)) (\<lambda>v.
     case v of
       Some v \<Rightarrow> ret v
     | None \<Rightarrow>
         (if x = lit ''format'' then new_ref FormatCallable
          else case h_builtins h x of
            Some b \<Rightarrow> new_ref (BuiltinValue x b)
          | None \<Rightarrow> fail (RtErr ''unbound identifier %q'' [x])))"

fun evalFString :: "'w host \<Rightarrow> 'w runner \<Rightarrow> bool \<Rightarrow> nat \<Rightarrow> gostring \<Rightarrow> expr list \<Rightarrow> (val, 'w) act" where
  "evalFString h run ctx env sb [] = ret (VString sb)"
| "evalFString h run ctx env sb (p # ps) =
     bnd (run (Eval ctx p env)) (\<lambda>v.
     bnd (gets i_world) (\<lambda>w.
     let sb = sb @ show_val h w v in
     bnd (checkStringLen h (length sb)) (\<lambda>_. evalFString h run ctx env sb ps)))"

definition evalBinary :: "'w host \<Rightarrow> 'w runner \<Rightarrow> bool \<Rightarrow> kind \<Rightarrow> expr \<Rightarrow> expr \<Rightarrow> nat \<Rightarrow> (val, 'w) act" where
  "evalBinary h run ctx op l r env =
     bnd (run (Eval ctx l env)) (\<lambda>a.
     if op = K_AND \<and> \<not> truthy h a then ret a
     else if op = K_OR \<and> truthy h a then ret a
     else bnd (run (Eval ctx r env)) (\<lambda>b.
       if op = K_AND \<or> op = K_OR then ret b else binary_op_value h op a b))"

definition eval_expr :: "'w host \<Rightarrow> 'w runner \<Rightarrow> bool \<Rightarrow> expr \<Rightarrow> nat \<Rightarrow> (val, 'w) act" where
  "eval_expr h run ctx e env =
     (case e of
        NilExpr \<Rightarrow> ret VNull
      | IntLit v \<Rightarrow> ret (VInt v)
      | FloatLit v \<Rightarrow> ret (VFloat v)
      | StringLit s \<Rightarrow> ret (VString s)
      | BoolLit b \<Rightarrow> ret (VBool b)
      | NullLit \<Rightarrow> ret VNull
      | FStringLit ps \<Rightarrow> evalFString h run ctx env [] ps
      | ListLit es \<Rightarrow>
          bnd (checkListLen h (length es)) (\<lambda>_.
          bnd (each (\<lambda>x. run (Eval ctx x env)) es) (\<lambda>vs. new_ref (List vs)))
      | RangeLit a b \<Rightarrow>
          bnd (run (Eval ctx a env)) (\<lambda>lo. bnd (run (Eval ctx b env)) (\<lambda>hi. new_ref (Range lo hi)))
      | Ident x \<Rightarrow> evalIdent h x env
      | BinaryExpr op l r \<Rightarrow> evalBinary h run ctx op l r env
      | UnaryExpr op x \<Rightarrow> bnd (run (Eval ctx x env)) (unary_op_value h op)
      | MemberExpr r f \<Rightarrow> bnd (run (Eval ctx r env)) (\<lambda>v. member_value h v f)
      | IndexExpr r i \<Rightarrow>
          bnd (run (Eval ctx r env)) (\<lambda>v. bnd (run (Eval ctx i env)) (index_value h v))
      | CallExpr f as \<Rightarrow> evalCall h run ctx f as env
      | LambdaExpr p b \<Rightarrow> new_ref (Lambda env p b))"

definition evalSafe :: "'w host \<Rightarrow> 'w runner \<Rightarrow> bool \<Rightarrow> expr \<Rightarrow> nat \<Rightarrow> (val, 'w) act" where
  "evalSafe h run ctx e env =
     (if e = NilExpr then ret VNull else bnd (chargeOp h) (\<lambda>_. eval_expr h run ctx e env))"

end
