(* ===== verification/DslExec.thy ===== *)
theory DslExec
  imports DslExpr
begin

text \<open>
  Statements, procedures, events, watchers, select and the run of a routine (dsl/interp/interp.go,
  events.go, watchers.go). \<open>step\<close> performs one task with \<open>run\<close> for what it needs; \<open>run\<close> with fuel \<open>n\<close> ties the
  knot, and \<open>None\<close> says that \<open>n\<close> nested steps are not enough.
\<close>

datatype result = Completed | Returned val | Aborted val | Errored rterr | Canceled

text \<open>What the validator makes of a routine: \<open>require\<close> and the handlers moved out of the body.\<close>

record routine =
  r_Params :: "Param list"
  r_Require :: "expr list option"
  r_Handlers :: "OnHandler list"
  r_Body :: "stmt list"

section \<open>Blocks and loops\<close>

definition exec_block :: "'w host \<Rightarrow> 'w runner \<Rightarrow> bool \<Rightarrow> stmt list \<Rightarrow> nat \<Rightarrow> (val, 'w) act" where
  "exec_block h run ctx b env =
     bnd (modify push_frame) (\<lambda>_.
     deferring
       (bnd (each (\<lambda>st. bnd (ctx_err h ctx) (\<lambda>c.
               if c then throw (ReturnSignal (VString (lit ''canceled'')))
               else run (Exec ctx st env))) b)
          (\<lambda>_. ret VNull))
       pop_frame)"

text \<open>A block in a child scope.\<close>

definition child_block :: "'w runner \<Rightarrow> bool \<Rightarrow> stmt list \<Rightarrow> nat \<Rightarrow> (val, 'w) act" where
  "child_block run ctx b env = bnd (Child env) (\<lambda>e. run (ExecBlock ctx b e))"

definition execLoopBody :: "'w runner \<Rightarrow> bool \<Rightarrow> stmt list \<Rightarrow> nat \<Rightarrow> (bool, 'w) act" where
  "execLoopBody run ctx b env =
     handle (run (ExecBlock ctx b env)) (\<lambda>r.
     case r of
       Ret v \<Rightarrow> ret True
     | Fail e \<Rightarrow> fail e
     | Throw g \<Rightarrow>
         (case g of BreakSignal \<Rightarrow> ret False | ContinueSignal \<Rightarrow> ret True | _ \<Rightarrow> throw g))"

definition evalPanic :: "'w runner \<Rightarrow> bool \<Rightarrow> expr \<Rightarrow> nat \<Rightarrow> (val, 'w) act" where
  "evalPanic run ctx e env = panicking (run (Eval ctx e env))"

fun exec_elifs :: "'w host \<Rightarrow> 'w runner \<Rightarrow> bool \<Rightarrow> elif list \<Rightarrow> stmt list option \<Rightarrow> nat \<Rightarrow> (val, 'w) act" where
  "exec_elifs h run ctx [] el env = (case el of None \<Rightarrow> ret VNull | Some b \<Rightarrow> child_block run ctx b env)"
| "exec_elifs h run ctx (ElifClause c b # es) el env =
     bnd (evalPanic run ctx c env) (\<lambda>v.
     if truthy h v then child_block run ctx b env else exec_elifs h run ctx es el env)"

definition execIf :: "'w host \<Rightarrow> 'w runner \<Rightarrow> bool \<Rightarrow> expr \<Rightarrow> stmt list \<Rightarrow> elif list \<Rightarrow> stmt list option \<Rightarrow> nat \<Rightarrow> (val, 'w) act" where
  "execIf h run ctx c b es el env =
     bnd (evalPanic run ctx c env) (\<lambda>v.
     if truthy h v then child_block run ctx b env else exec_elifs h run ctx es el env)"

definition while_step :: "'w host \<Rightarrow> 'w runner \<Rightarrow> bool \<Rightarrow> expr \<Rightarrow> stmt list \<Rightarrow> nat \<Rightarrow> (val, 'w) act" where
  "while_step h run ctx c b env =
     bnd (ctx_err h ctx) (\<lambda>x.
     if x then ret VNull
     else bnd (evalPanic run ctx c env) (\<lambda>v.
       if \<not> truthy h v then ret VNull
       else bnd (execLoopBody run ctx b env) (\<lambda>go.
         if go then run (WhileLoop ctx c b env) else ret VNull)))"

text \<open>One iteration with the loop variable bound in a scope of its own.\<close>

definition loop_item :: "'w runner \<Rightarrow> bool \<Rightarrow> gostring \<Rightarrow> val \<Rightarrow> stmt list \<Rightarrow> nat \<Rightarrow> (bool, 'w) act" where
  "loop_item run ctx x v b env =
     bnd (Child env) (\<lambda>e. bnd (Define e x v) (\<lambda>_. execLoopBody run ctx b e))"

fun for_items :: "'w host \<Rightarrow> 'w runner \<Rightarrow> bool \<Rightarrow> gostring \<Rightarrow> val list \<Rightarrow> stmt list \<Rightarrow> nat \<Rightarrow> (val, 'w) act" where
  "for_items h run ctx x [] b env = ret VNull"
| "for_items h run ctx x (v # vs) b env =
     bnd (ctx_err h ctx) (\<lambda>c.
     if c then ret VNull
     else bnd (loop_item run ctx x v b env) (\<lambda>go.
       if go then for_items h run ctx x vs b env else ret VNull))"

text \<open>The counter is an \<open>int64\<close>: after the largest value comes the smallest.\<close>

definition range_step :: "'w host \<Rightarrow> 'w runner \<Rightarrow> bool \<Rightarrow> gostring \<Rightarrow> int \<Rightarrow> int \<Rightarrow> stmt list \<Rightarrow> nat \<Rightarrow> (val, 'w) act" where
  "range_step h run ctx x v hi b env =
     (if v \<le> hi then
        bnd (ctx_err h ctx) (\<lambda>c.
        if c then ret VNull
        else bnd (loop_item run ctx x (VInt v) b env) (\<lambda>go.
          if go then run (ForRange ctx x (int64 (v + 1)) hi b env) else ret VNull))
      else ret VNull)"

definition execFor :: "'w host \<Rightarrow> 'w runner \<Rightarrow> bool \<Rightarrow> gostring \<Rightarrow> expr \<Rightarrow> stmt list \<Rightarrow> nat \<Rightarrow> (val, 'w) act" where
  "execFor h run ctx x e b env =
     bnd (evalPanic run ctx e env) (\<lambda>it.
     case it of
       VRef a (List xs) \<Rightarrow> for_items h run ctx x xs b env
     | VRef a (Range lo hi) \<Rightarrow>
         (case (AsInt lo, AsInt hi) of
            (Some l, Some u) \<Rightarrow> run (ForRange ctx x l u b env)
          | _ \<Rightarrow> throw (Panicked (RtErr ''for-in over float range is not supported'' [])))
     | VString s \<Rightarrow> for_items h run ctx x (map (\<lambda>r. VString (encode_rune r)) (runes s)) b env
     | _ \<Rightarrow> throw (Panicked (RtErr ''for-in over %s is not iterable'' [Kind h it])))"

definition repeat_step :: "'w host \<Rightarrow> 'w runner \<Rightarrow> bool \<Rightarrow> stmt list \<Rightarrow> expr \<Rightarrow> nat \<Rightarrow> int option \<Rightarrow> (val, 'w) act" where
  "repeat_step h run ctx b c env dl =
     bnd (ctx_err h ctx) (\<lambda>x.
     if x then ret VNull
     else bnd (execLoopBody run ctx b env) (\<lambda>go.
       if \<not> go then ret VNull
       else bnd (evalPanic run ctx c env) (\<lambda>v.
         if truthy h v then ret VNull
         else case dl of
           None \<Rightarrow> run (RepeatLoop ctx b c env dl)
         | Some t \<Rightarrow>
             bnd (world (h_now h)) (\<lambda>now. if t \<le> now then ret VNull else run (RepeatLoop ctx b c env dl)))))"

definition execRepeatUntil :: "'w host \<Rightarrow> 'w runner \<Rightarrow> bool \<Rightarrow> stmt list \<Rightarrow> expr \<Rightarrow> expr \<Rightarrow> nat \<Rightarrow> (val, 'w) act" where
  "execRepeatUntil h run ctx b c t env =
     (if t = NilExpr then run (RepeatLoop ctx b c env None)
      else bnd (evalPanic run ctx t env) (\<lambda>v.
        case AsFloat (h_fp h) v of
          None \<Rightarrow> throw (Panicked (RtErr ''repeat ... until timeout must evaluate to a number of seconds, got %s'' [Kind h v]))
        | Some secs \<Rightarrow>
            if f_le (h_fp h) secs 0
            then throw (Panicked (RtErr ''repeat ... until timeout must be > 0 seconds, got %v'' [f_show (h_fp h) secs]))
            else bnd (world (h_now h)) (\<lambda>now.
              run (RepeatLoop ctx b c env (Some (now + f_nanos (h_fp h) secs))))))"

section \<open>Waiting\<close>

text \<open>\<open>waitSlice.Seconds()\<close>, the float next to 0.2.\<close>

definition waitSlice :: u64 where
  "waitSlice = 0x3FC999999999999A"

definition wait_step :: "'w host \<Rightarrow> 'w runner \<Rightarrow> bool \<Rightarrow> u64 \<Rightarrow> (val, 'w) act" where
  "wait_step h run ctx remaining =
     (case h_builtins h (lit ''wait'') of
        None \<Rightarrow> ret VNull
      | Some b \<Rightarrow>
          bnd (dispatch run True ctx) (\<lambda>_.
          if f_le (h_fp h) remaining 0 then ret VNull
          else bnd (ctx_err h ctx) (\<lambda>c.
            if c then fail (RtErr ''wait: %v'' [lit ''context canceled''])
            else let slice = (if f_lt (h_fp h) remaining waitSlice then remaining else waitSlice) in
              bnd (builtin_call h run b [VFloat slice] []) (\<lambda>_.
              run (WaitLoop ctx (f_sub (h_fp h) remaining slice))))))"

definition durationToSeconds :: "'w host \<Rightarrow> val \<Rightarrow> (u64, 'w) act" where
  "durationToSeconds h v =
     (let fp = h_fp h in
      case v of
        VRef a (Range x y) \<Rightarrow>
          (case (AsFloat fp x, AsFloat fp y) of
             (Some lo, Some hi) \<Rightarrow>
               (let (lo, hi) = (if f_lt fp hi lo then (hi, lo) else (lo, hi)) in
                bnd (world (h_float64 h)) (\<lambda>r. ret (f_add fp lo (f_mul fp r (f_sub fp hi lo)))))
           | _ \<Rightarrow> fail (RtErr ''wait range bounds must be numeric'' []))
      | _ \<Rightarrow> (case AsFloat fp v of
               Some f \<Rightarrow> ret f
             | None \<Rightarrow> fail (RtErr ''wait expects a number or range, got %s'' [Kind h v])))"

definition execWait :: "'w host \<Rightarrow> 'w runner \<Rightarrow> bool \<Rightarrow> expr \<Rightarrow> nat \<Rightarrow> (val, 'w) act" where
  "execWait h run ctx e env =
     bnd (evalPanic run ctx e env) (\<lambda>v.
     bnd (panicking (durationToSeconds h v)) (\<lambda>secs.
     panicking (run (WaitLoop ctx secs))))"

section \<open>Defer and try\<close>

definition pushDefer :: "'w host \<Rightarrow> 'w runner \<Rightarrow> bool \<Rightarrow> expr \<Rightarrow> nat \<Rightarrow> (val, 'w) act" where
  "pushDefer h run ctx e env =
     (case e of
        CallExpr f as \<Rightarrow>
          panicking
            (bnd (evalCallee h run ctx f env) (\<lambda>callee.
             bnd (eval_args run ctx env as) (\<lambda>(args, named).
             bnd (modify (\<lambda>s. s\<lparr>i_deferred :=
                    i_deferred s @ [\<lparr>d_callee = callee, d_args = args, d_named = named\<rparr>]\<rparr>)) (\<lambda>_. ret VNull))))
      | _ \<Rightarrow> throw (Panicked (RtErr ''defer requires a call expression'' [])))"

text \<open>The deferred calls, last first; whatever a call does, the next one runs.\<close>

definition drainDeferred :: "'w runner \<Rightarrow> (unit, 'w) act" where
  "drainDeferred run =
     bnd (gets i_deferred) (\<lambda>ds.
     bnd (modify (\<lambda>s. s\<lparr>i_deferred := []\<rparr>)) (\<lambda>_.
     bnd (each (\<lambda>d. handle (run (CallFn (d_callee d) (d_args d) (d_named d))) (\<lambda>_. ret ())) (rev ds)) (\<lambda>_. ret ())))"

definition execTry :: "'w runner \<Rightarrow> bool \<Rightarrow> stmt list \<Rightarrow> gostring \<Rightarrow> stmt list \<Rightarrow> nat \<Rightarrow> (val, 'w) act" where
  "execTry run ctx b x r env =
     bnd (Child env) (\<lambda>e.
     handle (run (ExecBlock ctx b e)) (\<lambda>res.
     case res of
       Throw (AbortSignal reason) \<Rightarrow>
         bnd (Child env) (\<lambda>e2. bnd (Define e2 x reason) (\<lambda>_. run (ExecBlock ctx r e2)))
     | Throw g \<Rightarrow> throw g
     | Fail err \<Rightarrow> fail err
     | Ret v \<Rightarrow> ret VNull))"

section \<open>Watchers\<close>

text \<open>The edge a qualifier asks for, from the last value to the current one.\<close>

definition edge :: "'w host \<Rightarrow> WhenQualifier \<Rightarrow> val \<Rightarrow> val \<Rightarrow> bool" where
  "edge h q old new =
     (case q of
        WhenBecomesTrue \<Rightarrow> \<not> truthy h old \<and> truthy h new
      | WhenBecomesFalse \<Rightarrow> truthy h old \<and> \<not> truthy h new
      | WhenChanges \<Rightarrow> \<not> valueEqual (h_fp h) old new)"

definition set_last :: "nat \<Rightarrow> val \<Rightarrow> (unit, 'w) act" where
  "set_last i v =
     modify (\<lambda>s. if i < length (i_wstore s) then s\<lparr>i_wstore := (i_wstore s)[i := (i_wstore s ! i)\<lparr>w_last := v\<rparr>]\<rparr> else s)"

definition dummy_watcher :: watcher where
  "dummy_watcher = \<lparr>w_predicate = NilExpr, w_qualifier = WhenChanges, w_body = [], w_env = 0, w_last = VNull\<rparr>"

definition watcher_at :: "nat \<Rightarrow> 'w istate \<Rightarrow> watcher" where
  "watcher_at i s = (if i < length (i_wstore s) then i_wstore s ! i else dummy_watcher)"

text \<open>\<open>fireIf\<close>, and the body of the watcher if it fires.\<close>

definition fire_watcher :: "'w host \<Rightarrow> 'w runner \<Rightarrow> bool \<Rightarrow> nat \<Rightarrow> (unit, 'w) act" where
  "fire_watcher h run ctx i =
     bnd (gets (watcher_at i)) (\<lambda>w.
     bnd (evalPanic run ctx (w_predicate w) (w_env w)) (\<lambda>cur.
     bnd (gets (watcher_at i)) (\<lambda>w.
     bnd (set_last i cur) (\<lambda>_.
     if edge h (w_qualifier w) (w_last w) cur
     then bnd (child_block run ctx (w_body w) (w_env w)) (\<lambda>_. ret ()) else ret ()))))"

fun sweep :: "'w host \<Rightarrow> 'w runner \<Rightarrow> bool \<Rightarrow> nat list \<Rightarrow> (unit, 'w) act" where
  "sweep h run ctx [] = ret ()"
| "sweep h run ctx (i # is) =
     bnd (ctx_err h ctx) (\<lambda>c.
     if c then ret () else bnd (fire_watcher h run ctx i) (\<lambda>_. sweep h run ctx is))"

definition evalWatchersOnce :: "'w host \<Rightarrow> 'w runner \<Rightarrow> bool \<Rightarrow> (unit, 'w) act" where
  "evalWatchersOnce h run ctx = bnd (gets activeWatchers) (sweep h run ctx)"

text \<open>The value a watcher starts from.\<close>

definition seed :: "'w runner \<Rightarrow> bool \<Rightarrow> WhenQualifier \<Rightarrow> expr \<Rightarrow> nat \<Rightarrow> (val, 'w) act" where
  "seed run ctx q p env =
     (case q of
        WhenBecomesTrue \<Rightarrow> ret (VBool False)
      | WhenBecomesFalse \<Rightarrow> ret (VBool True)
      | WhenChanges \<Rightarrow> evalPanic run ctx p env)"

definition execWhen :: "'w host \<Rightarrow> 'w runner \<Rightarrow> bool \<Rightarrow> expr \<Rightarrow> WhenQualifier \<Rightarrow> stmt list \<Rightarrow> nat \<Rightarrow> (val, 'w) act" where
  "execWhen h run ctx p q b env =
     bnd (seed run ctx q p env) (\<lambda>v.
     bnd (registerWatcher \<lparr>w_predicate = p, w_qualifier = q, w_body = b, w_env = env, w_last = v\<rparr>) (\<lambda>_.
     bnd (evalWatchersOnce h run ctx) (\<lambda>_. ret VNull)))"

end
