(* ===== verification/DslValidate.thy ===== *)
theory DslValidate
  imports DslSpec DslExec
begin

text \<open>
  The validator (dsl/validator/validator.go). A report is the list of its diagnostics in order, errors and
  warnings; the positions they carry in the code are left out. A scope is a chain of name lists, the innermost first. The
  statements of a block share their scope, so a check returns it as the next one finds it. A nil statement is a Go panic:
  the diagnostic \<open>Crash\<close>, after which the rest of the report is never made.
\<close>

datatype diag = Err string "gostring list" | Warn string "gostring list" | Crash

type_synonym scopes = "gostring list list"

definition resolve :: "scopes \<Rightarrow> gostring \<Rightarrow> bool" where
  "resolve sc x = list_ex (\<lambda>names. x \<in> set names) sc"

definition bind_name :: "gostring \<Rightarrow> scopes \<Rightarrow> scopes" where
  "bind_name x sc = (case sc of [] \<Rightarrow> [[x]] | names # up \<Rightarrow> (x # names) # up)"

definition isReservedName :: "gostring \<Rightarrow> bool" where
  "isReservedName x \<longleftrightarrow> x \<in> set ReservedRoots"

text \<open>Where in the tree the check is.\<close>

record vcontext =
  inRoutine :: bool
  inProc :: bool
  inHandler :: bool
  inLoop :: bool
  inRequire :: bool

definition no_context :: vcontext where
  "no_context = \<lparr>inRoutine = False, inProc = False, inHandler = False, inLoop = False, inRequire = False\<rparr>"

type_synonym procs = "gostring \<Rightarrow> ProcDecl option"

section \<open>Calls\<close>

definition err_if :: "bool \<Rightarrow> string \<Rightarrow> gostring list \<Rightarrow> diag list" where
  "err_if c m xs = (if c then [Err m xs] else [])"

definition checkBuiltinArity :: "nat \<Rightarrow> gostring \<Rightarrow> ActionSpec \<Rightarrow> diag list" where
  "checkBuiltinArity provided x b =
     (if 0 \<le> a_MaxArgs b \<and> a_MaxArgs b < int provided
      then [Err ''%s takes at most %d arg(s), got %d'' [x, FormatInt (a_MaxArgs b), FormatInt (int provided)]]
      else err_if (provided < a_MinArgs b) ''%s takes at least %d arg(s), got %d''
             [x, FormatInt (int (a_MinArgs b)), FormatInt (int provided)])"

fun has_default :: "Param \<Rightarrow> bool" where
  "has_default (Param x d) = (d \<noteq> NilExpr)"

fun checkProcArity :: "nat \<Rightarrow> ProcDecl \<Rightarrow> diag list" where
  "checkProcArity provided (ProcDecl n ps b) =
     (let required = length (filter (\<lambda>p. \<not> has_default p) ps) in
      err_if (provided < required \<or> length ps < provided) ''proc %q expects %d to %d args, got %d''
        [n, FormatInt (int required), FormatInt (int (length ps)), FormatInt (int provided)])"

definition checkFormatCall :: "arg list \<Rightarrow> diag list" where
  "checkFormatCall as =
     (let named = concat (map (\<lambda>a. case a of Arg n e \<Rightarrow>
            err_if (n \<noteq> []) ''format takes positional args only'' []) as);
          positional = concat (map (\<lambda>a. case a of Arg n e \<Rightarrow> if n = [] then [e] else []) as) in
      named @
      (case positional of
         StringLit t # xs \<Rightarrow>
           err_if (CountFormatPlaceholders t \<noteq> length xs) ''format template has %d placeholder(s), got %d arg(s)''
             [FormatInt (int (CountFormatPlaceholders t)), FormatInt (int (length xs))]
           @ map (\<lambda>x. Warn ''format template contains {%s}, which is NOT a placeholder'' [x]) (FormatIdentPlaceholders t)
       | _ \<Rightarrow> []))"

definition unbang :: "gostring \<Rightarrow> gostring \<times> bool" where
  "unbang x = (if 1 < length x \<and> last x = 33 then (butlast x, True) else (x, False))"

text \<open>The context restrictions of an action.\<close>

definition action_errors :: "vcontext \<Rightarrow> gostring \<Rightarrow> ActionSpec \<Rightarrow> diag list" where
  "action_errors ctx x b =
     err_if (IsAction b \<and> inProc ctx) ''action %q is forbidden inside a proc'' [x]
     @ err_if (IsAction b \<and> inRequire ctx) ''action %q is forbidden inside a require block'' [x]"

text \<open>A call of the name \<open>x\<close>.\<close>

definition check_named_call :: "procs \<Rightarrow> vcontext \<Rightarrow> scopes \<Rightarrow> gostring \<Rightarrow> arg list \<Rightarrow> diag list" where
  "check_named_call pr ctx sc x as =
     (if resolve sc x \<or> isReservedName x then []
      else case pr x of
        Some p \<Rightarrow> checkProcArity (length as) p
      | None \<Rightarrow>
      (case ByName x of
        Some b \<Rightarrow>
          action_errors ctx x b
          @ err_if (inHandler ctx \<and> x = lit ''wait_until'') ''wait_until is forbidden inside an on-handler body'' []
          @ checkBuiltinArity (length as) x b
          @ (if x = lit ''format'' then checkFormatCall as else [])
      | None \<Rightarrow>
        if x = lit ''super'' then [Err ''super() is only valid inside an extends handler body'' []]
        else case unbang x of
          (base, True) \<Rightarrow>
            (if pr base \<noteq> None then [Err ''bang variant %q not allowed: procs do not return Result'' [x]]
             else case ByName base of
               Some b \<Rightarrow>
                 if \<not> BangEligible b then [Err ''bang variant %q not allowed: %s does not return Result'' [x, base]]
                 else action_errors ctx x b @ checkBuiltinArity (length as) x b
             | None \<Rightarrow> [Err ''call to undefined %q'' [x]])
        | (base, False) \<Rightarrow> [Err ''call to undefined %q'' [x]]))"

definition resolveIdent :: "procs \<Rightarrow> scopes \<Rightarrow> gostring \<Rightarrow> diag list" where
  "resolveIdent pr sc x =
     (if resolve sc x \<or> isReservedName x \<or> pr x \<noteq> None \<or> ByName x \<noteq> None then []
      else if (case unbang x of (base, b) \<Rightarrow> b \<and> (case ByName base of Some a \<Rightarrow> BangEligible a | None \<Rightarrow> False)) then []
      else if x = lit ''super'' then [Err ''super() is only valid inside an extends handler body'' []]
      else [Err ''unbound identifier %q'' [x]])"

section \<open>Expressions\<close>

fun checkExpr :: "procs \<Rightarrow> vcontext \<Rightarrow> scopes \<Rightarrow> expr \<Rightarrow> diag list"
  and check_arg :: "procs \<Rightarrow> vcontext \<Rightarrow> scopes \<Rightarrow> arg \<Rightarrow> diag list" where
  "checkExpr pr ctx sc (FStringLit ps) = concat (map (checkExpr pr ctx sc) ps)"
| "checkExpr pr ctx sc (ListLit es) = concat (map (checkExpr pr ctx sc) es)"
| "checkExpr pr ctx sc (RangeLit a b) = checkExpr pr ctx sc a @ checkExpr pr ctx sc b"
| "checkExpr pr ctx sc (Ident x) = resolveIdent pr sc x"
| "checkExpr pr ctx sc (BinaryExpr k a b) = checkExpr pr ctx sc a @ checkExpr pr ctx sc b"
| "checkExpr pr ctx sc (UnaryExpr k a) = checkExpr pr ctx sc a"
| "checkExpr pr ctx sc (MemberExpr r f) = checkExpr pr ctx sc r"
| "checkExpr pr ctx sc (IndexExpr r i) = checkExpr pr ctx sc r @ checkExpr pr ctx sc i"
| "checkExpr pr ctx sc (CallExpr f as) =
     (case f of Ident x \<Rightarrow> check_named_call pr ctx sc x as | _ \<Rightarrow> checkExpr pr ctx sc f)
     @ concat (map (check_arg pr ctx sc) as)"
| "checkExpr pr ctx sc (LambdaExpr p b) =
     err_if (isReservedName p) ''lambda param %q shadows a reserved name'' [p]
     @ checkExpr pr ctx ([p] # sc) b"
| "checkExpr pr ctx sc e = []"
| "check_arg pr ctx sc (Arg n e) = checkExpr pr ctx sc e"

text \<open>The callee of a call is looked at only when it is a name.\<close>

fun checkSubscriptionSafe :: "string \<Rightarrow> expr \<Rightarrow> diag list" and subscription_arg :: "string \<Rightarrow> arg \<Rightarrow> diag list" where
  "checkSubscriptionSafe w (CallExpr f as) =
     (case f of
        Ident x \<Rightarrow>
          (let base = (if x \<noteq> [] \<and> last x = 33 then butlast x else x) in
           case ByName base of
             Some b \<Rightarrow> err_if (\<not> SubscriptionSafe b) ''%s predicate cannot call %s: it is not subscription-safe'' [lit w, x]
           | None \<Rightarrow> [])
      | _ \<Rightarrow> [])
     @ concat (map (subscription_arg w) as)"
| "checkSubscriptionSafe w (LambdaExpr p b) = checkSubscriptionSafe w b"
| "checkSubscriptionSafe w (BinaryExpr k a b) = checkSubscriptionSafe w a @ checkSubscriptionSafe w b"
| "checkSubscriptionSafe w (UnaryExpr k a) = checkSubscriptionSafe w a"
| "checkSubscriptionSafe w (MemberExpr r f) = checkSubscriptionSafe w r"
| "checkSubscriptionSafe w (IndexExpr r i) = checkSubscriptionSafe w r @ checkSubscriptionSafe w i"
| "checkSubscriptionSafe w (FStringLit ps) = concat (map (checkSubscriptionSafe w) ps)"
| "checkSubscriptionSafe w (ListLit es) = concat (map (checkSubscriptionSafe w) es)"
| "checkSubscriptionSafe w (RangeLit a b) = checkSubscriptionSafe w a @ checkSubscriptionSafe w b"
| "checkSubscriptionSafe w e = []"
| "subscription_arg w (Arg n e) = checkSubscriptionSafe w e"

section \<open>Statements\<close>

definition checkWhen_context :: "vcontext \<Rightarrow> diag list" where
  "checkWhen_context ctx =
     err_if (inProc ctx) ''when is forbidden inside a proc'' []
     @ err_if (inRequire ctx) ''when is forbidden inside a require block'' []
     @ err_if (\<not> inRoutine ctx \<and> \<not> inHandler ctx) ''when must appear inside a routine or handler body'' []"

definition checkSelect_context :: "vcontext \<Rightarrow> diag list" where
  "checkSelect_context ctx =
     err_if (inProc ctx) ''select is forbidden inside a proc'' []
     @ err_if (inRequire ctx) ''select is forbidden inside a require block'' []
     @ err_if (inHandler ctx \<and> \<not> inRoutine ctx) ''select is forbidden inside an on-handler body'' []"

definition event_errors :: "string \<Rightarrow> string \<Rightarrow> gostring \<Rightarrow> nat \<Rightarrow> diag list" where
  "event_errors unknown arity ev n =
     (case eventArity ev of
        None \<Rightarrow> [Err unknown [ev]]
      | Some want \<Rightarrow> err_if (n \<noteq> want) arity [ev, FormatInt (int want), FormatInt (int n)])"

text \<open>A check of statements: its report and the scope it leaves.\<close>

definition vseq :: "diag list \<times> scopes \<Rightarrow> (scopes \<Rightarrow> diag list \<times> scopes) \<Rightarrow> diag list \<times> scopes" where
  "vseq r f = (let (d, sc) = r; (d', sc') = f sc in (d @ d', sc'))"

lemma vseq_cong [fundef_cong]:
  "r = r' \<Longrightarrow> (\<And>sc. sc = snd r' \<Longrightarrow> f sc = f' sc) \<Longrightarrow> vseq r f = vseq r' f'"
  by (cases r) (auto simp: vseq_def)

text \<open>A block in a scope of its own, which is gone afterwards.\<close>

definition in_scope :: "gostring list \<Rightarrow> scopes \<Rightarrow> (scopes \<Rightarrow> diag list \<times> scopes) \<Rightarrow> diag list \<times> scopes" where
  "in_scope xs sc f = (fst (f (xs # sc)), sc)"

lemma in_scope_cong [fundef_cong]: "xs = ys \<Longrightarrow> sc = sc' \<Longrightarrow> f (ys # sc') = f' (ys # sc') \<Longrightarrow> in_scope xs sc f = in_scope ys sc' f'"
  by (simp add: in_scope_def)

fun checkStmt :: "procs \<Rightarrow> vcontext \<Rightarrow> scopes \<Rightarrow> stmt \<Rightarrow> diag list \<times> scopes"
  and checkBlock :: "procs \<Rightarrow> vcontext \<Rightarrow> scopes \<Rightarrow> stmt list \<Rightarrow> diag list \<times> scopes"
  and check_elifs :: "procs \<Rightarrow> vcontext \<Rightarrow> scopes \<Rightarrow> elif list \<Rightarrow> diag list \<times> scopes"
  and check_opt :: "procs \<Rightarrow> vcontext \<Rightarrow> scopes \<Rightarrow> stmt list option \<Rightarrow> diag list \<times> scopes"
  and check_cases :: "procs \<Rightarrow> vcontext \<Rightarrow> scopes \<Rightarrow> SelectCase list \<Rightarrow> diag list \<times> scopes" where
  "checkStmt pr ctx sc NilExprStmt = ([Crash], sc)"
| "checkStmt pr ctx sc (Block b) = checkBlock pr ctx sc b"
| "checkStmt pr ctx sc (AssignStmt x e) =
     (err_if (isReservedName x) ''cannot assign to reserved name %q'' [x] @ checkExpr pr ctx sc e, bind_name x sc)"
| "checkStmt pr ctx sc (ExprStmt e) = (checkExpr pr ctx sc e, sc)"
| "checkStmt pr ctx sc (IfStmt c b es el) =
     vseq (checkExpr pr ctx sc c, sc) (\<lambda>sc.
     vseq (checkBlock pr ctx sc b) (\<lambda>sc.
     vseq (check_elifs pr ctx sc es) (\<lambda>sc. check_opt pr ctx sc el)))"
| "checkStmt pr ctx sc (WhileStmt c b) =
     vseq (checkExpr pr ctx sc c, sc) (\<lambda>sc. checkBlock pr (ctx\<lparr>inLoop := True\<rparr>) sc b)"
| "checkStmt pr ctx sc (ForStmt x e b) =
     vseq (checkExpr pr ctx sc e @ err_if (isReservedName x) ''for-loop variable %q shadows a reserved name'' [x], sc) (\<lambda>sc.
     in_scope [x] sc (\<lambda>sc. checkBlock pr (ctx\<lparr>inLoop := True\<rparr>) sc b))"
| "checkStmt pr ctx sc (RepeatUntilStmt b c t) =
     vseq (err_if (inHandler ctx) ''repeat ... until is forbidden inside an event handler body'' []
           @ err_if (t = NilExpr) ''repeat ... until requires a timeout'' []
           @ checkExpr pr ctx sc c @ checkExpr pr ctx sc t, sc) (\<lambda>sc.
     checkBlock pr (ctx\<lparr>inLoop := True\<rparr>) sc b)"
| "checkStmt pr ctx sc BreakStmt = (err_if (\<not> inLoop ctx) ''break outside of loop'' [], sc)"
| "checkStmt pr ctx sc ContinueStmt = (err_if (\<not> inLoop ctx) ''continue outside of loop'' [], sc)"
| "checkStmt pr ctx sc (ReturnStmt e) =
     ((if inHandler ctx then [Err ''return is not allowed inside an event handler'' []]
       else err_if (\<not> inRoutine ctx \<and> \<not> inProc ctx) ''return outside of routine or proc'' [])
      @ checkExpr pr ctx sc e, sc)"
| "checkStmt pr ctx sc (AbortStmt e) =
     (err_if (\<not> inRoutine ctx) ''abort outside of routine'' [] @ checkExpr pr ctx sc e, sc)"
| "checkStmt pr ctx sc (TryStmt b x r) =
     vseq (checkBlock pr ctx sc b) (\<lambda>sc. in_scope [x] sc (\<lambda>sc. checkBlock pr ctx sc r))"
| "checkStmt pr ctx sc (DeferStmt e) =
     (err_if (\<not> inRoutine ctx \<and> \<not> inProc ctx) ''defer outside of routine or proc'' []
      @ err_if (inRequire ctx) ''defer is forbidden inside a require block'' []
      @ err_if (\<not> (case e of CallExpr f as \<Rightarrow> True | _ \<Rightarrow> False)) ''defer requires a call expression'' []
      @ checkExpr pr ctx sc e, sc)"
| "checkStmt pr ctx sc (WaitStmt e) =
     (err_if (inProc ctx) ''wait is forbidden inside a proc'' []
      @ err_if (inRequire ctx) ''wait is forbidden inside a require block'' []
      @ err_if (inHandler ctx) ''wait is forbidden inside an on-handler body'' []
      @ checkExpr pr ctx sc e, sc)"
| "checkStmt pr ctx sc (RequireBlock es) = ([], sc)"
| "checkStmt pr ctx sc (WhenStmt p q b) =
     vseq (checkWhen_context ctx @ checkExpr pr ctx sc p @ checkSubscriptionSafe ''when'' p, sc) (\<lambda>sc.
     checkBlock pr (ctx\<lparr>inHandler := True\<rparr>) sc b)"
| "checkStmt pr ctx sc (SelectStmt cs) =
     vseq (checkSelect_context ctx, sc) (\<lambda>sc.
     if cs = [] then ([Err ''select requires at least one case (when, on, or timeout)'' []], sc)
     else vseq (check_cases pr ctx sc cs) (\<lambda>sc.
       ((if list_ex (\<lambda>c. case c of SelectTimeoutCase ms b \<Rightarrow> True | _ \<Rightarrow> False) cs then []
         else [Warn ''select has no timeout case'' []]), sc)))"
| "checkBlock pr ctx sc [] = ([], sc)"
| "checkBlock pr ctx sc (st # b) = vseq (checkStmt pr ctx sc st) (\<lambda>sc. checkBlock pr ctx sc b)"
| "check_elifs pr ctx sc [] = ([], sc)"
| "check_elifs pr ctx sc (ElifClause c b # es) =
     vseq (checkExpr pr ctx sc c, sc) (\<lambda>sc.
     vseq (checkBlock pr ctx sc b) (\<lambda>sc. check_elifs pr ctx sc es))"
| "check_opt pr ctx sc None = ([], sc)"
| "check_opt pr ctx sc (Some b) = checkBlock pr ctx sc b"
| "check_cases pr ctx sc [] = ([], sc)"
| "check_cases pr ctx sc (SelectWhenCase p q b # cs) =
     vseq (checkExpr pr ctx sc p @ checkSubscriptionSafe ''select-when'' p, sc) (\<lambda>sc.
     vseq (check_opt pr ctx sc b) (\<lambda>sc. check_cases pr ctx sc cs))"
| "check_cases pr ctx sc (SelectOnCase ev ps b # cs) =
     vseq (event_errors ''unknown event %q in select-on case'' ''event %s takes %d param(s); got %d'' ev (length ps), sc) (\<lambda>sc.
     vseq (in_scope (rev ps) sc (\<lambda>sc. checkBlock pr ctx sc b)) (\<lambda>sc. check_cases pr ctx sc cs))"
| "check_cases pr ctx sc (SelectTimeoutCase ms b # cs) =
     vseq (err_if (ms \<le> 0) ''timeout must be > 0 (got %dms)'' [FormatInt ms], sc) (\<lambda>sc.
     vseq (checkBlock pr ctx sc b) (\<lambda>sc. check_cases pr ctx sc cs))"

section \<open>Declarations\<close>

text \<open>\<open>bindParams\<close>: a default is checked in the scope of the parameters before it and its own.\<close>

fun bind_params :: "procs \<Rightarrow> scopes \<Rightarrow> Param list \<Rightarrow> diag list \<times> scopes" where
  "bind_params pr sc [] = ([], sc)"
| "bind_params pr sc (Param x d # ps) =
     vseq
       (if isReservedName x then ([Err ''parameter %q shadows a reserved variable'' [x]], sc)
        else if (case sc of [] \<Rightarrow> False | names # up \<Rightarrow> x \<in> set names) then ([Err ''duplicate parameter %q'' [x]], sc)
        else (checkExpr pr no_context (bind_name x sc) d, bind_name x sc))
       (\<lambda>sc. bind_params pr sc ps)"

fun validateProc :: "procs \<Rightarrow> ProcDecl \<Rightarrow> diag list" where
  "validateProc pr (ProcDecl n ps b) =
     fst (vseq (bind_params pr [[]] ps) (\<lambda>sc. checkBlock pr (no_context\<lparr>inProc := True\<rparr>) sc b))"

fun validateHandler :: "procs \<Rightarrow> scopes \<Rightarrow> OnHandler \<Rightarrow> diag list" where
  "validateHandler pr up (OnHandler ev ps b) =
     event_errors ''unknown event %q'' ''event %q expects %d param(s), got %d'' ev (length ps)
     @ fst (vseq (bind_params pr ([] # up) ps) (\<lambda>sc.
              checkBlock pr (no_context\<lparr>inHandler := True, inRoutine := True\<rparr>) sc b))"

fun validateBounds :: "procs \<Rightarrow> BoundsDecl \<Rightarrow> diag list" where
  "validateBounds pr (BoundsDecl e hs ps bs) =
     (if e = NilExpr then [Err ''bounds block missing shape expression'' []]
      else checkExpr pr no_context [[]] e
        @ concat (map (validateHandler pr []) hs)
        @ concat (map (validateBounds pr) bs))"

text \<open>A leading \<open>require\<close> moves out of the body.\<close>

fun hoist :: "RoutineDecl \<Rightarrow> routine" where
  "hoist (RoutineDecl n ps (RequireBlock es # b)) = \<lparr>r_Params = ps, r_Require = Some es, r_Handlers = [], r_Body = b\<rparr>"
| "hoist (RoutineDecl n ps b) = \<lparr>r_Params = ps, r_Require = None, r_Handlers = [], r_Body = b\<rparr>"

definition is_require :: "stmt \<Rightarrow> bool" where
  "is_require st = (case st of RequireBlock es \<Rightarrow> True | _ \<Rightarrow> False)"

definition validateRoutine :: "procs \<Rightarrow> routine \<Rightarrow> diag list" where
  "validateRoutine pr r =
     (let (d, sc) = bind_params pr [[]] (r_Params r) in
      d
      @ concat (map (\<lambda>st. err_if (is_require st) ''require block must be the first statement in a routine body'' []) (r_Body r))
      @ concat (map (checkExpr pr (no_context\<lparr>inRequire := True, inRoutine := True\<rparr>) sc)
          (case r_Require r of None \<Rightarrow> [] | Some es \<Rightarrow> es))
      @ concat (map (validateHandler pr sc) (r_Handlers r))
      @ fst (checkBlock pr (no_context\<lparr>inRoutine := True\<rparr>) sc (r_Body r)))"

text \<open>The index of the procedures: the first of a name.\<close>

fun index_procs :: "ProcDecl list \<Rightarrow> procs \<Rightarrow> diag list \<times> procs" where
  "index_procs [] pr = ([], pr)"
| "index_procs (ProcDecl n ps b # qs) pr =
     (let (d, pr') = index_procs qs (if pr n = None then pr(n \<mapsto> ProcDecl n ps b) else pr) in
      (err_if (isReservedName n) ''proc name %q shadows a reserved variable'' [n]
       @ err_if (pr n \<noteq> None) ''duplicate proc %q'' [n] @ d, pr'))"

definition validator_run :: "routine_file \<Rightarrow> diag list" where
  "validator_run f =
     (let (d, pr) = index_procs (f_Procs f) Map.empty in
      d
      @ concat (map (validateProc pr) (f_Procs f))
      @ concat (map (validateHandler pr []) (f_Handlers f))
      @ concat (map (validateBounds pr) (f_Bounds f))
      @ (case f_Routine f of None \<Rightarrow> [] | Some r \<Rightarrow> validateRoutine pr (hoist r)))"

fun is_error :: "diag \<Rightarrow> bool" where
  "is_error (Warn m xs) = False"
| "is_error d = True"

text \<open>\<open>Validate\<close>: the errors, or the routine as the interpreter gets it.\<close>

definition Validate :: "routine_file \<Rightarrow> diag list + routine option" where
  "Validate f =
     (let errs = filter is_error (validator_run f) in
      if errs = [] then Inr (map_option hoist (f_Routine f)) else Inl errs)"

end
