(* ===== verification/DslArgs.thy ===== *)
theory DslArgs
  imports DslSpec
begin

text \<open>
  The check of literal arguments against the catalogs of the world (dsl/validator/static_args.go). The catalog is a
  parameter. An error carries no position.
\<close>

record Catalog =
  KnownPlaceOrPOI :: "gostring \<Rightarrow> bool"
  KnownPlace :: "gostring \<Rightarrow> bool"
  KnownItem :: "gostring \<Rightarrow> bool"
  Examples :: "CatalogKind \<Rightarrow> gostring list"

record ArgError =
  x_Verb :: gostring
  x_Param :: gostring
  x_Kind :: CatalogKind
  x_Value :: gostring
  x_Samples :: "gostring list"

definition known :: "Catalog \<Rightarrow> CatalogKind \<Rightarrow> gostring \<Rightarrow> bool" where
  "known cat k v =
     (case k of CatalogPlaceOrPOI \<Rightarrow> KnownPlaceOrPOI cat v | CatalogPlace \<Rightarrow> KnownPlace cat v | CatalogItem \<Rightarrow> KnownItem cat v
      | _ \<Rightarrow> True)"

definition checkLiteral :: "Catalog \<Rightarrow> gostring \<Rightarrow> ActionSpec \<Rightarrow> nat \<Rightarrow> CatalogKind \<Rightarrow> gostring \<Rightarrow> ArgError list" where
  "checkLiteral cat verb a i k v =
     (if known cat k v then []
      else [\<lparr>x_Verb = verb, x_Param = (if i < length (a_Params a) then a_Params a ! i else lit ''arg''), x_Kind = k,
             x_Value = v, x_Samples = Examples cat k\<rparr>])"

text \<open>The positional arguments, the first at position \<open>pos\<close>.\<close>

fun check_args :: "Catalog \<Rightarrow> gostring \<Rightarrow> ActionSpec \<Rightarrow> nat \<Rightarrow> arg list \<Rightarrow> ArgError list" where
  "check_args cat verb a pos [] = []"
| "check_args cat verb a pos (Arg n e # as) =
     (if n \<noteq> [] then check_args cat verb a pos as
      else (let k = ParamKind a pos in
            if k = CatalogNone \<or> k = CatalogNPC then []
            else case e of StringLit v \<Rightarrow> checkLiteral cat verb a pos k v | _ \<Rightarrow> [])
           @ check_args cat verb a (Suc pos) as)"

definition checkCall :: "Catalog \<Rightarrow> expr \<Rightarrow> arg list \<Rightarrow> ArgError list" where
  "checkCall cat f as =
     (case f of
        Ident x \<Rightarrow>
          (let base = fst (StripBang x) in
           case ByName base of
             Some a \<Rightarrow> if a_ParamKinds a = [] then [] else check_args cat base a 0 as
           | None \<Rightarrow> [])
      | _ \<Rightarrow> [])"

section \<open>The walk\<close>

fun walkExpr :: "Catalog \<Rightarrow> expr \<Rightarrow> ArgError list" and walk_arg :: "Catalog \<Rightarrow> arg \<Rightarrow> ArgError list" where
  "walkExpr c (CallExpr f as) = checkCall c f as @ walkExpr c f @ concat (map (walk_arg c) as)"
| "walkExpr c (BinaryExpr k a b) = walkExpr c a @ walkExpr c b"
| "walkExpr c (UnaryExpr k a) = walkExpr c a"
| "walkExpr c (MemberExpr r f) = walkExpr c r"
| "walkExpr c (IndexExpr r i) = walkExpr c r @ walkExpr c i"
| "walkExpr c (LambdaExpr p b) = walkExpr c b"
| "walkExpr c (ListLit es) = concat (map (walkExpr c) es)"
| "walkExpr c (RangeLit a b) = walkExpr c a @ walkExpr c b"
| "walkExpr c (FStringLit ps) = concat (map (walkExpr c) ps)"
| "walkExpr c e = []"
| "walk_arg c (Arg n e) = walkExpr c e"

fun walkStmt :: "Catalog \<Rightarrow> stmt \<Rightarrow> ArgError list"
  and walk_elif :: "Catalog \<Rightarrow> elif \<Rightarrow> ArgError list"
  and walk_case :: "Catalog \<Rightarrow> SelectCase \<Rightarrow> ArgError list" where
  "walkStmt c (Block b) = concat (map (walkStmt c) b)"
| "walkStmt c (AssignStmt x e) = walkExpr c e"
| "walkStmt c (ExprStmt e) = walkExpr c e"
| "walkStmt c (IfStmt e b es el) =
     walkExpr c e @ concat (map (walkStmt c) b) @ concat (map (walk_elif c) es)
     @ (case el of None \<Rightarrow> [] | Some b' \<Rightarrow> concat (map (walkStmt c) b'))"
| "walkStmt c (WhileStmt e b) = walkExpr c e @ concat (map (walkStmt c) b)"
| "walkStmt c (ForStmt x e b) = walkExpr c e @ concat (map (walkStmt c) b)"
| "walkStmt c (RepeatUntilStmt b e t) = concat (map (walkStmt c) b) @ walkExpr c e @ walkExpr c t"
| "walkStmt c (ReturnStmt e) = walkExpr c e"
| "walkStmt c (AbortStmt e) = walkExpr c e"
| "walkStmt c (WaitStmt e) = walkExpr c e"
| "walkStmt c (DeferStmt e) = walkExpr c e"
| "walkStmt c (TryStmt b x r) = concat (map (walkStmt c) b) @ concat (map (walkStmt c) r)"
| "walkStmt c (WhenStmt e q b) = walkExpr c e @ concat (map (walkStmt c) b)"
| "walkStmt c (SelectStmt cs) = concat (map (walk_case c) cs)"
| "walkStmt c (RequireBlock es) = concat (map (walkExpr c) es)"
| "walkStmt c st = []"
| "walk_elif c (ElifClause e b) = walkExpr c e @ concat (map (walkStmt c) b)"
| "walk_case c (SelectWhenCase e q ob) =
     walkExpr c e @ (case ob of None \<Rightarrow> [] | Some b \<Rightarrow> concat (map (walkStmt c) b))"
| "walk_case c (SelectOnCase ev ps b) = concat (map (walkStmt c) b)"
| "walk_case c (SelectTimeoutCase ms b) = concat (map (walkStmt c) b)"

definition walkBlock :: "Catalog \<Rightarrow> stmt list \<Rightarrow> ArgError list" where
  "walkBlock c b = concat (map (walkStmt c) b)"

fun walkParam :: "Catalog \<Rightarrow> Param \<Rightarrow> ArgError list" where
  "walkParam c (Param x d) = walkExpr c d"

definition walkParams :: "Catalog \<Rightarrow> Param list \<Rightarrow> ArgError list" where
  "walkParams c ps = concat (map (walkParam c) ps)"

fun walk_handler :: "Catalog \<Rightarrow> OnHandler \<Rightarrow> ArgError list" where
  "walk_handler c (OnHandler n ps b) = walkParams c ps @ walkBlock c b"

fun walk_proc :: "Catalog \<Rightarrow> ProcDecl \<Rightarrow> ArgError list" where
  "walk_proc c (ProcDecl n ps b) = walkParams c ps @ walkBlock c b"

fun walk_bounds :: "Catalog \<Rightarrow> BoundsDecl \<Rightarrow> ArgError list" where
  "walk_bounds c (BoundsDecl e hs ps bs) =
     walkExpr c e @ concat (map (walk_handler c) hs) @ concat (map (walk_proc c) ps) @ concat (map (walk_bounds c) bs)"

fun walk_routine :: "Catalog \<Rightarrow> RoutineDecl \<Rightarrow> ArgError list" where
  "walk_routine c (RoutineDecl n ps b) = walkParams c ps @ walkBlock c b"

text \<open>A file before the validator hoists its preconditions; after it, they are walked before the body all the same.\<close>

definition CheckArgLiterals :: "Catalog option \<Rightarrow> routine_file \<Rightarrow> ArgError list" where
  "CheckArgLiterals cat f =
     (case cat of
        None \<Rightarrow> []
      | Some c \<Rightarrow>
          (case f_Routine f of None \<Rightarrow> [] | Some r \<Rightarrow> walk_routine c r)
          @ concat (map (walk_proc c) (f_Procs f))
          @ concat (map (walk_handler c) (f_Handlers f))
          @ concat (map (walk_bounds c) (f_Bounds f)))"

section \<open>What it rejects\<close>

text \<open>An error names a value that its catalog does not know, and an action whose parameters are tagged with that catalog.\<close>

definition justified :: "Catalog \<Rightarrow> ArgError \<Rightarrow> bool" where
  "justified c x \<longleftrightarrow> \<not> known c (x_Kind x) (x_Value x)
     \<and> (\<exists>a. ByName (x_Verb x) = Some a \<and> x_Kind x \<in> set (a_ParamKinds a))"

lemma known_kind: "\<not> known c k v \<Longrightarrow> k \<noteq> CatalogNone \<and> k \<noteq> CatalogNPC"
  by (cases k) (simp_all add: known_def)

lemma check_args_justified:
  "ByName verb = Some a \<Longrightarrow> list_all (justified c) (check_args c verb a pos as)"
proof (induction c verb a pos "as" rule: check_args.induct)
  case (2 c verb a pos n e as)
  have "ParamKind a pos \<noteq> CatalogNone \<Longrightarrow> ParamKind a pos \<in> set (a_ParamKinds a)"
    by (auto simp: ParamKind_def split: if_splits)
  then show ?case using 2 by (auto simp: Let_def checkLiteral_def justified_def split: expr.split)
qed simp

lemma checkCall_justified: "list_all (justified c) (checkCall c f as)"
  by (auto simp: checkCall_def Let_def check_args_justified split: expr.split option.split)

lemma concat_all: "list_all P (concat xss) = list_all (list_all P) xss"
  by (induction xss) auto

lemma walkExpr_justified: "list_all (justified c) (walkExpr c e)" "list_all (justified c) (walk_arg c a)"
  by (induction c e and c a rule: walkExpr_walk_arg.induct)
    (auto simp: checkCall_justified concat_all list_all_iff [of _ "map _ _"])

lemma walkStmt_justified:
  "list_all (justified c) (walkStmt c st)" "list_all (justified c) (walk_elif c ec)" "list_all (justified c) (walk_case c sc)"
  by (induction c st and c ec and c sc rule: walkStmt_walk_elif_walk_case.induct)
    (auto simp: walkExpr_justified concat_all list_all_iff [of _ "map _ _"] split: option.split)

lemma walk_parts_justified:
  "list_all (justified c) (walkBlock c b)" "list_all (justified c) (walkParams c ps)"
  "list_all (justified c) (walk_handler c hr)" "list_all (justified c) (walk_proc c pd)"
  "list_all (justified c) (walk_routine c rd)"
proof -
  show b: "list_all (justified c) (walkBlock c b)" for b
    by (auto simp: walkBlock_def concat_all list_all_iff [of _ "map _ _"] walkStmt_justified)
  have "list_all (justified c) (walkParam c p)" for p by (cases p) (simp add: walkExpr_justified)
  then show p: "list_all (justified c) (walkParams c ps)" for ps
    by (auto simp: walkParams_def concat_all list_all_iff [of _ "map _ _"])
  show "list_all (justified c) (walk_handler c hr)" by (cases hr) (simp add: b p)
  show "list_all (justified c) (walk_proc c pd)" by (cases pd) (simp add: b p)
  show "list_all (justified c) (walk_routine c rd)" by (cases rd) (simp add: b p)
qed

lemma walk_bounds_justified: "list_all (justified c) (walk_bounds c bd)"
  by (induction c bd rule: walk_bounds.induct)
    (auto simp: concat_all list_all_iff [of _ "map _ _"] walkExpr_justified walk_parts_justified)

lemma literals_justified: "list_all (justified c) (CheckArgLiterals (Some c) f)"
  by (auto simp: CheckArgLiterals_def concat_all list_all_iff [of _ "map _ _"] walk_parts_justified walk_bounds_justified
      split: option.split)

text \<open>A catalog that knows everything rejects nothing.\<close>

lemma all_known_no_error:
  assumes "\<And>k v. known c k v"
  shows "CheckArgLiterals (Some c) f = []"
  using literals_justified [of c f] assms by (cases "CheckArgLiterals (Some c) f") (simp_all add: justified_def)

end
