(* ===== verification/DslRun.thy ===== *)
theory DslRun
  imports DslExec
begin

text \<open>
  Events, \<open>select\<close>, statements and procedures; the knot \<open>run\<close>; \<open>RunRoutine\<close> and the interactive session
  (dsl/interp/events.go, watchers.go, interp.go, repl.go).
\<close>

section \<open>Events\<close>

fun bind_handler :: "nat \<Rightarrow> Param list \<Rightarrow> val list \<Rightarrow> (unit, 'w) act" where
  "bind_handler e [] args = ret ()"
| "bind_handler e (Param x d # ps) args =
     bnd (Define e x (case args of [] \<Rightarrow> VNull | v # _ \<Rightarrow> v)) (\<lambda>_. bind_handler e ps (tl args))"

fun runHandler :: "'w runner \<Rightarrow> bool \<Rightarrow> OnHandler \<Rightarrow> nat \<Rightarrow> val list \<Rightarrow> (unit, 'w) act" where
  "runHandler run ctx (OnHandler n ps b) env args =
     bnd (Child env) (\<lambda>e.
     bnd (bind_handler e ps args) (\<lambda>_.
     handle (run (ExecBlock ctx b e)) (\<lambda>r.
     case r of
       Throw BreakSignal \<Rightarrow> ret ()
     | Throw ContinueSignal \<Rightarrow> ret ()
     | Throw (ReturnSignal v) \<Rightarrow> ret ()
     | Throw g \<Rightarrow> throw g
     | Fail e \<Rightarrow> fail e
     | Ret v \<Rightarrow> ret ())))"

definition eventLocation :: "val list \<Rightarrow> (int \<times> int) option" where
  "eventLocation args =
     (if length args < 3 then None
      else case (AsInt (args ! 1), AsInt (args ! 2)) of (Some x, Some y) \<Rightarrow> Some (x, y) | _ \<Rightarrow> None)"

fun in_region :: "'w host \<Rightarrow> int \<times> int \<Rightarrow> region \<Rightarrow> bool" where
  "in_region h xy NeverMatch = False"
| "in_region h xy (HostRegion n) = h_region h n (fst xy) (snd xy)"

text \<open>\<open>BoundedHandler.Matches\<close>.\<close>

definition Matches :: "'w host \<Rightarrow> BoundedHandler \<Rightarrow> int \<times> int \<Rightarrow> bool" where
  "Matches h b xy = list_all (in_region h xy) (b_Filters b)"

definition fireEventListeners :: "gostring \<Rightarrow> val list \<Rightarrow> (unit, 'w) act" where
  "fireEventListeners n args =
     modify (\<lambda>s. s\<lparr>i_onch := fold (deliver args) (filter (\<lambda>l. e_name l = n) (i_listeners s)) (i_onch s)\<rparr>)"

text \<open>One event: listeners, handlers, bounded handlers.\<close>

definition one_event :: "'w host \<Rightarrow> 'w runner \<Rightarrow> bool \<Rightarrow> nat \<Rightarrow> gostring \<Rightarrow> val list \<Rightarrow> (unit, 'w) act" where
  "one_event h run ctx env n args =
     bnd (fireEventListeners n args) (\<lambda>_.
     bnd (gets (\<lambda>s. i_handlers s n)) (\<lambda>hs.
     bnd (each (\<lambda>hd. runHandler run ctx hd env args) hs) (\<lambda>_.
     bnd (gets (\<lambda>s. i_bounded s n)) (\<lambda>bs.
     bnd (each (\<lambda>b. case eventLocation args of
              Some xy \<Rightarrow> if Matches h b xy then runHandler run ctx (b_Handler b) env args else ret ()
            | None \<Rightarrow> runHandler run ctx (b_Handler b) env args) bs) (\<lambda>_. ret ())))))"

definition drain_step :: "'w host \<Rightarrow> 'w runner \<Rightarrow> bool \<Rightarrow> nat \<Rightarrow> (val, 'w) act" where
  "drain_step h run ctx env =
     bnd (world (h_poll h)) (\<lambda>ev.
     case ev of
       None \<Rightarrow> ret VNull
     | Some (n, args) \<Rightarrow> bnd (one_event h run ctx env n args) (\<lambda>_. run (Drain ctx env)))"

text \<open>Events, then watchers, then the checkpoint and \<open>OnAction\<close> of the host.\<close>

definition dispatchPendingEvents :: "'w host \<Rightarrow> 'w runner \<Rightarrow> bool \<Rightarrow> nat \<Rightarrow> (val, 'w) act" where
  "dispatchPendingEvents h run ctx env =
     bnd (run (Drain ctx env)) (\<lambda>_.
     bnd (evalWatchersOnce h run ctx) (\<lambda>_.
     bnd (modify (\<lambda>s. s\<lparr>i_world := h_boundary h (i_world s)\<rparr>)) (\<lambda>_. ret VNull)))"

section \<open>Select\<close>

fun when_states :: "'w runner \<Rightarrow> bool \<Rightarrow> nat \<Rightarrow> nat \<Rightarrow> SelectCase list \<Rightarrow> (whenCase list, 'w) act" where
  "when_states run ctx env i [] = ret []"
| "when_states run ctx env i (SelectWhenCase p q b # cs) =
     bnd (seed run ctx q p env) (\<lambda>v.
     bnd (when_states run ctx env (Suc i) cs) (\<lambda>ws. ret (WhenCase i p q b v # ws)))"
| "when_states run ctx env i (c # cs) = when_states run ctx env (Suc i) cs"

definition select_body :: "'w runner \<Rightarrow> bool \<Rightarrow> stmt list option \<Rightarrow> nat \<Rightarrow> (val, 'w) act" where
  "select_body run ctx b env = child_block run ctx (case b of None \<Rightarrow> [] | Some b \<Rightarrow> b) env"

text \<open>The check before waiting: the first case whose edge holds already runs.\<close>

fun precheck :: "'w host \<Rightarrow> 'w runner \<Rightarrow> bool \<Rightarrow> nat \<Rightarrow> whenCase list \<Rightarrow> (stmt list option option \<times> whenCase list, 'w) act" where
  "precheck h run ctx env [] = ret (None, [])"
| "precheck h run ctx env (WhenCase i p q b v # ws) =
     bnd (evalPanic run ctx p env) (\<lambda>cur.
     if edge h q v cur then ret (Some b, WhenCase i p q b cur # ws)
     else bnd (precheck h run ctx env ws) (\<lambda>(r, ws'). ret (r, WhenCase i p q b cur # ws')))"

text \<open>A tick: every predicate is evaluated; the case with the lowest index among those that fire.\<close>

fun poll_whens :: "'w host \<Rightarrow> 'w runner \<Rightarrow> bool \<Rightarrow> nat \<Rightarrow> whenCase list \<Rightarrow> (nat option \<times> whenCase list, 'w) act" where
  "poll_whens h run ctx env [] = ret (None, [])"
| "poll_whens h run ctx env (WhenCase i p q b v # ws) =
     bnd (evalPanic run ctx p env) (\<lambda>cur.
     bnd (poll_whens h run ctx env ws) (\<lambda>(r, ws').
     ret (if edge h q v cur then (case r of Some j \<Rightarrow> Some (min i j) | None \<Rightarrow> Some i) else r,
          WhenCase i p q b cur # ws')))"

definition select_listeners :: "nat \<Rightarrow> SelectCase list \<Rightarrow> eventListener list" where
  "select_listeners n cs =
     concat (map (\<lambda>(i, c). case c of
                     SelectOnCase e ps b \<Rightarrow>
                       [\<lparr>e_name = e, e_select = n, e_case = i, e_params = ps, e_room = max 1 (length cs)\<rparr>]
                   | _ \<Rightarrow> []) (zip [0..<length cs] cs))"

text \<open>Of the delivered events the first of the lowest case.\<close>

fun best_on :: "onFired list \<Rightarrow> onFired option" where
  "best_on [] = None"
| "best_on (f # fs) =
     (case best_on fs of None \<Rightarrow> Some f | Some g \<Rightarrow> if o_case g < o_case f then Some g else Some f)"

fun elapsed_timeout :: "SelectCase list \<Rightarrow> nat \<Rightarrow> int \<Rightarrow> nat option" where
  "elapsed_timeout [] i t = None"
| "elapsed_timeout (SelectTimeoutCase ms b # cs) i t =
     (if int64 (ms * 1000000) \<le> t then Some i else elapsed_timeout cs (Suc i) t)"
| "elapsed_timeout (c # cs) i t = elapsed_timeout cs (Suc i) t"

fun case_body :: "SelectCase \<Rightarrow> stmt list option" where
  "case_body (SelectWhenCase p q b) = b"
| "case_body (SelectOnCase e ps b) = Some b"
| "case_body (SelectTimeoutCase ms b) = Some b"

text \<open>The body of case \<open>i\<close>; every index that a select considers is that of a case.\<close>

definition winner_body :: "SelectCase list \<Rightarrow> nat \<Rightarrow> stmt list" where
  "winner_body cs i =
     (if i < length cs then (case case_body (cs ! i) of None \<Rightarrow> [] | Some b \<Rightarrow> b) else [])"

text \<open>\<open>consider\<close> over the three ready buckets: the lowest index, the earlier bucket on a tie.\<close>

definition winner :: "nat option \<Rightarrow> onFired option \<Rightarrow> nat option \<Rightarrow> (nat \<times> gostring list \<times> val list) option" where
  "winner w f t =
     (let cs = (case w of Some i \<Rightarrow> [(i, [], [])] | None \<Rightarrow> [])
               @ (case f of Some o1 \<Rightarrow> [(o_case o1, o_params o1, o_args o1)] | None \<Rightarrow> [])
               @ (case t of Some i \<Rightarrow> [(i, [], [])] | None \<Rightarrow> []) in
      fold (\<lambda>c best. case best of None \<Rightarrow> Some c | Some b \<Rightarrow> if fst c < fst b then Some c else Some b) cs None)"

fun bind_names :: "nat \<Rightarrow> gostring list \<Rightarrow> val list \<Rightarrow> (unit, 'w) act" where
  "bind_names e [] args = ret ()"
| "bind_names e (x # xs) args =
     bnd (Define e x (case args of [] \<Rightarrow> VNull | v # _ \<Rightarrow> v)) (\<lambda>_. bind_names e xs (tl args))"

definition cancelled_select :: rterr where
  "cancelled_select = RtErr ''select cancelled: %v'' [lit ''context canceled'']"

text \<open>Waiting for the next tick. An event that wakes it goes back to the end of the channel.\<close>

definition select_wait :: "'w host \<Rightarrow> bool \<Rightarrow> nat \<Rightarrow> (unit, 'w) act" where
  "select_wait h ctx n =
     bnd (gets (\<lambda>s. i_onch s n)) (\<lambda>q.
     bnd (world (h_wake h (q \<noteq> []))) (\<lambda>k.
     case k of
       WakeDone \<Rightarrow> if ctx then throw (Panicked cancelled_select) else ret ()
     | WakeTimer \<Rightarrow> ret ()
     | WakeOn \<Rightarrow>
         (case q of
            [] \<Rightarrow> ret ()
          | f # fs \<Rightarrow> modify (\<lambda>s. s\<lparr>i_onch := (i_onch s)(n := fs @ [f])\<rparr>))))"

definition select_step :: "'w host \<Rightarrow> 'w runner \<Rightarrow> bool \<Rightarrow> nat \<Rightarrow> SelectCase list \<Rightarrow> whenCase list \<Rightarrow> nat \<Rightarrow> int \<Rightarrow> (val, 'w) act" where
  "select_step h run ctx n cs ws env start =
     bnd (ctx_err h ctx) (\<lambda>c.
     if c then throw (Panicked cancelled_select)
     else bnd (gets (\<lambda>s. best_on (i_onch s n))) (\<lambda>f.
       bnd (modify (\<lambda>s. s\<lparr>i_onch := (i_onch s)(n := [])\<rparr>)) (\<lambda>_.
       bnd (poll_whens h run ctx env ws) (\<lambda>(w, ws').
       bnd (world (h_now h)) (\<lambda>now.
       case winner w f (elapsed_timeout cs 0 (now - start)) of
         Some (i, ps, args) \<Rightarrow>
           bnd (Child env) (\<lambda>e.
           bnd (bind_names e ps args) (\<lambda>_.
           run (ExecBlock ctx (winner_body cs i) e)))
       | None \<Rightarrow>
           bnd (dispatch run True ctx) (\<lambda>_.
           bnd (select_wait h ctx n) (\<lambda>_.
           run (SelectLoop ctx n cs ws' env start))))))))"

definition execSelect :: "'w host \<Rightarrow> 'w runner \<Rightarrow> bool \<Rightarrow> SelectCase list \<Rightarrow> nat \<Rightarrow> (val, 'w) act" where
  "execSelect h run ctx cs env =
     bnd (when_states run ctx env 0 cs) (\<lambda>ws.
     bnd (precheck h run ctx env ws) (\<lambda>(hit, ws).
     case hit of
       Some b \<Rightarrow> select_body run ctx b env
     | None \<Rightarrow>
         bnd (gets i_next) (\<lambda>n.
         bnd (modify (\<lambda>s. s\<lparr>i_next := Suc n, i_listeners := i_listeners s @ select_listeners n cs,
                            i_onch := (i_onch s)(n := [])\<rparr>)) (\<lambda>_.
         deferring (bnd (world (h_now h)) (\<lambda>start. run (SelectLoop ctx n cs ws env start))) (removeListeners n)))))"

section \<open>Procedures\<close>

fun bindParams :: "'w runner \<Rightarrow> nat \<Rightarrow> Param list \<Rightarrow> val list \<Rightarrow> (unit, 'w) act" where
  "bindParams run e [] args = ret ()"
| "bindParams run e (Param x d # ps) args =
     (case args of
        v # vs \<Rightarrow> bnd (Define e x v) (\<lambda>_. bindParams run e ps vs)
      | [] \<Rightarrow>
          (if d = NilExpr then fail (RtErr ''missing required argument %q'' [x])
           else bnd (run (Eval False d e)) (\<lambda>v. bnd (Define e x v) (\<lambda>_. bindParams run e ps []))))"

fun proc_name :: "ProcDecl \<Rightarrow> gostring" where
  "proc_name (ProcDecl n ps b) = n"

text \<open>A fresh root scope with the reserved names and the procedures of file \<open>f\<close>.\<close>

definition root_env :: "'w host \<Rightarrow> nat \<Rightarrow> (nat, 'w) act" where
  "root_env h f =
     bnd NewEnv (\<lambda>e.
     bnd (each (\<lambda>(x, v). Define e x v) (h_reserved h)) (\<lambda>_.
     bnd (gets (\<lambda>s. procs_of s f)) (\<lambda>ps.
     bnd (each (\<lambda>(i, p). bnd (new_ref (ProcCallable (proc_name p) f i)) (Define e (proc_name p)))
            (zip [0..<length ps] ps)) (\<lambda>_. ret e))))"

text \<open>The conversion of what ended a body into a result.\<close>

fun result_of :: "val outcome \<Rightarrow> result" where
  "result_of (Ret v) = Completed"
| "result_of (Throw (ReturnSignal v)) = Returned v"
| "result_of (Throw (AbortSignal v)) = Aborted v"
| "result_of (Throw (Panicked e)) = Errored e"
| "result_of (Throw BreakSignal) = Errored (Unvalidated ''break outside of loop reached interpreter top level'')"
| "result_of (Throw ContinueSignal) = Errored (Unvalidated ''continue outside of loop reached interpreter top level'')"
| "result_of (Throw GoPanic) = Errored ContainedPanic"
| "result_of (Fail e) = Errored e"

definition execBody :: "'w host \<Rightarrow> 'w runner \<Rightarrow> bool \<Rightarrow> stmt list \<Rightarrow> nat \<Rightarrow> (result, 'w) act" where
  "execBody h run ctx b env =
     bnd (bnd (ctx_err h ctx) (\<lambda>c.
          if c then ret Canceled else handle (run (ExecBlock ctx b env)) (\<lambda>r. ret (result_of r)))) (\<lambda>res.
     bnd (drainDeferred run) (\<lambda>_. ret res))"

fun proc_call :: "'w host \<Rightarrow> 'w runner \<Rightarrow> nat \<Rightarrow> ProcDecl \<Rightarrow> val list \<Rightarrow> (val, 'w) act" where
  "proc_call h run f (ProcDecl n ps b) args =
     bnd (enterCall h) (\<lambda>_.
     deferring
       (bnd (root_env h f) (\<lambda>e.
        bnd (bindParams run e ps args) (\<lambda>_.
        bnd (execBody h run False b e) (\<lambda>res.
        case res of
          Completed \<Rightarrow> ret VNull
        | Returned v \<Rightarrow> ret v
        | Errored err \<Rightarrow> fail err
        | Aborted v \<Rightarrow> throw (AbortSignal v)
        | Canceled \<Rightarrow> fail (RtErr ''proc %s ended with unexpected kind %s'' [n, lit ''canceled''])))))
       exitCall)"

text \<open>\<open>Callable.Call\<close>. No run makes a procedure value whose place does not exist.\<close>

definition callable_call :: "'w host \<Rightarrow> 'w runner \<Rightarrow> val \<Rightarrow> val list \<Rightarrow> (gostring \<times> val) list \<Rightarrow> (val, 'w) act" where
  "callable_call h run f args named =
     (case f of
        VRef a (ProcCallable n fi i) \<Rightarrow>
          bnd (gets (\<lambda>s. procs_of s fi)) (\<lambda>ps.
          if i < length ps then proc_call h run fi (ps ! i) args else fail (RtErr ''no such proc'' [n]))
      | _ \<Rightarrow> call_value h run f args named)"

section \<open>Statements\<close>

definition exec_stmt :: "'w host \<Rightarrow> 'w runner \<Rightarrow> bool \<Rightarrow> stmt \<Rightarrow> nat \<Rightarrow> (val, 'w) act" where
  "exec_stmt h run ctx st env =
     (case st of
        NilExprStmt \<Rightarrow> throw GoPanic
      | Block b \<Rightarrow> child_block run ctx b env
      | AssignStmt x e \<Rightarrow> bnd (evalPanic run ctx e env) (\<lambda>v. bnd (EnvSet env x v) (\<lambda>_. ret VNull))
      | ExprStmt e \<Rightarrow> bnd (evalPanic run ctx e env) (\<lambda>_. ret VNull)
      | IfStmt c b es el \<Rightarrow> execIf h run ctx c b es el env
      | WhileStmt c b \<Rightarrow> run (WhileLoop ctx c b env)
      | ForStmt x e b \<Rightarrow> execFor h run ctx x e b env
      | RepeatUntilStmt b c t \<Rightarrow> execRepeatUntil h run ctx b c t env
      | BreakStmt \<Rightarrow> throw BreakSignal
      | ContinueStmt \<Rightarrow> throw ContinueSignal
      | ReturnStmt e \<Rightarrow> bnd (evalPanic run ctx e env) (\<lambda>v. throw (ReturnSignal v))
      | AbortStmt e \<Rightarrow> bnd (evalPanic run ctx e env) (\<lambda>v. throw (AbortSignal v))
      | WaitStmt e \<Rightarrow> execWait h run ctx e env
      | DeferStmt e \<Rightarrow> pushDefer h run ctx e env
      | TryStmt b x r \<Rightarrow> execTry run ctx b x r env
      | WhenStmt p q b \<Rightarrow> execWhen h run ctx p q b env
      | SelectStmt cs \<Rightarrow> execSelect h run ctx cs env
      | RequireBlock es \<Rightarrow>
          throw (Panicked (Unvalidated ''stray require block reached interpreter (validator should have hoisted it)'')))"

text \<open>A nil statement panics already when its position is read.\<close>

definition execStmt :: "'w host \<Rightarrow> 'w runner \<Rightarrow> bool \<Rightarrow> stmt \<Rightarrow> nat \<Rightarrow> (val, 'w) act" where
  "execStmt h run ctx st env =
     (if st = NilExprStmt then throw GoPanic else bnd (chargeOp h) (\<lambda>_. exec_stmt h run ctx st env))"

section \<open>The knot\<close>

definition step :: "'w host \<Rightarrow> 'w runner \<Rightarrow> 'w runner" where
  "step h run t =
     (case t of
        Eval ctx e env \<Rightarrow> evalSafe h run ctx e env
      | CallFn f args named \<Rightarrow> callable_call h run f args named
      | Resume a \<Rightarrow> bnd (world (h_resume h a)) (host_reply h run)
      | Exec ctx st env \<Rightarrow> execStmt h run ctx st env
      | ExecBlock ctx b env \<Rightarrow> exec_block h run ctx b env
      | WhileLoop ctx c b env \<Rightarrow> while_step h run ctx c b env
      | ForRange ctx x v hi b env \<Rightarrow> range_step h run ctx x v hi b env
      | RepeatLoop ctx b c env dl \<Rightarrow> repeat_step h run ctx b c env dl
      | WaitLoop ctx rem \<Rightarrow> wait_step h run ctx rem
      | Drain ctx env \<Rightarrow> drain_step h run ctx env
      | Dispatch ctx env \<Rightarrow> dispatchPendingEvents h run ctx env
      | SelectLoop ctx n cs ws env start \<Rightarrow> select_step h run ctx n cs ws env start)"

primrec run :: "'w host \<Rightarrow> nat \<Rightarrow> 'w runner" where
  "run h 0 = (\<lambda>t s. None)"
| "run h (Suc n) = step h (run h n)"

section \<open>Running a routine\<close>

definition registerBoundedHandlers :: "OnHandler list \<Rightarrow> region list \<Rightarrow> (unit, 'w) act" where
  "registerBoundedHandlers hs fs =
     modify (\<lambda>s. s\<lparr>i_bounded := fold (\<lambda>hd bs. case hd of OnHandler n ps b \<Rightarrow>
        bs(n := bs n @ [\<lparr>b_Handler = hd, b_Filters = fs\<rparr>])) hs (i_bounded s)\<rparr>)"

text \<open>The shape is evaluated in an empty scope when no routine runs yet; any failure is a filter that never matches.\<close>

fun registerBoundsDecl :: "'w host \<Rightarrow> nat \<Rightarrow> bool \<Rightarrow> region list \<Rightarrow> BoundsDecl \<Rightarrow> (unit, 'w) act" where
  "registerBoundsDecl h n ctx fs (BoundsDecl e hs ps bs) =
     bnd (gets i_routineEnv) (\<lambda>re.
     bnd (case re of Some env \<Rightarrow> ret env | None \<Rightarrow> NewEnv) (\<lambda>env.
     handle (run h n (Eval ctx e env)) (\<lambda>r.
     case r of
       Ret (VRef a (Region k)) \<Rightarrow>
         bnd (registerBoundedHandlers hs (fs @ [HostRegion k])) (\<lambda>_.
         bnd (each (registerBoundsDecl h n ctx (fs @ [HostRegion k])) bs) (\<lambda>_. ret ()))
     | _ \<Rightarrow> registerBoundedHandlers hs (fs @ [NeverMatch]))))"

fun handler_event :: "OnHandler \<Rightarrow> gostring" where
  "handler_event (OnHandler n ps b) = n"

definition registerHandlers :: "'w host \<Rightarrow> nat \<Rightarrow> bool \<Rightarrow> routine_file \<Rightarrow> routine \<Rightarrow> (unit, 'w) act" where
  "registerHandlers h n ctx f r =
     bnd (modify (\<lambda>s. s\<lparr>i_handlers := (\<lambda>ev. filter (\<lambda>hd. handler_event hd = ev) (f_Handlers f @ r_Handlers r)),
                        i_bounded := (\<lambda>ev. [])\<rparr>)) (\<lambda>_.
     bnd (each (registerBoundsDecl h n ctx []) (f_Bounds f)) (\<lambda>_. ret ()))"

text \<open>A precondition that fails ends the run; one that panics is not caught here.\<close>

fun check_require :: "'w host \<Rightarrow> nat \<Rightarrow> bool \<Rightarrow> nat \<Rightarrow> expr list \<Rightarrow> (result option, 'w) act" where
  "check_require h n ctx env [] = ret None"
| "check_require h n ctx env (c # cs) =
     handle (run h n (Eval ctx c env)) (\<lambda>r.
     case r of
       Throw g \<Rightarrow> throw g
     | Fail e \<Rightarrow> ret (Some (Errored e))
     | Ret v \<Rightarrow>
         if truthy h v then check_require h n ctx env cs
         else ret (Some (Aborted (VString (lit ''precondition_failed'')))))"

definition run_decl :: "'w host \<Rightarrow> nat \<Rightarrow> routine_file \<Rightarrow> routine \<Rightarrow> val list \<Rightarrow> (result, 'w) act" where
  "run_decl h n f r args =
     bnd (registerHandlers h n True f r) (\<lambda>_.
     bnd (gets (\<lambda>s. length (i_files s))) (\<lambda>fi.
     bnd (modify (\<lambda>s. s\<lparr>i_files := i_files s @ [f_Procs f]\<rparr>)) (\<lambda>_.
     bnd (root_env h fi) (\<lambda>env.
     bnd (modify (\<lambda>s. s\<lparr>i_routineEnv := Some env\<rparr>)) (\<lambda>_.
     handle (bindParams (run h n) env (r_Params r) args) (\<lambda>b.
     case b of
       Throw g \<Rightarrow> throw g
     | Fail e \<Rightarrow> ret (Errored e)
     | Ret u \<Rightarrow>
         bnd (check_require h n True env (case r_Require r of None \<Rightarrow> [] | Some cs \<Rightarrow> cs)) (\<lambda>req.
         case req of
           Some res \<Rightarrow> ret res
         | None \<Rightarrow> execBody h (run h n) True (r_Body r) env)))))))"

text \<open>
  \<open>runDecl\<close>, with the budget and the routine scope dropped on every path. An outcome other than \<open>Ret\<close> is a
  panic that leaves \<open>RunRoutine\<close>.
\<close>

definition runDecl :: "'w host \<Rightarrow> nat \<Rightarrow> routine_file \<Rightarrow> routine \<Rightarrow> val list \<Rightarrow> (result, 'w) act" where
  "runDecl h n f r args =
     bnd (newBudget h) (\<lambda>b.
     bnd (modify (\<lambda>s. s\<lparr>i_budget := Some b\<rparr>)) (\<lambda>_.
     deferring (run_decl h n f r args) (\<lambda>s. s\<lparr>i_budget := None, i_routineEnv := None\<rparr>)))"

definition RunRoutine :: "'w host \<Rightarrow> nat \<Rightarrow> routine_file \<Rightarrow> routine option \<Rightarrow> val list \<Rightarrow> (result, 'w) act" where
  "RunRoutine h n f r args =
     (case r of None \<Rightarrow> ret (Errored (RtErr ''no routine in file'' [])) | Some r \<Rightarrow> runDecl h n f r args)"

text \<open>The interpreter \<open>New\<close> makes.\<close>

definition new_interp :: "'w \<Rightarrow> 'w istate" where
  "new_interp w = \<lparr>i_heap = [], i_next = 0, i_files = [], i_budget = None, i_deferred = [], i_watchers = [], i_wstore = [],
     i_listeners = [], i_onch = (\<lambda>n. []), i_handlers = (\<lambda>e. []), i_bounded = (\<lambda>e. []), i_routineEnv = None,
     i_world = w\<rparr>"

end
