(* ===== verification/DslKeeps.thy ===== *)
theory DslKeeps
  imports DslRun
begin

text \<open>
  What every evaluation keeps. The locale \<open>interp_keeps\<close> takes a preorder \<open>Rel\<close> on states that each primitive
  operation of the interpreter respects, a predicate \<open>okb\<close> on statements that passes to the statements inside, and \<open>gp\<close>,
  which says whether a Go panic may happen. Inside it, one lemma per operation of the code shows that
  the operation relates its states by \<open>Rel\<close>, keeps the code held in the state \<open>okb\<close>, and does not panic unless \<open>gp\<close>.
\<close>

section \<open>The code in a state\<close>

fun elif_body :: "elif \<Rightarrow> stmt list" where
  "elif_body (ElifClause c b) = b"

definition opt_body :: "stmt list option \<Rightarrow> stmt list" where
  "opt_body b = (case b of None \<Rightarrow> [] | Some b \<Rightarrow> b)"

fun substmts :: "stmt \<Rightarrow> stmt list" where
  "substmts (Block b) = b"
| "substmts (IfStmt c b es el) = b @ concat (map elif_body es) @ opt_body el"
| "substmts (WhileStmt c b) = b"
| "substmts (ForStmt x e b) = b"
| "substmts (RepeatUntilStmt b c t) = b"
| "substmts (TryStmt b x r) = b @ r"
| "substmts (WhenStmt p q b) = b"
| "substmts (SelectStmt cs) = concat (map (\<lambda>c. opt_body (case_body c)) cs)"
| "substmts st = []"

fun handler_body :: "OnHandler \<Rightarrow> stmt list" where
  "handler_body (OnHandler n ps b) = b"

fun proc_body :: "ProcDecl \<Rightarrow> stmt list" where
  "proc_body (ProcDecl n ps b) = b"

fun when_body :: "whenCase \<Rightarrow> stmt list" where
  "when_body (WhenCase i p q b v) = opt_body b"

text \<open>No \<open>break\<close> or \<open>continue\<close> outside a loop.\<close>

fun closed :: "stmt \<Rightarrow> bool" where
  "closed BreakStmt = False"
| "closed ContinueStmt = False"
| "closed (WhileStmt c b) = True"
| "closed (ForStmt x e b) = True"
| "closed (RepeatUntilStmt b c t) = True"
| "closed (WhenStmt p q b) = True"
| "closed (Block b) = list_all closed b"
| "closed (IfStmt c b es el) =
     (list_all closed b \<and> list_all (\<lambda>e. case e of ElifClause c b \<Rightarrow> list_all closed b) es
      \<and> (case el of None \<Rightarrow> True | Some b \<Rightarrow> list_all closed b))"
| "closed (TryStmt b x r) = (list_all closed b \<and> list_all closed r)"
| "closed (SelectStmt cs) =
     list_all (\<lambda>c. case c of
        SelectWhenCase p q ob \<Rightarrow> (case ob of None \<Rightarrow> True | Some b \<Rightarrow> list_all closed b)
      | SelectOnCase e ps b \<Rightarrow> list_all closed b
      | SelectTimeoutCase ms b \<Rightarrow> list_all closed b) cs"
| "closed st = True"

lemma closed_elif: "case_elif (\<lambda>c. list_all closed) = (\<lambda>e. list_all closed (elif_body e))"
  by (rule ext) (simp split: elif.split)

lemma closed_case:
  "case_SelectCase (\<lambda>p q. case_option True (list_all closed)) (\<lambda>e ps. list_all closed) (\<lambda>ms. list_all closed)
   = (\<lambda>c. list_all closed (opt_body (case_body c)))"
  by (rule ext) (simp add: opt_body_def split: SelectCase.split option.split)

definition code_ok :: "'w host \<Rightarrow> (stmt \<Rightarrow> bool) \<Rightarrow> bool \<Rightarrow> bool \<Rightarrow> 'w istate \<Rightarrow> bool" where
  "code_ok h okb gp sp s \<longleftrightarrow>
     (\<forall>ev. list_all (\<lambda>hr. list_all okb (handler_body hr)) (i_handlers s ev))
   \<and> (\<forall>ev. list_all (\<lambda>b. list_all okb (handler_body (b_Handler b))) (i_bounded s ev))
   \<and> list_all (\<lambda>w. list_all okb (w_body w) \<and> (list_all closed (w_body w) \<or> sp)) (i_wstore s)
   \<and> list_all (list_all (\<lambda>p. list_all okb (proc_body p) \<and> (list_all closed (proc_body p) \<or> sp))) (i_files s)
   \<and> list_all (\<lambda>d. Callable h (d_callee d) \<or> gp) (i_deferred s)"

fun task_ok :: "'w host \<Rightarrow> (stmt \<Rightarrow> bool) \<Rightarrow> bool \<Rightarrow> task \<Rightarrow> bool" where
  "task_ok h okb gp (CallFn f args named) = (Callable h f \<or> gp)"
| "task_ok h okb gp (Exec ctx st env) = okb st"
| "task_ok h okb gp (ExecBlock ctx b env) = list_all okb b"
| "task_ok h okb gp (WhileLoop ctx c b env) = list_all okb b"
| "task_ok h okb gp (ForRange ctx x v hi b env) = list_all okb b"
| "task_ok h okb gp (RepeatLoop ctx b c env dl) = list_all okb b"
| "task_ok h okb gp (SelectLoop ctx n cs ws env st) =
     (list_all (\<lambda>c. list_all okb (opt_body (case_body c))) cs \<and> list_all (\<lambda>w. list_all okb (when_body w)) ws)"
| "task_ok h okb gp t = True"

text \<open>The tasks that may leave a loop around them.\<close>

fun loopy :: "task \<Rightarrow> bool" where
  "loopy (Exec ctx st env) = (\<not> closed st)"
| "loopy (ExecBlock ctx b env) = (\<not> list_all closed b)"
| "loopy (SelectLoop ctx n cs ws env st) = (\<not> list_all (\<lambda>c. list_all closed (opt_body (case_body c))) cs)"
| "loopy t = False"

text \<open>Scopes are added and rebound, and never lose their place or their parent.\<close>

definition heap_ext :: "scope list \<Rightarrow> scope list \<Rightarrow> bool" where
  "heap_ext a b \<longleftrightarrow> length a \<le> length b \<and> map fst a = take (length a) (map fst b)"

lemma heap_ext_refl [simp]: "heap_ext a a"
  by (simp add: heap_ext_def)

lemma heap_ext_append [simp]: "heap_ext a (a @ b)"
  by (simp add: heap_ext_def)

lemma heap_ext_define [simp]: "heap_ext a (define_in e x v a)"
  by (simp add: heap_ext_def define_in_def map_update [symmetric] list_update_same_conv
      del: map_update) (metis list_update_id map_update fst_conv nth_map)

lemma heap_ext_trans: "heap_ext a b \<Longrightarrow> heap_ext b c \<Longrightarrow> heap_ext a c"
  by (auto simp: heap_ext_def min_def)

text \<open>The outcomes allowed: \<open>gp\<close> allows panics, \<open>sp\<close> what the validator rules out, \<open>lp\<close> leaving a loop.\<close>

fun mild :: "bool \<Rightarrow> bool \<Rightarrow> rterr \<Rightarrow> bool" where
  "mild gp sp (RtErr m xs) = True"
| "mild gp sp (Unvalidated m) = sp"
| "mild gp sp ContainedPanic = gp"

fun clean :: "bool \<Rightarrow> bool \<Rightarrow> bool \<Rightarrow> ('a \<Rightarrow> bool) \<Rightarrow> 'a outcome \<Rightarrow> bool" where
  "clean gp sp lp Q (Ret x) = Q x"
| "clean gp sp lp Q (Fail e) = mild gp sp e"
| "clean gp sp lp Q (Throw BreakSignal) = (lp \<or> sp)"
| "clean gp sp lp Q (Throw ContinueSignal) = (lp \<or> sp)"
| "clean gp sp lp Q (Throw (ReturnSignal v)) = True"
| "clean gp sp lp Q (Throw (AbortSignal v)) = True"
| "clean gp sp lp Q (Throw (Panicked e)) = mild gp sp e"
| "clean gp sp lp Q (Throw GoPanic) = gp"

text \<open>A host whose functions answer so, and that calls back only what is callable.\<close>

definition answer_ok :: "'w host \<Rightarrow> bool \<Rightarrow> bool \<Rightarrow> hostres \<Rightarrow> bool" where
  "answer_ok h gp sp a = (case a of HPanic \<Rightarrow> gp | HAsk f args \<Rightarrow> Callable h f \<or> gp | HErr e \<Rightarrow> mild gp sp e | _ \<Rightarrow> True)"

definition answers :: "'w host \<Rightarrow> bool \<Rightarrow> bool \<Rightarrow> bool" where
  "answers h gp sp \<longleftrightarrow>
     (\<forall>n args named w. answer_ok h gp sp (fst (h_call h n args named w)))
   \<and> (\<forall>a w. answer_ok h gp sp (fst (h_resume h a w)))"

lemma mild_top: "mild True True e"
  by (cases e) simp_all

lemma clean_throw: "clean gp sp lp P (Throw g) \<Longrightarrow> clean gp sp lp Q (Throw g)"
  by (cases g) simp_all

lemma clean_panicked: "clean gp sp lp P (Fail e) \<Longrightarrow> clean gp sp lp Q (Throw (Panicked e))"
  by simp

named_theorems keep_intros \<open>operations that keep the invariant\<close>

section \<open>The locale\<close>

locale interp_keeps =
  fixes h :: "'w host" and Rel :: "'w istate \<Rightarrow> 'w istate \<Rightarrow> bool" and okb :: "stmt \<Rightarrow> bool" and gp sp :: bool
  assumes rel_refl: "Rel s s"
    and rel_trans: "Rel s t \<Longrightarrow> Rel t u \<Longrightarrow> Rel s u"
    and rel_world: "Rel s (s\<lparr>i_world := w\<rparr>)"
    and rel_next: "Rel s (s\<lparr>i_next := Suc (i_next s)\<rparr>)"
    and rel_heap: "heap_ext (i_heap s) hp \<Longrightarrow> Rel s (s\<lparr>i_heap := hp\<rparr>)"
    and rel_charge: "i_budget s = Some b \<Longrightarrow> Rel s (s\<lparr>i_budget := Some (b\<lparr>opsRemaining := opsRemaining b - 1\<rparr>)\<rparr>)"
    and rel_enter: "i_budget s = Some b \<Longrightarrow> Rel s (s\<lparr>i_budget := Some (b\<lparr>recursionDepth := recursionDepth b + 1\<rparr>)\<rparr>)"
    and rel_exit: "i_budget s = Some b \<Longrightarrow>
      Rel (s\<lparr>i_budget := Some (b\<lparr>recursionDepth := recursionDepth b + 1\<rparr>)\<rparr>) s' \<Longrightarrow> Rel s (exitCall s')"
    and rel_exit_none: "i_budget s = None \<Longrightarrow> Rel s s' \<Longrightarrow> Rel s (exitCall s')"
    and rel_deferred: "Rel s (s\<lparr>i_deferred := ds\<rparr>)"
    and rel_block: "Rel (push_frame s) s' \<Longrightarrow> Rel s (pop_frame s')"
    and rel_watch: "i_watchers s \<noteq> [] \<Longrightarrow>
      Rel s (s\<lparr>i_watchers := butlast (i_watchers s) @ [f], i_wstore := ws\<rparr>)"
    and rel_last: "Rel s (s\<lparr>i_wstore := ws\<rparr>)"
    and rel_onch: "Rel s (s\<lparr>i_onch := ch\<rparr>)"
    and rel_select: "list_all (\<lambda>l. e_select l = i_next s) ls \<Longrightarrow>
      Rel (s\<lparr>i_next := Suc (i_next s), i_listeners := i_listeners s @ ls, i_onch := ch\<rparr>) s' \<Longrightarrow>
      Rel s (removeListeners (i_next s) s')"
    and ok_sub: "okb st \<Longrightarrow> list_all okb (substmts st)"
    and ok_nil: "okb NilExprStmt \<Longrightarrow> gp"
    and ok_require: "okb (RequireBlock es) \<Longrightarrow> sp"
    and ok_when: "okb (WhenStmt p q bd) \<Longrightarrow> list_all closed bd \<or> sp"
    and ok_host: "answers h gp sp"
begin

abbreviation tame :: "bool \<Rightarrow> ('a \<Rightarrow> bool) \<Rightarrow> 'a outcome \<Rightarrow> bool" where
  "tame \<equiv> clean gp sp"

definition keepsQ :: "bool \<Rightarrow> ('a, 'w) act \<Rightarrow> ('a \<Rightarrow> bool) \<Rightarrow> bool" where
  "keepsQ lp m Q \<longleftrightarrow>
     (\<forall>s r s'. code_ok h okb gp sp s \<longrightarrow> m s = Some (r, s') \<longrightarrow> code_ok h okb gp sp s' \<and> Rel s s' \<and> tame lp Q r)"

abbreviation keeps :: "bool \<Rightarrow> ('a, 'w) act \<Rightarrow> bool" where
  "keeps lp m \<equiv> keepsQ lp m (\<lambda>_. True)"

definition good :: "'w runner \<Rightarrow> bool" where
  "good R \<longleftrightarrow> (\<forall>t lp. task_ok h okb gp t \<longrightarrow> (loopy t \<longrightarrow> lp \<or> sp) \<longrightarrow> keeps lp (R t))"

lemma keepsD:
  "keepsQ lp m Q \<Longrightarrow> code_ok h okb gp sp s \<Longrightarrow> m s = Some (r, s') \<Longrightarrow> code_ok h okb gp sp s' \<and> Rel s s' \<and> tame lp Q r"
  by (auto simp: keepsQ_def)

lemma keepsI:
  "(\<And>s r s'. code_ok h okb gp sp s \<Longrightarrow> m s = Some (r, s') \<Longrightarrow> code_ok h okb gp sp s' \<and> Rel s s' \<and> tame lp Q r) \<Longrightarrow> keepsQ lp m Q"
  by (auto simp: keepsQ_def)

lemma keeps_weaken: "keepsQ lp m Q \<Longrightarrow> (\<And>x. Q x \<Longrightarrow> Q' x) \<Longrightarrow> keepsQ lp m Q'"
  apply (rule keepsI)
  subgoal for s r s' using keepsD [of lp m Q s r s'] by (cases r) (auto elim: clean_throw)
  done

lemma goodD: "good R \<Longrightarrow> task_ok h okb gp t \<Longrightarrow> (loopy t \<Longrightarrow> lp \<or> sp) \<Longrightarrow> keeps lp (R t)"
  by (simp add: good_def)

lemma keeps_ret [keep_intros]: "Q x \<Longrightarrow> keepsQ lp (ret x) Q"
  by (rule keepsI) (auto simp: ret_def rel_refl)

lemma keeps_fail [keep_intros]: "keepsQ lp (fail (RtErr m xs)) Q"
  by (rule keepsI) (auto simp: fail_def rel_refl)

lemma keeps_failing: "tame lp Q (Fail e) \<Longrightarrow> keepsQ lp (fail e) Q"
  by (rule keepsI) (auto simp: fail_def rel_refl)

lemma keeps_throw: "tame lp Q (Throw g) \<Longrightarrow> keepsQ lp (throw g) Q"
  by (rule keepsI) (auto simp: throw_def rel_refl)

lemma keeps_throws [keep_intros]:
  "keepsQ lp (throw (ReturnSignal v)) Q" "keepsQ lp (throw (AbortSignal v)) Q" "keepsQ lp (throw (Panicked (RtErr m xs))) Q"
  by (simp_all add: keeps_throw)

lemma keeps_bnd:
  assumes m: "keepsQ lp m P" and f: "\<And>x. P x \<Longrightarrow> keepsQ lp (f x) Q"
  shows "keepsQ lp (bnd m f) Q"
proof (rule keepsI)
  fix s r s'
  assume s: "code_ok h okb gp sp s" "bnd m f s = Some (r, s')"
  then obtain r1 s1 where 1: "m s = Some (r1, s1)" by (auto simp: bnd_def split: option.splits)
  note k = keepsD [OF m s(1) 1]
  show "code_ok h okb gp sp s' \<and> Rel s s' \<and> tame lp Q r"
  proof (cases r1)
    case (Ret x)
    then have "f x s1 = Some (r, s')" "P x" using s 1 k by (auto simp: bnd_def)
    from keepsD [OF f [OF this(2)] _ this(1)] k show ?thesis by (blast intro: rel_trans)
  next
    case (Fail e)
    then show ?thesis using s 1 k by (auto simp: bnd_def)
  next
    case (Throw g)
    then show ?thesis using s 1 k by (auto simp: bnd_def elim: clean_throw)
  qed
qed

lemma keeps_seq [keep_intros]: "keeps lp m \<Longrightarrow> (\<And>x. keepsQ lp (f x) Q) \<Longrightarrow> keepsQ lp (bnd m f) Q"
  by (rule keeps_bnd)

lemma keeps_handleQ:
  assumes m: "keepsQ lp' m P" and f: "\<And>r. tame lp' P r \<Longrightarrow> keepsQ lp (f r) Q"
  shows "keepsQ lp (handle m f) Q"
proof (rule keepsI)
  fix s r s'
  assume s: "code_ok h okb gp sp s" "handle m f s = Some (r, s')"
  then obtain r1 s1 where 1: "m s = Some (r1, s1)" "f r1 s1 = Some (r, s')"
    by (auto simp: handle_def split: option.splits)
  note k = keepsD [OF m s(1) 1(1)]
  with keepsD [OF f _ 1(2)] show "code_ok h okb gp sp s' \<and> Rel s s' \<and> tame lp Q r" by (blast intro: rel_trans)
qed

lemma keeps_handle [keep_intros]:
  "keeps lp m \<Longrightarrow> (\<And>r. tame lp (\<lambda>_. True) r \<Longrightarrow> keepsQ lp (f r) Q) \<Longrightarrow> keepsQ lp (handle m f) Q"
  by (rule keeps_handleQ)

lemma keeps_outcome [keep_intros]: "tame lp Q r \<Longrightarrow> keepsQ lp (outcome r) Q"
  by (rule keepsI) (auto simp: outcome_def rel_refl)

lemma keeps_gets: "(\<And>s. code_ok h okb gp sp s \<Longrightarrow> Q (f s)) \<Longrightarrow> keepsQ lp (gets f) Q"
  by (rule keepsI) (auto simp: gets_def rel_refl)

lemma keeps_gets_any [keep_intros]: "keeps lp (gets f)"
  by (rule keeps_gets) simp

lemma keeps_world: "(\<And>w. Q (fst (f w))) \<Longrightarrow> keepsQ lp (world f) Q"
  apply (rule keepsI)
  subgoal premises p for s r s'
    using p(1) [of "i_world s"] p(2,3) rel_world [of s] by (auto simp: world_def code_ok_def split: prod.splits)
  done

lemma keeps_world_any [keep_intros]: "keeps lp (world f)"
  by (rule keeps_world) simp

lemma keeps_modify:
  "(\<And>s. code_ok h okb gp sp s \<Longrightarrow> code_ok h okb gp sp (f s) \<and> Rel s (f s)) \<Longrightarrow> keepsQ lp (modify f) (\<lambda>_. True)"
  by (rule keepsI) (auto simp: modify_def)

lemma keeps_panicking [keep_intros]: "keeps lp m \<Longrightarrow> keeps lp (panicking m)"
  unfolding panicking_def
  by (rule keeps_handleQ, assumption) (auto intro!: keeps_throw keeps_outcome split: outcome.split)

lemma keeps_each [keep_intros]: "(\<And>x. x \<in> set xs \<Longrightarrow> keeps lp (f x)) \<Longrightarrow> keeps lp (each f xs)"
  by (induction xs) (auto intro!: keep_intros)

lemma keeps_if [keep_intros]: "(c \<Longrightarrow> keepsQ lp a Q) \<Longrightarrow> (\<not> c \<Longrightarrow> keepsQ lp b Q) \<Longrightarrow> keepsQ lp (if c then a else b) Q"
  by simp

lemma keeps_let [keep_intros]: "(\<And>x. keepsQ lp (f x) Q) \<Longrightarrow> keepsQ lp (let x = e in f x) Q"
  by simp

lemma keeps_prod [keep_intros]: "(\<And>a b. p = (a, b) \<Longrightarrow> keepsQ lp (f a b) Q) \<Longrightarrow> keepsQ lp (case p of (a, b) \<Rightarrow> f a b) Q"
  by (cases p) simp

lemma keeps_option [keep_intros]:
  "(v = None \<Longrightarrow> keepsQ lp a Q) \<Longrightarrow> (\<And>x. v = Some x \<Longrightarrow> keepsQ lp (f x) Q) \<Longrightarrow> keepsQ lp (case v of None \<Rightarrow> a | Some x \<Rightarrow> f x) Q"
  by (cases v) auto

lemma keeps_list [keep_intros]:
  "(v = [] \<Longrightarrow> keepsQ lp a Q) \<Longrightarrow> (\<And>x xs. v = x # xs \<Longrightarrow> keepsQ lp (f x xs) Q) \<Longrightarrow>
   keepsQ lp (case v of [] \<Rightarrow> a | x # xs \<Rightarrow> f x xs) Q"
  by (cases v) auto

lemma keeps_sum [keep_intros]:
  "(\<And>x. v = Inl x \<Longrightarrow> keepsQ lp (f x) Q) \<Longrightarrow> (\<And>x. v = Inr x \<Longrightarrow> keepsQ lp (g x) Q) \<Longrightarrow>
   keepsQ lp (case v of Inl x \<Rightarrow> f x | Inr x \<Rightarrow> g x) Q"
  by (cases v) auto

lemma keeps_bool [keep_intros]:
  "keepsQ lp a Q \<Longrightarrow> keepsQ lp b Q \<Longrightarrow> keepsQ lp (case c of True \<Rightarrow> a | False \<Rightarrow> b) Q"
  by (cases c) auto

lemma keeps_case_outcome [keep_intros]:
  "(\<And>x. v = Ret x \<Longrightarrow> keepsQ lp (f x) Q) \<Longrightarrow> (\<And>e. v = Fail e \<Longrightarrow> keepsQ lp (g e) Q) \<Longrightarrow>
   (\<And>s. v = Throw s \<Longrightarrow> keepsQ lp (k s) Q) \<Longrightarrow> keepsQ lp (case v of Ret x \<Rightarrow> f x | Fail e \<Rightarrow> g e | Throw s \<Rightarrow> k s) Q"
  by (cases v) auto

lemma keeps_val [keep_intros]:
  "keepsQ lp a Q \<Longrightarrow> (\<And>x. keepsQ lp (b x) Q) \<Longrightarrow> (\<And>x. keepsQ lp (c x) Q) \<Longrightarrow> (\<And>x. keepsQ lp (d x) Q) \<Longrightarrow>
   (\<And>x. keepsQ lp (e x) Q) \<Longrightarrow> (\<And>x y. keepsQ lp (f x y) Q) \<Longrightarrow> keepsQ lp (case_val a b c d e f v) Q"
  by (cases v) auto

lemma keeps_obj [keep_intros]:
  assumes "\<And>x y. keepsQ lp (a x y) Q" "\<And>x. keepsQ lp (b x) Q" "\<And>x. keepsQ lp (c x) Q" "\<And>x y z. keepsQ lp (d x y z) Q"
    "\<And>x y. keepsQ lp (e x y) Q" "\<And>x y. keepsQ lp (f x y) Q" "keepsQ lp g Q" "\<And>x. keepsQ lp (i x) Q" "\<And>x. keepsQ lp (j x) Q"
    "\<And>x. keepsQ lp (k x) Q" "\<And>x. keepsQ lp (l x) Q" "\<And>x. keepsQ lp (m x) Q" "\<And>x y z. keepsQ lp (n x y z) Q"
    "\<And>x y z. keepsQ lp (p x y z) Q" "\<And>x. keepsQ lp (q x) Q" "\<And>x. keepsQ lp (r x) Q"
  shows "keepsQ lp (case_obj a b c d e f g i j k l m n p q r v) Q"
  using assms by (cases v) auto

end

end
