(* ===== verification/DslKeepOps.thy ===== *)
theory DslKeepOps
  imports DslKeeps
begin

text \<open>One lemma per operation of the interpreter, in the locale of \<open>DslKeeps\<close>; the last one is the run itself.\<close>

context interp_keeps
begin

section \<open>State\<close>

lemma keeps_new_ref [keep_intros]: "keeps lp (new_ref x)"
  by (rule keepsI) (auto simp: new_ref_def code_ok_def rel_next)

lemma keeps_NewEnv [keep_intros]: "keeps lp NewEnv"
  by (rule keepsI) (auto simp: NewEnv_def code_ok_def rel_heap)

lemma keeps_Child [keep_intros]: "keeps lp (Child e)"
  by (rule keepsI) (auto simp: Child_def code_ok_def rel_heap)

lemma keeps_Define [keep_intros]: "keeps lp (Define e x v)"
  unfolding Define_def by (rule keeps_modify) (auto simp: code_ok_def rel_heap)

lemma keeps_EnvSet [keep_intros]: "keeps lp (EnvSet e x v)"
  unfolding EnvSet_def by (rule keeps_modify) (auto simp: code_ok_def rel_heap split: option.split)

lemma keeps_ctx_err [keep_intros]: "keeps lp (ctx_err h ctx)"
  unfolding ctx_err_def by (intro keep_intros TrueI)

lemma keeps_checkListLen [keep_intros]: "keeps lp (checkListLen h n)"
  unfolding checkListLen_def by (intro keep_intros TrueI)

lemma keeps_checkStringLen [keep_intros]: "keeps lp (checkStringLen h n)"
  unfolding checkStringLen_def by (intro keep_intros TrueI)

lemma keeps_chargeOp [keep_intros]: "keeps lp (chargeOp h)"
proof (rule keepsI)
  fix s r s'
  assume s: "code_ok h okb gp sp s" "chargeOp h s = Some (r, s')"
  show "code_ok h okb gp sp s' \<and> Rel s s' \<and> tame lp (\<lambda>_. True) r"
  proof (cases "i_budget s")
    case None
    then show ?thesis using s by (simp add: chargeOp_def bnd_def gets_def ret_def rel_refl) (auto simp: rel_refl)
  next
    case (Some b)
    let ?t = "s\<lparr>i_budget := Some (b\<lparr>opsRemaining := opsRemaining b - 1\<rparr>)\<rparr>"
    have t: "Rel s ?t" "code_ok h okb gp sp ?t" using Some s(1) by (simp_all add: rel_charge code_ok_def)
    show ?thesis
    proof (cases "opsRemaining b - 1 < 0")
      case True
      then show ?thesis using s t Some by (auto simp: chargeOp_def bnd_def gets_def modify_def throw_def)
    next
      case False
      obtain now w where n: "h_now h (i_world s) = (now, w)" by fastforce
      have "Rel s (?t\<lparr>i_world := w\<rparr>)" using t(1) rel_world rel_trans by blast
      then show ?thesis using s t(2) Some False n
        by (auto simp: chargeOp_def bnd_def gets_def modify_def world_def throw_def ret_def code_ok_def split: if_splits)
    qed
  qed
qed

lemma keeps_registerWatcher: "list_all okb (w_body w) \<Longrightarrow> list_all closed (w_body w) \<or> sp \<Longrightarrow> keeps lp (registerWatcher w)"
  unfolding registerWatcher_def by (rule keeps_modify) (auto simp: code_ok_def rel_watch rel_refl)

lemma keeps_set_last [keep_intros]: "keeps lp (set_last i v)"
  unfolding set_last_def
  by (rule keeps_modify) (auto simp: code_ok_def rel_last rel_refl list_all_length nth_list_update)

lemma keeps_listeners [keep_intros]: "keeps lp (fireEventListeners n args)"
  unfolding fireEventListeners_def by (rule keeps_modify) (auto simp: code_ok_def rel_onch)

lemma keeps_block:
  assumes "keeps lp m"
  shows "keeps lp (bnd (modify push_frame) (\<lambda>_. deferring m pop_frame))"
proof (rule keepsI)
  fix s r s'
  assume s: "code_ok h okb gp sp s" "bnd (modify push_frame) (\<lambda>_. deferring m pop_frame) s = Some (r, s')"
  then obtain t where t: "m (push_frame s) = Some (r, t)" "s' = pop_frame t"
    by (auto simp: bnd_def modify_def deferring_def handle_def split: option.splits)
  have "code_ok h okb gp sp (push_frame s)" using s(1) by (simp add: code_ok_def push_frame_def)
  from keepsD [OF assms this t(1)] show "code_ok h okb gp sp s' \<and> Rel s s' \<and> tame lp (\<lambda>_. True) r"
    using rel_block t(2) by (auto simp: code_ok_def pop_frame_def)
qed

lemma code_ok_exitCall [simp]: "code_ok h okb gp sp (exitCall s) = code_ok h okb gp sp s"
  by (simp add: exitCall_def code_ok_def split: option.split)

lemma keeps_enter:
  assumes m: "keepsQ lp m Q"
  shows "keepsQ lp (bnd (enterCall h) (\<lambda>_. deferring m exitCall)) Q"
proof (rule keepsI)
  fix s r s'
  assume s: "code_ok h okb gp sp s" "bnd (enterCall h) (\<lambda>_. deferring m exitCall) s = Some (r, s')"
  show "code_ok h okb gp sp s' \<and> Rel s s' \<and> tame lp Q r"
  proof (cases "i_budget s")
    case None
    then obtain t where t: "m s = Some (r, t)" "s' = exitCall t" using s(2)
      by (auto simp: enterCall_def bnd_def gets_def ret_def deferring_def handle_def split: option.splits)
    from keepsD [OF m s(1) t(1)] show ?thesis using t(2) None rel_exit_none by simp
  next
    case (Some b)
    let ?t = "s\<lparr>i_budget := Some (b\<lparr>recursionDepth := recursionDepth b + 1\<rparr>)\<rparr>"
    have ok: "code_ok h okb gp sp ?t" using s(1) by (simp add: code_ok_def)
    show ?thesis
    proof (cases "cap_of MaxRecursion (h_caps h) < recursionDepth b + 1")
      case True
      then have "s' = ?t" "r = Fail (RtErr ''recursion_depth_exceeded (cap=%d)'' [FormatInt (cap_of MaxRecursion (h_caps h))])"
        using s(2) Some by (auto simp: enterCall_def bnd_def gets_def modify_def fail_def Let_def)
      then show ?thesis using ok Some rel_enter by simp
    next
      case False
      then obtain t where t: "m ?t = Some (r, t)" "s' = exitCall t" using s(2) Some
        by (auto simp: enterCall_def bnd_def gets_def ret_def modify_def Let_def deferring_def handle_def split: option.splits)
      from keepsD [OF m ok t(1)] show ?thesis using t(2) Some rel_exit by simp
    qed
  qed
qed

section \<open>Expressions\<close>

lemma host_answer: "answer_ok h gp sp (fst (h_call h n args named w))" "answer_ok h gp sp (fst (h_resume h a w))"
  using ok_host by (auto simp: answers_def)

lemma keeps_reply:
  assumes R: "good R" and a: "answer_ok h gp sp a"
  shows "keeps lp (host_reply h R a)"
proof (cases a)
  case (HAsk f args)
  show ?thesis unfolding HAsk host_reply.simps
    by (intro keep_intros keeps_throw goodD [OF R]) (use a HAsk in \<open>auto simp: answer_ok_def elim: clean_throw\<close>)
next
  case (HErr e)
  show ?thesis unfolding HErr host_reply.simps
    by (rule keeps_failing) (use a HErr in \<open>simp add: answer_ok_def\<close>)
next
  case HPanic
  show ?thesis unfolding HPanic host_reply.simps
    by (rule keeps_throw) (use a HPanic in \<open>simp add: answer_ok_def\<close>)
qed (auto intro!: keep_intros)

lemma keeps_builtin: "good R \<Longrightarrow> keeps lp (builtin_call h R b args named)"
proof (induction b)
  case (HostFn n)
  have "keepsQ lp (world (h_call h n args named)) (answer_ok h gp sp)"
    by (rule keeps_world) (rule host_answer)
  then show ?case using HostFn by (auto intro: keeps_bnd keeps_reply)
next
  case (BangCallable b)
  then show ?case by (auto intro!: keep_intros)
qed

lemma keeps_one_callable: "keepsQ lp (one_callable h m k args) (Callable h)"
  unfolding one_callable_def by (intro keep_intros) auto

lemma keeps_filter: assumes "good R" "Callable h f" shows "keeps lp (filter_items h R f xs)"
  by (induction xs) (auto intro!: keep_intros goodD [OF assms(1)] simp: assms(2))

lemma keeps_find: assumes "good R" "Callable h f" shows "keeps lp (find_item h R f xs)"
  by (induction xs) (auto intro!: keep_intros goodD [OF assms(1)] simp: assms(2))

lemma keeps_lists [keep_intros]:
  assumes R: "good R"
  shows "keeps lp (list_filter h R xs args)" "keeps lp (list_map h R xs args)" "keeps lp (list_find h R xs args)"
  unfolding list_filter_def list_map_def list_find_def
  by (rule keeps_bnd [OF keeps_one_callable], (intro keep_intros keeps_filter keeps_find R goodD [OF R]; simp))+

lemma keeps_point: "(\<And>q. keeps lp (f q)) \<Longrightarrow> keeps lp (case pointFromArgs h w args of Inl e \<Rightarrow> fail e | Inr q \<Rightarrow> f q)"
  by (auto simp: pointFromArgs_def intro!: keep_intros split: list.split option.split)

lemma keeps_nearest [keep_intros]: "keeps lp (list_nearest h xs args named)"
  unfolding list_nearest_def by (intro keeps_seq keeps_gets_any keeps_point keeps_let keeps_ret TrueI)

lemma keeps_render [keep_intros]: "keeps lp (render_parts h sb ps args)"
proof (induction ps arbitrary: sb args)
  case (Cons p ps)
  show ?case by (cases p) (simp_all only: render_parts.simps, (intro keep_intros Cons)+)
qed (simp add: keeps_ret)

lemma keeps_format [keep_intros]: "keeps lp (format_call h args named)"
  unfolding format_call_def by (intro keep_intros TrueI)

lemma keeps_lambda: "good R \<Longrightarrow> keeps lp (lambda_call R env p b args)"
  unfolding lambda_call_def by (intro keep_intros) (auto intro: goodD)

lemma keeps_contains [keep_intros]: "keeps lp (string_contains h s args)"
  unfolding string_contains_def by (intro keep_intros TrueI)

lemma keeps_call_value:
  assumes R: "good R" and f: "Callable h f \<or> gp" and np: "\<And>a n fi i. f \<noteq> VRef a (ProcCallable n fi i)"
  shows "keeps lp (call_value h R f args named)"
proof -
  have panic: "keeps lp (throw GoPanic)" if "\<not> Callable h f"
    by (rule keeps_throw) (use f that in simp)
  show ?thesis
  proof (cases "\<exists>a x. f = VRef a x")
    case False
    then show ?thesis using panic by (cases f) auto
  next
    case True
    then obtain a x where x: "f = VRef a x" by blast
    show ?thesis using panic np unfolding x
      by (cases x) (auto simp del: builtin_call.simps simp: keeps_builtin keeps_lambda keep_intros R)
  qed
qed

lemma keeps_dispatch: "good R \<Longrightarrow> keeps lp (dispatch R y ctx)"
  unfolding dispatch_def by (intro keep_intros TrueI) (auto intro: goodD)

lemma keeps_args: assumes R: "good R" shows "keeps lp (eval_args R ctx env as)"
  by (induction "as") (simp_all add: keeps_ret, rename_tac a w, case_tac a, auto intro!: keep_intros goodD [OF R])

lemma keeps_callee: assumes R: "good R" shows "keepsQ lp (evalCallee h R ctx e env) (Callable h)"
  unfolding evalCallee_def by (intro keep_intros goodD [OF R]) auto

lemma keeps_evalCall: assumes R: "good R" shows "keeps lp (evalCall h R ctx f as env)"
  unfolding evalCall_def
  by (rule keeps_bnd [OF keeps_callee [OF R]], intro keep_intros keeps_args keeps_dispatch keeps_throw R goodD [OF R])
     auto

lemma keeps_operators [keep_intros]:
  "keeps lp (cmpNumeric h op a b)" "keeps lp (arithNumeric h op a b)" "keeps lp (addValues h a b)"
  "keeps lp (binary_op_value h op a b)" "keeps lp (unary_op_value h op v)"
proof -
  show "keeps lp (cmpNumeric h op a b)" for op a b
    unfolding cmpNumeric_def by (intro keep_intros TrueI)
  moreover show "keeps lp (arithNumeric h op a b)" for op a b
    unfolding arithNumeric_def arith_float_def
    by (auto simp: arith_int_def intro!: keep_intros split: val.split)
  moreover show "keeps lp (addValues h a b)" for a b
    unfolding addValues_def by (intro keep_intros TrueI calculation)
  ultimately show "keeps lp (binary_op_value h op a b)" "keeps lp (unary_op_value h op v)"
    unfolding binary_op_value_def unary_op_value_def by (auto intro!: keep_intros)
qed

lemma keeps_member [keep_intros]: "keeps lp (member_value h v f)"
  unfolding member_value_def list_member_def string_member_def by (intro keep_intros TrueI)

lemma keeps_index [keep_intros]: "keeps lp (index_value h v i)"
  unfolding index_value_def by (intro keep_intros TrueI)

lemma keeps_ident [keep_intros]: "keeps lp (evalIdent h x env)"
  unfolding evalIdent_def by (intro keep_intros TrueI)

lemma keeps_fstring: assumes R: "good R" shows "keeps lp (evalFString h R ctx env sb ps)"
  by (induction ps arbitrary: sb) (auto simp: Let_def intro!: keep_intros goodD [OF R])

lemma keeps_evalSafe: assumes R: "good R" shows "keeps lp (evalSafe h R ctx e env)"
  unfolding evalSafe_def eval_expr_def evalBinary_def
  by (cases e) (auto intro!: keep_intros keeps_fstring keeps_evalCall R goodD [OF R])

end

end
