(* ===== verification/DslKeepRun.thy ===== *)
theory DslKeepRun
  imports DslKeepOps
begin

text \<open>
  Statements, events, selects and procedures in the locale of \<open>DslKeeps\<close>, and the run itself: every evaluation
  keeps what the locale asks for.
\<close>

context interp_keeps
begin

section \<open>Statements\<close>

lemma keeps_evalPanic: assumes R: "good R" shows "keeps lp (evalPanic R ctx e env)"
  unfolding evalPanic_def by (intro keep_intros goodD [OF R]) simp_all

text \<open>A block whose jumps stay inside, or may leave it.\<close>

definition fits :: "bool \<Rightarrow> stmt list \<Rightarrow> bool" where
  "fits lp b \<longleftrightarrow> list_all okb b \<and> (list_all closed b \<or> lp \<or> sp)"

lemma fits_task: "fits lp b \<Longrightarrow> task_ok h okb gp (ExecBlock ctx b env)" "fits lp b \<Longrightarrow> loopy (ExecBlock ctx b env) \<Longrightarrow> lp \<or> sp"
  by (auto simp: fits_def)

lemma fits_loop: "list_all okb b \<Longrightarrow> fits True b"
  by (simp add: fits_def)

lemma fits_nil [simp]: "fits lp []"
  by (simp add: fits_def)

lemma keeps_exec_block:
  assumes R: "good R" and b: "fits lp b"
  shows "keeps lp (exec_block h R ctx b env)"
  unfolding exec_block_def
  by (rule keeps_block, intro keep_intros TrueI goodD [OF R]) (use b in \<open>auto simp: fits_def list_all_iff\<close>)

lemma keeps_block_task: assumes R: "good R" and b: "fits lp b" shows "keeps lp (R (ExecBlock ctx b env))"
  by (intro goodD [OF R]) (use fits_task [OF b] in auto)

lemma keeps_child_block: assumes R: "good R" and b: "fits lp b" shows "keeps lp (child_block R ctx b env)"
  unfolding child_block_def by (intro keep_intros keeps_block_task R b)

lemma keeps_signal [keep_intros]:
  "(g = BreakSignal \<Longrightarrow> keepsQ lp a Q) \<Longrightarrow> (g = ContinueSignal \<Longrightarrow> keepsQ lp b Q) \<Longrightarrow> (\<And>x. g = ReturnSignal x \<Longrightarrow> keepsQ lp (c x) Q) \<Longrightarrow>
   (\<And>x. g = AbortSignal x \<Longrightarrow> keepsQ lp (d x) Q) \<Longrightarrow> (\<And>x. g = Panicked x \<Longrightarrow> keepsQ lp (e x) Q) \<Longrightarrow>
   (g = GoPanic \<Longrightarrow> keepsQ lp f Q) \<Longrightarrow> keepsQ lp (case_signal a b c d e f g) Q"
  by (cases g) auto

text \<open>An outcome that is passed on as it came.\<close>

lemmas passed = keeps_throw keeps_failing

lemma keeps_loop_body:
  assumes R: "good R" and b: "list_all okb b"
  shows "keeps lp (execLoopBody R ctx b env)"
  unfolding execLoopBody_def
  by (rule keeps_handleQ [OF keeps_block_task [OF R fits_loop [OF b]]])
    (intro keep_intros passed; auto)

lemma keeps_elifs:
  assumes R: "good R" and b: "list_all (\<lambda>e. fits lp (elif_body e)) es" "fits lp (opt_body el)"
  shows "keeps lp (exec_elifs h R ctx es el env)"
  using b(1)
proof (induction es)
  case Nil
  then show ?case using b(2) by (auto simp: opt_body_def intro!: keep_intros keeps_child_block R split: option.split)
next
  case (Cons e es)
  show ?case using Cons by (cases e) (auto intro!: keep_intros keeps_evalPanic keeps_child_block R)
qed

lemma keeps_if_stmt:
  assumes R: "good R" and b: "okb (IfStmt c b es el)" "closed (IfStmt c b es el) \<or> lp \<or> sp"
  shows "keeps lp (execIf h R ctx c b es el env)"
proof -
  have "fits lp b" "fits lp (opt_body el)"
    using ok_sub [OF b(1)] b(2) by (auto simp: fits_def opt_body_def split: option.splits)
  moreover have "list_all (\<lambda>e. list_all closed (elif_body e)) es \<or> lp \<or> sp"
    using b(2) by (auto simp: closed_elif)
  then have "list_all (\<lambda>e. fits lp (elif_body e)) es"
    using ok_sub [OF b(1)] by (auto simp: fits_def list_all_iff)
  ultimately show ?thesis unfolding execIf_def
    by (intro keep_intros keeps_evalPanic keeps_child_block keeps_elifs R)
qed

lemma keeps_while:
  assumes R: "good R" and b: "list_all okb b"
  shows "keeps lp (while_step h R ctx c b env)"
  unfolding while_step_def
  by (intro keep_intros keeps_evalPanic keeps_loop_body R b goodD [OF R]) (simp_all add: b)

lemma keeps_loop_item:
  assumes R: "good R" and b: "list_all okb b"
  shows "keeps lp (loop_item R ctx x v b env)"
  unfolding loop_item_def by (intro keep_intros keeps_loop_body R b)

lemma keeps_for_items:
  assumes R: "good R" and b: "list_all okb b"
  shows "keeps lp (for_items h R ctx x vs b env)"
  by (induction vs) (auto intro!: keep_intros keeps_loop_item R b)

lemma keeps_range:
  assumes R: "good R" and b: "list_all okb b"
  shows "keeps lp (range_step h R ctx x v hi b env)"
  unfolding range_step_def
  by (intro keep_intros keeps_loop_item R b goodD [OF R]) (simp_all add: b)

lemma keeps_for:
  assumes R: "good R" and b: "list_all okb b"
  shows "keeps lp (execFor h R ctx x e b env)"
  unfolding execFor_def
  by (intro keep_intros keeps_evalPanic keeps_for_items R b goodD [OF R]) (simp_all add: b)

lemma keeps_repeat:
  assumes R: "good R" and b: "list_all okb b"
  shows "keeps lp (repeat_step h R ctx b c env dl)"
  unfolding repeat_step_def
  by (intro keep_intros keeps_evalPanic keeps_loop_body R b goodD [OF R]) (simp_all add: b)

lemma keeps_execRepeat:
  assumes R: "good R" and b: "list_all okb b"
  shows "keeps lp (execRepeatUntil h R ctx b c t env)"
  unfolding execRepeatUntil_def
  by (intro keep_intros keeps_evalPanic R goodD [OF R]) (simp_all add: b)

section \<open>Waiting, defer, try\<close>

lemma keeps_wait: assumes R: "good R" shows "keeps lp (wait_step h R ctx x)"
  unfolding wait_step_def by (intro keep_intros keeps_dispatch keeps_builtin R goodD [OF R]) simp_all

lemma keeps_duration [keep_intros]: "keeps lp (durationToSeconds h v)"
  unfolding durationToSeconds_def Let_def by (intro keep_intros TrueI)

lemma keeps_execWait: assumes R: "good R" shows "keeps lp (execWait h R ctx e env)"
  unfolding execWait_def by (intro keep_intros keeps_evalPanic R goodD [OF R]) simp_all

lemma keeps_push:
  assumes R: "good R"
  shows "keeps lp (pushDefer h R ctx e env)"
proof -
  have "keeps lp (modify (\<lambda>s. s\<lparr>i_deferred := i_deferred s @ [\<lparr>d_callee = f, d_args = as, d_named = ns\<rparr>]\<rparr>))"
    if "Callable h f" for f as ns
    by (rule keeps_modify) (use that in \<open>auto simp: code_ok_def rel_deferred\<close>)
  then show ?thesis unfolding pushDefer_def
    by (cases e) (simp_all only: expr.case, (intro keep_intros keeps_bnd [OF keeps_callee [OF R]] keeps_args R; simp)+)
qed

lemma keeps_drainDeferred: assumes R: "good R" shows "keeps lp (drainDeferred R)"
proof -
  have 1: "keepsQ lp (gets i_deferred) (list_all (\<lambda>d. Callable h (d_callee d) \<or> gp))"
    by (rule keeps_gets) (simp add: code_ok_def)
  have 2: "keeps lp (modify (\<lambda>s. s\<lparr>i_deferred := []\<rparr>))"
    by (rule keeps_modify) (simp add: code_ok_def rel_deferred)
  show ?thesis unfolding drainDeferred_def
    by (rule keeps_bnd [OF 1], intro keep_intros 2 goodD [OF R]) (auto simp: list_all_iff)
qed

lemma keeps_try:
  assumes R: "good R" and b: "fits lp b" "fits lp r"
  shows "keeps lp (execTry R ctx b x r env)"
  unfolding execTry_def by (intro keep_intros passed keeps_block_task R b) auto

section \<open>Watchers\<close>

lemma watcher_at_ok: "code_ok h okb gp sp s \<Longrightarrow> fits False (w_body (watcher_at i s))"
  by (auto simp: watcher_at_def code_ok_def dummy_watcher_def fits_def list_all_length)

lemma fits_any: "fits False b \<Longrightarrow> fits lp b"
  by (auto simp: fits_def)

lemma keeps_fire:
  assumes R: "good R"
  shows "keeps lp (fire_watcher h R ctx i)"
proof -
  have w: "keepsQ lp (gets (watcher_at i)) (\<lambda>w. fits False (w_body w))"
    by (rule keeps_gets) (rule watcher_at_ok)
  show ?thesis unfolding fire_watcher_def
    by (rule keeps_bnd [OF w], rule keeps_seq [OF keeps_evalPanic [OF R]], rule keeps_bnd [OF w])
      (intro keep_intros keeps_child_block R; (rule TrueI | erule fits_any))
qed

lemma keeps_sweep: assumes R: "good R" shows "keeps lp (sweep h R ctx is)"
  by (induction "is") (auto intro!: keep_intros keeps_fire R)

lemma keeps_watchers: assumes R: "good R" shows "keeps lp (evalWatchersOnce h R ctx)"
  unfolding evalWatchersOnce_def by (intro keep_intros keeps_sweep R)

lemma keeps_seed: assumes R: "good R" shows "keeps lp (seed R ctx q p env)"
  unfolding seed_def by (cases q) (auto intro!: keep_intros keeps_evalPanic R)

lemma keeps_when:
  assumes R: "good R" and b: "fits False b"
  shows "keeps lp (execWhen h R ctx p q b env)"
  unfolding execWhen_def
  by (intro keep_intros keeps_seed keeps_registerWatcher keeps_watchers R) (use b in \<open>simp_all add: fits_def\<close>)

section \<open>Events\<close>

lemma keeps_bind_handler [keep_intros]: "keeps lp (bind_handler e ps args)"
proof (induction ps arbitrary: args)
  case (Cons p ps)
  show ?case by (cases p) (simp only: bind_handler.simps, intro keep_intros Cons)
qed (simp add: keeps_ret)

lemma keeps_handler:
  assumes R: "good R" and b: "list_all okb (handler_body hr)"
  shows "keeps lp (runHandler R ctx hr env args)"
proof (cases hr)
  case (OnHandler n ps b)
  show ?thesis unfolding OnHandler runHandler.simps
    by (rule keeps_seq [OF keeps_Child], rule keeps_seq [OF keeps_bind_handler],
        rule keeps_handleQ [OF keeps_block_task [OF R fits_loop]])
      (use assms(2) in \<open>auto simp: OnHandler intro!: keep_intros passed split: outcome.split signal.split\<close>)
qed

lemma keeps_event: assumes R: "good R" shows "keeps lp (one_event h R ctx env n args)"
proof -
  have 1: "keepsQ lp (gets (\<lambda>s. i_handlers s n)) (list_all (\<lambda>hr. list_all okb (handler_body hr)))"
    by (rule keeps_gets) (simp add: code_ok_def)
  have 2: "keepsQ lp (gets (\<lambda>s. i_bounded s n)) (list_all (\<lambda>b. list_all okb (handler_body (b_Handler b))))"
    by (rule keeps_gets) (simp add: code_ok_def)
  have 3: "keeps lp (each (\<lambda>b. case eventLocation args of
              Some xy \<Rightarrow> if Matches h b xy then runHandler R ctx (b_Handler b) env args else ret ()
            | None \<Rightarrow> runHandler R ctx (b_Handler b) env args) bs)"
    if "list_all (\<lambda>b. list_all okb (handler_body (b_Handler b))) bs" for bs
    by (intro keep_intros keeps_handler R) (use that in \<open>auto simp: list_all_iff\<close>)
  have 4: "keeps lp (each (\<lambda>hd. runHandler R ctx hd env args) hs)"
    if "list_all (\<lambda>hr. list_all okb (handler_body hr)) hs" for hs
    by (intro keep_intros keeps_handler R) (use that in \<open>auto simp: list_all_iff\<close>)
  show ?thesis unfolding one_event_def
    by (rule keeps_seq [OF keeps_listeners], rule keeps_bnd [OF 1], rule keeps_seq [OF 4], assumption,
        rule keeps_bnd [OF 2], rule keeps_seq [OF 3], assumption) (rule keeps_ret, rule TrueI)
qed

lemma keeps_drain: assumes R: "good R" shows "keeps lp (drain_step h R ctx env)"
  unfolding drain_step_def by (intro keep_intros keeps_event R goodD [OF R]) simp_all

lemma keeps_boundary [keep_intros]: "keeps lp (modify (\<lambda>s. s\<lparr>i_world := f (i_world s)\<rparr>))"
  by (rule keeps_modify) (simp add: code_ok_def rel_world)

lemma keeps_pending: assumes R: "good R" shows "keeps lp (dispatchPendingEvents h R ctx env)"
  unfolding dispatchPendingEvents_def by (intro keep_intros keeps_watchers R goodD [OF R]) simp_all

section \<open>Select\<close>

abbreviation whens_ok :: "bool \<Rightarrow> whenCase list \<Rightarrow> bool" where
  "whens_ok lp \<equiv> list_all (\<lambda>w. fits lp (when_body w))"

abbreviation cases_ok :: "bool \<Rightarrow> SelectCase list \<Rightarrow> bool" where
  "cases_ok lp \<equiv> list_all (\<lambda>c. fits lp (opt_body (case_body c)))"

lemma cases_okb: "cases_ok lp cs \<Longrightarrow> list_all (\<lambda>c. list_all okb (opt_body (case_body c))) cs"
  "cases_ok lp cs \<Longrightarrow> list_all (\<lambda>c. list_all closed (opt_body (case_body c))) cs \<or> lp \<or> sp"
  by (auto simp: fits_def list_all_iff)

lemma whens_okb: "whens_ok lp ws \<Longrightarrow> list_all (\<lambda>w. list_all okb (when_body w)) ws"
  by (auto simp: fits_def list_all_iff)

lemma keeps_states:
  assumes R: "good R"
  shows "cases_ok lp cs \<Longrightarrow> keepsQ lp (when_states R ctx env i cs) (whens_ok lp)"
proof (induction cs arbitrary: i)
  case (Cons c cs)
  have IH: "keepsQ lp (when_states R ctx env i cs) (whens_ok lp)" for i using Cons by simp
  show ?case
  proof (cases c)
    case (SelectWhenCase p q b)
    have "fits lp (opt_body b)" using Cons.prems by (simp add: SelectWhenCase)
    then show ?thesis unfolding SelectWhenCase when_states.simps
      by (intro keeps_seq [OF keeps_seed [OF R]] keeps_bnd [OF IH] keeps_ret) simp
  qed (simp_all add: IH)
qed (simp add: keeps_ret)

lemma keeps_precheck:
  assumes R: "good R"
  shows "whens_ok lp ws \<Longrightarrow>
    keepsQ lp (precheck h R ctx env ws) (\<lambda>(hit, ws'). (\<forall>b. hit = Some b \<longrightarrow> fits lp (opt_body b)) \<and> whens_ok lp ws')"
proof (induction ws)
  case (Cons w ws)
  obtain i p q b v where w: "w = WhenCase i p q b v" by (cases w)
  have b: "fits lp (opt_body b)" "whens_ok lp ws" using Cons.prems by (simp_all add: w)
  show ?case unfolding w precheck.simps
    by (intro keeps_seq [OF keeps_evalPanic [OF R]] keeps_if keeps_ret keeps_bnd [OF Cons.IH [OF b(2)]] keeps_prod)
      (use b in auto)
qed (simp add: keeps_ret)

lemma keeps_poll:
  assumes R: "good R"
  shows "whens_ok True ws \<Longrightarrow> keepsQ lp (poll_whens h R ctx env ws) (\<lambda>(j, ws'). whens_ok True ws')"
proof (induction ws)
  case (Cons w ws)
  obtain i p q b v where w: "w = WhenCase i p q b v" by (cases w)
  have b: "fits True (opt_body b)" "whens_ok True ws" using Cons.prems by (simp_all add: w)
  show ?case unfolding w poll_whens.simps
    by (intro keeps_seq [OF keeps_evalPanic [OF R]] keeps_ret keeps_bnd [OF Cons.IH [OF b(2)]] keeps_prod)
      (use b in auto)
qed (simp add: keeps_ret)

lemma keeps_bind_names [keep_intros]: "keeps lp (bind_names e xs args)"
  by (induction xs arbitrary: args) (auto intro!: keep_intros)

lemma keeps_onch [keep_intros]: "keeps lp (modify (\<lambda>s. s\<lparr>i_onch := f s\<rparr>))"
  by (rule keeps_modify) (simp add: code_ok_def rel_onch)

lemma keeps_wake [keep_intros]:
  "keepsQ lp a Q \<Longrightarrow> keepsQ lp b Q \<Longrightarrow> keepsQ lp c Q \<Longrightarrow> keepsQ lp (case_wake a b c k) Q"
  by (cases k) auto

lemma keeps_select_wait [keep_intros]: "keeps lp (select_wait h ctx n)"
  unfolding select_wait_def cancelled_select_def by (intro keep_intros TrueI)

lemma winner_body_ok: "cases_ok lp cs \<Longrightarrow> fits lp (winner_body cs i)"
  by (auto simp: winner_body_def list_all_length opt_body_def)

lemma keeps_select_step:
  assumes R: "good R" and c: "cases_ok lp cs" and w: "whens_ok True ws"
  shows "keeps lp (select_step h R ctx n cs ws env start)"
proof -
  have 1: "keeps lp (bnd (Child env) (\<lambda>e. bnd (bind_names e ps args) (\<lambda>_. R (ExecBlock ctx (winner_body cs i) e))))"
    for ps args i
    by (intro keep_intros keeps_block_task R winner_body_ok [OF c])
  have 2: "keeps lp (bnd (dispatch R True ctx) (\<lambda>_. bnd (select_wait h ctx n) (\<lambda>_. R (SelectLoop ctx n cs ws' env start))))"
    if "whens_ok True ws'" for ws'
    by (intro keep_intros keeps_dispatch R goodD [OF R]) (use cases_okb [OF c] whens_okb [OF that] in auto)
  show ?thesis unfolding select_step_def cancelled_select_def
    by (intro keeps_if keeps_seq [OF keeps_ctx_err] keeps_throws keeps_seq [OF keeps_gets_any] keeps_seq [OF keeps_onch]
         keeps_bnd [OF keeps_poll [OF R w]] keeps_prod keeps_seq [OF keeps_world_any] keeps_option 1 2) simp
qed

lemma select_listeners_own: "list_all (\<lambda>l. e_select l = n) (select_listeners n cs)"
  by (auto simp: select_listeners_def list_all_iff split: SelectCase.splits)

lemma keeps_listening:
  assumes m: "\<And>n. keeps lp (m n)"
  shows "keeps lp (bnd (gets i_next) (\<lambda>n.
         bnd (modify (\<lambda>s. s\<lparr>i_next := Suc n, i_listeners := i_listeners s @ select_listeners n cs,
                            i_onch := (i_onch s)(n := [])\<rparr>)) (\<lambda>_.
         deferring (m n) (removeListeners n))))"
proof (rule keepsI)
  fix s s' :: "'w istate" and r
  let ?n = "i_next s"
  let ?t = "s\<lparr>i_next := Suc ?n, i_listeners := i_listeners s @ select_listeners ?n cs, i_onch := (i_onch s)(?n := [])\<rparr>"
  assume s: "code_ok h okb gp sp s" "bnd (gets i_next) (\<lambda>n.
         bnd (modify (\<lambda>s. s\<lparr>i_next := Suc n, i_listeners := i_listeners s @ select_listeners n cs,
                            i_onch := (i_onch s)(n := [])\<rparr>)) (\<lambda>_.
         deferring (m n) (removeListeners n))) s = Some (r, s')"
  then obtain t where t: "m ?n ?t = Some (r, t)" "s' = removeListeners ?n t"
    by (auto simp: bnd_def gets_def modify_def deferring_def handle_def split: option.splits)
  have "code_ok h okb gp sp ?t" using s(1) by (simp add: code_ok_def)
  from keepsD [OF m this t(1)] show "code_ok h okb gp sp s' \<and> Rel s s' \<and> tame lp (\<lambda>_. True) r"
    using rel_select [OF select_listeners_own] t(2) by (auto simp: code_ok_def removeListeners_def)
qed

lemma keeps_select:
  assumes R: "good R" and c: "cases_ok lp cs"
  shows "keeps lp (execSelect h R ctx cs env)"
proof -
  have 1: "keeps lp (bnd (world (h_now h)) (\<lambda>start. R (SelectLoop ctx n cs ws env start)))" if "whens_ok lp ws" for ws n
    by (intro keep_intros goodD [OF R]) (use cases_okb [OF c] whens_okb [OF that] in auto)
  show ?thesis unfolding execSelect_def select_body_def
    by (intro keeps_bnd [OF keeps_states [OF R c]] keeps_bnd [OF keeps_precheck [OF R]] keeps_prod keeps_option
         keeps_child_block R keeps_listening 1) (auto simp: opt_body_def)
qed

section \<open>Procedures\<close>

lemma keeps_params: assumes R: "good R" shows "keeps lp (bindParams R e ps args)"
proof (induction ps arbitrary: args)
  case (Cons p ps)
  show ?case by (cases p) (simp only: bindParams.simps, intro keep_intros Cons goodD [OF R]; simp)
qed (simp add: keeps_ret)

lemma keeps_root [keep_intros]: "keeps lp (root_env h fi)"
  unfolding root_env_def by (intro keep_intros TrueI)

definition result_ok :: "result \<Rightarrow> bool" where
  "result_ok r = (case r of Errored e \<Rightarrow> mild gp sp e | _ \<Rightarrow> True)"

lemma result_of_ok: "tame False Q r \<Longrightarrow> result_ok (result_of r)"
  unfolding result_ok_def by (cases r rule: result_of.cases) simp_all

lemma keeps_body:
  assumes R: "good R" and b: "fits False b"
  shows "keepsQ lp (execBody h R ctx b env) result_ok"
proof -
  have "keepsQ lp (bnd (ctx_err h ctx) (\<lambda>c.
          if c then ret Canceled else handle (R (ExecBlock ctx b env)) (\<lambda>r. ret (result_of r)))) result_ok"
    by (intro keeps_seq [OF keeps_ctx_err] keeps_if keeps_ret keeps_handleQ [OF keeps_block_task [OF R b]] result_of_ok)
      (simp_all add: result_ok_def)
  then show ?thesis unfolding execBody_def
    by (rule keeps_bnd) (intro keeps_seq [OF keeps_drainDeferred [OF R]] keeps_ret)
qed

lemma keeps_result [keep_intros]:
  "keepsQ lp a Q \<Longrightarrow> (\<And>v. r = Returned v \<Longrightarrow> keepsQ lp (b v) Q) \<Longrightarrow> (\<And>v. r = Aborted v \<Longrightarrow> keepsQ lp (c v) Q) \<Longrightarrow>
   (\<And>e. r = Errored e \<Longrightarrow> keepsQ lp (d e) Q) \<Longrightarrow> keepsQ lp e Q \<Longrightarrow> keepsQ lp (case_result a b c d e r) Q"
  by (cases r) auto

lemma keeps_proc:
  assumes R: "good R" and b: "fits False (proc_body p)"
  shows "keeps lp (proc_call h R fi p args)"
proof (cases p)
  case (ProcDecl n ps b)
  have "fits False b" using b by (simp add: ProcDecl)
  then show ?thesis unfolding ProcDecl proc_call.simps
    by (intro keeps_enter keeps_seq [OF keeps_root] keeps_seq [OF keeps_params [OF R]] keeps_bnd [OF keeps_body [OF R]]
         keeps_result keeps_ret keeps_fail keeps_throws keeps_failing)
      (auto simp: result_ok_def)
qed

lemma keeps_callable:
  assumes R: "good R" and f: "Callable h f \<or> gp"
  shows "keeps lp (callable_call h R f args named)"
proof (cases "\<exists>a n fi i. f = VRef a (ProcCallable n fi i)")
  case True
  then obtain a n fi i where p: "f = VRef a (ProcCallable n fi i)" by blast
  have 1: "keepsQ lp (gets (\<lambda>s. procs_of s fi)) (list_all (\<lambda>p. fits False (proc_body p)))"
    by (rule keeps_gets) (auto simp: procs_of_def code_ok_def fits_def list_all_length)
  show ?thesis unfolding p callable_call_def val.case obj.case
    by (rule keeps_bnd [OF 1], intro keep_intros keeps_proc R) (auto simp: list_all_length)
next
  case False
  then have np: "\<And>a n fi i. f \<noteq> VRef a (ProcCallable n fi i)" by blast
  then have "callable_call h R f args named = call_value h R f args named"
    by (simp add: callable_call_def split: val.split obj.split)
  then show ?thesis using keeps_call_value [OF R f np] by simp
qed

section \<open>Statements and the run\<close>

lemma keeps_stmt:
  assumes R: "good R" and st: "okb st" "closed st \<or> lp \<or> sp"
  shows "keeps lp (execStmt h R ctx st env)"
proof (cases "st = NilExprStmt")
  case True
  have "keeps lp (throw GoPanic)" by (rule keeps_throw) (use ok_nil st True in simp)
  then show ?thesis by (simp add: execStmt_def True)
next
  case False
  note b = ok_sub [OF st(1)]
  have "keeps lp (exec_stmt h R ctx st env)"
  proof (cases st)
    case (Block bl)
    have "fits lp bl" using b st(2) by (simp add: Block fits_def)
    then show ?thesis by (simp add: exec_stmt_def Block keeps_child_block [OF R])
  next
    case (IfStmt c b es el)
    then show ?thesis using keeps_if_stmt [OF R, of c b es el] st by (simp add: exec_stmt_def)
  next
    case (WhileStmt c bl)
    have "list_all okb bl" using b by (simp add: WhileStmt)
    then have "keeps lp (R (WhileLoop ctx c bl env))" by (intro goodD [OF R]) simp_all
    then show ?thesis by (simp add: exec_stmt_def WhileStmt)
  next
    case (TryStmt bl x r)
    have "fits lp bl" "fits lp r" using b st(2) by (auto simp: TryStmt fits_def)
    then show ?thesis by (simp add: exec_stmt_def TryStmt keeps_try [OF R])
  next
    case (WhenStmt p q bl)
    have "fits False bl" using b ok_when [of p q bl] st(1) by (auto simp: WhenStmt fits_def)
    then show ?thesis by (simp add: exec_stmt_def WhenStmt keeps_when [OF R])
  next
    case (SelectStmt cs)
    have "list_all (\<lambda>c. list_all closed (opt_body (case_body c))) cs \<or> lp \<or> sp"
      using st(2) by (auto simp: SelectStmt closed_case)
    then have "cases_ok lp cs" using b by (auto simp: SelectStmt fits_def list_all_iff)
    then show ?thesis using keeps_select [OF R] by (simp add: exec_stmt_def SelectStmt)
  next
    case BreakStmt
    have "keeps lp (throw BreakSignal)" by (rule keeps_throw) (use st(2) BreakStmt in simp)
    then show ?thesis by (simp add: exec_stmt_def BreakStmt)
  next
    case ContinueStmt
    have "keeps lp (throw ContinueSignal)" by (rule keeps_throw) (use st(2) ContinueStmt in simp)
    then show ?thesis by (simp add: exec_stmt_def ContinueStmt)
  next
    case (RequireBlock es)
    show ?thesis unfolding RequireBlock exec_stmt_def stmt.case
      by (rule keeps_throw) (use ok_require [of es] st(1) RequireBlock in simp)
  qed (use b False in \<open>simp_all add: exec_stmt_def keep_intros keeps_evalPanic R keeps_for
         keeps_execRepeat keeps_execWait keeps_push goodD\<close>)
  then show ?thesis unfolding execStmt_def using False by (simp add: keeps_seq [OF keeps_chargeOp])
qed

lemma keeps_resume: assumes R: "good R" shows "keeps lp (bnd (world (h_resume h a)) (host_reply h R))"
proof -
  have "keepsQ lp (world (h_resume h a)) (answer_ok h gp sp)"
    by (rule keeps_world) (rule host_answer)
  then show ?thesis by (rule keeps_bnd) (rule keeps_reply [OF R])
qed

lemma good_step: assumes R: "good R" shows "good (step h R)"
  unfolding good_def
proof (intro allI impI)
  fix t lp
  assume t: "task_ok h okb gp t" and lp: "loopy t \<longrightarrow> lp \<or> sp"
  show "keeps lp (step h R t)"
  proof (cases t)
    case (Exec ctx st env)
    have "okb st" "closed st \<or> lp \<or> sp" using t lp Exec by auto
    then show ?thesis by (simp add: Exec step_def keeps_stmt R)
  next
    case (ExecBlock ctx b env)
    then have "fits lp b" using t lp by (auto simp: fits_def)
    then show ?thesis by (simp add: ExecBlock step_def keeps_exec_block R)
  next
    case (SelectLoop ctx n cs ws env st)
    then have "cases_ok lp cs" "whens_ok True ws" using t lp by (auto simp: fits_def list_all_iff)
    then show ?thesis by (simp add: SelectLoop step_def keeps_select_step R)
  qed (use t lp in \<open>auto simp: step_def keeps_evalSafe keeps_callable keeps_resume keeps_stmt
        keeps_while keeps_range keeps_repeat keeps_wait keeps_drain keeps_pending R\<close>)
qed

lemma run_good: "good (run h n)"
proof (induction n)
  case 0
  show ?case by (simp add: good_def keepsQ_def)
next
  case (Suc n)
  then show ?case by (simp add: good_step)
qed

lemma run_keeps:
  assumes "task_ok h okb gp t" "code_ok h okb gp sp s" "run h n t s = Some (r, s')"
  shows "code_ok h okb gp sp s'" "Rel s s'" "tame (loopy t) (\<lambda>_. True) r"
  using keepsD [OF goodD [OF run_good assms(1)] assms(2,3), of "loopy t"] by simp_all

end

end
