(* ===== verification/DslRoutine.thy ===== *)
theory DslRoutine
  imports DslKeepRun
begin

text \<open>
  The run of a whole routine in the locale of \<open>DslKeeps\<close>, for a relation that holds of all states: registering
  handlers and procedures replaces what evaluations leave alone.
\<close>

fun bounds_ok :: "(stmt \<Rightarrow> bool) \<Rightarrow> BoundsDecl \<Rightarrow> bool" where
  "bounds_ok okb (BoundsDecl e hs ps bs) =
     (list_all (\<lambda>hr. list_all okb (handler_body hr)) hs \<and> list_all (bounds_ok okb) bs)"

text \<open>The code of a file and its routine.\<close>

definition parts_ok :: "(stmt \<Rightarrow> bool) \<Rightarrow> bool \<Rightarrow> routine_file \<Rightarrow> routine \<Rightarrow> bool" where
  "parts_ok okb sp f r \<longleftrightarrow>
     list_all (\<lambda>hr. list_all okb (handler_body hr)) (f_Handlers f @ r_Handlers r)
   \<and> list_all (\<lambda>p. list_all okb (proc_body p) \<and> (list_all closed (proc_body p) \<or> sp)) (f_Procs f)
   \<and> list_all (bounds_ok okb) (f_Bounds f)
   \<and> list_all okb (r_Body r) \<and> (list_all closed (r_Body r) \<or> sp)"

locale interp_runs = interp_keeps +
  assumes rel_all: "Rel s t"
begin

lemma keeps_update: "(\<And>s. code_ok h okb gp sp s \<Longrightarrow> code_ok h okb gp sp (f s)) \<Longrightarrow> keeps lp (modify f)"
  by (rule keeps_modify) (simp add: rel_all)

lemma keeps_registerBounded:
  assumes "list_all (\<lambda>hr. list_all okb (handler_body hr)) hs"
  shows "keeps lp (registerBoundedHandlers hs fs)"
proof -
  let ?add = "\<lambda>hd bs. case hd of OnHandler n ps b \<Rightarrow> bs(n := bs n @ [\<lparr>b_Handler = hd, b_Filters = fs\<rparr>])"
  have "\<forall>ev. list_all (\<lambda>b. list_all okb (handler_body (b_Handler b))) (fold ?add hs bs ev)"
    if "\<forall>ev. list_all (\<lambda>b. list_all okb (handler_body (b_Handler b))) (bs ev)" for bs
    using assms that
  proof (induction hs arbitrary: bs)
    case (Cons hr hs)
    obtain n ps b where hr: "hr = OnHandler n ps b" by (cases hr)
    then show ?case using Cons by simp
  qed simp
  then show ?thesis unfolding registerBoundedHandlers_def
    by (intro keeps_update) (simp add: code_ok_def)
qed

lemma keeps_bounds: "bounds_ok okb b \<Longrightarrow> keeps lp (registerBoundsDecl h n ctx fs b)"
proof (induction b arbitrary: fs)
  case (BoundsDecl e hs ps bs)
  have hs: "list_all (\<lambda>hr. list_all okb (handler_body hr)) hs" using BoundsDecl.prems by simp
  have sub: "keeps lp (each (registerBoundsDecl h n ctx fs') bs)" for fs'
    by (rule keeps_each, rule BoundsDecl.IH) (use BoundsDecl.prems in \<open>auto simp: list_all_iff\<close>)
  have "keeps lp (handle (run h n (Eval ctx e env)) (\<lambda>r. case r of
       Ret (VRef a (Region k)) \<Rightarrow>
         bnd (registerBoundedHandlers hs (fs @ [HostRegion k])) (\<lambda>_.
         bnd (each (registerBoundsDecl h n ctx (fs @ [HostRegion k])) bs) (\<lambda>_. ret ()))
     | _ \<Rightarrow> registerBoundedHandlers hs (fs @ [NeverMatch])))" for env
    by (rule keeps_handle, rule goodD [OF run_good])
      (auto intro!: keeps_seq [OF keeps_registerBounded [OF hs]] keeps_seq [OF sub] keeps_ret
         keeps_registerBounded [OF hs] split: outcome.split val.split obj.split)
  moreover have "keeps lp (case re of Some env \<Rightarrow> ret env | None \<Rightarrow> NewEnv)" for re
    by (intro keeps_option keeps_ret keeps_NewEnv TrueI)
  ultimately show ?case unfolding registerBoundsDecl.simps
    by (intro keeps_seq [OF keeps_gets_any]) (rule keeps_seq)
qed

lemma keeps_registerHandlers:
  assumes p: "parts_ok okb sp f r"
  shows "keeps lp (registerHandlers h n ctx f r)"
proof -
  let ?hs = "f_Handlers f @ r_Handlers r"
  have "list_all (\<lambda>hr. list_all okb (handler_body hr)) (filter (\<lambda>hd. handler_event hd = ev) ?hs)" for ev
    using p by (auto simp: parts_ok_def list_all_iff)
  then have 1: "keeps lp (modify (\<lambda>s. s\<lparr>i_handlers := (\<lambda>ev. filter (\<lambda>hd. handler_event hd = ev) ?hs),
                        i_bounded := (\<lambda>ev. [])\<rparr>))"
    by (intro keeps_update) (simp add: code_ok_def)
  have 2: "keeps lp (each (registerBoundsDecl h n ctx []) (f_Bounds f))"
    by (rule keeps_each, rule keeps_bounds) (use p in \<open>auto simp: parts_ok_def list_all_iff\<close>)
  show ?thesis unfolding registerHandlers_def
    by (intro keeps_seq [OF 1] keeps_seq [OF 2] keeps_ret TrueI)
qed

definition opt_ok :: "result option \<Rightarrow> bool" where
  "opt_ok x \<longleftrightarrow> (\<forall>r. x = Some r \<longrightarrow> result_ok r)"

lemma opt_oks: "opt_ok None" "opt_ok (Some (Aborted v))" "tame lp Q (Fail e) \<Longrightarrow> opt_ok (Some (Errored e))"
  by (simp_all add: opt_ok_def result_ok_def)

lemma error_ok: "tame lp Q (Fail e) \<Longrightarrow> result_ok (Errored e)"
  by (simp add: result_ok_def)

lemma opt_okD: "opt_ok (Some r) \<Longrightarrow> result_ok r"
  by (simp add: opt_ok_def)

lemma keeps_require: "keepsQ lp (check_require h n ctx env cs) opt_ok"
proof (induction cs)
  case (Cons c cs)
  have throw: "keepsQ lp (throw g) opt_ok" if "tame lp (\<lambda>_. True) (Throw g)" for g
    by (rule keeps_throw, rule clean_throw, rule that)
  have err: "keepsQ lp (ret (Some (Errored e))) opt_ok" if "tame lp (\<lambda>_. True) (Fail e)" for e
    by (rule keeps_ret, rule opt_oks(3), rule that)
  show ?case unfolding check_require.simps
    by (rule keeps_handle, rule goodD [OF run_good], simp, simp, rule keeps_case_outcome)
      (simp_all only: throw err, intro keep_intros Cons opt_oks)
qed (simp add: keeps_ret opt_oks)

lemma keeps_run_decl:
  assumes p: "parts_ok okb sp f r"
  shows "keepsQ lp (run_decl h n f r args) result_ok"
proof -
  have 1: "keeps lp (modify (\<lambda>s. s\<lparr>i_files := i_files s @ [f_Procs f]\<rparr>))"
    by (intro keeps_update) (use p in \<open>simp add: code_ok_def parts_ok_def\<close>)
  have 2: "keeps lp (modify (\<lambda>s. s\<lparr>i_routineEnv := x\<rparr>))" for x
    by (intro keeps_update) (simp add: code_ok_def)
  have 3: "keepsQ lp (execBody h (run h n) True (r_Body r) env) result_ok" for env
    by (rule keeps_body [OF run_good]) (use p in \<open>simp add: parts_ok_def fits_def\<close>)
  have throw: "keepsQ lp (throw g) result_ok" if "tame lp (\<lambda>_. True) (Throw g)" for g
    by (rule keeps_throw, rule clean_throw, rule that)
  have err: "keepsQ lp (ret (Errored e)) result_ok" if "tame lp (\<lambda>_. True) (Fail e)" for e
    by (rule keeps_ret, rule error_ok, rule that)
  have 4: "keepsQ lp (handle (bindParams (run h n) env (r_Params r) args) (\<lambda>b. case b of
       Throw g \<Rightarrow> throw g
     | Fail e \<Rightarrow> ret (Errored e)
     | Ret u \<Rightarrow>
         bnd (check_require h n True env (case r_Require r of None \<Rightarrow> [] | Some cs \<Rightarrow> cs)) (\<lambda>req.
         case req of
           Some res \<Rightarrow> ret res
         | None \<Rightarrow> execBody h (run h n) True (r_Body r) env))) result_ok" for env
    by (rule keeps_handle, rule keeps_params [OF run_good], rule keeps_case_outcome)
      (simp_all only: throw err, intro keeps_bnd [OF keeps_require] keeps_option keeps_ret 3, simp add: opt_okD)
  show ?thesis unfolding run_decl_def
    by (intro keeps_seq [OF keeps_registerHandlers [OF p]] keeps_seq [OF keeps_gets_any]
         keeps_seq [OF 1] keeps_seq [OF keeps_root] keeps_seq [OF 2] 4)
qed

lemma keeps_RunRoutine:
  assumes p: "\<And>r'. r = Some r' \<Longrightarrow> parts_ok okb sp f r'"
  shows "keepsQ lp (RunRoutine h n f r args) result_ok"
proof (cases r)
  case None
  have "keepsQ lp (ret (Errored (RtErr ''no routine in file'' []))) result_ok"
    by (rule keeps_ret) (simp add: result_ok_def)
  then show ?thesis by (simp add: RunRoutine_def None)
next
  case (Some r')
  have close: "keeps lp (modify (\<lambda>s. s\<lparr>i_budget := None, i_routineEnv := None\<rparr>))"
    by (intro keeps_update) (simp add: code_ok_def)
  have 1: "keepsQ lp (deferring (run_decl h n f r' args) (\<lambda>s. s\<lparr>i_budget := None, i_routineEnv := None\<rparr>)) result_ok"
    unfolding deferring_def
    by (rule keeps_handleQ [OF keeps_run_decl [OF p [OF Some]]])
      (rule keepsI, auto simp: code_ok_def rel_all)
  have 2: "keeps lp (modify (\<lambda>s. s\<lparr>i_budget := Some b\<rparr>))" for b
    by (intro keeps_update) (simp add: code_ok_def)
  show ?thesis unfolding RunRoutine_def Some option.case runDecl_def newBudget_def
    by (intro keeps_seq [OF keeps_seq [OF keeps_world_any keeps_ret]] keeps_seq [OF 2] 1 TrueI)
qed

end

end
