(* ===== verification/DslValidated.thy ===== *)
theory DslValidated
  imports DslValidate DslRoutine
begin

text \<open>
  What a report without errors says of the code: jumps stay inside loops. What it does not say: a \<open>require\<close> below
  the top level passes, and so does a watcher inside a loop that leaves it.
\<close>

abbreviation clear :: "diag list \<Rightarrow> bool" where
  "clear ds \<equiv> list_all (\<lambda>d. \<not> is_error d) ds"

lemma clear_err_if [simp]: "clear (err_if c m xs) = (\<not> c)"
  by (simp add: err_if_def)

lemma clear_vseq [simp]: "clear (fst (vseq r f)) = (clear (fst r) \<and> clear (fst (f (snd r))))"
  by (simp add: vseq_def split: prod.split)

lemma clear_in_scope [simp]: "clear (fst (in_scope xs sc f)) = clear (fst (f (xs # sc)))"
  by (simp add: in_scope_def)

lemma clear_concat: "clear (concat (map f xs)) = list_all (\<lambda>x. clear (f x)) xs"
  by (induction xs) auto

lemma checked_closed:
  "clear (fst (checkStmt pr ctx sc st)) \<Longrightarrow> \<not> inLoop ctx \<Longrightarrow> closed st"
  "clear (fst (checkBlock pr ctx sc b)) \<Longrightarrow> \<not> inLoop ctx \<Longrightarrow> list_all closed b"
  "clear (fst (check_elifs pr ctx sc es)) \<Longrightarrow> \<not> inLoop ctx \<Longrightarrow> list_all (\<lambda>e. list_all closed (elif_body e)) es"
  "clear (fst (check_opt pr ctx sc ob)) \<Longrightarrow> \<not> inLoop ctx \<Longrightarrow> list_all closed (opt_body ob)"
  "clear (fst (check_cases pr ctx sc cs)) \<Longrightarrow> \<not> inLoop ctx \<Longrightarrow>
     list_all (\<lambda>c. list_all closed (opt_body (case_body c))) cs"
proof (induction pr ctx sc st and pr ctx sc b and pr ctx sc es and pr ctx sc ob and pr ctx sc cs
    rule: checkStmt_checkBlock_check_elifs_check_opt_check_cases.induct)
  case (5 pr ctx sc c b es el)
  then show ?case by (auto simp: closed_elif opt_body_def split: option.splits)
next
  case (18 pr ctx sc cs)
  then show ?case by (cases "cs = []") (auto simp: closed_case)
qed (auto simp: opt_body_def)

section \<open>Tidy code\<close>

text \<open>No \<open>require\<close>, and no watcher that leaves a loop.\<close>

fun tidy :: "stmt \<Rightarrow> bool" where
  "tidy (RequireBlock es) = False"
| "tidy (WhenStmt p q b) = (list_all closed b \<and> list_all tidy b)"
| "tidy (Block b) = list_all tidy b"
| "tidy (IfStmt c b es el) =
     (list_all tidy b \<and> list_all (\<lambda>e. case e of ElifClause c b \<Rightarrow> list_all tidy b) es
      \<and> (case el of None \<Rightarrow> True | Some b \<Rightarrow> list_all tidy b))"
| "tidy (WhileStmt c b) = list_all tidy b"
| "tidy (ForStmt x e b) = list_all tidy b"
| "tidy (RepeatUntilStmt b c t) = list_all tidy b"
| "tidy (TryStmt b x r) = (list_all tidy b \<and> list_all tidy r)"
| "tidy (SelectStmt cs) =
     list_all (\<lambda>c. case c of
        SelectWhenCase p q ob \<Rightarrow> (case ob of None \<Rightarrow> True | Some b \<Rightarrow> list_all tidy b)
      | SelectOnCase e ps b \<Rightarrow> list_all tidy b
      | SelectTimeoutCase ms b \<Rightarrow> list_all tidy b) cs"
| "tidy st = True"

lemma tidy_elif: "case_elif (\<lambda>c. list_all tidy) e = list_all tidy (elif_body e)"
  by (cases e) simp

lemma tidy_case:
  "case_SelectCase (\<lambda>p q. case_option True (list_all tidy)) (\<lambda>e ps. list_all tidy) (\<lambda>ms. list_all tidy) c
   = list_all tidy (opt_body (case_body c))"
  by (cases c) (simp_all add: opt_body_def split: option.split)

lemma tidy_sub: "tidy st \<Longrightarrow> list_all tidy (substmts st)"
proof (cases st)
  case (IfStmt c b es el)
  assume "tidy st"
  then have "\<forall>e\<in>set es. list_all tidy (elif_body e)" by (auto simp: IfStmt list_all_iff [of _ es] tidy_elif)
  then show ?thesis using \<open>tidy st\<close> by (auto simp: IfStmt opt_body_def list_all_iff split: option.splits)
next
  case (SelectStmt cs)
  assume "tidy st"
  then have "\<forall>c\<in>set cs. list_all tidy (opt_body (case_body c))" by (auto simp: SelectStmt list_all_iff [of _ cs] tidy_case)
  then show ?thesis by (auto simp: SelectStmt list_all_iff)
qed simp_all

definition tidy_file :: "routine_file \<Rightarrow> bool" where
  "tidy_file f \<longleftrightarrow>
     list_all (\<lambda>hr. list_all tidy (handler_body hr)) (f_Handlers f)
   \<and> list_all (\<lambda>p. list_all tidy (proc_body p)) (f_Procs f)
   \<and> list_all (bounds_ok tidy) (f_Bounds f)
   \<and> (case f_Routine f of None \<Rightarrow> True | Some r \<Rightarrow> list_all tidy (r_Body (hoist r)))"

text \<open>A host whose errors are its own: none of those that the validator rules out.\<close>

definition own_errors :: "'w host \<Rightarrow> bool" where
  "own_errors h \<longleftrightarrow> answers h True False"

interpretation strict: interp_runs h "\<lambda>s s'. True" tidy True "\<not> own_errors h"
  for h :: "'w host"
proof unfold_locales
  show "answers h True (\<not> own_errors h)"
    by (cases "own_errors h") (auto simp: own_errors_def answers_def answer_ok_def mild_top split: hostres.split)
qed (auto intro: tidy_sub)

lemma validated_parts:
  assumes v: "Validate f = Inr (Some r)" and t: "tidy_file f"
  shows "parts_ok tidy sp f r"
proof -
  obtain d pr where i: "index_procs (f_Procs f) Map.empty = (d, pr)" by fastforce
  obtain rd where rd: "f_Routine f = Some rd" "r = hoist rd"
    using v by (auto simp: Validate_def Let_def split: if_splits)
  have c: "clear (validator_run f)"
    using v by (auto simp: Validate_def Let_def filter_empty_conv list_all_iff split: if_splits)
  then have ps: "list_all (\<lambda>p. clear (validateProc pr p)) (f_Procs f)" and rt: "clear (validateRoutine pr (hoist rd))"
    by (simp_all add: validator_run_def i rd clear_concat)
  have "list_all closed (proc_body p)" if "clear (validateProc pr p)" for p
    using that checked_closed(2) by (cases p) (auto simp: no_context_def)
  moreover have "list_all closed (r_Body (hoist rd))"
    using rt checked_closed(2) by (auto simp: validateRoutine_def no_context_def split: prod.splits)
  moreover have "r_Handlers (hoist rd) = []" by (cases rd rule: hoist.cases) simp_all
  ultimately show ?thesis using t ps by (auto simp: parts_ok_def tidy_file_def rd list_all_iff)
qed

section \<open>Reports without a crash\<close>

text \<open>Of a complete tree no check panics.\<close>

abbreviation uncrashed :: "diag list \<Rightarrow> bool" where
  "uncrashed ds \<equiv> list_all (\<lambda>d. d \<noteq> Crash) ds"

lemma uncrashed_err_if [simp]: "uncrashed (err_if c m xs)"
  by (simp add: err_if_def)

lemma uncrashed_vseq [simp]: "uncrashed (fst (vseq r f)) = (uncrashed (fst r) \<and> uncrashed (fst (f (snd r))))"
  by (simp add: vseq_def split: prod.split)

lemma uncrashed_in_scope [simp]: "uncrashed (fst (in_scope xs sc f)) = uncrashed (fst (f (xs # sc)))"
  by (simp add: in_scope_def)

lemma uncrashed_concat: "(\<And>x. x \<in> set xs \<Longrightarrow> uncrashed (f x)) \<Longrightarrow> uncrashed (concat (map f xs))"
  by (induction xs) auto

lemma uncrashed_format [simp]: "uncrashed (checkFormatCall as)"
proof -
  have "uncrashed (concat (map (\<lambda>a. case a of Arg n e \<Rightarrow> err_if (n \<noteq> []) m []) as))" for m
    by (rule uncrashed_concat) (simp split: arg.split)
  moreover have "uncrashed (map (\<lambda>x. Warn m [x]) xs)" for m xs
    by (simp add: list_all_iff)
  ultimately show ?thesis by (simp add: checkFormatCall_def Let_def split: list.split expr.split)
qed

lemma uncrashed_calls [simp]:
  "uncrashed (checkBuiltinArity n x b)" "uncrashed (action_errors ctx x b)" "uncrashed (resolveIdent pr sc x)"
  "uncrashed (event_errors m m' ev n)" "uncrashed (checkWhen_context ctx)" "uncrashed (checkSelect_context ctx)"
  by (simp_all add: checkBuiltinArity_def action_errors_def resolveIdent_def event_errors_def checkWhen_context_def
      checkSelect_context_def split: option.split)

lemma uncrashed_arity [simp]: "uncrashed (checkProcArity n p)"
  by (cases p) (simp add: Let_def)

lemma uncrashed_named [simp]: "uncrashed (check_named_call pr ctx sc x as)"
proof -
  obtain base b where u: "unbang x = (base, b)" by fastforce
  show ?thesis
    by (cases "pr x"; cases "ByName x"; cases b; cases "ByName base") (simp_all add: check_named_call_def u)
qed

lemma uncrashed_expr [simp]: "uncrashed (checkExpr pr ctx sc e)" "uncrashed (check_arg pr ctx sc a)"
  by (induction pr ctx sc e and pr ctx sc a rule: checkExpr_check_arg.induct)
    (auto intro!: uncrashed_concat split: expr.split)

lemma uncrashed_safe [simp]: "uncrashed (checkSubscriptionSafe w e)" "uncrashed (subscription_arg w a)"
  by (induction w e and w a rule: checkSubscriptionSafe_subscription_arg.induct)
    (auto intro!: uncrashed_concat simp: Let_def split: expr.split option.split)

lemma uncrashed_stmt:
  "complete_stmt st \<Longrightarrow> uncrashed (fst (checkStmt pr ctx sc st))"
  "list_all complete_stmt b \<Longrightarrow> uncrashed (fst (checkBlock pr ctx sc b))"
  "list_all complete_elif es \<Longrightarrow> uncrashed (fst (check_elifs pr ctx sc es))"
  "(case ob of None \<Rightarrow> True | Some b \<Rightarrow> list_all complete_stmt b) \<Longrightarrow> uncrashed (fst (check_opt pr ctx sc ob))"
  "list_all complete_case cs \<Longrightarrow> uncrashed (fst (check_cases pr ctx sc cs))"
proof (induction pr ctx sc st and pr ctx sc b and pr ctx sc es and pr ctx sc ob and pr ctx sc cs
    rule: checkStmt_checkBlock_check_elifs_check_opt_check_cases.induct)
  case (18 pr ctx sc cs)
  then show ?case by (cases "cs = []") auto
qed (auto split: option.splits)

lemma uncrashed_params: "uncrashed (fst (bind_params pr sc ps))"
  by (induction pr sc ps rule: bind_params.induct) auto

lemma uncrashed_proc: "complete_proc p \<Longrightarrow> uncrashed (validateProc pr p)"
  by (cases p) (simp add: complete_decl_def uncrashed_params uncrashed_stmt)

lemma uncrashed_handler: "complete_handler hr \<Longrightarrow> uncrashed (validateHandler pr up hr)"
  by (cases hr) (simp add: complete_decl_def uncrashed_params uncrashed_stmt)

lemma uncrashed_bounds: "complete_bounds b \<Longrightarrow> uncrashed (validateBounds pr b)"
proof (induction b)
  case (BoundsDecl e hs ps bs)
  then show ?case by (auto intro!: uncrashed_concat uncrashed_handler simp: list_all_iff [of _ hs] list_all_iff [of _ bs])
qed

lemma uncrashed_index: "uncrashed (fst (index_procs ps pr))"
  by (induction ps pr rule: index_procs.induct) (simp_all add: split_def Let_def)

lemma uncrashed_routine:
  assumes "complete_routine rd"
  shows "uncrashed (validateRoutine pr (hoist rd))"
proof -
  have b: "list_all complete_stmt (r_Body (hoist rd))" and h: "r_Handlers (hoist rd) = []"
    using assms by (cases rd rule: hoist.cases; simp add: complete_decl_def)+
  obtain d sc where p: "bind_params pr [[]] (r_Params (hoist rd)) = (d, sc)" by fastforce
  then have "uncrashed d" using uncrashed_params [of pr "[[]]" "r_Params (hoist rd)"] by simp
  then show ?thesis using b h p uncrashed_stmt(2)
    by (auto simp: validateRoutine_def intro!: uncrashed_concat)
qed

lemma complete_uncrashed:
  assumes "complete_file f"
  shows "uncrashed (validator_run f)"
proof -
  obtain d pr where i: "index_procs (f_Procs f) Map.empty = (d, pr)" by fastforce
  then have "uncrashed d" using uncrashed_index [of "f_Procs f" Map.empty] by simp
  then show ?thesis using assms
    by (auto simp: validator_run_def i complete_file_def list_all_iff [of _ "f_Procs f"] list_all_iff [of _ "f_Handlers f"]
        list_all_iff [of _ "f_Bounds f"] intro!: uncrashed_concat uncrashed_proc uncrashed_handler uncrashed_bounds
        uncrashed_routine split: option.splits)
qed

end
