(* ===== verification/DslFuel.thy ===== *)
theory DslFuel
  imports DslRun
begin

text \<open>
  The fuel of \<open>run\<close> does not change what it returns: more fuel gives the same outcome and state. \<open>below m m'\<close>
  says that \<open>m'\<close> returns whatever \<open>m\<close> returns; every operation preserves it in the runner it is given.
\<close>

definition below :: "('a, 'w) act \<Rightarrow> ('a, 'w) act \<Rightarrow> bool" where
  "below m m' \<longleftrightarrow> (\<forall>s. m s = None \<or> m s = m' s)"

definition rbelow :: "'w runner \<Rightarrow> 'w runner \<Rightarrow> bool" where
  "rbelow R R' \<longleftrightarrow> (\<forall>t. below (R t) (R' t))"

named_theorems mono_intros \<open>monotone in the runner\<close>

lemma below_refl [simp, mono_intros]: "below m m"
  by (simp add: below_def)

lemma belowD: "below m m' \<Longrightarrow> m s = Some x \<Longrightarrow> m' s = Some x"
  unfolding below_def by (elim allE [of _ s]) simp

lemma belowI: "(\<And>s x. m s = Some x \<Longrightarrow> m' s = Some x) \<Longrightarrow> below m m'"
  unfolding below_def
proof
  fix s
  assume "\<And>s x. m s = Some x \<Longrightarrow> m' s = Some x"
  then show "m s = None \<or> m s = m' s" by (cases "m s") simp_all
qed

lemma rbelowD: "rbelow R R' \<Longrightarrow> below (R t) (R' t)"
  by (simp add: rbelow_def)

lemma below_bnd [mono_intros]: "below m m' \<Longrightarrow> (\<And>x. below (f x) (f' x)) \<Longrightarrow> below (bnd m f) (bnd m' f')"
  unfolding below_def
proof
  fix s
  assume m: "\<forall>s. m s = None \<or> m s = m' s" and f: "\<And>x. \<forall>s. f x s = None \<or> f x s = f' x s"
  show "bnd m f s = None \<or> bnd m f s = bnd m' f' s"
    using m [rule_format, of s] f by (cases "m s") (auto simp: bnd_def split: option.split outcome.split)
qed

lemma below_handle [mono_intros]:
  "below m m' \<Longrightarrow> (\<And>r. below (f r) (f' r)) \<Longrightarrow> below (handle m f) (handle m' f')"
  unfolding below_def
proof
  fix s
  assume m: "\<forall>s. m s = None \<or> m s = m' s" and f: "\<And>r. \<forall>s. f r s = None \<or> f r s = f' r s"
  show "handle m f s = None \<or> handle m f s = handle m' f' s"
    using m [rule_format, of s] f by (cases "m s") (auto simp: handle_def split: option.split)
qed

lemma below_deferring [mono_intros]: "below m m' \<Longrightarrow> below (deferring m g) (deferring m' g)"
  by (simp add: deferring_def mono_intros)

lemma below_panicking [mono_intros]: "below m m' \<Longrightarrow> below (panicking m) (panicking m')"
  by (simp add: panicking_def mono_intros)

lemma below_each [mono_intros]: "(\<And>x. below (f x) (f' x)) \<Longrightarrow> below (each f xs) (each f' xs)"
  by (induction xs) (auto intro!: mono_intros)

lemma below_if [mono_intros]:
  "(c \<Longrightarrow> below a a') \<Longrightarrow> (\<not> c \<Longrightarrow> below b b') \<Longrightarrow> below (if c then a else b) (if c then a' else b')"
  by simp

lemma below_let [mono_intros]: "(\<And>x. below (f x) (f' x)) \<Longrightarrow> below (let x = e in f x) (let x = e in f' x)"
  by simp

lemma below_case_prod [mono_intros]:
  "(\<And>a b. below (f a b) (f' a b)) \<Longrightarrow> below (case p of (a, b) \<Rightarrow> f a b) (case p of (a, b) \<Rightarrow> f' a b)"
  by (cases p) simp

lemma below_case_option [mono_intros]:
  "below a a' \<Longrightarrow> (\<And>x. below (f x) (f' x)) \<Longrightarrow>
   below (case v of None \<Rightarrow> a | Some x \<Rightarrow> f x) (case v of None \<Rightarrow> a' | Some x \<Rightarrow> f' x)"
  by (cases v) auto

lemma below_case_list [mono_intros]:
  "below a a' \<Longrightarrow> (\<And>x xs. below (f x xs) (f' x xs)) \<Longrightarrow>
   below (case v of [] \<Rightarrow> a | x # xs \<Rightarrow> f x xs) (case v of [] \<Rightarrow> a' | x # xs \<Rightarrow> f' x xs)"
  by (cases v) auto

lemma below_case_outcome [mono_intros]:
  "(\<And>x. below (f x) (f' x)) \<Longrightarrow> (\<And>e. below (g e) (g' e)) \<Longrightarrow> (\<And>s. below (k s) (k' s)) \<Longrightarrow>
   below (case v of Ret x \<Rightarrow> f x | Fail e \<Rightarrow> g e | Throw s \<Rightarrow> k s)
         (case v of Ret x \<Rightarrow> f' x | Fail e \<Rightarrow> g' e | Throw s \<Rightarrow> k' s)"
  by (cases v) auto

section \<open>Expressions\<close>

lemma mono_reply [mono_intros]: assumes r: "rbelow R R'" shows "below (host_reply h R a) (host_reply h R' a)"
  by (cases a) (auto intro!: mono_intros rbelowD [OF r] r)

lemma mono_builtin [mono_intros]: assumes r: "rbelow R R'" shows "below (builtin_call h R b args named) (builtin_call h R' b args named)"
  by (induction b) (auto intro!: mono_intros rbelowD [OF r] r)

lemma mono_filter [mono_intros]: assumes r: "rbelow R R'" shows "below (filter_items h R f xs) (filter_items h R' f xs)"
  by (induction xs) (auto intro!: mono_intros rbelowD [OF r] r)

lemma mono_find [mono_intros]: assumes r: "rbelow R R'" shows "below (find_item h R f xs) (find_item h R' f xs)"
  by (induction xs) (auto intro!: mono_intros rbelowD [OF r] r)

lemma mono_args [mono_intros]: assumes r: "rbelow R R'" shows "below (eval_args R ctx env as) (eval_args R' ctx env as)"
  by (induction as) (rename_tac [2] a w, case_tac [2] a, auto intro!: mono_intros rbelowD [OF r] r)

lemma mono_fstring [mono_intros]: assumes r: "rbelow R R'" shows "below (evalFString h R ctx env sb ps) (evalFString h R' ctx env sb ps)"
  by (induction ps arbitrary: sb) (auto intro!: mono_intros rbelowD [OF r] r)

lemma mono_lambda [mono_intros]: assumes r: "rbelow R R'" shows "below (lambda_call R env p b args) (lambda_call R' env p b args)"
  by (auto simp: lambda_call_def intro!: mono_intros rbelowD [OF r] r)

lemma mono_lists [mono_intros]:
  assumes r: "rbelow R R'"
  shows "below (list_filter h R xs args) (list_filter h R' xs args)"
    "below (list_map h R xs args) (list_map h R' xs args)"
    "below (list_find h R xs args) (list_find h R' xs args)"
  by (auto simp: list_filter_def list_map_def list_find_def intro!: mono_intros rbelowD [OF r] r)

lemma mono_call_value [mono_intros]: assumes r: "rbelow R R'" shows "below (call_value h R f args named) (call_value h R' f args named)"
  by (cases "(h, R, f, args, named)" rule: call_value.cases) (auto intro!: mono_intros rbelowD [OF r] r)

lemma mono_dispatch [mono_intros]: assumes r: "rbelow R R'" shows "below (dispatch R y ctx) (dispatch R' y ctx)"
  by (auto simp: dispatch_def intro!: mono_intros rbelowD [OF r] r)

lemma mono_callee [mono_intros]: assumes r: "rbelow R R'" shows "below (evalCallee h R ctx e env) (evalCallee h R' ctx e env)"
  by (auto simp: evalCallee_def intro!: mono_intros rbelowD [OF r] r)

lemma below_case_bool [mono_intros]:
  "below a a' \<Longrightarrow> below b b' \<Longrightarrow> below (case c of True \<Rightarrow> a | False \<Rightarrow> b) (case c of True \<Rightarrow> a' | False \<Rightarrow> b')"
  by (cases c) auto

lemma mono_evalCall [mono_intros]: assumes r: "rbelow R R'" shows "below (evalCall h R ctx f as env) (evalCall h R' ctx f as env)"
  unfolding evalCall_def by (intro mono_intros rbelowD [OF r] r)

lemma mono_binary [mono_intros]: assumes r: "rbelow R R'" shows "below (evalBinary h R ctx op l r env) (evalBinary h R' ctx op l r env)"
  unfolding evalBinary_def by (intro mono_intros rbelowD [OF r] r)

lemma mono_evalSafe [mono_intros]: assumes r: "rbelow R R'" shows "below (evalSafe h R ctx e env) (evalSafe h R' ctx e env)"
  unfolding evalSafe_def eval_expr_def by (cases e) (auto intro!: mono_intros rbelowD [OF r] r)

section \<open>Statements\<close>

lemma mono_evalPanic [mono_intros]: assumes r: "rbelow R R'" shows "below (evalPanic R ctx e env) (evalPanic R' ctx e env)"
  unfolding evalPanic_def by (intro mono_intros rbelowD [OF r] r)

lemma mono_child_block [mono_intros]: assumes r: "rbelow R R'" shows "below (child_block R ctx b env) (child_block R' ctx b env)"
  unfolding child_block_def by (intro mono_intros rbelowD [OF r] r)

lemma mono_block [mono_intros]: assumes r: "rbelow R R'" shows "below (exec_block h R ctx b env) (exec_block h R' ctx b env)"
  unfolding exec_block_def by (intro mono_intros rbelowD [OF r] r)

lemma below_case_signal [mono_intros]:
  "below a a' \<Longrightarrow> below b b' \<Longrightarrow> (\<And>x. below (c x) (c' x)) \<Longrightarrow> (\<And>x. below (d x) (d' x)) \<Longrightarrow>
   (\<And>x. below (e x) (e' x)) \<Longrightarrow> below f f' \<Longrightarrow>
   below (case_signal a b c d e f g) (case_signal a' b' c' d' e' f' g)"
  by (cases g) auto

lemma mono_loop_body [mono_intros]: assumes r: "rbelow R R'" shows "below (execLoopBody R ctx b env) (execLoopBody R' ctx b env)"
  unfolding execLoopBody_def by (intro mono_intros rbelowD [OF r] r)

lemma mono_elifs [mono_intros]: assumes r: "rbelow R R'" shows "below (exec_elifs h R ctx es el env) (exec_elifs h R' ctx es el env)"
  by (induction es) (rename_tac [2] c w, case_tac [2] c, auto intro!: mono_intros rbelowD [OF r] r)

lemma mono_if [mono_intros]: assumes r: "rbelow R R'" shows "below (execIf h R ctx c b es el env) (execIf h R' ctx c b es el env)"
  unfolding execIf_def by (intro mono_intros rbelowD [OF r] r)

lemma mono_while [mono_intros]: assumes r: "rbelow R R'" shows "below (while_step h R ctx c b env) (while_step h R' ctx c b env)"
  unfolding while_step_def by (intro mono_intros rbelowD [OF r] r)

lemma mono_loop_item [mono_intros]: assumes r: "rbelow R R'" shows "below (loop_item R ctx x v b env) (loop_item R' ctx x v b env)"
  unfolding loop_item_def by (intro mono_intros rbelowD [OF r] r)

lemma mono_for_items [mono_intros]: assumes r: "rbelow R R'" shows "below (for_items h R ctx x vs b env) (for_items h R' ctx x vs b env)"
  by (induction vs) (auto intro!: mono_intros rbelowD [OF r] r)

lemma mono_range [mono_intros]: assumes r: "rbelow R R'" shows "below (range_step h R ctx x v hi b env) (range_step h R' ctx x v hi b env)"
  unfolding range_step_def by (intro mono_intros rbelowD [OF r] r)

lemma below_case_val [mono_intros]:
  "below a a' \<Longrightarrow> (\<And>x. below (b x) (b' x)) \<Longrightarrow> (\<And>x. below (c x) (c' x)) \<Longrightarrow> (\<And>x. below (d x) (d' x)) \<Longrightarrow>
   (\<And>x. below (e x) (e' x)) \<Longrightarrow> (\<And>x y. below (f x y) (f' x y)) \<Longrightarrow>
   below (case_val a b c d e f v) (case_val a' b' c' d' e' f' v)"
  by (cases v) auto

lemma below_case_obj [mono_intros]:
  assumes "\<And>x y. below (a x y) (a' x y)" "\<And>x. below (b x) (b' x)" "\<And>x. below (c x) (c' x)"
    "\<And>x y z. below (d x y z) (d' x y z)" "\<And>x y. below (e x y) (e' x y)" "\<And>x y. below (f x y) (f' x y)"
    "below g g'" "\<And>x. below (i x) (i' x)" "\<And>x. below (j x) (j' x)" "\<And>x. below (k x) (k' x)"
    "\<And>x. below (l x) (l' x)" "\<And>x. below (m x) (m' x)" "\<And>x y z. below (n x y z) (n' x y z)"
    "\<And>x y z. below (p x y z) (p' x y z)" "\<And>x. below (q x) (q' x)" "\<And>x. below (r x) (r' x)"
  shows "below (case_obj a b c d e f g i j k l m n p q r v) (case_obj a' b' c' d' e' f' g' i' j' k' l' m' n' p' q' r' v)"
  using assms by (cases v) auto

lemma mono_for [mono_intros]: assumes r: "rbelow R R'" shows "below (execFor h R ctx x e b env) (execFor h R' ctx x e b env)"
  unfolding execFor_def by (intro mono_intros rbelowD [OF r] r)

lemma mono_repeat [mono_intros]: assumes r: "rbelow R R'" shows "below (repeat_step h R ctx b c env dl) (repeat_step h R' ctx b c env dl)"
  unfolding repeat_step_def by (intro mono_intros rbelowD [OF r] r)

lemma mono_execRepeat [mono_intros]: assumes r: "rbelow R R'" shows "below (execRepeatUntil h R ctx b c t env) (execRepeatUntil h R' ctx b c t env)"
  unfolding execRepeatUntil_def by (intro mono_intros rbelowD [OF r] r)

lemma mono_wait [mono_intros]: assumes r: "rbelow R R'" shows "below (wait_step h R ctx rem) (wait_step h R' ctx rem)"
  unfolding wait_step_def by (intro mono_intros rbelowD [OF r] r)

lemma mono_execWait [mono_intros]: assumes r: "rbelow R R'" shows "below (execWait h R ctx e env) (execWait h R' ctx e env)"
  unfolding execWait_def by (intro mono_intros rbelowD [OF r] r)

lemma mono_defer [mono_intros]: assumes r: "rbelow R R'" shows "below (pushDefer h R ctx e env) (pushDefer h R' ctx e env)"
  unfolding pushDefer_def by (cases e) (simp_all, intro mono_intros rbelowD [OF r] r)

lemma mono_drain_deferred [mono_intros]: assumes r: "rbelow R R'" shows "below (drainDeferred R) (drainDeferred R')"
  unfolding drainDeferred_def by (intro mono_intros rbelowD [OF r] r)

lemma mono_try [mono_intros]: assumes r: "rbelow R R'" shows "below (execTry R ctx b x r env) (execTry R' ctx b x r env)"
  unfolding execTry_def by (intro mono_intros rbelowD [OF r] r)

lemma mono_fire [mono_intros]: assumes r: "rbelow R R'" shows "below (fire_watcher h R ctx i) (fire_watcher h R' ctx i)"
  unfolding fire_watcher_def by (intro mono_intros rbelowD [OF r] r)

lemma mono_sweep [mono_intros]: assumes r: "rbelow R R'" shows "below (sweep h R ctx is) (sweep h R' ctx is)"
  by (induction "is") (auto intro!: mono_intros rbelowD [OF r] r)

lemma mono_watchers [mono_intros]: assumes r: "rbelow R R'" shows "below (evalWatchersOnce h R ctx) (evalWatchersOnce h R' ctx)"
  unfolding evalWatchersOnce_def by (intro mono_intros rbelowD [OF r] r)

lemma mono_seed [mono_intros]: assumes r: "rbelow R R'" shows "below (seed R ctx q p env) (seed R' ctx q p env)"
  unfolding seed_def by (cases q) (simp_all add: mono_intros rbelowD [OF r] r)

lemma mono_when [mono_intros]: assumes r: "rbelow R R'" shows "below (execWhen h R ctx p q b env) (execWhen h R' ctx p q b env)"
  unfolding execWhen_def by (intro mono_intros rbelowD [OF r] r)

section \<open>Events, select, procedures\<close>

lemma mono_handler [mono_intros]: assumes r: "rbelow R R'" shows "below (runHandler R ctx hr env args) (runHandler R' ctx hr env args)"
  by (cases hr) (auto intro!: mono_intros rbelowD [OF r] r)

lemma mono_event [mono_intros]: assumes r: "rbelow R R'" shows "below (one_event h R ctx env n args) (one_event h R' ctx env n args)"
  unfolding one_event_def by (intro mono_intros rbelowD [OF r] r)

lemma mono_drain [mono_intros]: assumes r: "rbelow R R'" shows "below (drain_step h R ctx env) (drain_step h R' ctx env)"
  unfolding drain_step_def by (intro mono_intros rbelowD [OF r] r)

lemma mono_pending [mono_intros]: assumes r: "rbelow R R'" shows "below (dispatchPendingEvents h R ctx env) (dispatchPendingEvents h R' ctx env)"
  unfolding dispatchPendingEvents_def by (intro mono_intros rbelowD [OF r] r)

lemma mono_states [mono_intros]: assumes r: "rbelow R R'" shows "below (when_states R ctx env i cs) (when_states R' ctx env i cs)"
  by (induction cs arbitrary: i) (rename_tac [2] c w i, case_tac [2] c, auto intro!: mono_intros rbelowD [OF r] r)

lemma mono_precheck [mono_intros]: assumes r: "rbelow R R'" shows "below (precheck h R ctx env ws) (precheck h R' ctx env ws)"
  by (induction ws) (rename_tac [2] c w, case_tac [2] c, auto intro!: mono_intros rbelowD [OF r] r)

lemma mono_poll [mono_intros]: assumes r: "rbelow R R'" shows "below (poll_whens h R ctx env ws) (poll_whens h R' ctx env ws)"
  by (induction ws) (rename_tac [2] c w, case_tac [2] c, auto intro!: mono_intros rbelowD [OF r] r)

lemma mono_select_step [mono_intros]: assumes r: "rbelow R R'" shows "below (select_step h R ctx n cs ws env st) (select_step h R' ctx n cs ws env st)"
  unfolding select_step_def by (intro mono_intros rbelowD [OF r] r)

lemma mono_select [mono_intros]: assumes r: "rbelow R R'" shows "below (execSelect h R ctx cs env) (execSelect h R' ctx cs env)"
  unfolding execSelect_def select_body_def by (intro mono_intros rbelowD [OF r] r)

lemma mono_params [mono_intros]: assumes r: "rbelow R R'" shows "below (bindParams R e ps args) (bindParams R' e ps args)"
  by (induction ps arbitrary: args) (rename_tac [2] c w args, case_tac [2] c, auto intro!: mono_intros rbelowD [OF r] r split: list.split)

lemma mono_body [mono_intros]: assumes r: "rbelow R R'" shows "below (execBody h R ctx b env) (execBody h R' ctx b env)"
  unfolding execBody_def by (intro mono_intros rbelowD [OF r] r)

lemma mono_proc [mono_intros]: assumes r: "rbelow R R'" shows "below (proc_call h R fi p args) (proc_call h R' fi p args)"
  by (cases p) (simp, intro mono_intros rbelowD [OF r] r)

lemma mono_callable [mono_intros]: assumes r: "rbelow R R'" shows "below (callable_call h R f args named) (callable_call h R' f args named)"
  unfolding callable_call_def by (intro mono_intros rbelowD [OF r] r)

lemma mono_stmt [mono_intros]: assumes r: "rbelow R R'" shows "below (execStmt h R ctx st env) (execStmt h R' ctx st env)"
  unfolding execStmt_def exec_stmt_def by (cases st) (simp_all, (intro mono_intros rbelowD [OF r] r; assumption)+)

lemma mono_step: "rbelow R R' \<Longrightarrow> rbelow (step h R) (step h R')"
  unfolding rbelow_def step_def by (intro allI, rename_tac t, case_tac t) (simp_all add: mono_intros rbelow_def)

section \<open>More fuel\<close>

lemma run_Suc: "rbelow (run h n) (run h (Suc n))"
proof (induction n)
  case 0
  then show ?case by (simp add: rbelow_def below_def)
next
  case (Suc n)
  then show ?case using mono_step [OF Suc] by simp
qed

lemma run_mono: "n \<le> m \<Longrightarrow> rbelow (run h n) (run h m)"
proof (induction m)
  case (Suc m)
  show ?case
  proof (cases "n = Suc m")
    case False
    then have "rbelow (run h n) (run h m)" using Suc by simp
    then show ?thesis using run_Suc [of h m] unfolding rbelow_def
      by (meson belowD belowI)
  qed (simp add: rbelow_def)
qed (simp add: rbelow_def)

lemma run_more: "run h n t s = Some x \<Longrightarrow> n \<le> m \<Longrightarrow> run h m t s = Some x"
  using run_mono [of n m h] by (meson belowD rbelow_def)

end
