(* ===== verification/DslRestore.thy ===== *)
theory DslRestore
  imports DslKeepRun
begin

text \<open>
  Every evaluation, however it ends, leaves the state in order: the watcher frames it opened are closed, the
  listeners of its selects are removed, the scopes stay where they are, the budget is only spent.
\<close>

definition spent :: "budget option \<Rightarrow> budget option \<Rightarrow> bool" where
  "spent a b = (case (a, b) of
     (None, None) \<Rightarrow> True
   | (Some x, Some y) \<Rightarrow>
       opsRemaining y \<le> opsRemaining x \<and> deadline y = deadline x \<and> recursionDepth x \<le> recursionDepth y
   | _ \<Rightarrow> False)"

lemma spent_refl [simp]: "spent a a"
  by (simp add: spent_def split: option.split)

lemma spent_trans: "spent a b \<Longrightarrow> spent b c \<Longrightarrow> spent a c"
  by (auto simp: spent_def split: option.splits)

text \<open>The listeners belong to selects that have their number.\<close>

definition fresh :: "'w istate \<Rightarrow> bool" where
  "fresh s \<longleftrightarrow> list_all (\<lambda>l. e_select l < i_next s) (i_listeners s)"

definition restored :: "'w istate \<Rightarrow> 'w istate \<Rightarrow> bool" where
  "restored s s' \<longleftrightarrow>
     length (i_watchers s') = length (i_watchers s) \<and> butlast (i_watchers s') = butlast (i_watchers s)
   \<and> i_next s \<le> i_next s' \<and> (fresh s \<longrightarrow> i_listeners s' = i_listeners s)
   \<and> i_handlers s' = i_handlers s \<and> i_bounded s' = i_bounded s \<and> i_files s' = i_files s
   \<and> i_routineEnv s' = i_routineEnv s \<and> heap_ext (i_heap s) (i_heap s') \<and> spent (i_budget s) (i_budget s')"

lemma fresh_restored: "restored s t \<Longrightarrow> fresh s \<Longrightarrow> fresh t"
  by (auto simp: restored_def fresh_def list_all_iff)

lemma restored_trans: "restored s t \<Longrightarrow> restored t u \<Longrightarrow> restored s u"
  using fresh_restored [of s t] by (auto simp: restored_def intro: heap_ext_trans spent_trans)

lemma restored_exit:
  assumes "i_budget s = Some b"
    and "restored (s\<lparr>i_budget := Some (b\<lparr>recursionDepth := recursionDepth b + 1\<rparr>)\<rparr>) s'"
  shows "restored s (exitCall s')"
proof -
  obtain c where c: "i_budget s' = Some c" "opsRemaining c \<le> opsRemaining b" "deadline c = deadline b"
    "recursionDepth b + 1 \<le> recursionDepth c"
    using assms(2) by (cases "i_budget s'") (auto simp: restored_def spent_def)
  have e: "exitCall s' = s'\<lparr>i_budget := i_budget (exitCall s')\<rparr>" by (simp add: exitCall_def c(1))
  have "spent (Some b) (i_budget (exitCall s'))" using c by (simp add: exitCall_def spent_def)
  then show ?thesis using assms by (subst e) (simp add: restored_def fresh_def)
qed

lemma restored_block: "restored (push_frame s) s' \<Longrightarrow> restored s (pop_frame s')"
  by (simp add: restored_def push_frame_def pop_frame_def fresh_def)

lemma restored_select:
  assumes "list_all (\<lambda>l. e_select l = i_next s) ls"
    and "restored (s\<lparr>i_next := Suc (i_next s), i_listeners := i_listeners s @ ls, i_onch := ch\<rparr>) s'"
  shows "restored s (removeListeners (i_next s) s')"
proof -
  have "filter (\<lambda>l. e_select l \<noteq> i_next s) (i_listeners s @ ls) = i_listeners s" if "fresh s"
    using that assms(1) by (auto simp: fresh_def list_all_iff filter_id_conv filter_empty_conv)
  moreover have "fresh (s\<lparr>i_next := Suc (i_next s), i_listeners := i_listeners s @ ls, i_onch := ch\<rparr>)" if "fresh s"
    using that assms(1) by (auto simp: fresh_def list_all_iff)
  ultimately show ?thesis using assms(2) by (auto simp: restored_def removeListeners_def fresh_def)
qed

interpretation rst: interp_keeps h restored "\<lambda>st. True" True True
  for h :: "'w host"
proof unfold_locales
  fix s s' t u :: "'w istate" and b ls ch
  show "restored s t \<Longrightarrow> restored t u \<Longrightarrow> restored s u" by (rule restored_trans)
  show "i_budget s = Some b \<Longrightarrow>
      restored (s\<lparr>i_budget := Some (b\<lparr>recursionDepth := recursionDepth b + 1\<rparr>)\<rparr>) s' \<Longrightarrow> restored s (exitCall s')"
    by (rule restored_exit)
  show "restored (push_frame s) s' \<Longrightarrow> restored s (pop_frame s')" by (rule restored_block)
  show "list_all (\<lambda>l. e_select l = i_next s) ls \<Longrightarrow>
      restored (s\<lparr>i_next := Suc (i_next s), i_listeners := i_listeners s @ ls, i_onch := ch\<rparr>) s' \<Longrightarrow>
      restored s (removeListeners (i_next s) s')" by (rule restored_select)
  show "answers h True True"
    by (auto simp: answers_def answer_ok_def mild_top split: hostres.split)
qed (auto simp: restored_def spent_def fresh_def exitCall_def list_all_iff split: option.splits)

end
