(* ===== verification/DslSafe.thy ===== *)
theory DslSafe
  imports DslStmtProps DslValidated
begin

text \<open>
  No Go panic. With a host that answers properly and a complete syntax tree, no evaluation panics, and so no
  routine ends in the error that a contained panic is reported as. And a validated file, if its code is tidy, never
  ends in one of the errors that the validator is there to rule out.
\<close>

lemma complete_sub: "complete_stmt st \<Longrightarrow> list_all complete_stmt (substmts st)"
proof (cases st)
  case (IfStmt c b es el)
  assume "complete_stmt st"
  moreover have "complete_elif e \<Longrightarrow> list_all complete_stmt (elif_body e)" for e by (cases e) simp
  ultimately show ?thesis by (auto simp: IfStmt opt_body_def list_all_iff split: option.splits)
next
  case (SelectStmt cs)
  assume "complete_stmt st"
  moreover have "complete_case c \<Longrightarrow> list_all complete_stmt (opt_body (case_body c))" for c
    by (cases c) (auto simp: opt_body_def split: option.splits)
  ultimately show ?thesis by (auto simp: SelectStmt list_all_iff)
qed simp_all

text \<open>A host that never panics, reports no contained panic and calls back only what is callable.\<close>

definition steady_host :: "'w host \<Rightarrow> bool" where
  "steady_host h \<longleftrightarrow> answers h False True"

interpretation safe: interp_runs h "\<lambda>s s'. True" complete_stmt "\<not> steady_host h" True
  for h :: "'w host"
proof unfold_locales
  show "answers h (\<not> steady_host h) True"
    by (cases "steady_host h") (auto simp: steady_host_def answers_def answer_ok_def mild_top split: hostres.split)
qed (auto intro: complete_sub)

text \<open>The outcome of a run that is a panic, or reports one.\<close>

fun panics :: "result outcome \<Rightarrow> bool" where
  "panics (Ret r) = (r = Errored ContainedPanic)"
| "panics (Fail e) = (e = ContainedPanic)"
| "panics (Throw g) = (g = GoPanic \<or> g = Panicked ContainedPanic)"

text \<open>The outcome of a run that the validator should have ruled out.\<close>

fun strays :: "result outcome \<Rightarrow> bool" where
  "strays (Ret r) = (\<exists>m. r = Errored (Unvalidated m))"
| "strays (Fail e) = (\<exists>m. e = Unvalidated m)"
| "strays (Throw g) = (g = BreakSignal \<or> g = ContinueSignal \<or> (\<exists>m. g = Panicked (Unvalidated m)))"

lemma clean_panics: "clean False sp lp (\<lambda>r. \<forall>e. r = Errored e \<longrightarrow> mild False sp e) out \<Longrightarrow> \<not> panics out"
  by (cases out rule: panics.cases) auto

lemma clean_strays: "clean gp False False (\<lambda>r. \<forall>e. r = Errored e \<longrightarrow> mild gp False e) out \<Longrightarrow> \<not> strays out"
  by (cases out rule: strays.cases) auto

lemma complete_handler_body: "complete_handler hr \<Longrightarrow> list_all complete_stmt (handler_body hr)"
  by (cases hr) (simp add: complete_decl_def)

lemma complete_proc_body: "complete_proc p \<Longrightarrow> list_all complete_stmt (proc_body p)"
  by (cases p) (simp add: complete_decl_def)

lemma complete_bounds_ok: "complete_bounds b \<Longrightarrow> bounds_ok complete_stmt b"
proof (induction b)
  case (BoundsDecl e hs ps bs)
  then show ?case by (auto simp: list_all_iff dest!: complete_handler_body)
qed

lemma complete_hoist: "complete_routine rd \<Longrightarrow> list_all complete_stmt (r_Body (hoist rd)) \<and> r_Handlers (hoist rd) = []"
  by (cases rd rule: hoist.cases) (simp_all add: complete_decl_def)

lemma complete_parts:
  assumes "complete_file f" "f_Routine f = Some rd"
  shows "parts_ok complete_stmt True f (hoist rd)"
  using assms complete_hoist [of rd]
  by (auto simp: complete_file_def parts_ok_def list_all_iff
      dest!: complete_handler_body [unfolded list_all_iff] complete_proc_body [unfolded list_all_iff] complete_bounds_ok)

lemma validated_hoist: "Validate f = Inr r \<Longrightarrow> r = map_option hoist (f_Routine f)"
  by (auto simp: Validate_def Let_def split: if_splits)

lemma fresh_code [simp]: "code_ok h okb gp sp (new_interp w)"
  by (simp add: code_ok_def new_interp_def)

text \<open>A run leaves the interpreter ready for the next one.\<close>

lemma complete_run:
  assumes f: "complete_file f" and r: "Validate f = Inr r" and h: "steady_host h"
    and s: "code_ok h complete_stmt False True s" and run: "RunRoutine h n f r args s = Some (out, s')"
  shows "\<not> panics out" "code_ok h complete_stmt False True s'"
proof -
  have p: "parts_ok complete_stmt True f r'" if "r = Some r'" for r'
    using complete_parts [OF f] validated_hoist [OF r] that by (cases "f_Routine f") auto
  have "interp_keeps.keepsQ h (\<lambda>s s'. True) complete_stmt (\<not> steady_host h) True False (RunRoutine h n f r args)
      (\<lambda>x. \<forall>e. x = Errored e \<longrightarrow> mild (\<not> steady_host h) True e)"
    by (rule safe.keeps_weaken [OF safe.keeps_RunRoutine [OF p]]) (auto simp: safe.result_ok_def)
  from safe.keepsD [OF this, of s out s'] s run h
  have "code_ok h complete_stmt False True s'
      \<and> clean False True False (\<lambda>x. \<forall>e. x = Errored e \<longrightarrow> mild False True e) out" by simp
  then show "\<not> panics out" "code_ok h complete_stmt False True s'" using clean_panics by blast+
qed

lemma tidy_run:
  assumes r: "Validate f = Inr r" and t: "tidy_file f" and h: "own_errors h"
    and s: "code_ok h tidy True False s" and run: "RunRoutine h n f r args s = Some (out, s')"
  shows "\<not> strays out" "code_ok h tidy True False s'"
proof -
  have p: "parts_ok tidy (\<not> own_errors h) f r'" if "r = Some r'" for r'
    using validated_parts [OF _ t] r that by simp
  have "interp_keeps.keepsQ h (\<lambda>s s'. True) tidy True (\<not> own_errors h) False (RunRoutine h n f r args)
      (\<lambda>x. \<forall>e. x = Errored e \<longrightarrow> mild True (\<not> own_errors h) e)"
    by (rule strict.keeps_weaken [OF strict.keeps_RunRoutine [OF p]]) (auto simp: strict.result_ok_def)
  from strict.keepsD [OF this, of s out s'] s run h
  have "code_ok h tidy True False s'
      \<and> clean True False False (\<lambda>x. \<forall>e. x = Errored e \<longrightarrow> mild True False e) out" by simp
  then show "\<not> strays out" "code_ok h tidy True False s'" using clean_strays by blast+
qed

end
