(* ===== verification/DslRunProps.thy ===== *)
theory DslRunProps
  imports DslRestore DslSafe DslFuel
begin

text \<open>The properties of routine runs, and what single runs of the model show of the code.\<close>

section \<open>A host for concrete runs\<close>

text \<open>
  The only function, \<open>note\<close>, appends its arguments to the world; after \<open>k\<close> of them the routine is cancelled. Floats are a parameter that these runs do not use.
\<close>

definition demo_floats :: floats where
  "demo_floats = \<lparr>f_of_int = word_of_int, f_add = (+), f_sub = (-), f_mul = (*), f_div = (\<lambda>a b. a div b),
     f_mod = (\<lambda>a b. a mod b), f_neg = uminus, f_lt = (<), f_le = (\<le>), f_eq = (=), f_show = (\<lambda>f. []), f_nanos = uint\<rparr>"

definition demo_host :: "caps \<Rightarrow> nat \<Rightarrow> val list list host" where
  "demo_host c k = \<lparr>h_fp = demo_floats, h_lower = id, h_upper = id, h_caps = c,
     h_builtins = (\<lambda>x. if x = lit ''note'' then Some (HostFn 0) else None), h_reserved = [],
     h_call = (\<lambda>n args named w. (HRet VNull, w @ [args])), h_resume = (\<lambda>a w. (HRet VNull, w)),
     h_yields = (\<lambda>n. True), h_callable = (\<lambda>n. False), h_nulllike = (\<lambda>n. False), h_kind = (\<lambda>n. []),
     h_display = (\<lambda>n w. []), h_getter = (\<lambda>n. False), h_get = (\<lambda>n x w. None), h_indexer = (\<lambda>n. False),
     h_index = (\<lambda>n i w. None), h_region = (\<lambda>n x y. False), h_reachable = None,
     h_cancelled = (\<lambda>w. (k \<le> length w, w)), h_now = (\<lambda>w. (0, w)), h_poll = (\<lambda>w. (None, w)), h_float64 = (\<lambda>w. (0, w)),
     h_intn = (\<lambda>n w. (0, w)), h_boundary = id, h_wake = (\<lambda>b w. (WakeTimer, w))\<rparr>"

lemma demo_answers: "answers (demo_host c k) False False"
  by (simp add: answers_def answer_ok_def demo_host_def)

lemma demo_steady: "steady_host (demo_host c k)" and demo_own: "own_errors (demo_host c k)"
  by (simp_all add: steady_host_def own_errors_def answers_def answer_ok_def demo_host_def)

lemma demo_sel:
  "h_fp (demo_host c k) = demo_floats" "h_caps (demo_host c k) = c" "h_reserved (demo_host c k) = []"
  "h_builtins (demo_host c k) x = (if x = lit ''note'' then Some (HostFn 0) else None)"
  "h_call (demo_host c k) n args named w = (HRet VNull, w @ [args])" "h_yields (demo_host c k) n = True"
  "h_cancelled (demo_host c k) w = (k \<le> length w, w)" "h_now (demo_host c k) w = (0, w)" "h_poll (demo_host c k) w = (None, w)"
  "h_boundary (demo_host c k) = id"
  by (simp_all add: demo_host_def)

text \<open>The result and the notes of a run.\<close>

definition demo_run :: "caps \<Rightarrow> nat \<Rightarrow> nat \<Rightarrow> routine_file \<Rightarrow> (result outcome \<times> val list list) option" where
  "demo_run c k n f =
     map_option (\<lambda>(r, s). (r, i_world s))
       (RunRoutine (demo_host c k) n f (map_option hoist (f_Routine f)) [] (new_interp []))"

definition routine_only :: "ProcDecl list \<Rightarrow> stmt list \<Rightarrow> routine_file" where
  "routine_only ps b = empty_file\<lparr>f_Procs := ps, f_Routine := Some (RoutineDecl (lit ''a'') [] b)\<rparr>"

abbreviation note_stmt :: "expr \<Rightarrow> stmt" where
  "note_stmt e \<equiv> ExprStmt (CallExpr (Ident (lit ''note'')) [Arg [] e])"

abbreviation call0 :: "string \<Rightarrow> expr" where
  "call0 x \<equiv> CallExpr (Ident (lit x)) []"

text \<open>Rules that evaluate a run from the outside in.\<close>

lemma bnd_lazy: "s = s' \<Longrightarrow> bnd m f s = bnd m f s'" by simp
lemma handle_lazy: "s = s' \<Longrightarrow> handle m f s = handle m f s'" by simp
lemma deferring_lazy: "s = s' \<Longrightarrow> deferring m f s = deferring m f s'" by simp
lemma panicking_lazy: "s = s' \<Longrightarrow> panicking m s = panicking m s'" by simp
lemma each_lazy: "xs = ys \<Longrightarrow> s = s' \<Longrightarrow> each f xs s = each f ys s'" by simp

lemma run_apply: "0 < n \<Longrightarrow> run h n t s = step h (run h (n - 1)) t s"
  by (cases n) simp_all

lemmas lazy = bnd_lazy handle_lazy deferring_lazy panicking_lazy each_lazy

lemma bnd_eval: "bnd m f s = (case m s of None \<Rightarrow> None | Some (Ret x, s') \<Rightarrow> f x s'
   | Some (Fail e, s') \<Rightarrow> Some (Fail e, s') | Some (Throw g, s') \<Rightarrow> Some (Throw g, s'))"
  by (rule bnd_def)

lemmas eval_rules = run_apply bnd_def handle_def deferring_def panicking_def DslHost.ret_def fail_def throw_def gets_def modify_def
  world_def outcome_def step_def evalSafe_def eval_expr_def execStmt_def exec_stmt_def exec_block_def child_block_def
  evalPanic_def evalIdent_def evalCall_def evalCallee_def dispatch_def callable_call_def chargeOp_def enterCall_def
  exitCall_def execBody_def drainDeferred_def pushDefer_def execTry_def new_ref_def NewEnv_def Child_def Define_def
  define_in_def EnvSet_def EnvGet_def env_find.simps push_frame_def pop_frame_def ctx_err_def
  dispatchPendingEvents_def drain_step_def evalWatchersOnce_def activeWatchers_def root_env_def procs_of_def
  RunRoutine_def runDecl_def run_decl_def newBudget_def registerHandlers_def cap_of_def DefaultCaps_def new_interp_def
  lit_def truthy_def

lemmas run_rules = demo_run_def routine_only_def empty_file_def demo_sel eval_rules

section \<open>Deferred calls\<close>

text \<open>A procedure runs the deferred calls of its caller when it ends: the notes come in the order 1, 9, 2.\<close>

lemma proc_runs_callers_defers:
  "demo_run DefaultCaps 9 40 (routine_only [ProcDecl (lit ''helper'') [] [note_stmt (IntLit 1)]]
     [DeferStmt (CallExpr (Ident (lit ''note'')) [Arg [] (IntLit 9)]), ExprStmt (call0 ''helper''), note_stmt (IntLit 2)])
    = Some (Ret Completed, [[VInt 1], [VInt 9], [VInt 2]])"
  by (simp add: run_rules cong: lazy)

section \<open>Cancellation\<close>

lemma cancelled_routine_returns:
  "demo_run DefaultCaps 1 40 (routine_only [] [note_stmt (IntLit 1), note_stmt (IntLit 2)])
    = Some (Ret (Returned (VString (lit ''canceled''))), [[VInt 1]])"
  by (simp add: run_rules cong: lazy)

lemma cancelled_loop_completes:
  "demo_run DefaultCaps 1 40 (routine_only [] [WhileStmt (BoolLit True) [note_stmt (IntLit 1)]])
    = Some (Ret Completed, [[VInt 1]])"
  by (simp add: run_rules while_step_def execLoopBody_def cong: lazy)

section \<open>The recursion cap\<close>

lemma recursion_cap_is_no_abort:
  "demo_run (DefaultCaps\<lparr>MaxRecursion := 2\<rparr>) 9 80 (routine_only [ProcDecl (lit ''f'') [] [ExprStmt (call0 ''f'')]]
     [TryStmt [ExprStmt (call0 ''f'')] (lit ''e'') [note_stmt (IntLit 1)]])
    = Some (Ret (Errored (RtErr ''recursion_depth_exceeded (cap=%d)'' [FormatInt 2])), [])"
  by (simp add: run_rules cong: lazy)

section \<open>What the validator lets through\<close>

lemmas valid_rules = Validate_def validator_run_def validateRoutine_def vseq_def in_scope_def err_if_def
  check_named_call_def resolveIdent_def resolve_def bind_name_def isReservedName_def no_context_def is_require_def
  checkBuiltinArity_def action_errors_def checkWhen_context_def checkSelect_context_def event_errors_def

text \<open>A \<open>require\<close> below the top level: accepted, and an error when it is reached.\<close>

definition nested_require :: routine_file where
  "nested_require = routine_only [] [IfStmt (BoolLit True) [RequireBlock [BoolLit True]] [] None]"

lemma nested_require_accepted: "Validate nested_require = Inr (map_option hoist (f_Routine nested_require))"
  unfolding nested_require_def by code_simp

lemma nested_require_fails:
  "demo_run DefaultCaps 9 40 nested_require
   = Some (Ret (Errored (Unvalidated ''stray require block reached interpreter (validator should have hoisted it)'')), [])"
  by (simp add: run_rules nested_require_def execIf_def cong: lazy)

text \<open>A watcher that leaves a loop, fired inside a procedure: the procedure fails.\<close>

definition leaving_watcher :: routine_file where
  "leaving_watcher = routine_only [ProcDecl (lit ''p'') [] [note_stmt (IntLit 1)]]
     [AssignStmt (lit ''x'') (BoolLit False),
      WhileStmt (BoolLit True)
        [WhenStmt (Ident (lit ''x'')) WhenBecomesTrue [BreakStmt],
         AssignStmt (lit ''x'') (BoolLit True),
         ExprStmt (call0 ''p'')]]"

lemma leaving_watcher_accepted: "Validate leaving_watcher = Inr (map_option hoist (f_Routine leaving_watcher))"
  unfolding leaving_watcher_def by code_simp

lemma leaving_watcher_fails:
  "demo_run DefaultCaps 9 60 leaving_watcher
   = Some (Ret (Errored (Unvalidated ''break outside of loop reached interpreter top level'')), [])"
  by (simp add: run_rules leaving_watcher_def while_step_def execLoopBody_def execWhen_def seed_def registerWatcher_def
      fire_watcher_def watcher_at_def set_last_def edge_def cong: lazy)

text \<open>A name bound in a block is known after it to the validator, and not to the interpreter.\<close>

definition leaked_name :: routine_file where
  "leaked_name = routine_only [] [IfStmt (BoolLit True) [AssignStmt (lit ''x'') (IntLit 1)] [] None, note_stmt (Ident (lit ''x''))]"

lemma leaked_name_accepted: "Validate leaked_name = Inr (map_option hoist (f_Routine leaked_name))"
  unfolding leaked_name_def by code_simp

lemma leaked_name_fails:
  "demo_run DefaultCaps 9 40 leaked_name = Some (Ret (Errored (RtErr ''unbound identifier %q'' [lit ''x''])), [])"
  by (simp add: run_rules leaked_name_def execIf_def cong: lazy)

text \<open>\<open>select\<close> in a handler, an action in the callee of a predicate, a wait in a procedure: accepted.\<close>

lemma select_in_handler_accepted:
  "Validate (empty_file\<lparr>f_Handlers := [OnHandler (lit ''death'') [] [SelectStmt [SelectTimeoutCase 1 []]]]\<rparr>) = Inr None"
  by code_simp

lemma action_in_predicate_accepted:
  "Validate (routine_only [] [WhenStmt (CallExpr (MemberExpr (call0 ''logout'') (lit ''x'')) []) WhenBecomesTrue []])
   = Inr (Some (hoist (RoutineDecl (lit ''a'') []
       [WhenStmt (CallExpr (MemberExpr (call0 ''logout'') (lit ''x'')) []) WhenBecomesTrue []])))"
  by code_simp

lemma wait_until_in_proc_accepted:
  "Validate (empty_file\<lparr>f_Procs := [ProcDecl (lit ''p'') [] [ExprStmt (CallExpr (Ident (lit ''wait_until'')) [Arg [] (LambdaExpr (lit ''t'') (BoolLit True))])]]\<rparr>)
   = Inr None"
  "map_option AllowedInProc (ByName (lit ''wait_until'')) = Some False"
  by code_simp+

lemma waiting_predicate_accepted:
  "map_option SubscriptionSafe (ByName (lit ''wait_for_chat'')) = Some True"
  "map_option SubscriptionSafe (ByName (lit ''forget'')) = Some True"
  by code_simp+

section \<open>Preconditions\<close>

text \<open>An abort in a \<open>require\<close> condition leaves \<open>RunRoutine\<close> as a Go panic.\<close>

lemma digits: "FormatInt 0 = [48]" "FormatInt 1 = [49]"
  by code_simp+

lemma require_lets_panic_out:
  "map_option fst (RunRoutine (demo_host DefaultCaps 9) 40 (routine_only [] [])
      (Some \<lparr>r_Params = [], r_Require = Some [CallExpr (Ident (lit ''format'')) [Arg [] (BinaryExpr K_ADD (StringLit (lit ''{'')) (StringLit (lit ''}'')))]],
             r_Handlers = [], r_Body = []\<rparr>) [] (new_interp []))
   = Some (Throw (AbortSignal (VRef (Own 1) (Error FORMAT_MISMATCH
        (lit ''template has 1 placeholders, got 0 args'') False))))"
  by (simp add: run_rules evalBinary_def binary_op_value_def addValues_def checkStringLen_def call_value.simps
      format_call_def CountFormatPlaceholders_def digits cong: lazy)

section \<open>Events\<close>

text \<open>The last two of the first three arguments are read as a place, whatever they are.\<close>

lemma bank_slot_located:
  "eventLocation [VInt slot, VInt item_id, VInt amount] = Some (item_id, amount)"
  "eventLocation [VInt x, VInt y, VInt dir, VInt n] = Some (y, dir)"
  by (simp_all add: eventLocation_def AsInt_def)

text \<open>The event that wakes a \<open>select\<close> goes behind the one that came after it, which then wins.\<close>

lemma later_event_wins:
  assumes "h_wake h True w = (WakeOn, w')" "o_case f = o_case g" "i_world s = w" "i_onch s n = [f, g]"
  shows "select_wait h ctx n s = Some (Ret (), s\<lparr>i_world := w', i_onch := (i_onch s)(n := [g, f])\<rparr>)"
    and "best_on [g, f] = Some g"
  using assms by (simp_all add: select_wait_def bnd_def gets_def world_def modify_def)

section \<open>An endless loop that is never charged\<close>

text \<open>A loop over a range that ends at the largest integer, with an empty body, on a host that never cancels.\<close>

lemma range_to_max_diverges:
  assumes "v \<le> 2 ^ 63 - 1" "\<forall>w. \<not> fst (h_cancelled h w)"
  shows "run h n (ForRange ctx x v (2 ^ 63 - 1) [] env) s = None"
  using assms(1)
proof (induction n arbitrary: v s)
  case (Suc n)
  have next_le: "int64 (v + 1) \<le> 2 ^ 63 - 1" by (simp add: int64_def)
  have "run h n (ForRange ctx x (int64 (v + 1)) (2 ^ 63 - 1) [] env) t = None" for t
    using Suc.IH next_le by blast
  note IH = this
  have block: "run h n (ExecBlock ctx [] e) t = None \<or> (\<exists>t'. run h n (ExecBlock ctx [] e) t = Some (Ret VNull, t'))" for e t
    by (cases n) (simp_all add: step_def exec_block_def bnd_def modify_def deferring_def handle_def DslHost.ret_def)
  have item: "loop_item (run h n) ctx x (VInt v) [] env s = None
      \<or> (\<exists>t. loop_item (run h n) ctx x (VInt v) [] env s = Some (Ret True, t))" for s
    using block [of "length (i_heap s)"
        "s\<lparr>i_heap := define_in (length (i_heap s)) x (VInt v) (i_heap s @ [(Some env, [])])\<rparr>"]
    by (auto simp: loop_item_def execLoopBody_def Child_def Define_def bnd_def handle_def modify_def DslHost.ret_def)
  obtain t where c: "ctx_err h ctx s = Some (Ret False, t)"
    using assms(2) [THEN spec, of "i_world s"]
    by (cases ctx; cases "h_cancelled h (i_world s)") (auto simp: ctx_err_def DslHost.ret_def world_def)
  show ?case using Suc.prems IH item [of t] by (auto simp: step_def range_step_def bnd_def c split: option.splits)
qed simp

section \<open>Failures as results\<close>

text \<open>Everything but the preconditions and the defaults of parameters runs where a panic becomes a result.\<close>

definition settles :: "('a, 'w) act \<Rightarrow> bool" where
  "settles m \<longleftrightarrow> (\<forall>s r s'. m s = Some (r, s') \<longrightarrow> (\<exists>x. r = Ret x))"

named_theorems settle_intros \<open>operations whose only outcome is a result\<close>

lemma settles_prims [settle_intros]:
  "settles (DslHost.ret x)" "settles (gets f)" "settles (modify g)" "settles (world k)" "settles NewEnv"
  "settles (Define e y v)" "settles (new_ref b)"
  by (simp_all add: settles_def DslHost.ret_def gets_def modify_def world_def NewEnv_def Define_def new_ref_def
      split: prod.split)

lemma settles_bnd [settle_intros]: "settles m \<Longrightarrow> (\<And>x. settles (f x)) \<Longrightarrow> settles (bnd m f)"
  unfolding settles_def
  by (intro allI impI) (auto simp: bnd_def split: option.splits outcome.splits, blast+)

lemma settles_handle [settle_intros]: "(\<And>r. settles (f r)) \<Longrightarrow> settles (handle m f)"
  by (auto simp: settles_def handle_def split: option.splits)

lemma settles_deferring [settle_intros]: "settles m \<Longrightarrow> settles (deferring m g)"
  by (auto simp: settles_def deferring_def handle_def split: option.splits)

lemma settles_each [settle_intros]: "(\<And>x. settles (f x)) \<Longrightarrow> settles (each f xs)"
  by (induction xs) (auto intro!: settle_intros)

lemma settles_if [settle_intros]: "settles a \<Longrightarrow> settles b \<Longrightarrow> settles (if c then a else b)"
  by simp

lemma settles_prod [settle_intros]: "(\<And>a b. settles (f a b)) \<Longrightarrow> settles (case p of (a, b) \<Rightarrow> f a b)"
  by (cases p) simp

lemma settles_option [settle_intros]: "settles a \<Longrightarrow> (\<And>x. settles (f x)) \<Longrightarrow> settles (case v of None \<Rightarrow> a | Some x \<Rightarrow> f x)"
  by (cases v) auto

lemma settles_bounded [settle_intros]: "settles (registerBoundedHandlers hs fs)"
  unfolding registerBoundedHandlers_def by (intro settle_intros)

lemma settles_bounds [settle_intros]: "settles (registerBoundsDecl h n ctx fs b)"
proof (induction b arbitrary: fs)
  case (BoundsDecl e hs ps bs)
  have sub: "settles (each (registerBoundsDecl h n ctx fs') bs)" for fs'
  proof -
    have "(\<forall>b\<in>set xs. settles (registerBoundsDecl h n ctx fs' b)) \<Longrightarrow> settles (each (registerBoundsDecl h n ctx fs') xs)" for xs
      by (induction xs) (auto intro!: settle_intros)
    then show ?thesis using BoundsDecl by blast
  qed
  have "settles (handle (run h n (Eval ctx e env)) (\<lambda>r. case r of
       Ret (VRef a (Region k)) \<Rightarrow>
         bnd (registerBoundedHandlers hs (fs @ [HostRegion k])) (\<lambda>_.
         bnd (each (registerBoundsDecl h n ctx (fs @ [HostRegion k])) bs) (\<lambda>_. DslHost.ret ()))
     | _ \<Rightarrow> registerBoundedHandlers hs (fs @ [NeverMatch])))" for env
    by (rule settles_handle)
      (auto intro!: settles_bnd sub settles_bounded settles_prims split: outcome.split val.split obj.split)
  then show ?case unfolding registerBoundsDecl.simps by (intro settles_bnd settles_option settles_prims)
qed

lemma settles_handlers [settle_intros]: "settles (registerHandlers h n ctx f r)"
  unfolding registerHandlers_def by (intro settle_intros)

lemma settles_root [settle_intros]: "settles (root_env h fi)"
  unfolding root_env_def by (intro settle_intros)

lemma settles_body [settle_intros]: "settles (execBody h R ctx b env)"
  unfolding execBody_def drainDeferred_def ctx_err_def by (intro settle_intros)

text \<open>Binding arguments without defaults can fail, and not panic.\<close>

lemma params_no_throw:
  assumes "list_all (\<lambda>p. \<not> has_default p) ps" "bindParams R e ps args s = Some (Throw g, s')"
  shows False
  using assms
proof (induction ps arbitrary: args s)
  case (Cons p ps)
  then show ?case
    by (cases p) (auto simp: bnd_def Define_def modify_def fail_def split: list.splits option.splits outcome.splits)
qed (simp add: DslHost.ret_def)

lemma settles_run_decl:
  assumes "r_Require r = None" "list_all (\<lambda>p. \<not> has_default p) (r_Params r)"
  shows "settles (run_decl h n f r args)"
proof -
  have "settles (handle (bindParams (run h n) env (r_Params r) args) (\<lambda>b. case b of
       Throw g \<Rightarrow> throw g
     | Fail e \<Rightarrow> DslHost.ret (Errored e)
     | Ret u \<Rightarrow>
         bnd (check_require h n True env (case r_Require r of None \<Rightarrow> [] | Some cs \<Rightarrow> cs)) (\<lambda>req.
         case req of
           Some res \<Rightarrow> DslHost.ret res
         | None \<Rightarrow> execBody h (run h n) True (r_Body r) env)))" (is "settles (handle ?m ?f)") for env
  proof -
    have f: "settles (?f (Ret u))" "settles (?f (Fail e))" for u e
      using assms(1) by (auto intro!: settle_intros)
    show ?thesis unfolding settles_def handle_def
    proof (intro allI impI)
      fix s r' s'
      assume "(case ?m s of None \<Rightarrow> None | Some (b, t) \<Rightarrow> ?f b t) = Some (r', s')"
      then obtain b t where b: "?m s = Some (b, t)" "?f b t = Some (r', s')" by (auto split: option.splits)
      show "\<exists>x. r' = Ret x"
      proof (cases b)
        case (Throw g)
        then show ?thesis using params_no_throw [OF assms(2)] b(1) by blast
      next
        case (Ret u)
        then show ?thesis using f(1) [of u] b(2) unfolding settles_def by blast
      next
        case (Fail e)
        then show ?thesis using f(2) [of e] b(2) unfolding settles_def by blast
      qed
    qed
  qed
  then show ?thesis unfolding run_decl_def by (intro settles_bnd settles_handlers settles_root settles_prims)
qed

section \<open>The properties\<close>

lemma parse_complete: "Parse u pf src = Some (f, None) \<Longrightarrow> complete_file f"
  using parseFile_ret [of "new_parser u src" pf]
  by (auto simp: Parse_def DslParseProps.ret_def first_err_None split: bind_splits)

text \<open>A source, what it parses to, and its run.\<close>

lemma demo_source:
  "Parse \<lparr>uni_letter = \<lambda>r. False, uni_digit = \<lambda>r. False, uni_print = \<lambda>r. True\<rparr> (\<lambda>s. None) (render
        [(K_ROUTINE, lit ''routine''), (K_IDENT, [97]), (K_LPAREN, [40]), (K_RPAREN, [41]), (K_LBRACE, [123]),
         (K_RETURN, lit ''return''), (K_INT, [49]), (K_RBRACE, [125])])
   = Some (routine_only [] [ReturnStmt (IntLit 1)], None)"
proof -
  let ?u = "\<lparr>uni_letter = \<lambda>r. False, uni_digit = \<lambda>r. False, uni_print = \<lambda>r. True\<rparr>"
  let ?ts = "[(K_ROUTINE, lit ''routine''), (K_IDENT, [97]), (K_LPAREN, [40]), (K_RPAREN, [41]), (K_LBRACE, [123]),
         (K_RETURN, lit ''return''), (K_INT, [49]), (K_RBRACE, [125])]"
  have n: "runes [97] = [97]" "encode_rune 97 = [97]" "keyword [97] = None" by code_simp+
  have "ident_text ?u [97]"
    by (simp add: ident_text_def utf8_def n string_of_runes_def word_runes_def valid_rune_def ident_rune_def
        IsLetter_def IsSpace_def)
  then have "new_parser ?u (render ?ts) = (?ts @ [(K_EOF, [])], [])"
    using lex_render [of ?ts ?u]
    by (simp add: new_parser_def wf_tok_def digit_bytes_def lit_def allowed_def after_tok_def opens_def)
  moreover have "map_option (\<lambda>(f, s). (f, first_err s)) (parseFile (\<lambda>s. None) (?ts @ [(K_EOF, [])], []))
      = Some (routine_only [] [ReturnStmt (IntLit 1)], None)"
    by code_simp
  ultimately show ?thesis by (auto simp: Parse_def split: bind_splits)
qed

lemma demo_valid: "Validate (routine_only [] [ReturnStmt (IntLit 1)]) = Inr (Some (hoist (RoutineDecl (lit ''a'') [] [ReturnStmt (IntLit 1)])))"
  by code_simp

lemma demo_runs:
  "\<exists>s'. RunRoutine (demo_host DefaultCaps 9) 20 (routine_only [] [ReturnStmt (IntLit 1)])
      (Some (hoist (RoutineDecl (lit ''a'') [] [ReturnStmt (IntLit 1)]))) [] (new_interp [])
    = Some (Ret (Returned (VInt 1)), s')"
  by (simp add: run_rules cong: lazy)



text \<open>
  C15. A file that \<open>Validate\<close> accepts, with no \<open>require\<close> below the top level and no watcher that leaves a loop, never
  ends in one of the errors that the validator rules out: a \<open>break\<close> or \<open>continue\<close> outside a loop, a stray \<open>require\<close>.
\<close>

theorem validated_routine_stays_in_its_loops:
  assumes "Validate f = Inr r" "tidy_file f" "own_errors h"
    and "RunRoutine h n f r args (new_interp w) = Some (out, s')"
  shows "\<not> strays out"
  using tidy_run(1) [OF assms(1,2,3) fresh_code assms(4)] .

theorem validated_routine_stays_in_its_loops_witness:
  "\<exists>s'. RunRoutine (demo_host DefaultCaps 9) 20 (routine_only [] [ReturnStmt (IntLit 1)])
      (Some (hoist (RoutineDecl (lit ''a'') [] [ReturnStmt (IntLit 1)]))) [] (new_interp [])
    = Some (Ret (Returned (VInt 1)), s') \<and> \<not> strays (Ret (Returned (VInt 1)))"
proof -
  obtain s' where s: "RunRoutine (demo_host DefaultCaps 9) 20 (routine_only [] [ReturnStmt (IntLit 1)])
      (Some (hoist (RoutineDecl (lit ''a'') [] [ReturnStmt (IntLit 1)]))) [] (new_interp [])
    = Some (Ret (Returned (VInt 1)), s')" using demo_runs by blast
  have "tidy_file (routine_only [] [ReturnStmt (IntLit 1)])"
    by (simp add: tidy_file_def routine_only_def empty_file_def)
  from validated_routine_stays_in_its_loops [OF demo_valid this demo_own s] s show ?thesis by blast
qed

text \<open>
  C14. Whatever is evaluated and however it ends, with a value, an error, an abort, a jump or a panic: the watcher frames that were
  opened are closed, the listeners of its selects are removed, the handlers, procedures and the routine scope are
  the same, every scope keeps its place and parent, and the budget has only been spent.
\<close>

theorem evaluation_restores_the_state:
  assumes "run h n t s = Some (r, s')"
  shows "restored s s'"
proof -
  have "task_ok h (\<lambda>st. True) True t" by (cases t) (simp_all add: list_all_iff)
  moreover have "code_ok h (\<lambda>st. True) True True s" by (simp add: code_ok_def list_all_iff)
  ultimately show ?thesis using rst.run_keeps(2) [OF _ _ assms] by blast
qed

theorem evaluation_restores_the_state_witness:
  "\<exists>r s'. run (demo_host DefaultCaps 9) 9 (ExecBlock True [AbortStmt (IntLit 1)] 0) (new_interp []) = Some (r, s')
     \<and> restored (new_interp []) s'"
proof -
  obtain r s' where s: "run (demo_host DefaultCaps 9) 9 (ExecBlock True [AbortStmt (IntLit 1)] 0) (new_interp []) = Some (r, s')"
    by (simp add: run_rules cong: lazy)
  from evaluation_restores_the_state [OF this] s show ?thesis by blast
qed

text \<open>
  C38. A \<open>for\<close> loop with an empty body over a range that ends at the largest integer never returns, whatever the budget,
  unless the host cancels it: its iterations are not charged and its counter wraps.
\<close>

theorem empty_range_loop_never_returns:
  assumes "v \<le> 2 ^ 63 - 1" "\<forall>w. \<not> fst (h_cancelled h w)"
  shows "run h n (ForRange ctx x v (2 ^ 63 - 1) [] env) s = None"
  using range_to_max_diverges [OF assms] .

theorem empty_range_loop_never_returns_witness:
  "run (demo_host DefaultCaps 9\<lparr>h_cancelled := Pair False\<rparr>) 1000 (ForRange True (lit ''x'') 1 (2 ^ 63 - 1) [] 0) (new_interp []) = None"
  by (rule empty_range_loop_never_returns) simp_all

text \<open>
  C37. The validator checks every file that \<open>Parse\<close> returns without an error to the end: no nil node of the tree makes it
  panic and cut the report short.
\<close>

theorem parsed_file_is_validated:
  assumes "Parse u pf src = Some (f, None)"
  shows "Crash \<notin> set (validator_run f)"
  using complete_uncrashed [OF parse_complete [OF assms]] by (auto simp: list_all_iff)

theorem parsed_file_is_validated_witness:
  "\<exists>f. Parse \<lparr>uni_letter = \<lambda>r. False, uni_digit = \<lambda>r. False, uni_print = \<lambda>r. True\<rparr> (\<lambda>s. None) (render
        [(K_ROUTINE, lit ''routine''), (K_IDENT, [97]), (K_LPAREN, [40]), (K_RPAREN, [41]), (K_LBRACE, [123]),
         (K_RETURN, lit ''return''), (K_INT, [49]), (K_RBRACE, [125])]) = Some (f, None)
     \<and> Crash \<notin> set (validator_run f)"
  using parsed_file_is_validated [OF demo_source] demo_source by blast



end
